(* ===== verification/JsPrelude.thy ===== *)
theory JsPrelude
  imports Main "HOL-Library.List_Lexorder"
begin

text \<open>
  The JavaScript values every component shares. A string is the list of its UTF-16 code
  units (natural numbers below 65536), so that emoji, lengths, slices and comparisons are
  the language's own; \<open>js ''abc''\<close> is the literal \<open>'abc'\<close>. JavaScript compares
  strings lexicographically by code unit, which is \<open>\<le>\<close> of \<open>List_Lexorder\<close>.
  The functions here are the standard library operations that \<open>app.js\<close> calls
  (\<open>String(n)\<close>, \<open>padStart\<close>, \<open>split\<close>, \<open>join\<close>, \<open>replace\<close> with a one-character global pattern,
  \<open>trim\<close>, \<open>includes\<close>, \<open>slice\<close>, \<open>Math.round\<close> and \<open>Math.ceil\<close> of a quotient),
  with the lemmas the components need.
\<close>

named_theorems js_defs \<open>definitions to unfold when a closed term is evaluated\<close>

type_synonym jsstring = "nat list"

definition js :: "string \<Rightarrow> jsstring" where
  "js s = map of_char s"

lemma js_Nil [simp]: "js '''' = []"
  by (simp add: js_def)

lemma js_eq_iff [simp]: "js s = js t \<longleftrightarrow> s = t"
  by (simp add: js_def inj_map_eq_map inj_on_def)

lemma js_eq_Nil_iff [simp]: "js s = [] \<longleftrightarrow> s = ''''" "[] = js s \<longleftrightarrow> s = ''''"
  by (auto simp: js_def)

lemma length_js [simp]: "length (js s) = length s"
  by (simp add: js_def)

lemma set_js: "set (js s) = of_char ` set s"
  by (simp add: js_def)

section \<open>Numbers printed and read\<close>

text \<open>\<open>String(n)\<close> of a non-negative and of any integer.\<close>

fun str_of_nat :: "nat \<Rightarrow> jsstring" where
  "str_of_nat n = (if n < 10 then [48 + n] else str_of_nat (n div 10) @ [48 + n mod 10])"

declare str_of_nat.simps [simp del]

definition str_of_int :: "int \<Rightarrow> jsstring" where
  "str_of_int i = (if i < 0 then [45] @ str_of_nat (nat (- i)) else str_of_nat (nat i))"

text \<open>Fixed-width decimal digits, and the value of a list of digits.\<close>

fun digs :: "nat \<Rightarrow> nat \<Rightarrow> jsstring" where
  "digs 0 n = []"
| "digs (Suc k) n = digs k (n div 10) @ [48 + n mod 10]"

definition is_digit :: "nat \<Rightarrow> bool" where
  "is_digit c \<longleftrightarrow> 48 \<le> c \<and> c \<le> 57"

definition digits_val :: "jsstring \<Rightarrow> nat" where
  "digits_val ds = foldl (\<lambda>v c. 10 * v + (c - 48)) 0 ds"

lemma length_digs [simp]: "length (digs k n) = k"
  by (induction k arbitrary: n) auto

lemma digs_are_digits: "c \<in> set (digs k n) \<Longrightarrow> is_digit c"
  by (induction k arbitrary: n) (auto simp: is_digit_def)

lemma digits_val_digs: "digits_val (digs k n) = n mod 10 ^ k"
proof (induction k arbitrary: n)
  case 0
  then show ?case by (simp add: digits_val_def)
next
  case (Suc k)
  have "digits_val (digs (Suc k) n) = 10 * digits_val (digs k (n div 10)) + n mod 10"
    by (simp add: digits_val_def)
  also have "\<dots> = 10 * (n div 10 mod 10 ^ k) + n mod 10"
    by (simp add: Suc.IH)
  also have "\<dots> = n mod 10 ^ Suc k"
    using mod_mult2_eq [of n 10 "10 ^ k"] by (simp add: mult.commute)
  finally show ?case .
qed

lemma str_of_nat_digs: "10 ^ k \<le> n \<Longrightarrow> n < 10 ^ Suc k \<Longrightarrow> str_of_nat n = digs (Suc k) n"
proof (induction k arbitrary: n)
  case 0
  then show ?case by (simp add: str_of_nat.simps)
next
  case (Suc k)
  have nb: "\<not> n < 10"
    using Suc.prems(1) by (simp add: not_less) (metis le_trans le_add1 le_square mult_le_mono2
      nat_mult_1_right one_le_numeral one_le_power)
  have "10 ^ k \<le> n div 10" "n div 10 < 10 ^ Suc k"
    using Suc.prems by (simp_all add: less_eq_div_iff_mult_less_eq div_less_iff_less_mult mult.commute)
  then have "str_of_nat (n div 10) = digs (Suc k) (n div 10)"
    by (rule Suc.IH)
  with nb show ?case by (subst str_of_nat.simps) simp
qed

lemma str_of_nat_neq_Nil [simp]: "str_of_nat n \<noteq> []" "[] \<noteq> str_of_nat n"
  by (subst str_of_nat.simps, simp)+

lemma str_of_nat_are_digits: "c \<in> set (str_of_nat n) \<Longrightarrow> is_digit c"
proof (induction n rule: str_of_nat.induct)
  case (1 n)
  show ?case
  proof (cases "n < 10")
    case True
    with "1.prems" show ?thesis by (simp add: str_of_nat.simps [of n] is_digit_def)
  next
    case False
    with 1 show ?thesis by (auto simp: str_of_nat.simps [of n] is_digit_def)
  qed
qed

lemma digits_val_str: "digits_val (str_of_nat n) = n"
proof (induction n rule: str_of_nat.induct)
  case (1 n)
  show ?case
  proof (cases "n < 10")
    case True
    then show ?thesis by (simp add: str_of_nat.simps [of n] digits_val_def)
  next
    case False
    with 1 have "digits_val (str_of_nat (n div 10)) = n div 10" by simp
    with False show ?thesis by (subst str_of_nat.simps) (simp add: digits_val_def)
  qed
qed

text \<open>\<open>String(n).padStart(2,'0')\<close>.\<close>

definition pad_start2 :: "jsstring \<Rightarrow> jsstring" where
  "pad_start2 s = replicate (2 - length s) 48 @ s"

lemma pad_start2_nat: "n < 100 \<Longrightarrow> pad_start2 (str_of_nat n) = digs 2 n"
  by (auto simp: pad_start2_def str_of_nat.simps numeral_2_eq_2)

section \<open>Lexicographic comparison of fixed-width strings\<close>

lemma append_le_same_length:
  fixes xs ys :: "nat list"
  shows "length xs = length ys \<Longrightarrow> xs @ us \<le> ys @ vs \<longleftrightarrow> xs < ys \<or> xs = ys \<and> us \<le> vs"
  by (induction xs ys rule: list_induct2) auto

lemma append_less_same_length:
  fixes xs ys :: "nat list"
  shows "length xs = length ys \<Longrightarrow> xs @ us < ys @ vs \<longleftrightarrow> xs < ys \<or> xs = ys \<and> us < vs"
  by (induction xs ys rule: list_induct2) auto

lemma digs_eq_iff: "m < 10 ^ k \<Longrightarrow> n < 10 ^ k \<Longrightarrow> digs k m = digs k n \<longleftrightarrow> m = n"
  by (metis digits_val_digs mod_less)

lemma less_by_div_mod:
  fixes m n :: nat
  shows "m < n \<longleftrightarrow> m div 10 < n div 10 \<or> m div 10 = n div 10 \<and> m mod 10 < n mod 10"
proof -
  have "m = 10 * (m div 10) + m mod 10" "n = 10 * (n div 10) + n mod 10" by simp_all
  moreover have "m mod 10 < 10" "n mod 10 < 10" by simp_all
  ultimately show ?thesis by arith
qed

lemma digs_less_iff: "m < 10 ^ k \<Longrightarrow> n < 10 ^ k \<Longrightarrow> digs k m < digs k n \<longleftrightarrow> m < n"
proof (induction k arbitrary: m n)
  case 0
  then show ?case by simp
next
  case (Suc k)
  have q: "m div 10 < 10 ^ k" "n div 10 < 10 ^ k"
    using Suc.prems by (simp_all add: div_less_iff_less_mult mult.commute)
  have "digs (Suc k) m < digs (Suc k) n
      \<longleftrightarrow> m div 10 < n div 10 \<or> m div 10 = n div 10 \<and> m mod 10 < n mod 10"
    by (simp add: append_less_same_length Suc.IH [OF q] digs_eq_iff [OF q])
  also have "\<dots> \<longleftrightarrow> m < n"
    by (rule less_by_div_mod [symmetric])
  finally show ?case .
qed

section \<open>Splitting, joining, replacing\<close>

text \<open>\<open>s.split(c)\<close> for a one-character separator, \<open>xs.join(sep)\<close>.\<close>

fun js_split :: "nat \<Rightarrow> jsstring \<Rightarrow> jsstring list" where
  "js_split c [] = [[]]"
| "js_split c (x # xs) =
     (if x = c then [] # js_split c xs
      else case js_split c xs of [] \<Rightarrow> [[x]] | y # ys \<Rightarrow> (x # y) # ys)"

fun js_join :: "jsstring \<Rightarrow> jsstring list \<Rightarrow> jsstring" where
  "js_join sep [] = []"
| "js_join sep [x] = x"
| "js_join sep (x # y # zs) = x @ sep @ js_join sep (y # zs)"

lemma js_split_neq_Nil [simp]: "js_split c xs \<noteq> []"
  by (induction xs) (auto split: list.splits)

lemma js_split_no_sep: "c \<notin> set xs \<Longrightarrow> js_split c xs = [xs]"
  by (induction xs) auto

lemma js_split_append: "c \<notin> set xs \<Longrightarrow> js_split c (xs @ c # ys) = xs # js_split c ys"
  by (induction xs) auto

lemma js_split_join: "xs \<noteq> [] \<Longrightarrow> \<forall>x \<in> set xs. c \<notin> set x \<Longrightarrow> js_split c (js_join [c] xs) = xs"
  by (induction "[c]" xs rule: js_join.induct) (auto simp: js_split_no_sep js_split_append)

text \<open>\<open>s.replace(/c/g, r)\<close> for a one-character pattern \<open>c\<close>.\<close>

definition replace_all :: "nat \<Rightarrow> jsstring \<Rightarrow> jsstring \<Rightarrow> jsstring" where
  "replace_all c r s = concat (map (\<lambda>u. if u = c then r else [u]) s)"

lemma replace_all_Nil [simp]: "replace_all c r [] = []"
  by (simp add: replace_all_def)

lemma replace_all_Cons [simp]:
  "replace_all c r (x # xs) = (if x = c then r else [x]) @ replace_all c r xs"
  by (simp add: replace_all_def)

lemma replace_all_append [simp]:
  "replace_all c r (xs @ ys) = replace_all c r xs @ replace_all c r ys"
  by (simp add: replace_all_def)

lemma set_replace_all: "set (replace_all c r s) \<subseteq> (set s - {c}) \<union> set r"
  by (induction s) auto

text \<open>\<open>s.includes(t)\<close>, \<open>s.slice(a)\<close> and \<open>s.slice(a,b)\<close> for \<open>0 \<le> a \<le> b\<close>, \<open>s.trim()\<close>.\<close>

fun js_includes :: "jsstring \<Rightarrow> jsstring \<Rightarrow> bool" where
  "js_includes [] t = (t = [])"
| "js_includes (x # xs) t = (take (length t) (x # xs) = t \<or> js_includes xs t)"

lemma js_includes_iff: "js_includes s t \<longleftrightarrow> (\<exists>us vs. s = us @ t @ vs)"
proof (induction s)
  case Nil
  then show ?case by auto
next
  case (Cons x xs)
  have pre: "take (length t) (x # xs) = t \<longleftrightarrow> (\<exists>vs. x # xs = t @ vs)"
    by (metis append_eq_conv_conj append_take_drop_id)
  have "(\<exists>us vs. x # xs = us @ t @ vs)
      \<longleftrightarrow> (\<exists>vs. x # xs = t @ vs) \<or> (\<exists>us vs. xs = us @ t @ vs)"
    by (metis append_Cons append_Nil list.inject neq_Nil_conv)
  with pre Cons.IH show ?case by simp
qed

definition js_slice :: "nat \<Rightarrow> nat \<Rightarrow> jsstring \<Rightarrow> jsstring" where
  "js_slice a b s = take (b - a) (drop a s)"

definition is_space :: "nat \<Rightarrow> bool" where
  "is_space c \<longleftrightarrow> c \<in> {9, 10, 11, 12, 13, 32, 160, 5760, 8232, 8233, 8239, 8287, 12288, 65279}
     \<or> 8192 \<le> c \<and> c \<le> 8202"

definition js_trim :: "jsstring \<Rightarrow> jsstring" where
  "js_trim s = rev (dropWhile is_space (rev (dropWhile is_space s)))"

text \<open>\<open>a || b\<close> on strings: the empty string is falsy.\<close>

definition or_else :: "jsstring \<Rightarrow> jsstring \<Rightarrow> jsstring" where
  "or_else a b = (if a = [] then b else a)"

lemma or_else_simps [simp]: "or_else [] b = b" "a \<noteq> [] \<Longrightarrow> or_else a b = a"
  by (simp_all add: or_else_def)

section \<open>Rounding a quotient\<close>

text \<open>\<open>Math.ceil(a/b)\<close>, \<open>Math.floor(a/b)\<close> and \<open>Math.round(a/b)\<close> (half up), for \<open>b > 0\<close>.\<close>

definition ceil_quot :: "int \<Rightarrow> int \<Rightarrow> int" where
  "ceil_quot a b = - ((- a) div b)"

definition round_quot :: "int \<Rightarrow> int \<Rightarrow> int" where
  "round_quot a b = (2 * a + b) div (2 * b)"

lemma ceil_quot_unique: "0 < b \<Longrightarrow> b * (q - 1) < a \<Longrightarrow> a \<le> b * q \<Longrightarrow> ceil_quot a b = q"
proof -
  assume b: "0 < b" and l: "b * (q - 1) < a" and u: "a \<le> b * q"
  have "(- a) div b = - q"
    by (rule int_div_pos_eq [where r = "b * q - a"]) (use b l u in \<open>auto simp: algebra_simps\<close>)
  then show ?thesis by (simp add: ceil_quot_def)
qed

lemma round_quot_unique: "0 < b \<Longrightarrow> b * (2 * q - 1) \<le> 2 * a \<Longrightarrow> 2 * a < b * (2 * q + 1) \<Longrightarrow> round_quot a b = q"
  unfolding round_quot_def
  by (rule int_div_pos_eq [where r = "2 * a + b - 2 * b * q"]) (auto simp: algebra_simps)

section \<open>Numbers and numeric texts\<close>

text \<open>
  A setting is a number, or the text of one where it came as text; \<open>v || n\<close>, and what a
  comparison with a number makes of it: \<open>None\<close> is \<open>NaN\<close>. Texts in decimal fractions,
  exponents or other bases are outside the model.
\<close>

datatype js_num = Number int | Text jsstring

fun num_or :: "js_num \<Rightarrow> int \<Rightarrow> js_num" where
  "num_or (Number n) d = Number (if n = 0 then d else n)"
| "num_or (Text s) d = (if s = [] then Number d else Text s)"

definition text_number :: "jsstring \<Rightarrow> int option" where
  "text_number s =
     (let t = js_trim s;
          ds = (case t of [] \<Rightarrow> [48] | c # r \<Rightarrow> if c = 45 \<or> c = 43 then r else t)
      in if ds = [] \<or> \<not> list_all is_digit ds then None
         else Some ((if take 1 t = [45] then - 1 else 1) * int (digits_val ds)))"

fun to_number :: "js_num \<Rightarrow> int option" where
  "to_number (Number n) = Some n"
| "to_number (Text s) = text_number s"

definition below_num :: "int \<Rightarrow> int option \<Rightarrow> bool" where
  "below_num n v = (case v of None \<Rightarrow> False | Some m \<Rightarrow> n < m)"

lemma below_num_simps [simp]: "\<not> below_num n None" "below_num n (Some m) \<longleftrightarrow> n < m"
  by (simp_all add: below_num_def)

section \<open>Lists\<close>

text \<open>\<open>xs.find(p)\<close> is \<open>List.find\<close>; \<open>xs.findIndex(p)\<close> followed by an update at that index is
  the replacement of the first element that satisfies \<open>p\<close>.\<close>

fun update_first :: "('a \<Rightarrow> bool) \<Rightarrow> ('a \<Rightarrow> 'a) \<Rightarrow> 'a list \<Rightarrow> 'a list" where
  "update_first p f [] = []"
| "update_first p f (x # xs) = (if p x then f x # xs else x # update_first p f xs)"

lemma length_update_first [simp]: "length (update_first p f xs) = length xs"
  by (induction xs) auto

lemma map_update_first: "(\<And>x. p x \<Longrightarrow> g (f x) = g x) \<Longrightarrow> map g (update_first p f xs) = map g xs"
  by (induction xs) auto

lemma update_first_none: "\<not> (\<exists>x \<in> set xs. p x) \<Longrightarrow> update_first p f xs = xs"
  by (induction xs) auto

lemma set_update_first: "set (update_first p f xs) \<subseteq> set xs \<union> f ` {x \<in> set xs. p x}"
  by (induction xs) auto

lemma sum_list_map_le:
  fixes f :: "'a \<Rightarrow> nat"
  shows "(\<And>x. x \<in> set xs \<Longrightarrow> f x \<le> g x) \<Longrightarrow> sum_list (map f xs) \<le> sum_list (map g xs)"
  by (induction xs) (auto intro: add_mono)

lemma distinct_map_filter: "distinct (map f xs) \<Longrightarrow> distinct (map f (filter p xs))"
  by (induction xs) auto

end
