(* ===== verification/JsDate.thy ===== *)
theory JsDate
  imports JsPrelude
begin

text \<open>
  The part of JavaScript's \<open>Date\<close> the application uses. A date at local midnight is its
  local calendar day, an \<open>int\<close> counting days from 1970-01-01 (day 0, a Thursday), in the
  proleptic Gregorian calendar of the language standard: \<open>day_from_year\<close> is its
  DayFromYear, \<open>year_from_day\<close> its YearFromTime, \<open>make_day\<close> its MakeDay with months and
  days that overflow carried over. Where the code subtracts two dates and divides the
  milliseconds, the offset of the local time zone at either date matters and is passed as
  a parameter by the definitions that do so. The proofs show that the calendar is a
  bijection between day numbers and valid (year, month, day) triples, in order.
\<close>

type_synonym date = int

definition day_from_year :: "int \<Rightarrow> int" where
  "day_from_year y = 365 * (y - 1970) + (y - 1969) div 4 - (y - 1901) div 100 + (y - 1601) div 400"

definition is_leap :: "int \<Rightarrow> bool" where
  "is_leap y \<longleftrightarrow> y mod 4 = 0 \<and> (y mod 100 \<noteq> 0 \<or> y mod 400 = 0)"

definition year_len :: "int \<Rightarrow> int" where
  "year_len y = (if is_leap y then 366 else 365)"

text \<open>The year of a day: peel off 400-year, 100-year, 4-year cycles from 1601 on.\<close>

definition year_from_day :: "int \<Rightarrow> int" where
  "year_from_day d =
     (let x = d + 134774; a = x div 146097; r = x mod 146097;
          b = min 3 (r div 36524); r1 = r - 36524 * b;
          c = r1 div 1461; r2 = r1 mod 1461;
          e = min 3 (r2 div 365)
      in 1601 + 400 * a + 100 * b + 4 * c + e)"

text \<open>First day of a month (0 = January) within its year, and the month of a day of the year.\<close>

definition month_start :: "bool \<Rightarrow> int \<Rightarrow> int" where
  "month_start leap m =
     (let l = (if leap then 1 else 0)
      in if m \<le> 0 then 0 else if m = 1 then 31 else if m = 2 then 59 + l else if m = 3 then 90 + l
         else if m = 4 then 120 + l else if m = 5 then 151 + l else if m = 6 then 181 + l
         else if m = 7 then 212 + l else if m = 8 then 243 + l else if m = 9 then 273 + l
         else if m = 10 then 304 + l else if m = 11 then 334 + l else 365 + l)"

definition month_of :: "bool \<Rightarrow> int \<Rightarrow> int" where
  "month_of leap k =
     (let l = (if leap then 1 else 0)
      in if k < 31 then 0 else if k < 59 + l then 1 else if k < 90 + l then 2
         else if k < 120 + l then 3 else if k < 151 + l then 4 else if k < 181 + l then 5
         else if k < 212 + l then 6 else if k < 243 + l then 7 else if k < 273 + l then 8
         else if k < 304 + l then 9 else if k < 334 + l then 10 else 11)"

text \<open>\<open>getFullYear\<close>, \<open>getMonth\<close>, \<open>getDate\<close>, \<open>getDay\<close> (0 = Sunday).\<close>

definition getFullYear :: "date \<Rightarrow> int" where
  "getFullYear d = year_from_day d"

definition day_in_year :: "date \<Rightarrow> int" where
  "day_in_year d = d - day_from_year (getFullYear d)"

definition getMonth :: "date \<Rightarrow> int" where
  "getMonth d = month_of (is_leap (getFullYear d)) (day_in_year d)"

definition getDate :: "date \<Rightarrow> int" where
  "getDate d = day_in_year d - month_start (is_leap (getFullYear d)) (getMonth d) + 1"

definition getDay :: "date \<Rightarrow> int" where
  "getDay d = (d + 4) mod 7"

text \<open>
  MakeDay, the constructor \<open>new Date(y, m, dt)\<close> (years 0 to 99 mean 1900 to 1999) and
  \<open>setDate\<close>.
\<close>

definition make_day :: "int \<Rightarrow> int \<Rightarrow> int \<Rightarrow> date" where
  "make_day y m dt =
     (let ym = y + m div 12; mn = m mod 12
      in day_from_year ym + month_start (is_leap ym) mn + dt - 1)"

definition new_date :: "int \<Rightarrow> int \<Rightarrow> int \<Rightarrow> date" where
  "new_date y m dt = make_day (if 0 \<le> y \<and> y \<le> 99 then 1900 + y else y) m dt"

definition setDate :: "date \<Rightarrow> int \<Rightarrow> date" where
  "setDate d dt = make_day (getFullYear d) (getMonth d) dt"

section \<open>Years\<close>

lemma day_from_year_parts:
  assumes "0 \<le> b" "b \<le> 3" "0 \<le> c" "c \<le> 24" "0 \<le> e" "e \<le> 3"
  shows "day_from_year (1601 + 400 * a + 100 * b + 4 * c + e)
       = 146097 * a + 36524 * b + 1461 * c + 365 * e - 134774"
proof -
  have "(400 * a + 100 * b + 4 * c + e - 368) div 4 = 100 * a + 25 * b + c - 92"
    using assms by (intro int_div_pos_eq [where r = e]) auto
  moreover have "(400 * a + 100 * b + 4 * c + e - 300) div 100 = 4 * a + b - 3"
    using assms by (intro int_div_pos_eq [where r = "4 * c + e"]) auto
  moreover have "(400 * a + 100 * b + 4 * c + e) div 400 = a"
    using assms by (intro int_div_pos_eq [where r = "100 * b + 4 * c + e"]) auto
  ultimately show ?thesis
    by (simp add: day_from_year_def algebra_simps)
qed

lemma div_pred: "0 < n \<Longrightarrow> (y - 1) div n = y div n - (if y mod n = 0 then 1 else (0::int))"
proof -
  assume n: "0 < n"
  have y: "y = n * (y div n) + y mod n" "0 \<le> y mod n" "y mod n < n"
    using n by simp_all
  show ?thesis
  proof (cases "y mod n = 0")
    case True
    then show ?thesis
      using n y by (intro int_div_pos_eq [where r = "n - 1"]) (auto simp: algebra_simps)
  next
    case False
    then show ?thesis
      using n y by (intro int_div_pos_eq [where r = "y mod n - 1"]) (auto simp: algebra_simps)
  qed
qed

lemma mod_minus_mult: "k = n * j \<Longrightarrow> (y - k) mod n = y mod (n::int)"
  using mod_mult_self2 [of y n "- j"] by simp

lemma div_pred_shift:
  assumes "0 < n" "k = n * j" "k' = k + 1"
  shows "(y - k) div n = (y - k') div n + (if y mod n = 0 then 1 else (0::int))"
proof -
  have "y - k' = y - k - 1" using assms(3) by linarith
  then have "(y - k') div n = (y - k) div n - (if y mod n = 0 then 1 else 0)"
    by (simp only: div_pred [OF assms(1)] mod_minus_mult [OF assms(2)])
  then show ?thesis by linarith
qed

lemma leap_year_count:
  fixes k :: int
  assumes "p400 \<Longrightarrow> p100" "p100 \<Longrightarrow> p4"
  shows "k + 365 + (a + (if p4 then 1 else 0)) - (b + (if p100 then 1 else 0)) + (c + (if p400 then 1 else 0))
       = k + a - b + c + (if p4 \<and> (\<not> p100 \<or> p400) then 366 else 365)"
  using assms by (cases p400; cases p100; cases p4) simp_all

lemma is_leap_Suc: "day_from_year (y + 1) = day_from_year y + year_len y"
proof -
  have 4: "(y - 1968) div 4 = (y - 1969) div 4 + (if y mod 4 = 0 then 1 else 0)"
    by (rule div_pred_shift [of 4 _ 492]) simp_all
  have 100: "(y - 1900) div 100 = (y - 1901) div 100 + (if y mod 100 = 0 then 1 else 0)"
    by (rule div_pred_shift [of 100 _ 19]) simp_all
  have 400: "(y - 1600) div 400 = (y - 1601) div 400 + (if y mod 400 = 0 then 1 else 0)"
    by (rule div_pred_shift [of 400 _ 4]) simp_all
  have m: "y mod 400 = 0 \<Longrightarrow> y mod 100 = 0" "y mod 100 = 0 \<Longrightarrow> y mod 4 = 0"
    using mod_mod_cancel [of 100 400 y] mod_mod_cancel [of 4 100 y] by simp_all
  have e: "365 * (y + 1 - 1970) = 365 * (y - 1970) + 365" "y + 1 - 1969 = y - 1968"
    "y + 1 - 1901 = y - 1900" "y + 1 - 1601 = y - 1600"
    by simp_all
  show ?thesis
    unfolding day_from_year_def e 4 100 400 year_len_def is_leap_def
    by (rule leap_year_count [OF m])
qed

lemma year_len_bounds: "365 \<le> year_len y" "year_len y \<le> 366"
  by (simp_all add: year_len_def)

lemma day_from_year_mono: "y \<le> z \<Longrightarrow> day_from_year y + 365 * (z - y) \<le> day_from_year z"
proof (induction z rule: int_ge_induct)
  case base
  then show ?case by simp
next
  case (step i)
  then show ?case using is_leap_Suc [of i] year_len_bounds [of i] by simp
qed

lemma year_from_day_bounds:
  "day_from_year (year_from_day d) \<le> d \<and> d < day_from_year (year_from_day d + 1)"
proof -
  define x where "x = d + 134774"
  define a where "a = x div 146097"
  define r where "r = x mod 146097"
  define b where "b = min 3 (r div 36524)"
  define r1 where "r1 = r - 36524 * b"
  define c where "c = r1 div 1461"
  define r2 where "r2 = r1 mod 1461"
  define e where "e = min 3 (r2 div 365)"
  have y: "year_from_day d = 1601 + 400 * a + 100 * b + 4 * c + e"
    by (simp only: year_from_day_def x_def a_def r_def b_def r1_def c_def r2_def e_def Let_def)
  have x: "x = 146097 * a + r" "0 \<le> r" "r < 146097"
    by (simp_all add: a_def r_def)
  have q: "0 \<le> r div 36524" "36524 * (r div 36524) \<le> r" "r < 36524 * (r div 36524) + 36524"
    using x(2) div_mult_mod_eq [of r 36524] pos_mod_bound [of 36524 r] pos_mod_sign [of 36524 r]
    by (simp_all add: pos_imp_zdiv_nonneg_iff)
  have b: "0 \<le> b" "b \<le> 3" "0 \<le> r1" "r1 < 36525" "b < 3 \<Longrightarrow> r1 < 36524"
    using x(2,3) q by (auto simp: b_def r1_def min_def)
  have c: "r1 = 1461 * c + r2" "0 \<le> r2" "r2 < 1461" "0 \<le> c" "c \<le> 24"
    using b(3,4) zdiv_mono1 [of r1 36524 1461] by (auto simp: c_def r2_def pos_imp_zdiv_nonneg_iff)
  have e: "0 \<le> e" "e \<le> 3" "365 * e \<le> r2" "e < 3 \<Longrightarrow> r2 < 365 * (e + 1)" "r2 < 365 * e + 366"
    using c(2,3) div_mult_mod_eq [of r2 365] pos_mod_bound [of 365 r2] pos_mod_sign [of 365 r2]
      pos_imp_zdiv_nonneg_iff [of 365 r2]
    by (auto simp: e_def min_def)
  have lo: "day_from_year (year_from_day d) = 146097 * a + 36524 * b + 1461 * c + 365 * e - 134774"
    unfolding y using b c e by (intro day_from_year_parts)
  have d: "d = 146097 * a + 36524 * b + 1461 * c + r2 - 134774"
    using x c by (simp add: x_def r1_def)
  have hi: "d < day_from_year (year_from_day d) + year_len (year_from_day d)"
  proof (cases "e < 3")
    case True
    then show ?thesis using lo d e year_len_bounds(1) [of "year_from_day d"] by simp
  next
    case False
    then have e3: "e = 3" using e by simp
    have z: "year_from_day d = 4 * (400 + 100 * a + 25 * b + c + 1)"
      using y e3 by simp
    show ?thesis
    proof (cases "is_leap (year_from_day d)")
      case True
      then show ?thesis using lo d e by (simp add: year_len_def)
    next
      case notleap: False
      then have cent: "year_from_day d mod 100 = 0" "year_from_day d mod 400 \<noteq> 0"
        using z by (auto simp: is_leap_def)
      have c24: "c = 24"
      proof (rule ccontr)
        assume "c \<noteq> 24"
        then have "year_from_day d mod 100 = 4 * (c + 1)"
          using z c by (intro int_mod_pos_eq [where q = "4 + 4 * a + b + 12"]) auto
        with cent(1) c show False by simp
      qed
      moreover have "b < 3"
      proof (rule ccontr)
        assume "\<not> b < 3"
        then have "year_from_day d = 400 * (4 + a + 1)"
          using z c24 b by simp
        with cent(2) show False by simp
      qed
      ultimately have "r2 < 36524 - 1461 * 24" using b c by simp
      then show ?thesis using lo d e3 notleap by (simp add: year_len_def)
    qed
  qed
  show ?thesis using lo d e hi is_leap_Suc [of "year_from_day d"] by simp
qed

lemma year_from_day_unique:
  assumes "day_from_year y \<le> d" "d < day_from_year (y + 1)"
  shows "year_from_day d = y"
proof (rule ccontr)
  assume "year_from_day d \<noteq> y"
  then consider "year_from_day d + 1 \<le> y" | "y + 1 \<le> year_from_day d" by linarith
  then show False
  proof cases
    case 1
    then show ?thesis
      using assms year_from_day_bounds [of d] day_from_year_mono [OF 1] by simp
  next
    case 2
    then show ?thesis
      using assms year_from_day_bounds [of d] day_from_year_mono [OF 2] by simp
  qed
qed

lemma day_in_year_bounds: "0 \<le> day_in_year d" "day_in_year d < year_len (getFullYear d)"
  using year_from_day_bounds [of d] is_leap_Suc [of "year_from_day d"]
  by (simp_all add: day_in_year_def getFullYear_def)

section \<open>Months and days\<close>

lemma month_of_bounds:
  assumes "0 \<le> k" "k < 365 + (if leap then 1 else 0)"
  shows "0 \<le> month_of leap k \<and> month_of leap k \<le> 11
     \<and> month_start leap (month_of leap k) \<le> k \<and> k < month_start leap (month_of leap k + 1)"
  using assms by (cases leap) (simp_all add: month_of_def month_start_def Let_def)

lemma month_cases:
  assumes "0 \<le> (m::int)" "m \<le> 11"
  obtains "m = 0" | "m = 1" | "m = 2" | "m = 3" | "m = 4" | "m = 5"
    | "m = 6" | "m = 7" | "m = 8" | "m = 9" | "m = 10" | "m = 11"
proof -
  have "m = 0 \<or> m = 1 \<or> m = 2 \<or> m = 3 \<or> m = 4 \<or> m = 5 \<or> m = 6 \<or> m = 7 \<or> m = 8 \<or> m = 9
      \<or> m = 10 \<or> m = 11"
    using assms by arith
  then show thesis using that by blast
qed

lemma month_of_unique:
  assumes "0 \<le> m" "m \<le> 11" "month_start leap m \<le> k" "k < month_start leap (m + 1)"
  shows "month_of leap k = m"
  using assms(1,2) by (cases rule: month_cases; cases leap)
    (use assms(3,4) in \<open>simp_all add: month_of_def month_start_def Let_def\<close>)

lemma month_start_le: "0 \<le> m \<Longrightarrow> m \<le> 11 \<Longrightarrow> 0 \<le> month_start leap m
    \<and> month_start leap (m + 1) \<le> 365 + (if leap then 1 else 0)
    \<and> 28 \<le> month_start leap (m + 1) - month_start leap m
    \<and> month_start leap (m + 1) - month_start leap m \<le> 31"
  by (cases rule: month_cases; assumption?; cases leap)
    (simp_all add: month_start_def Let_def)

lemma month_start_Suc: "month_start leap m \<le> month_start leap (m + 1)"
  by (cases leap) (simp_all add: month_start_def Let_def)

lemma month_start_mono: "m \<le> n \<Longrightarrow> month_start leap m \<le> month_start leap n"
proof (induction n rule: int_ge_induct)
  case base
  then show ?case by simp
next
  case (step i)
  then show ?case using month_start_Suc [of leap i] by simp
qed

definition month_len :: "int \<Rightarrow> int \<Rightarrow> int" where
  "month_len y m = month_start (is_leap y) (m + 1) - month_start (is_leap y) m"

text \<open>A day number decomposes uniquely into year, month and day of the month.\<close>

lemma getMonth_bounds: "0 \<le> getMonth d" "getMonth d \<le> 11"
  using month_of_bounds [of "day_in_year d" "is_leap (getFullYear d)"] day_in_year_bounds [of d]
  by (auto simp: getMonth_def year_len_def split: if_splits)

lemma getDate_bounds: "1 \<le> getDate d" "getDate d \<le> month_len (getFullYear d) (getMonth d)"
  using month_of_bounds [of "day_in_year d" "is_leap (getFullYear d)"] day_in_year_bounds [of d]
  by (auto simp: getMonth_def getDate_def month_len_def year_len_def split: if_splits)

lemma month_len_bounds: "0 \<le> m \<Longrightarrow> m \<le> 11 \<Longrightarrow> 28 \<le> month_len y m \<and> month_len y m \<le> 31"
  using month_start_le [of m "is_leap y"] by (simp add: month_len_def)

lemma getDate_le_31: "getDate d \<le> 31"
  using getDate_bounds(2) [of d] month_len_bounds [OF getMonth_bounds, of "getFullYear d" d] by linarith

lemma make_day_month: "0 \<le> m \<Longrightarrow> m \<le> 11 \<Longrightarrow>
    make_day y m dt = day_from_year y + month_start (is_leap y) m + dt - 1"
  by (simp add: make_day_def Let_def)

lemma make_day_add: "make_day y m (dt + n) = make_day y m dt + n"
  by (simp add: make_day_def Let_def)

lemma make_day_parts: "make_day (getFullYear d) (getMonth d) (getDate d) = d"
  by (simp add: make_day_month getMonth_bounds getDate_def day_in_year_def)

lemma parts_make_day:
  assumes "0 \<le> m" "m \<le> 11" "1 \<le> dt" "dt \<le> month_len y m"
  shows "getFullYear (make_day y m dt) = y" "getMonth (make_day y m dt) = m"
    "getDate (make_day y m dt) = dt"
proof -
  let ?k = "month_start (is_leap y) m + dt - 1"
  have d: "make_day y m dt = day_from_year y + ?k"
    using assms by (simp add: make_day_month)
  have k: "0 \<le> ?k" "?k < year_len y"
    using assms month_start_le [of m "is_leap y"] by (auto simp: month_len_def year_len_def)
  show Y: "getFullYear (make_day y m dt) = y"
    unfolding getFullYear_def d using k is_leap_Suc [of y]
    by (intro year_from_day_unique) auto
  have diy: "day_in_year (make_day y m dt) = ?k"
    unfolding day_in_year_def Y using d by simp
  show M: "getMonth (make_day y m dt) = m"
    unfolding getMonth_def Y diy using assms by (intro month_of_unique) (auto simp: month_len_def)
  show "getDate (make_day y m dt) = dt"
    unfolding getDate_def Y M diy by simp
qed

lemma setDate_plus: "setDate d (getDate d + n) = d + n"
  by (simp add: setDate_def make_day_add make_day_parts)

lemma setDate_minus: "setDate d (getDate d - n) = d - n"
  using setDate_plus [of d "- n"] by simp

text \<open>The order of days is the lexicographic order of year, month and day of the month.\<close>

lemma civil_less_iff:
  "d < e \<longleftrightarrow> getFullYear d < getFullYear e \<or> getFullYear d = getFullYear e \<and>
     (getMonth d < getMonth e \<or> getMonth d = getMonth e \<and> getDate d < getDate e)"
proof -
  have less: "d < e" if lex: "getFullYear d < getFullYear e \<or> getFullYear d = getFullYear e \<and>
     (getMonth d < getMonth e \<or> getMonth d = getMonth e \<and> getDate d < getDate e)" for d e
  proof (cases "getFullYear d < getFullYear e")
    case True
    then show ?thesis
      using day_from_year_mono [of "getFullYear d + 1" "getFullYear e"]
        year_from_day_bounds [of d] year_from_day_bounds [of e]
      by (simp add: getFullYear_def)
  next
    case False
    then have y: "getFullYear d = getFullYear e" using lex by simp
    let ?s = "month_start (is_leap (getFullYear e))"
    have dd: "d = day_from_year (getFullYear e) + ?s (getMonth d) + getDate d - 1"
      using make_day_parts [of d] y by (simp add: make_day_month getMonth_bounds)
    have ee: "e = day_from_year (getFullYear e) + ?s (getMonth e) + getDate e - 1"
      using make_day_parts [of e] by (simp add: make_day_month getMonth_bounds)
    show ?thesis
    proof (cases "getMonth d < getMonth e")
      case True
      have "?s (getMonth d + 1) \<le> ?s (getMonth e)"
        using True getMonth_bounds [of d] getMonth_bounds [of e]
        by (intro month_start_mono) auto
      then show ?thesis
        using dd ee getDate_bounds [of d] getDate_bounds [of e] y by (simp add: month_len_def)
    next
      case False
      then show ?thesis using lex y dd ee by auto
    qed
  qed
  show ?thesis
  proof
    assume de: "d < e"
    have "\<not> (getFullYear e < getFullYear d \<or> getFullYear e = getFullYear d \<and>
     (getMonth e < getMonth d \<or> getMonth e = getMonth d \<and> getDate e < getDate d))"
      using less [of e d] de by auto
    moreover have "\<not> (getFullYear d = getFullYear e \<and> getMonth d = getMonth e \<and> getDate d = getDate e)"
      using make_day_parts [of d] make_day_parts [of e] de by auto
    ultimately show "getFullYear d < getFullYear e \<or> getFullYear d = getFullYear e \<and>
     (getMonth d < getMonth e \<or> getMonth d = getMonth e \<and> getDate d < getDate e)"
      by linarith
  qed (rule less)
qed

section \<open>Week days\<close>

lemma getDay_bounds: "0 \<le> getDay d" "getDay d \<le> 6"
  by (auto simp: getDay_def)

lemma getDay_add: "getDay (d + n) = (getDay d + n) mod 7"
  by (simp add: getDay_def mod_simps add_ac)

end
