(* ===== verification/WeekHelpers.thy ===== *)
theory WeekHelpers
  imports JsDate
begin

text \<open>
  The date helpers of \<open>app.js\<close>: printing and parsing \<open>YYYY/MM/DD\<close>, the Monday of a week,
  the visible window of weeks, week numbers and the jump to a date. Proved here: printing and parsing are inverse, string
  comparison of printed dates is calendar order, the week helpers return the Mondays they
  promise whatever the time zone does, and the week number differs from ISO 8601 exactly in
  years that begin on a Friday or Saturday (and in a last week that ISO gives to the next
  year).
\<close>

definition pad2 :: "int \<Rightarrow> jsstring" where
  "pad2 n = pad_start2 (str_of_int n)"

definition fmtDate :: "date \<Rightarrow> jsstring" where
  "fmtDate d = str_of_int (getFullYear d) @ js ''/'' @ pad2 (getMonth d + 1) @ js ''/'' @ pad2 (getDate d)"

text \<open>The regular expression \<open>/^(\d{4})\/(\d{2})\/(\d{2})$/\<close>; \<open>null\<close> is \<open>None\<close>.\<close>

definition parseDate :: "jsstring \<Rightarrow> date option" where
  "parseDate s =
     (case s of
        [y1, y2, y3, y4, s1, m1, m2, s2, d1, d2] \<Rightarrow>
          if list_all is_digit [y1, y2, y3, y4, m1, m2, d1, d2] \<and> s1 = 47 \<and> s2 = 47
          then Some (new_date (int (digits_val [y1, y2, y3, y4]))
                      (int (digits_val [m1, m2]) - 1) (int (digits_val [d1, d2])))
          else None
      | _ \<Rightarrow> None)"

text \<open>\<open>fmtDateTime\<close> and \<open>fmtExportTS\<close> also print the hours and minutes of the date.\<close>

definition fmtDateTime :: "date \<Rightarrow> int \<Rightarrow> int \<Rightarrow> jsstring" where
  "fmtDateTime d hours minutes = str_of_int (getFullYear d) @ js ''-'' @ pad2 (getMonth d + 1) @ js ''-''
     @ pad2 (getDate d) @ js ''T'' @ pad2 hours @ js '':'' @ pad2 minutes @ js '':00''"

definition fmtExportTS :: "date \<Rightarrow> int \<Rightarrow> int \<Rightarrow> jsstring" where
  "fmtExportTS d hours minutes = str_of_int (getFullYear d) @ js ''-'' @ pad2 (getMonth d + 1) @ js ''-''
     @ pad2 (getDate d) @ js ''-'' @ pad2 hours @ js ''-'' @ pad2 minutes"

section \<open>Weeks\<close>

definition getWeekStart :: "date \<Rightarrow> date" where
  "getWeekStart d = (let day = getDay d in setDate d (getDate d + (if day = 0 then - 6 else 1 - day)))"

definition addWeeks :: "date \<Rightarrow> int \<Rightarrow> date" where
  "addWeeks d n = setDate d (getDate d + n * 7)"

definition formatWeekStart :: "date \<Rightarrow> jsstring" where
  "formatWeekStart d = fmtDate d"

text \<open>With no week at all the code formats an invalid date.\<close>

definition windowEndDate :: "date list \<Rightarrow> jsstring" where
  "windowEndDate weeks =
     (if weeks = [] then js ''NaN/NaN/NaN''
      else let d = last weeks in fmtDate (setDate d (getDate d + 6)))"

definition getWeekDays :: "date \<Rightarrow> date list" where
  "getWeekDays weekStart = map (\<lambda>i. setDate weekStart (getDate weekStart + i)) [0, 1, 2, 3, 4, 5, 6]"

text \<open>
  \<open>tz d\<close> is the offset of the local time zone from UTC, in milliseconds, at local midnight
  of day \<open>d\<close>: the time value of that date is \<open>86400000 d - tz d\<close>.
\<close>

definition time_value :: "(date \<Rightarrow> int) \<Rightarrow> date \<Rightarrow> int" where
  "time_value tz d = 86400000 * d - tz d"

definition getWeekNumber :: "(date \<Rightarrow> int) \<Rightarrow> date \<Rightarrow> int" where
  "getWeekNumber tz d =
     (let start = getWeekStart d; yearStart = new_date (getFullYear start) 0 1
      in ceil_quot (time_value tz start - time_value tz yearStart + 86400000 * (getDay yearStart + 1))
           (86400000 * 7))"

text \<open>\<open>window_weeks || 4\<close> weeks from the current one, shifted by \<open>scrollOffset\<close>.\<close>

definition getVisibleWeeks :: "js_num \<Rightarrow> date \<Rightarrow> int \<Rightarrow> date list" where
  "getVisibleWeeks window_weeks now scrollOffset =
     (let n = (case to_number (num_or window_weeks 4) of None \<Rightarrow> 0 | Some n \<Rightarrow> n); ws = getWeekStart now
      in map (\<lambda>i. addWeeks ws (int i + scrollOffset)) [0..<nat n])"

text \<open>
  The new \<open>scrollOffset\<close>: \<open>target\<close> is the date the input element's value denotes, \<open>None\<close>
  for an empty input.
\<close>

definition jumpToDate :: "(date \<Rightarrow> int) \<Rightarrow> date \<Rightarrow> date option \<Rightarrow> int \<Rightarrow> int" where
  "jumpToDate tz now target scrollOffset =
     (case target of
        None \<Rightarrow> scrollOffset
      | Some d \<Rightarrow> round_quot (time_value tz (getWeekStart d) - time_value tz (getWeekStart now))
                   (7 * 86400000))"

definition isWeekend :: "jsstring \<Rightarrow> bool" where
  "isWeekend dateStr = (case parseDate dateStr of None \<Rightarrow> False | Some d \<Rightarrow> 5 \<le> (getDay d + 6) mod 7)"

text \<open>\<open>W12 - 03/16-03/22\<close> (with a middle dot and an en dash); \<open>None\<close> where parsing failed.\<close>

definition weekLabel :: "(date \<Rightarrow> int) \<Rightarrow> jsstring \<Rightarrow> jsstring option" where
  "weekLabel tz ws =
     (case parseDate ws of
        None \<Rightarrow> None
      | Some d \<Rightarrow> Some (js ''W'' @ str_of_int (getWeekNumber tz d) @ js '' '' @ [183] @ js '' '' @ drop 5 ws
                   @ [8211] @ drop 5 (fmtDate (setDate d (getDate d + 6)))))"

section \<open>Printing and parsing\<close>

definition four_digit_year :: "date \<Rightarrow> bool" where
  "four_digit_year d \<longleftrightarrow> 1000 \<le> getFullYear d \<and> getFullYear d \<le> 9999"

lemma pad2_digs: "0 \<le> n \<Longrightarrow> n < 100 \<Longrightarrow> pad2 n = digs 2 (nat n)"
  by (simp add: pad2_def str_of_int_def pad_start2_nat)

lemma four_digit_nat:
  "four_digit_year d \<Longrightarrow> 1000 \<le> nat (getFullYear d) \<and> nat (getFullYear d) < 10000"
  unfolding four_digit_year_def by linarith

lemma fmtDate_digs:
  assumes "four_digit_year d"
  shows "fmtDate d = digs 4 (nat (getFullYear d)) @ 47 # digs 2 (nat (getMonth d + 1)) @ 47 # digs 2 (nat (getDate d))"
proof -
  have "str_of_int (getFullYear d) = digs 4 (nat (getFullYear d))"
    using assms four_digit_nat [OF assms] str_of_nat_digs [of 3 "nat (getFullYear d)"]
    by (simp add: four_digit_year_def str_of_int_def)
  moreover have "pad2 (getMonth d + 1) = digs 2 (nat (getMonth d + 1))"
    using getMonth_bounds [of d] by (simp add: pad2_digs)
  moreover have "pad2 (getDate d) = digs 2 (nat (getDate d))"
    using getDate_bounds(1) [of d] getDate_le_31 [of d] by (simp add: pad2_digs)
  ultimately show ?thesis by (simp add: fmtDate_def js_def)
qed

lemma length_fmtDate: "four_digit_year d \<Longrightarrow> length (fmtDate d) = 10"
  by (simp add: fmtDate_digs)

lemma parse_parts:
  assumes "\<And>c. c \<in> set ys \<Longrightarrow> is_digit c" "\<And>c. c \<in> set ms \<Longrightarrow> is_digit c" "\<And>c. c \<in> set ds \<Longrightarrow> is_digit c"
    and "length ys = 4" "length ms = 2" "length ds = 2"
  shows "parseDate (ys @ 47 # ms @ 47 # ds)
       = Some (new_date (int (digits_val ys)) (int (digits_val ms) - 1) (int (digits_val ds)))"
proof -
  obtain a b c d where ys: "ys = [a, b, c, d]"
    using assms(4) by (auto simp: length_Suc_conv eval_nat_numeral)
  obtain e f where ms: "ms = [e, f]"
    using assms(5) by (auto simp: length_Suc_conv eval_nat_numeral)
  obtain g h where ds: "ds = [g, h]"
    using assms(6) by (auto simp: length_Suc_conv eval_nat_numeral)
  show ?thesis using assms(1-3) by (simp add: ys ms ds parseDate_def)
qed

lemma parse_fmt:
  assumes "four_digit_year d"
  shows "parseDate (fmtDate d) = Some d"
proof -
  have y: "int (digits_val (digs 4 (nat (getFullYear d)))) = getFullYear d"
    using assms four_digit_nat [OF assms] by (simp add: digits_val_digs four_digit_year_def)
  have m: "int (digits_val (digs 2 (nat (getMonth d + 1)))) - 1 = getMonth d"
    using getMonth_bounds [of d] by (simp add: digits_val_digs)
  have dd: "int (digits_val (digs 2 (nat (getDate d)))) = getDate d"
    using getDate_bounds(1) [of d] getDate_le_31 [of d] by (simp add: digits_val_digs)
  have "new_date (getFullYear d) (getMonth d) (getDate d) = d"
    using assms by (simp add: new_date_def four_digit_year_def make_day_parts)
  then show ?thesis
    by (simp only: fmtDate_digs [OF assms])
      (subst parse_parts, auto dest: digs_are_digits simp: y m dd)
qed

lemma fmtDate_inj: "four_digit_year d \<Longrightarrow> four_digit_year e \<Longrightarrow> fmtDate d = fmtDate e \<longleftrightarrow> d = e"
  by (metis option.inject parse_fmt)

lemma fmtDate_le_iff:
  assumes "four_digit_year d" "four_digit_year e"
  shows "fmtDate d \<le> fmtDate e \<longleftrightarrow> d \<le> e"
proof -
  have "fmtDate d < fmtDate e \<longleftrightarrow> d < e"
  proof -
    have y: "nat (getFullYear d) < 10 ^ 4" "nat (getFullYear e) < 10 ^ 4"
      using four_digit_nat [OF assms(1)] four_digit_nat [OF assms(2)] by simp_all
    have m: "nat (getMonth d + 1) < 10 ^ 2" "nat (getMonth e + 1) < 10 ^ 2"
      using getMonth_bounds [of d] getMonth_bounds [of e] by simp_all
    have dd: "nat (getDate d) < 10 ^ 2" "nat (getDate e) < 10 ^ 2"
      using getDate_le_31 [of d] getDate_le_31 [of e] by simp_all
    have "fmtDate d < fmtDate e \<longleftrightarrow>
       nat (getFullYear d) < nat (getFullYear e) \<or> nat (getFullYear d) = nat (getFullYear e) \<and>
       (nat (getMonth d + 1) < nat (getMonth e + 1) \<or> nat (getMonth d + 1) = nat (getMonth e + 1) \<and>
        nat (getDate d) < nat (getDate e))"
      unfolding fmtDate_digs [OF assms(1)] fmtDate_digs [OF assms(2)]
      by (simp add: append_less_same_length digs_less_iff [OF y] digs_less_iff [OF m]
          digs_less_iff [OF dd] digs_eq_iff [OF y] digs_eq_iff [OF m])
    also have "\<dots> \<longleftrightarrow> d < e"
      unfolding civil_less_iff [of d e]
      using assms getMonth_bounds [of d] getMonth_bounds [of e] getDate_bounds(1) [of d]
        getDate_bounds(1) [of e]
      by (auto simp: four_digit_year_def)
    finally show ?thesis .
  qed
  then show ?thesis
    using fmtDate_inj [OF assms] by (auto simp: le_less)
qed

lemma getFullYear_mono: "d \<le> e \<Longrightarrow> getFullYear d \<le> getFullYear e"
  using civil_less_iff [of e d] by linarith

lemma four_digit_convex:
  "four_digit_year a \<Longrightarrow> four_digit_year b \<Longrightarrow> a \<le> x \<Longrightarrow> x \<le> b \<Longrightarrow> four_digit_year x"
  using getFullYear_mono [of a x] getFullYear_mono [of x b] by (simp add: four_digit_year_def)

section \<open>Mondays\<close>

lemma getWeekStart_eq: "getWeekStart d = d - (getDay d + 6) mod 7"
proof (cases "getDay d = 0")
  case True
  then show ?thesis using setDate_plus [of d "- 6"] by (simp add: getWeekStart_def)
next
  case False
  have "(getDay d + 6) mod 7 = getDay d - 1"
    using False getDay_bounds [of d] by (intro int_mod_pos_eq [where q = 1]) auto
  then show ?thesis
    using False setDate_plus [of d "1 - getDay d"] by (simp add: getWeekStart_def Let_def)
qed

lemma getDay_getWeekStart [simp]: "getDay (getWeekStart d) = 1"
  unfolding getWeekStart_eq getDay_def by presburger

lemma getWeekStart_le: "getWeekStart d \<le> d" "d < getWeekStart d + 7"
  by (simp_all add: getWeekStart_eq)

lemma monday_unique:
  assumes "getDay m = 1" "m \<le> d" "d < m + 7"
  shows "getWeekStart d = m"
proof -
  have "getDay d = (1 + (d - m)) mod 7"
    using getDay_add [of m "d - m"] assms(1) by simp
  then have "(getDay d + 6) mod 7 = d - m"
    using assms(2,3) by (simp add: mod_simps)
  then show ?thesis by (simp add: getWeekStart_eq)
qed

lemma getWeekStart_monday: "getDay m = 1 \<Longrightarrow> getWeekStart m = m"
  by (rule monday_unique) auto

lemma addWeeks_eq [simp]: "addWeeks d n = d + 7 * n"
  by (simp add: addWeeks_def setDate_plus mult.commute)

lemma getWeekDays_eq: "getWeekDays w = [w, w + 1, w + 2, w + 3, w + 4, w + 5, w + 6]"
  using setDate_plus [of w 0] by (simp add: getWeekDays_def setDate_plus)

lemma set_getWeekDays: "set (getWeekDays w) = {w..w + 6}"
  by (auto simp: getWeekDays_eq)

lemma getDay_weeks: "getDay (d + 7 * n) = getDay d"
  by (simp add: getDay_def mod_simps add_ac) (metis mod_mult_self2 add.assoc)

lemma visible_weeks_mondays: "w \<in> set (getVisibleWeeks n now off) \<Longrightarrow> getDay w = 1"
proof -
  assume "w \<in> set (getVisibleWeeks n now off)"
  then obtain i where "w = getWeekStart now + 7 * (int i + off)"
    by (auto simp: getVisibleWeeks_def Let_def)
  then show ?thesis by (simp only: getDay_weeks getDay_getWeekStart)
qed

lemma length_visible_weeks:
  "length (getVisibleWeeks (Number n) now off) = nat (if n = 0 then 4 else n)"
  by (simp add: getVisibleWeeks_def Let_def)

lemma hd_visible_weeks: "0 \<le> n \<Longrightarrow> hd (getVisibleWeeks (Number n) now off) = getWeekStart now + 7 * off"
  by (auto simp: getVisibleWeeks_def Let_def hd_map upt_rec)

lemma last_visible_weeks:
  "0 < n \<Longrightarrow> last (getVisibleWeeks (Number n) now off) = getWeekStart now + 7 * (off + n - 1)"
  by (auto simp: getVisibleWeeks_def Let_def last_map algebra_simps)

lemma weekend_iff: "isWeekend (fmtDate d) \<longleftrightarrow> getDay d = 0 \<or> getDay d = 6" if "four_digit_year d"
proof -
  have "5 \<le> (getDay d + 6) mod 7 \<longleftrightarrow> getDay d = 0 \<or> getDay d = 6"
    using getDay_bounds [of d] by presburger
  then show ?thesis using that by (simp add: isWeekend_def parse_fmt)
qed

section \<open>Week numbers\<close>

lemma getDay_diff: "(getDay d - getDay e) mod 7 = (d - e) mod 7"
  unfolding getDay_def by (simp add: mod_diff_eq)

text \<open>
  The offset of the time zone changes the quotient but not the ceiling: the numerator is
  two days past a multiple of a week, and a time zone never shifts by two days in a year.
\<close>

lemma mod7_shift: "(1 - w) mod 7 = n mod 7 \<Longrightarrow> (n + w - 1) mod 7 = (0::int)"
proof -
  assume "(1 - w) mod 7 = n mod 7"
  then have "7 dvd (1 - w) - n" by (simp only: mod_eq_dvd_iff)
  then have "7 dvd - ((1 - w) - n)" by (simp only: dvd_minus_iff)
  moreover have "- ((1 - w) - n) = n + w - 1" by simp
  ultimately show ?thesis by (simp only: dvd_eq_mod_eq_0)
qed

lemma mult7_div: "n mod 7 = 0 \<Longrightarrow> n = 7 * (n div 7)" for n :: int
  by presburger

lemma time_value_diff:
  "s - y = n \<Longrightarrow> time_value tz s - time_value tz y = 86400000 * n + (tz y - tz s)"
  unfolding time_value_def by (simp add: right_diff_distrib [symmetric])

lemma getWeekNumber_eq:
  assumes year: "100 \<le> getFullYear (getWeekStart d)"
    and tz: "\<And>a b. \<bar>tz a - tz b\<bar> \<le> 86400000"
  shows "getWeekNumber tz d =
     (let ys = day_from_year (getFullYear (getWeekStart d))
      in (getWeekStart d - ys + getDay ys - 1) div 7 + 1)"
proof -
  let ?s = "getWeekStart d" and ?ys = "day_from_year (getFullYear (getWeekStart d))"
  have ys: "new_date (getFullYear ?s) 0 1 = ?ys"
    using year by (simp add: new_date_def make_day_month month_start_def)
  define q where "q = (?s - ?ys + getDay ?ys - 1) div 7"
  have "(getDay ?s - getDay ?ys) mod 7 = (?s - ?ys) mod 7"
    by (rule getDay_diff)
  then have "(?s - ?ys + getDay ?ys - 1) mod 7 = 0"
    using mod7_shift by simp
  then have n: "?s - ?ys + getDay ?ys + 1 = 7 * q + 2"
    using mult7_div unfolding q_def by fastforce
  have "time_value tz ?s - time_value tz ?ys + 86400000 * (getDay ?ys + 1)
      = 86400000 * (7 * q + 2) + (tz ?ys - tz ?s)"
    unfolding time_value_diff [OF refl] n [symmetric] by simp
  then show ?thesis
    using tz [of ?ys ?s] unfolding getWeekNumber_def Let_def ys q_def [symmetric]
    by (intro ceil_quot_unique) auto
qed

text \<open>The ISO 8601 number of a week is counted by its Thursday.\<close>

definition iso_week :: "date \<Rightarrow> int" where
  "iso_week d = (let th = getWeekStart d + 3 in day_in_year th div 7 + 1)"

lemma week_number_vs_iso:
  assumes "100 \<le> getFullYear (getWeekStart d)"
    and tz: "\<And>a b. \<bar>tz a - tz b\<bar> \<le> 86400000"
    and th: "getFullYear (getWeekStart d + 3) = getFullYear (getWeekStart d)"
  shows "getWeekNumber tz d =
     iso_week d + (if getDay (day_from_year (getFullYear (getWeekStart d))) \<in> {5, 6} then 1 else 0)"
proof -
  let ?s = "getWeekStart d" and ?ys = "day_from_year (getFullYear (getWeekStart d))"
  define w where "w = getDay ?ys"
  define n where "n = ?s - ?ys"
  have w: "0 \<le> w" "w \<le> 6" using getDay_bounds [of ?ys] by (simp_all add: w_def)
  have c: "(n + w) mod 7 = 1"
    using getDay_add [of ?ys n] getDay_getWeekStart [of d] by (simp add: n_def w_def add.commute)
  obtain k where k: "n + w = 7 * k + 1"
    using c div_mult_mod_eq [of "n + w" 7] by (metis mult.commute)
  have "(n + w - 1) div 7 = (n + 3) div 7 + (if w = 5 \<or> w = 6 then 1 else 0)"
  proof -
    have "(n + w - 1) div 7 = k" using k by simp
    moreover have "(n + 3) div 7 = (if w = 5 \<or> w = 6 then k - 1 else k)"
      using k w by (intro int_div_pos_eq [where r = "if w = 5 \<or> w = 6 then 11 - w else 4 - w"]) auto
    ultimately show ?thesis by simp
  qed
  moreover have "getWeekNumber tz d = (n + w - 1) div 7 + 1"
    using getWeekNumber_eq [OF assms(1) tz] by (simp only: Let_def n_def w_def)
  moreover have "iso_week d = (n + 3) div 7 + 1"
  proof -
    have "day_in_year (?s + 3) = n + 3" unfolding day_in_year_def th n_def by linarith
    then show ?thesis by (simp only: iso_week_def Let_def)
  qed
  ultimately show ?thesis unfolding w_def [symmetric] by (cases "w = 5 \<or> w = 6") auto
qed

section \<open>Jumping to a date\<close>

lemma jump_scroll:
  assumes tz: "\<And>a b. \<bar>tz a - tz b\<bar> \<le> 86400000"
  shows "jumpToDate tz now (Some d) off = (getWeekStart d - getWeekStart now) div 7"
    and "getWeekStart now + 7 * jumpToDate tz now (Some d) off = getWeekStart d"
proof -
  define q where "q = (getWeekStart d - getWeekStart now) div 7"
  have "(getWeekStart d - getWeekStart now) mod 7 = 0"
    using getDay_diff [of "getWeekStart d" "getWeekStart now"] by simp
  then have q: "getWeekStart d - getWeekStart now = 7 * q"
    unfolding q_def by (rule mult7_div)
  have "time_value tz (getWeekStart d) - time_value tz (getWeekStart now)
      = 604800000 * q + (tz (getWeekStart now) - tz (getWeekStart d))"
    by (simp add: time_value_diff [OF q])
  then show j: "jumpToDate tz now (Some d) off = (getWeekStart d - getWeekStart now) div 7"
    using tz [of "getWeekStart now" "getWeekStart d"] unfolding jumpToDate_def q_def [symmetric]
    by (auto intro!: round_quot_unique)
  show "getWeekStart now + 7 * jumpToDate tz now (Some d) off = getWeekStart d"
    using q unfolding j q_def [symmetric] by simp
qed

section \<open>Properties\<close>

text \<open>A date printed by \<open>fmtDate\<close> has ten characters and \<open>parseDate\<close> reads the same date
  back, for every date whose year has four digits.\<close>

theorem fmtDate_roundtrip:
  assumes "four_digit_year d"
  shows "parseDate (fmtDate d) = Some d \<and> length (fmtDate d) = 10"
  using assms by (simp add: parse_fmt length_fmtDate)

theorem fmtDate_roundtrip_witness:
  "parseDate (fmtDate 20500) = Some 20500 \<and> length (fmtDate 20500) = 10"
proof -
  have "four_digit_year 20500" by code_simp
  then show ?thesis by (rule fmtDate_roundtrip)
qed

text \<open>Comparing two printed dates as strings, as the range editor, the on-call view and the
  server's SQL do, compares the dates.\<close>

theorem fmtDate_order:
  assumes "four_digit_year d" and "four_digit_year e"
  shows "(fmtDate d \<le> fmtDate e \<longleftrightarrow> d \<le> e) \<and> (fmtDate d = fmtDate e \<longleftrightarrow> d = e)"
  using assms by (simp add: fmtDate_le_iff fmtDate_inj)

theorem fmtDate_order_witness:
  "(fmtDate 20453 \<le> fmtDate 20454 \<longleftrightarrow> (20453::int) \<le> 20454) \<and> (fmtDate 20453 = fmtDate 20454 \<longleftrightarrow> (20453::int) = 20454)"
proof -
  have "four_digit_year 20453" "four_digit_year 20454" by code_simp+
  then show ?thesis by (rule fmtDate_order)
qed

text \<open>\<open>getWeekStart\<close> is the unique Monday of the seven days that end with the given one,
  and applying it again changes nothing.\<close>

theorem week_start_monday:
  "{m. d - 6 \<le> m \<and> m \<le> d \<and> getDay m = 1} = {getWeekStart d} \<and>
   getWeekStart (getWeekStart d) = getWeekStart d"
proof -
  have "m = getWeekStart d" if "d - 6 \<le> m" "m \<le> d" "getDay m = 1" for m
    using that monday_unique [of m d] by simp
  then show ?thesis
    using getWeekStart_le [of d] getWeekStart_monday [of "getWeekStart d"] by auto
qed

lemma concat_weeks:
  "concat (map (\<lambda>i. getWeekDays (a + 7 * int i)) [0..<n]) = map (\<lambda>i. a + int i) [0..<7 * n]"
proof (induction n)
  case 0
  then show ?case by simp
next
  case (Suc n)
  have "[0..<7 * Suc n] = [0..<7 * n] @ map (\<lambda>i. i + 7 * n) [0..<7]"
    using upt_add_eq_append [of 0 "7 * n" 7] by (simp add: map_add_upt add.commute)
  moreover have "[0..<7] = [0, 1, 2, 3, 4, 5, 6::nat]"
    by (simp add: upt_conv_Cons)
  ultimately have "map (\<lambda>i. a + int i) [0..<7 * Suc n]
      = map (\<lambda>i. a + int i) [0..<7 * n] @ getWeekDays (a + 7 * int n)"
    by (simp add: getWeekDays_eq)
  with Suc show ?case by simp
qed

text \<open>C15: the visible weeks are consecutive: their days, week by week, are \<open>7 * window_weeks\<close>
  successive days from the Monday \<open>scrollOffset\<close> weeks away, and \<open>windowEndDate\<close>, the upper
  bound of the planning request, is the last of them.\<close>

theorem visible_window:
  assumes "0 < n"
  shows "concat (map getWeekDays (getVisibleWeeks (Number n) now off))
         = map (\<lambda>i. getWeekStart now + 7 * off + int i) [0..<7 * nat n]
       \<and> windowEndDate (getVisibleWeeks (Number n) now off) = fmtDate (getWeekStart now + 7 * off + 7 * n - 1)"
proof -
  have "getVisibleWeeks (Number n) now off = map (\<lambda>i. getWeekStart now + 7 * off + 7 * int i) [0..<nat n]"
    using assms by (simp add: getVisibleWeeks_def algebra_simps)
  then have "concat (map getWeekDays (getVisibleWeeks (Number n) now off))
      = map (\<lambda>i. getWeekStart now + 7 * off + int i) [0..<7 * nat n]"
    by (simp only: map_map comp_def concat_weeks)
  moreover have "getVisibleWeeks (Number n) now off \<noteq> []"
    using assms length_visible_weeks [of n now off] by auto
  ultimately show ?thesis
    using assms by (simp add: windowEndDate_def setDate_plus last_visible_weeks algebra_simps)
qed

theorem visible_window_witness:
  "concat (map getWeekDays (getVisibleWeeks (Number 2) 20500 1))
         = map (\<lambda>i. getWeekStart 20500 + 7 * 1 + int i) [0..<7 * nat 2]
       \<and> windowEndDate (getVisibleWeeks (Number 2) 20500 1) = fmtDate (getWeekStart 20500 + 7 * 1 + 7 * 2 - 1)"
  by (rule visible_window) simp

text \<open>Jumping to a date scrolls by a whole number of weeks so that the first visible week
  is the week of that date, whatever the time zone offsets of the two dates are.\<close>

theorem jump_shows_week:
  assumes "\<And>a b. \<bar>tz a - tz b\<bar> \<le> 86400000" and "0 < n"
  shows "hd (getVisibleWeeks (Number n) now (jumpToDate tz now (Some d) off)) = getWeekStart d"
  using jump_scroll(2) [OF assms(1)] assms(2) by (simp add: hd_visible_weeks)

theorem jump_shows_week_witness:
  "hd (getVisibleWeeks (Number 4) 20500 (jumpToDate (\<lambda>d. if d < 20540 then 3600000 else 7200000) 20500 (Some 20600) 3))
     = getWeekStart 20600"
  by (rule jump_shows_week) simp_all

text \<open>\<open>getWeekNumber\<close> does not depend on the time zone, and within a year it is the ISO week
  number, except that it is one higher throughout every year that starts on a Friday or a
  Saturday.\<close>

theorem week_number_iso:
  assumes "100 \<le> getFullYear (getWeekStart d)"
    and "\<And>a b. \<bar>tz a - tz b\<bar> \<le> 86400000"
    and "getFullYear (getWeekStart d + 3) = getFullYear (getWeekStart d)"
  shows "getWeekNumber tz d =
     iso_week d + (if getDay (day_from_year (getFullYear (getWeekStart d))) \<in> {5, 6} then 1 else 0)"
  using assms by (rule week_number_vs_iso)

theorem week_number_iso_witness: "getWeekNumber (\<lambda>_. 0) 18700 = iso_week 18700 + 1"
proof -
  have "100 \<le> getFullYear (getWeekStart 18700)"
    "getFullYear (getWeekStart 18700 + 3) = getFullYear (getWeekStart 18700)"
    "getDay (day_from_year (getFullYear (getWeekStart 18700))) \<in> {5, 6}"
    by code_simp+
  then show ?thesis
    using week_number_iso [of 18700 "\<lambda>_. 0"] by simp
qed

end
