(* ===== verification/Trimester.thy ===== *)
theory Trimester
  imports WeekHelpers
begin

text \<open>
  The weeks of the on-call view: the Mondays of a calendar trimester (three months), with
  extra weeks added before and after. Proved here: the loops terminate and never fail on
  four-digit years, the weeks are consecutive Mondays, and without extra weeks they are
  exactly the Mondays of the trimester, so that the four trimesters share out the Mondays
  of the year.
\<close>

section \<open>The weeks of a trimester\<close>

text \<open>The loop \<open>while (cur <= triEnd)\<close>.\<close>

function weeks_upto :: "date \<Rightarrow> date \<Rightarrow> jsstring list" where
  "weeks_upto cur triEnd =
     (if cur \<le> triEnd then fmtDate cur # weeks_upto (setDate cur (getDate cur + 7)) triEnd else [])"
  by pat_completeness auto
termination
  by (relation "measure (\<lambda>(cur, triEnd). nat (triEnd + 1 - cur))") (auto simp: setDate_plus)

declare weeks_upto.simps [simp del]

text \<open>The two loops that add extra weeks; \<open>None\<close> is the exception on an unparsable week.\<close>

fun extend_before :: "nat \<Rightarrow> jsstring list \<Rightarrow> jsstring list option" where
  "extend_before 0 weeks = Some weeks"
| "extend_before (Suc n) [] = None"
| "extend_before (Suc n) (w # weeks) =
     (case parseDate w of
        None \<Rightarrow> None
      | Some x \<Rightarrow> extend_before n (fmtDate (setDate x (getDate x - 7)) # w # weeks))"

fun extend_after :: "nat \<Rightarrow> jsstring list \<Rightarrow> jsstring list option" where
  "extend_after 0 weeks = Some weeks"
| "extend_after (Suc n) weeks =
     (if weeks = [] then None
      else case parseDate (last weeks) of
        None \<Rightarrow> None
      | Some x \<Rightarrow> extend_after n (weeks @ [fmtDate (setDate x (getDate x + 7))]))"

definition triFirstMonday :: "int \<Rightarrow> int \<Rightarrow> date" where
  "triFirstMonday year tri =
     (let triStart = new_date year (tri * 3) 1;
          dow = (getDay triStart + 6) mod 7;
          mon = setDate triStart (getDate triStart - dow)
      in if mon < triStart then setDate mon (getDate mon + 7) else mon)"

definition trimesterWeeks :: "int \<Rightarrow> int \<Rightarrow> nat \<Rightarrow> nat \<Rightarrow> jsstring list option" where
  "trimesterWeeks year tri extraBefore extraAfter =
     (let triEnd = new_date year (tri * 3 + 3) 0
      in Option.bind (extend_before extraBefore (weeks_upto (triFirstMonday year tri) triEnd))
           (extend_after extraAfter))"

section \<open>The loops\<close>

lemma weeks_upto_eq:
  "weeks_upto cur e = map (\<lambda>i. fmtDate (cur + 7 * int i)) [0..<nat ((e - cur) div 7 + 1)]"
proof (induction cur e rule: weeks_upto.induct)
  case (1 cur e)
  show ?case
  proof (cases "cur \<le> e")
    case True
    have "(e - cur) div 7 = (e - (cur + 7) + 7) div 7"
      by (rule arg_cong [where f = "\<lambda>x. x div 7"]) simp
    then have "(e - cur) div 7 = (e - (cur + 7)) div 7 + 1"
      by (simp only: div_add_self2 zero_neq_numeral [symmetric] not_False_eq_True)
    moreover have "0 \<le> (e - cur) div 7"
      using True by (simp add: pos_imp_zdiv_nonneg_iff)
    ultimately have n: "nat ((e - cur) div 7 + 1) = Suc (nat ((e - (cur + 7)) div 7 + 1))"
      by simp
    have "weeks_upto cur e = fmtDate cur # weeks_upto (cur + 7) e"
      using True by (simp add: weeks_upto.simps [of cur e] setDate_plus)
    also have "\<dots> = fmtDate cur # map (\<lambda>i. fmtDate (cur + 7 + 7 * int i)) [0..<nat ((e - (cur + 7)) div 7 + 1)]"
      using "1.IH" True by (simp add: setDate_plus)
    also have "\<dots> = map (\<lambda>i. fmtDate (cur + 7 * int i)) [0..<Suc (nat ((e - (cur + 7)) div 7 + 1))]"
      by (simp only: upt_conv_Cons zero_less_Suc map_Suc_upt [symmetric] list.map map_map o_def) (simp add: add_ac)
    finally show ?thesis by (simp only: n)
  next
    case False
    then have "(e - cur) div 7 < 0"
      by (simp add: neg_imp_zdiv_neg_iff pos_imp_zdiv_neg_iff)
    with False show ?thesis by (simp add: weeks_upto.simps [of cur e])
  qed
qed

lemma map_upt_prepend: "map f [0..<Suc k] = f 0 # map (\<lambda>i. f (Suc i)) [0..<k]"
  by (simp only: upt_conv_Cons zero_less_Suc map_Suc_upt [symmetric] list.map map_map o_def)

lemma extend_before_eq:
  assumes "0 < k" "four_digit_year (a - 7 * int n)" "four_digit_year a"
  shows "extend_before n (map (\<lambda>i. fmtDate (a + 7 * int i)) [0..<k])
       = Some (map (\<lambda>i. fmtDate (a - 7 * int n + 7 * int i)) [0..<k + n])"
  using assms
proof (induction n arbitrary: a k)
  case 0
  then show ?case by simp
next
  case (Suc n)
  obtain j where k: "k = Suc j" using Suc.prems(1) by (cases k) auto
  have four: "four_digit_year (a - 7)"
    using Suc.prems(2,3) by (rule four_digit_convex) auto
  have "extend_before (Suc n) (map (\<lambda>i. fmtDate (a + 7 * int i)) [0..<k])
      = extend_before n (map (\<lambda>i. fmtDate (a - 7 + 7 * int i)) [0..<Suc k])"
    using Suc.prems(3)
    by (simp only: k map_upt_prepend extend_before.simps of_nat_0 mult_zero_right add_0_right parse_fmt
        option.case setDate_minus) (simp add: algebra_simps)
  also have "\<dots> = Some (map (\<lambda>i. fmtDate (a - 7 - 7 * int n + 7 * int i)) [0..<Suc k + n])"
    using Suc.prems four by (intro Suc.IH) (auto simp: algebra_simps)
  finally show ?case by (simp add: algebra_simps)
qed

lemma extend_after_eq:
  assumes "0 < k" "four_digit_year (a + 7 * int (k - 1 + n))" "four_digit_year a"
  shows "extend_after n (map (\<lambda>i. fmtDate (a + 7 * int i)) [0..<k])
       = Some (map (\<lambda>i. fmtDate (a + 7 * int i)) [0..<k + n])"
  using assms
proof (induction n arbitrary: k)
  case 0
  then show ?case by simp
next
  case (Suc n)
  obtain j where k: "k = Suc j" using Suc.prems(1) by (cases k) auto
  have four: "four_digit_year (a + 7 * int j)"
    using Suc.prems(3,2) by (rule four_digit_convex) (auto simp: k)
  have "extend_after (Suc n) (map (\<lambda>i. fmtDate (a + 7 * int i)) [0..<k])
      = extend_after n (map (\<lambda>i. fmtDate (a + 7 * int i)) [0..<Suc k])"
    using four by (simp add: k parse_fmt setDate_plus) (simp add: algebra_simps)
  also have "\<dots> = Some (map (\<lambda>i. fmtDate (a + 7 * int i)) [0..<Suc k + n])"
    using Suc.prems by (intro Suc.IH) (auto simp: k)
  finally show ?case by simp
qed

section \<open>The trimester\<close>

definition tri_start :: "int \<Rightarrow> int \<Rightarrow> date" where
  "tri_start year tri = day_from_year year + month_start (is_leap year) (3 * tri)"

lemma triFirstMonday_props:
  assumes "100 \<le> year" "0 \<le> tri" "tri \<le> 3"
  shows "getDay (triFirstMonday year tri) = 1"
    "tri_start year tri \<le> triFirstMonday year tri" "triFirstMonday year tri < tri_start year tri + 7"
proof -
  have s: "new_date year (tri * 3) 1 = tri_start year tri"
    using assms by (simp add: new_date_def make_day_month tri_start_def mult.commute)
  have f: "triFirstMonday year tri =
      (let m = getWeekStart (tri_start year tri)
       in if m < tri_start year tri then m + 7 else m)"
    using setDate_plus [of "tri_start year tri" "- ((getDay (tri_start year tri) + 6) mod 7)"]
    by (simp add: triFirstMonday_def s Let_def getWeekStart_eq setDate_plus)
  show "getDay (triFirstMonday year tri) = 1"
    using getDay_weeks [of "getWeekStart (tri_start year tri)" 1] by (simp add: f Let_def)
  show "tri_start year tri \<le> triFirstMonday year tri" "triFirstMonday year tri < tri_start year tri + 7"
    using getWeekStart_le [of "tri_start year tri"] by (auto simp: f Let_def)
qed

lemma triEnd_eq:
  assumes "100 \<le> year" "0 \<le> tri" "tri \<le> 3"
  shows "new_date year (tri * 3 + 3) 0 = tri_start year (tri + 1) - 1"
proof (cases "tri = 3")
  case True
  have "day_from_year (year + 1) = day_from_year year + month_start (is_leap year) 12"
    using is_leap_Suc [of year] by (simp add: year_len_def month_start_def)
  then show ?thesis
    using True assms by (simp add: new_date_def make_day_def tri_start_def) (simp add: month_start_def)
next
  case False
  then show ?thesis
    using assms by (simp add: new_date_def make_day_month tri_start_def algebra_simps)
qed

lemma in_trimester_iff:
  assumes "0 \<le> tri" "tri \<le> 3"
  shows "tri_start year tri \<le> d \<and> d < tri_start year (tri + 1)
     \<longleftrightarrow> getFullYear d = year \<and> getMonth d div 3 = tri"
proof
  assume *: "tri_start year tri \<le> d \<and> d < tri_start year (tri + 1)"
  have b: "0 \<le> month_start (is_leap year) (3 * tri)"
    "month_start (is_leap year) (3 * (tri + 1)) \<le> year_len year"
    using month_start_mono [of 0 "3 * tri" "is_leap year"] month_start_mono [of "3 * (tri + 1)" 12 "is_leap year"]
      assms by (simp_all add: month_start_def year_len_def)
  have y: "getFullYear d = year"
    unfolding getFullYear_def using * b is_leap_Suc [of year]
    by (intro year_from_day_unique) (auto simp: tri_start_def)
  have m: "month_start (is_leap year) (getMonth d) \<le> day_in_year d"
    "day_in_year d < month_start (is_leap year) (getMonth d + 1)"
    using getDate_bounds [of d] by (simp_all add: getDate_def month_len_def y)
  have k: "month_start (is_leap year) (3 * tri) \<le> day_in_year d"
    "day_in_year d < month_start (is_leap year) (3 * (tri + 1))"
    using * by (simp_all add: day_in_year_def y tri_start_def)
  have "\<not> getMonth d + 1 \<le> 3 * tri" "\<not> 3 * (tri + 1) \<le> getMonth d"
    using m k month_start_mono [of "getMonth d + 1" "3 * tri" "is_leap year"]
      month_start_mono [of "3 * (tri + 1)" "getMonth d" "is_leap year"] by auto
  then have "getMonth d div 3 = tri" by (intro int_div_pos_eq [where r = "getMonth d - 3 * tri"]) auto
  with y show "getFullYear d = year \<and> getMonth d div 3 = tri" by simp
next
  assume *: "getFullYear d = year \<and> getMonth d div 3 = tri"
  then have "3 * tri \<le> getMonth d" "getMonth d + 1 \<le> 3 * (tri + 1)" by presburger+
  then have "month_start (is_leap year) (3 * tri) \<le> month_start (is_leap year) (getMonth d)"
    "month_start (is_leap year) (getMonth d + 1) \<le> month_start (is_leap year) (3 * (tri + 1))"
    by (auto intro: month_start_mono)
  moreover have "month_start (is_leap year) (getMonth d) \<le> day_in_year d"
    "day_in_year d < month_start (is_leap year) (getMonth d + 1)"
    using getDate_bounds [of d] * by (simp_all add: getDate_def month_len_def)
  ultimately show "tri_start year tri \<le> d \<and> d < tri_start year (tri + 1)"
    using * by (simp add: tri_start_def day_in_year_def)
qed

lemma tri_start_Suc: "0 \<le> tri \<Longrightarrow> tri \<le> 3 \<Longrightarrow>
    tri_start year tri + 90 \<le> tri_start year (tri + 1) \<and> tri_start year (tri + 1) \<le> tri_start year tri + 92"
proof -
  assume "0 \<le> tri" "tri \<le> 3"
  then consider "tri = 0" | "tri = 1" | "tri = 2" | "tri = 3" by linarith
  then show ?thesis by cases (simp_all add: tri_start_def month_start_def Let_def)
qed

text \<open>The number of Mondays of a trimester.\<close>

definition tri_count :: "int \<Rightarrow> int \<Rightarrow> nat" where
  "tri_count year tri = nat ((tri_start year (tri + 1) - 1 - triFirstMonday year tri) div 7 + 1)"

lemma tri_count_bounds:
  assumes "100 \<le> year" "0 \<le> tri" "tri \<le> 3"
  shows "12 \<le> tri_count year tri" "tri_count year tri \<le> 14"
proof -
  let ?k = "tri_start year (tri + 1) - 1 - triFirstMonday year tri"
  have "83 \<le> ?k" "?k \<le> 91"
    using triFirstMonday_props [OF assms] tri_start_Suc [OF assms(2,3), of year] by auto
  then have "11 \<le> ?k div 7" "?k div 7 \<le> 13" by presburger+
  then show "12 \<le> tri_count year tri" "tri_count year tri \<le> 14"
    by (simp_all add: tri_count_def)
qed

lemma trimester_weeks_eq:
  assumes "100 \<le> year" "0 \<le> tri" "tri \<le> 3"
    and "four_digit_year (triFirstMonday year tri - 7 * int eb)"
    and "four_digit_year (triFirstMonday year tri + 7 * int (tri_count year tri - 1 + ea))"
  shows "trimesterWeeks year tri eb ea =
     Some (map (\<lambda>i. fmtDate (triFirstMonday year tri - 7 * int eb + 7 * int i))
            [0..<tri_count year tri + eb + ea])"
proof -
  let ?f = "triFirstMonday year tri" and ?n = "tri_count year tri"
  have n: "0 < ?n" using tri_count_bounds [OF assms(1-3)] by simp
  have four: "four_digit_year ?f"
    using assms(4,5) by (rule four_digit_convex) auto
  have "weeks_upto ?f (new_date year (tri * 3 + 3) 0) = map (\<lambda>i. fmtDate (?f + 7 * int i)) [0..<?n]"
    by (simp add: weeks_upto_eq triEnd_eq [OF assms(1-3)] tri_count_def)
  then have "extend_before eb (weeks_upto ?f (new_date year (tri * 3 + 3) 0))
      = Some (map (\<lambda>i. fmtDate (?f - 7 * int eb + 7 * int i)) [0..<?n + eb])"
    using extend_before_eq [OF n assms(4) four] by simp
  moreover have "extend_after ea (map (\<lambda>i. fmtDate (?f - 7 * int eb + 7 * int i)) [0..<?n + eb])
      = Some (map (\<lambda>i. fmtDate (?f - 7 * int eb + 7 * int i)) [0..<?n + eb + ea])"
    using n assms(4,5) by (intro extend_after_eq) (auto simp: of_nat_diff algebra_simps)
  ultimately show ?thesis by (simp add: trimesterWeeks_def Let_def)
qed

lemma mondays_of_trimester:
  assumes "100 \<le> year" "0 \<le> tri" "tri \<le> 3"
  shows "(\<lambda>i. triFirstMonday year tri + 7 * int i) ` {0..<tri_count year tri}
       = {m. getDay m = 1 \<and> getFullYear m = year \<and> getMonth m div 3 = tri}"
    (is "?L = ?R")
proof
  let ?f = "triFirstMonday year tri" and ?e = "tri_start year (tri + 1) - 1"
  note f = triFirstMonday_props [OF assms]
  show "?L \<subseteq> ?R"
  proof
    fix m assume "m \<in> ?L"
    then obtain i where m: "m = ?f + 7 * int i" and i: "i < tri_count year tri" by auto
    have "int i \<le> (?e - ?f) div 7" using i unfolding tri_count_def by linarith
    then have "m \<le> ?e" unfolding m by presburger
    then have "tri_start year tri \<le> m \<and> m < tri_start year (tri + 1)"
      using f by (simp add: m)
    then show "m \<in> ?R"
      using in_trimester_iff [OF assms(2,3), of year m] f(1) by (simp add: m getDay_weeks)
  qed
  show "?R \<subseteq> ?L"
  proof
    fix m assume m: "m \<in> ?R"
    then have r: "tri_start year tri \<le> m" "m \<le> ?e"
      using in_trimester_iff [OF assms(2,3), of year m] by auto
    have "(getDay m - getDay ?f) mod 7 = (m - ?f) mod 7" by (rule getDay_diff)
    then have z: "(m - ?f) mod 7 = 0" using m f(1) by simp
    have "0 \<le> m - ?f" using z r(1) f(3) by presburger
    moreover have "(m - ?f) div 7 \<le> (?e - ?f) div 7" using r(2) by (intro zdiv_mono1) auto
    moreover have "m = ?f + 7 * ((m - ?f) div 7)" using z by presburger
    ultimately show "m \<in> ?L"
      by (intro image_eqI [of _ _ "nat ((m - ?f) div 7)"]) (auto simp: tri_count_def pos_imp_zdiv_nonneg_iff)
  qed
qed

section \<open>Properties\<close>

text \<open>Without extra weeks, the trimester view lists exactly the Mondays that lie in the
  trimester, each once and in order, and there are 12 to 14 of them.\<close>

theorem trimester_exact:
  assumes "1000 \<le> year" and "year \<le> 9999" and "0 \<le> tri" and "tri \<le> 3"
  shows "\<exists>ms. trimesterWeeks year tri 0 0 = Some (map fmtDate ms)
    \<and> set ms = {m. getDay m = 1 \<and> getFullYear m = year \<and> getMonth m div 3 = tri}
    \<and> sorted_wrt (<) ms \<and> 12 \<le> length ms \<and> length ms \<le> 14"
proof -
  let ?a = "triFirstMonday year tri" and ?n = "tri_count year tri"
  let ?ms = "map (\<lambda>i. ?a + 7 * int i) [0..<?n]"
  have y: "100 \<le> year" using assms(1) by simp
  have n: "12 \<le> ?n" "?n \<le> 14" using tri_count_bounds [OF y assms(3,4)] by auto
  have set: "set ?ms = {m. getDay m = 1 \<and> getFullYear m = year \<and> getMonth m div 3 = tri}"
    using mondays_of_trimester [OF y assms(3,4)] by simp
  have year_in: "four_digit_year m" if "m \<in> set ?ms" for m
    using that assms(1,2) unfolding set four_digit_year_def by simp
  have "four_digit_year (?a + 7 * int i)" if "i < ?n" for i
    using that by (intro year_in) auto
  from this [of 0] this [of "?n - 1"]
  have "four_digit_year (?a - 7 * int 0)" "four_digit_year (?a + 7 * int (?n - 1 + 0))"
    using n by simp_all
  then have "trimesterWeeks year tri 0 0 = Some (map fmtDate ?ms)"
    using trimester_weeks_eq [OF y assms(3,4), of 0 0] by (simp add: comp_def)
  moreover have "sorted_wrt (<) ?ms"
    by (simp add: sorted_wrt_map sorted_wrt_upt [THEN sorted_wrt_mono_rel [rotated]])
  ultimately show ?thesis
    using set n by (intro exI [of _ ?ms]) simp
qed

theorem trimester_exact_witness:
  "\<exists>ms. trimesterWeeks 2026 1 0 0 = Some (map fmtDate ms)
    \<and> set ms = {m. getDay m = 1 \<and> getFullYear m = 2026 \<and> getMonth m div 3 = 1}
    \<and> sorted_wrt (<) ms \<and> 12 \<le> length ms \<and> length ms \<le> 14"
  by (rule trimester_exact) simp_all

text \<open>Extra weeks extend the list on both sides by consecutive Mondays, and both extension
  loops return a list.\<close>

theorem trimester_extended:
  assumes "1000 \<le> year" and "year \<le> 9999" and "0 \<le> tri" and "tri \<le> 3"
    and "four_digit_year (triFirstMonday year tri - 7 * int before)"
    and "four_digit_year (triFirstMonday year tri + 7 * int (tri_count year tri - 1 + after))"
  shows "trimesterWeeks year tri before after =
     Some (map (\<lambda>i. fmtDate (triFirstMonday year tri - 7 * int before + 7 * int i))
            [0..<tri_count year tri + before + after])"
  using assms by (intro trimester_weeks_eq) simp_all

theorem trimester_extended_witness:
  "trimesterWeeks 2026 0 1 2 =
     Some (map (\<lambda>i. fmtDate (triFirstMonday 2026 0 - 7 * int 1 + 7 * int i))
            [0..<tri_count 2026 0 + 1 + 2])"
proof (rule trimester_extended)
  show "four_digit_year (triFirstMonday 2026 0 - 7 * int 1)" by code_simp
  show "four_digit_year (triFirstMonday 2026 0 + 7 * int (tri_count 2026 0 - 1 + 2))" by code_simp
qed simp_all

end
