(* ===== verification/JsDict.thy ===== *)
theory JsDict
  imports JsPrelude "HOL-Library.Multiset"
begin

text \<open>
  JavaScript objects used as dictionaries: association lists in insertion order, since
  \<open>Object.keys\<close> and \<open>Object.entries\<close> enumerate string keys in that order (the keys that
  \<open>app.js\<close> enumerates are slot keys, dates and category names, never integer-like).
  \<open>o[k]\<close>, \<open>o[k] = v\<close> and \<open>delete o[k]\<close> are \<open>dict_get\<close>, \<open>dict_set\<close> and \<open>dict_del\<close>.
  The locale \<open>slot_store\<close> states what the planning clients rely on of any store of
  half-day slots (a lookup after a write), whatever the store keeps of a value; the
  locale \<open>keyed_store\<close> is the case where it keeps the value itself, and dictionaries
  are its model. The Go planning table interprets \<open>slot_store\<close> in its own theory.
\<close>

type_synonym ('k, 'v) dict = "('k \<times> 'v) list"

definition dict_get :: "('k, 'v) dict \<Rightarrow> 'k \<Rightarrow> 'v option" where
  "dict_get d k = map_of d k"

fun dict_set :: "'k \<Rightarrow> 'v \<Rightarrow> ('k, 'v) dict \<Rightarrow> ('k, 'v) dict" where
  "dict_set k v [] = [(k, v)]"
| "dict_set k v ((j, w) # d) = (if j = k then (k, v) # d else (j, w) # dict_set k v d)"

definition dict_del :: "'k \<Rightarrow> ('k, 'v) dict \<Rightarrow> ('k, 'v) dict" where
  "dict_del k d = filter (\<lambda>p. fst p \<noteq> k) d"

definition dict_keys :: "('k, 'v) dict \<Rightarrow> 'k list" where
  "dict_keys d = map fst d"

definition dict_ok :: "('k, 'v) dict \<Rightarrow> bool" where
  "dict_ok d \<longleftrightarrow> distinct (map fst d)"

text \<open>\<open>o[k] || default\<close> for a dictionary of objects or arrays.\<close>

definition dict_get_or :: "'v \<Rightarrow> ('k, 'v) dict \<Rightarrow> 'k \<Rightarrow> 'v" where
  "dict_get_or dflt d k = (case dict_get d k of None \<Rightarrow> dflt | Some v \<Rightarrow> v)"

section \<open>Laws of the dictionary operations\<close>

lemma dict_get_Nil [simp]: "dict_get [] k = None"
  by (simp add: dict_get_def)

lemma dict_get_Cons [simp]: "dict_get ((j, v) # d) k = (if j = k then Some v else dict_get d k)"
  by (simp add: dict_get_def)

lemma dict_get_set [simp]: "dict_get (dict_set k v d) j = (if j = k then Some v else dict_get d j)"
  by (induction d) auto

lemma dict_get_del [simp]: "dict_get (dict_del k d) j = (if j = k then None else dict_get d j)"
  by (induction d) (auto simp: dict_del_def)

lemma set_keys_dict_set: "fst ` set (dict_set k v d) = insert k (fst ` set d)"
  by (induction k v d rule: dict_set.induct) (simp_all add: insert_commute)

lemma dict_get_None_iff: "dict_get d k = None \<longleftrightarrow> k \<notin> fst ` set d"
  by (simp add: dict_get_def map_of_eq_None_iff)

lemma dict_ok_Nil [simp, intro]: "dict_ok []"
  by (simp add: dict_ok_def)

lemma dict_ok_set [simp, intro]: "dict_ok d \<Longrightarrow> dict_ok (dict_set k v d)"
proof (induction d)
  case Nil
  then show ?case by (simp add: dict_ok_def)
next
  case (Cons p d)
  obtain j w where p: "p = (j, w)" by force
  have "dict_ok d" using Cons.prems by (simp add: dict_ok_def)
  then have IH: "distinct (map fst (dict_set k v d))"
    using Cons.IH by (simp add: dict_ok_def)
  have "j \<noteq> k \<Longrightarrow> j \<notin> fst ` set (dict_set k v d)"
    using Cons.prems by (simp add: p dict_ok_def set_keys_dict_set)
  with IH Cons.prems show ?case
    by (auto simp: p dict_ok_def)
qed

lemma dict_ok_del [simp, intro]: "dict_ok d \<Longrightarrow> dict_ok (dict_del k d)"
  by (simp add: dict_ok_def dict_del_def distinct_map_filter)

lemma dict_get_or_set [simp]:
  "dict_get_or dflt (dict_set k v d) j = (if j = k then v else dict_get_or dflt d j)"
  by (simp add: dict_get_or_def)

lemma dict_set_same: "dict_get d k = Some v \<Longrightarrow> dict_set k v d = d"
  by (induction d) (auto split: if_splits)

lemma keys_dict_set_present: "k \<in> fst ` set d \<Longrightarrow> map fst (dict_set k v d) = map fst d"
  by (induction k v d rule: dict_set.induct) auto

section \<open>The interface of a store of slots\<close>

locale slot_store =
  fixes get :: "'s \<Rightarrow> 'k \<Rightarrow> 'v option"
    and put :: "'k \<Rightarrow> 'v \<Rightarrow> 's \<Rightarrow> 's"
    and del :: "'k \<Rightarrow> 's \<Rightarrow> 's"
    and kept :: "'v \<Rightarrow> 'v option"
    and ok :: "'s \<Rightarrow> bool"
  assumes get_put: "get (put k v s) j = (if j = k then kept v else get s j)"
    and get_del: "get (del k s) j = (if j = k then None else get s j)"
    and ok_put: "ok s \<Longrightarrow> ok (put k v s)"
    and ok_del: "ok s \<Longrightarrow> ok (del k s)"
begin

text \<open>A batch of writes, \<open>None\<close> to delete and \<open>Some v\<close> to store, in the order they arrive.\<close>

lemma get_batch:
  "distinct (map fst ws) \<Longrightarrow>
   get (fold (\<lambda>(k, w). case w of None \<Rightarrow> del k | Some v \<Rightarrow> put k v) ws s) j =
     (case map_of ws j of None \<Rightarrow> get s j | Some None \<Rightarrow> None | Some (Some v) \<Rightarrow> kept v)"
proof (induction ws arbitrary: s)
  case Nil
  then show ?case by simp
next
  case (Cons p ws)
  obtain k w where p: "p = (k, w)" by force
  have "map_of ws k = None"
    using Cons.prems by (simp add: p map_of_eq_None_iff)
  with Cons show ?case
    by (auto simp: p get_put get_del split: option.splits)
qed

text \<open>Writes to distinct keys commute: only their set matters, not the order of arrival.\<close>

lemma batch_order_irrelevant:
  assumes "distinct (map fst ws)" and "mset ws = mset ws'"
  shows "get (fold (\<lambda>(k, w). case w of None \<Rightarrow> del k | Some v \<Rightarrow> put k v) ws s) j =
         get (fold (\<lambda>(k, w). case w of None \<Rightarrow> del k | Some v \<Rightarrow> put k v) ws' s) j"
proof -
  have "mset (map fst ws) = mset (map fst ws')"
    using assms(2) by simp
  then have d: "distinct (map fst ws')"
    using assms(1) mset_eq_imp_distinct_iff by blast
  have "map_of ws = map_of ws'"
    using assms d by (metis map_of_inject_set mset_eq_setD)
  with assms(1) d show ?thesis by (simp add: get_batch)
qed

lemma ok_batch:
  "ok s \<Longrightarrow> ok (fold (\<lambda>(k, w). case w of None \<Rightarrow> del k | Some v \<Rightarrow> put k v) ws s)"
  by (induction ws arbitrary: s) (auto simp: ok_put ok_del split: option.splits)

end

locale keyed_store = slot_store get put del Some ok
  for get :: "'s \<Rightarrow> 'k \<Rightarrow> 'v option" and put del ok +
  fixes empty :: 's
  assumes get_empty: "get empty k = None"
    and ok_empty: "ok empty"
begin

text \<open>Loading a list of entries: the last entry of a key wins.\<close>

lemma get_load:
  "get (fold (\<lambda>(k, v). put k v) es s) j =
     (case map_of (rev es) j of None \<Rightarrow> get s j | Some v \<Rightarrow> Some v)"
  by (induction es arbitrary: s)
    (auto simp: get_put map_add_def split: option.splits)

lemma get_load_empty: "get (fold (\<lambda>(k, v). put k v) es empty) j = map_of (rev es) j"
  by (simp add: get_load get_empty split: option.splits)

lemma ok_load: "ok s \<Longrightarrow> ok (fold (\<lambda>(k, v). put k v) es s)"
  by (induction es arbitrary: s) (auto simp: ok_put)

end

text \<open>A local copy of a store, changed by the same operations as the original.\<close>

locale store_mirror =
  here: slot_store get_here put_here del_here kept ok_here +
  there: slot_store get_there put_there del_there kept ok_there
  for get_here :: "'a \<Rightarrow> 'k \<Rightarrow> 'v option" and put_here del_here kept ok_here
    and get_there :: "'b \<Rightarrow> 'k \<Rightarrow> 'v option" and put_there del_there ok_there
begin

lemma mirror_put: "get_here a j = get_there b j \<Longrightarrow> get_here (put_here k v a) j = get_there (put_there k v b) j"
  by (simp add: here.get_put there.get_put)

lemma mirror_del: "get_here a j = get_there b j \<Longrightarrow> get_here (del_here k a) j = get_there (del_there k b) j"
  by (simp add: here.get_del there.get_del)

lemma mirror_move:
  "get_here a j = get_there b j \<Longrightarrow>
   get_here (put_here k v (del_here k' a)) j = get_there (put_there k v (del_there k' b)) j"
  by (intro mirror_put mirror_del)

end

interpretation objs: keyed_store dict_get dict_set dict_del dict_ok "[]"
  by unfold_locales auto

lemma map_of_rev_distinct: "distinct (map fst es) \<Longrightarrow> map_of (rev es) = map_of es"
  by (rule map_of_inject_set [THEN iffD2]) (auto simp: rev_map [symmetric])

end
