(* ===== verification/AppState.thy ===== *)
theory AppState
  imports JsDict WeekHelpers
begin

text \<open>
  The data of the application (\<open>internal/model/model.go\<close> gives the JSON shapes, \<open>app.js\<close>
  reads them) and the selectors over the global \<open>State\<close> object: people, projects,
  planning slots by key, roles, holidays. Strings stay strings where the code compares
  strings; \<open>null\<close> objects and arrays are \<open>None\<close>.
\<close>

record away =
  away_type :: jsstring
  away_note :: jsstring
  away_tentative :: bool

record incident =
  incident_text :: jsstring

record proj_assign =
  pa_name :: jsstring
  pa_pct :: int

record slot_data =
  sd_state :: jsstring
  sd_away :: "away option"
  sd_incident :: "incident option"
  sd_projects :: "proj_assign list option"
  sd_run :: bool
  sd_run_note :: jsstring
  sd_remote :: bool
  sd_offsite :: bool

record person =
  p_id :: jsstring
  p_name :: jsstring
  p_role :: jsstring
  p_sub_team :: jsstring
  p_avatar_emoji :: jsstring
  p_avatar_color :: jsstring
  p_start_date :: jsstring
  p_default_projects :: "jsstring list"
  p_status :: jsstring
  p_archived_date :: jsstring
  p_is_guest :: bool
  p_ics_token :: jsstring

record project =
  pr_id :: jsstring
  pr_name :: jsstring
  pr_emoji :: jsstring
  pr_description :: jsstring
  pr_url :: jsstring
  pr_start_date :: jsstring
  pr_end_date :: jsstring
  pr_status :: jsstring
  pr_team_lead :: jsstring

record settings =
  window_weeks :: js_num
  prune_weeks :: js_num
  week_starts :: jsstring
  run_mode :: jsstring
  run_target_persons :: js_num
  set_theme :: jsstring
  export_counter :: int
  holiday_country :: jsstring

record oncall_entry =
  oe_person_id :: jsstring
  oe_comment :: jsstring

record holiday =
  h_date :: jsstring
  h_label :: jsstring
  h_country :: jsstring

record user =
  u_username :: jsstring
  u_role :: jsstring

text \<open>An event of the activity log; an absent text is empty, an absent list or number \<open>None\<close>.\<close>

record event_meta =
  m_person_ids :: "jsstring list option"
  m_person_id :: jsstring
  m_person_name :: jsstring
  m_date :: jsstring
  m_slot :: jsstring
  m_week_start :: jsstring
  m_from_week :: jsstring
  m_to_week :: jsstring
  m_start_date :: jsstring
  m_start_slot :: jsstring
  m_end_date :: jsstring
  m_end_slot :: jsstring
  m_state :: jsstring
  m_away_type :: jsstring
  m_away_note :: jsstring
  m_incident_text :: jsstring
  m_projects :: "jsstring list option"
  m_project_name :: jsstring
  m_run :: bool
  m_run_note :: jsstring
  m_remote :: bool
  m_offsite :: bool
  m_weeks_old :: "int option"
  m_deleted :: "int option"
  m_created :: "int option"
  m_updated :: "int option"
  m_people_count :: "int option"
  m_keys :: "jsstring list option"

record event =
  ev_ts :: jsstring
  ev_actor :: jsstring
  ev_action :: jsstring
  ev_target :: jsstring
  ev_detail :: jsstring
  ev_meta :: "event_meta option"

record presence =
  pu_username :: jsstring
  pu_role :: jsstring
  pu_person_id :: jsstring

type_synonym planning = "(jsstring, slot_data) dict"
type_synonym snapshot = "(jsstring, slot_data option) dict"

text \<open>\<open>defaultSettings\<close>; a setting the object does not name is the empty string.\<close>

definition defaultSettings :: settings where
  "defaultSettings = \<lparr>window_weeks = Number 4, prune_weeks = Number 12, week_starts = js ''monday'', run_mode = js ''ratio'',
     run_target_persons = Number 3, set_theme = js ''dracula'', export_counter = 1, holiday_country = []\<rparr>"

section \<open>Slots by key\<close>

definition getSlotKey :: "jsstring \<Rightarrow> jsstring \<Rightarrow> jsstring \<Rightarrow> jsstring" where
  "getSlotKey personId date slot = personId @ js ''|'' @ date @ js ''|'' @ slot"

definition getSlot :: "planning \<Rightarrow> jsstring \<Rightarrow> jsstring \<Rightarrow> jsstring \<Rightarrow> slot_data option" where
  "getSlot pl personId date slot = dict_get pl (getSlotKey personId date slot)"

text \<open>\<open>k.split('|')\<close> destructured into three variables; a missing part is \<open>undefined\<close>.\<close>

definition splitSlotKey :: "jsstring \<Rightarrow> (jsstring \<times> jsstring \<times> jsstring) option" where
  "splitSlotKey k = (case js_split 124 k of a # b # c # _ \<Rightarrow> Some (a, b, c) | _ \<Rightarrow> None)"

definition plain_part :: "jsstring \<Rightarrow> bool" where
  "plain_part s \<longleftrightarrow> 124 \<notin> set s"

lemma getSlotKey_append: "getSlotKey p d s = p @ 124 # d @ 124 # s"
  by (simp add: getSlotKey_def js_def)

lemma split_getSlotKey:
  "plain_part p \<Longrightarrow> plain_part d \<Longrightarrow> plain_part s \<Longrightarrow> splitSlotKey (getSlotKey p d s) = Some (p, d, s)"
  by (simp add: splitSlotKey_def getSlotKey_append plain_part_def js_split_append js_split_no_sep)

lemma getSlotKey_inj:
  assumes "plain_part p" "plain_part d" "plain_part s" "plain_part p'" "plain_part d'" "plain_part s'"
  shows "getSlotKey p d s = getSlotKey p' d' s' \<longleftrightarrow> p = p' \<and> d = d' \<and> s = s'"
  using assms by (metis option.inject prod.inject split_getSlotKey)

lemma plain_am_pm [simp]: "plain_part (js ''am'')" "plain_part (js ''pm'')"
  by (simp_all add: plain_part_def js_def)

lemma digits_plain: "(\<And>c. c \<in> set s \<Longrightarrow> is_digit c) \<Longrightarrow> plain_part s"
  unfolding plain_part_def is_digit_def by fastforce

lemma fmtDate_plain: "plain_part (fmtDate d)"
proof -
  have i: "plain_part (str_of_int n)" for n
    using digits_plain [OF str_of_nat_are_digits] by (auto simp: plain_part_def str_of_int_def)
  have p: "plain_part (pad2 n)" for n
    using i [of n] by (auto simp: plain_part_def pad2_def pad_start2_def)
  show ?thesis
    using i p by (simp add: plain_part_def fmtDate_def js_def)
qed

section \<open>People, projects, roles\<close>

definition getActivePeople :: "person list \<Rightarrow> person list" where
  "getActivePeople people = filter (\<lambda>p. p_status p = js ''active'' \<and> \<not> p_is_guest p) people"

definition getActiveGuests :: "person list \<Rightarrow> person list" where
  "getActiveGuests people = filter (\<lambda>p. p_status p = js ''active'' \<and> p_is_guest p) people"

definition getArchivedPeople :: "person list \<Rightarrow> person list" where
  "getArchivedPeople people = filter (\<lambda>p. p_status p = js ''archived'') people"

definition getPerson :: "person list \<Rightarrow> jsstring \<Rightarrow> person option" where
  "getPerson people i = find (\<lambda>p. p_id p = i) people"

definition getProject :: "project list \<Rightarrow> jsstring \<Rightarrow> project option" where
  "getProject projects i = find (\<lambda>p. pr_id p = i) projects"

text \<open>\<open>lower\<close> is the language's \<open>toLowerCase\<close>, whose tables are Unicode's.\<close>

definition getProjectByName :: "(jsstring \<Rightarrow> jsstring) \<Rightarrow> project list \<Rightarrow> jsstring \<Rightarrow> project option" where
  "getProjectByName lower projects name = find (\<lambda>p. lower (pr_name p) = lower name) projects"

definition canEdit :: "user option \<Rightarrow> bool" where
  "canEdit u = (case u of None \<Rightarrow> False | Some u \<Rightarrow> u_role u = js ''admin'' \<or> u_role u = js ''normal'')"

definition isAdmin :: "user option \<Rightarrow> bool" where
  "isAdmin u = (case u of None \<Rightarrow> False | Some u \<Rightarrow> u_role u = js ''admin'')"

definition isHoliday :: "settings \<Rightarrow> holiday list \<Rightarrow> jsstring \<Rightarrow> jsstring option" where
  "isHoliday s holidays dateStr =
     (if holiday_country s = [] then None
      else map_option h_label
             (find (\<lambda>h. h_date h = dateStr \<and> h_country h = holiday_country s) holidays))"

text \<open>\<open>run_target_persons || 3\<close>, as the number the coverage is compared with.\<close>

definition runTarget :: "settings \<Rightarrow> int option" where
  "runTarget s = to_number (num_or (run_target_persons s) 3)"

lemma admin_can_edit: "isAdmin u \<Longrightarrow> canEdit u"
  by (auto simp: isAdmin_def canEdit_def split: option.splits)

lemma find_Some_iff2: "find P xs = Some x \<Longrightarrow> P x \<and> x \<in> set xs"
  by (induction xs) (auto split: if_splits)

lemma getPerson_id: "getPerson people i = Some p \<Longrightarrow> p_id p = i \<and> p \<in> set people"
  unfolding getPerson_def by (drule find_Some_iff2) simp

lemma people_groups_disjoint:
  "set (getActivePeople people) \<inter> set (getActiveGuests people) = {}"
  "set (getActivePeople people) \<inter> set (getArchivedPeople people) = {}"
  "set (getActiveGuests people) \<inter> set (getArchivedPeople people) = {}"
  by (auto simp: getActivePeople_def getActiveGuests_def getArchivedPeople_def)

section \<open>Properties\<close>

text \<open>A slot key determines its person, date and half-day, and \<open>split('|')\<close> gives them back,
  for identifiers without a vertical bar; printed dates and \<open>am\<close>/\<open>pm\<close> have none.\<close>

theorem slot_key_roundtrip:
  assumes "plain_part pid" and "slot = js ''am'' \<or> slot = js ''pm''"
  shows "splitSlotKey (getSlotKey pid (fmtDate d) slot) = Some (pid, fmtDate d, slot)"
  using assms by (auto intro!: split_getSlotKey fmtDate_plain)

theorem slot_key_roundtrip_witness:
  "splitSlotKey (getSlotKey (js ''p7'') (fmtDate 20500) (js ''am'')) = Some (js ''p7'', fmtDate 20500, js ''am'')"
  by (rule slot_key_roundtrip) (simp_all add: plain_part_def js_def)

end
