(* ===== verification/Color.thy ===== *)
theory Color
  imports AppState "HOL-Library.Word"
begin

text \<open>
  The colour of a project: a 32-bit hash of its name, reduced to hue, saturation and
  lightness. JavaScript's \<open>|0\<close> keeps 32-bit two's complement, \<open>>>\<close> is the arithmetic
  shift, and \<open>Math.abs\<close> works on the signed value. The hash is the polynomial of the
  name's code units in 31 modulo \<open>2 ^ 32\<close>, and the three components stay in the ranges the
  style sheet relies on for every name.
\<close>

definition hash_step :: "32 word \<Rightarrow> nat \<Rightarrow> 32 word" where
  "hash_step h c = push_bit 5 h - h + of_nat c"

definition nameHash :: "jsstring \<Rightarrow> 32 word" where
  "nameHash name = foldl hash_step 0 name"

definition hueOf :: "32 word \<Rightarrow> int" where
  "hueOf h = \<bar>sint h\<bar> mod 360"

definition satOf :: "32 word \<Rightarrow> int" where
  "satOf h = 55 + \<bar>sint (signed_drop_bit 8 h)\<bar> mod 20"

definition lightOf :: "32 word \<Rightarrow> int" where
  "lightOf h = 45 + \<bar>sint (signed_drop_bit 16 h)\<bar> mod 10"

definition projectColor :: "jsstring \<Rightarrow> jsstring option" where
  "projectColor name =
     (if name = [] then None
      else let h = nameHash name
           in Some (js ''hsl('' @ str_of_int (hueOf h) @ js '','' @ str_of_int (satOf h) @ js ''%,''
                    @ str_of_int (lightOf h) @ js ''%)''))"

text \<open>Interpolated into a string, \<open>null\<close> is printed as such.\<close>

definition show_color :: "jsstring option \<Rightarrow> jsstring" where
  "show_color c = (case c of None \<Rightarrow> js ''null'' | Some s \<Rightarrow> s)"

definition projectColorBg :: "slot_data option \<Rightarrow> jsstring option" where
  "projectColorBg sd =
     (case sd of
        None \<Rightarrow> None
      | Some d \<Rightarrow>
          (case sd_projects d of
             None \<Rightarrow> None
           | Some [] \<Rightarrow> None
           | Some [p] \<Rightarrow> projectColor (pa_name p)
           | Some (p # q # _) \<Rightarrow>
               Some (js ''linear-gradient(135deg,'' @ show_color (projectColor (pa_name p)) @ js '' 50%,''
                     @ show_color (projectColor (pa_name q)) @ js '' 50%)'')))"

section \<open>The hash\<close>

fun poly31 :: "nat \<Rightarrow> jsstring \<Rightarrow> nat" where
  "poly31 v [] = v"
| "poly31 v (c # s) = poly31 (31 * v + c) s"

lemma hash_step_of_nat: "hash_step (of_nat v) c = of_nat (31 * v + c)"
proof -
  have "push_bit 5 (of_nat v :: 32 word) = 32 * of_nat v"
    by (simp add: push_bit_eq_mult)
  then show ?thesis by (simp add: hash_step_def)
qed

lemma foldl_hash: "foldl hash_step (of_nat v) s = of_nat (poly31 v s)"
  by (induction s arbitrary: v) (simp_all add: hash_step_of_nat del: of_nat_add of_nat_mult)

lemma nameHash_poly: "nameHash name = of_nat (poly31 0 name)"
  using foldl_hash [of 0 name] by (simp add: nameHash_def)

lemma unat_nameHash: "unat (nameHash name) = poly31 0 name mod 2 ^ 32"
  by (simp add: nameHash_poly unat_of_nat)

lemma hue_range: "0 \<le> hueOf h" "hueOf h < 360"
  by (simp_all add: hueOf_def)

lemma sat_range: "55 \<le> satOf h" "satOf h < 75"
  by (simp_all add: satOf_def)

lemma light_range: "45 \<le> lightOf h" "lightOf h < 55"
  by (simp_all add: lightOf_def)

section \<open>Properties\<close>

text \<open>The colour of a project is an \<open>hsl\<close> value with hue below 360, saturation from 55 to 74
  and lightness from 45 to 54, computed from the 32-bit hash of the name, which is the
  polynomial with base 31 of its characters modulo 2^32: the shift, the subtraction and
  \<open>|0\<close> of the loop never leave that value.\<close>

theorem projectColor_hsl:
  assumes "name \<noteq> []"
  shows "\<exists>hue sat light. projectColor name = Some (js ''hsl('' @ str_of_int hue @ js '','' @ str_of_int sat
       @ js ''%,'' @ str_of_int light @ js ''%)'')
     \<and> 0 \<le> hue \<and> hue < 360 \<and> 55 \<le> sat \<and> sat < 75 \<and> 45 \<le> light \<and> light < 55
     \<and> hue = \<bar>sint (nameHash name)\<bar> mod 360 \<and> unat (nameHash name) = poly31 0 name mod 2 ^ 32"
proof -
  let ?h = "nameHash name"
  have "projectColor name = Some (js ''hsl('' @ str_of_int (hueOf ?h) @ js '','' @ str_of_int (satOf ?h)
      @ js ''%,'' @ str_of_int (lightOf ?h) @ js ''%)'')"
    using assms by (simp add: projectColor_def Let_def)
  then show ?thesis
    using hue_range [of ?h] sat_range [of ?h] light_range [of ?h] unat_nameHash [of name]
    by (intro exI [of _ "hueOf ?h"] exI [of _ "satOf ?h"] exI [of _ "lightOf ?h"]) (simp add: hueOf_def)
qed

theorem projectColor_hsl_witness:
  "\<exists>hue sat light. projectColor (js ''Apollo'') = Some (js ''hsl('' @ str_of_int hue @ js '','' @ str_of_int sat
       @ js ''%,'' @ str_of_int light @ js ''%)'')
     \<and> 0 \<le> hue \<and> hue < 360 \<and> 55 \<le> sat \<and> sat < 75 \<and> 45 \<le> light \<and> light < 55
     \<and> hue = \<bar>sint (nameHash (js ''Apollo''))\<bar> mod 360
     \<and> unat (nameHash (js ''Apollo'')) = poly31 0 (js ''Apollo'') mod 2 ^ 32"
  by (rule projectColor_hsl) (simp add: js_def)

end
