(* ===== verification/Json.thy ===== *)
theory Json
  imports AppState
begin

text \<open>
  \<open>JSON.stringify\<close> of an array of project assignments, as the merge key of a cell uses it:
  strings are quoted with the language's escapes (control characters, quotes, backslashes,
  lone surrogates), numbers printed in decimal. The reader below is a specification: it
  shows that the text determines the array and ends where the array ends, which is what
  makes a key built from it unambiguous.
\<close>

definition hex_digit :: "nat \<Rightarrow> nat" where
  "hex_digit n = (if n < 10 then 48 + n else 87 + n)"

definition json_u :: "nat \<Rightarrow> jsstring" where
  "json_u c = [92, 117, hex_digit (c div 4096 mod 16), hex_digit (c div 256 mod 16),
     hex_digit (c div 16 mod 16), hex_digit (c mod 16)]"

definition json_escape :: "nat \<Rightarrow> jsstring" where
  "json_escape c =
     (if c = 34 then [92, 34] else if c = 92 then [92, 92] else if c = 8 then [92, 98]
      else if c = 9 then [92, 116] else if c = 10 then [92, 110] else if c = 12 then [92, 102]
      else if c = 13 then [92, 114] else if c < 32 then json_u c else [c])"

definition is_lead :: "nat \<Rightarrow> bool" where
  "is_lead c \<longleftrightarrow> 55296 \<le> c \<and> c \<le> 56319"

definition is_trail :: "nat \<Rightarrow> bool" where
  "is_trail c \<longleftrightarrow> 56320 \<le> c \<and> c \<le> 57343"

text \<open>The body of a quoted string: surrogates are kept in pairs and escaped alone.\<close>

fun json_body :: "jsstring \<Rightarrow> jsstring" where
  "json_body [] = []"
| "json_body [c] = (if is_lead c \<or> is_trail c then json_u c else json_escape c)"
| "json_body (c # d # s) =
     (if is_lead c \<and> is_trail d then c # d # json_body s
      else (if is_lead c \<or> is_trail c then json_u c else json_escape c) @ json_body (d # s))"

definition json_string :: "jsstring \<Rightarrow> jsstring" where
  "json_string s = [34] @ json_body s @ [34]"

definition json_assign :: "proj_assign \<Rightarrow> jsstring" where
  "json_assign a = js ''{\"name\":'' @ json_string (pa_name a) @ js '',\"pct\":'' @ str_of_int (pa_pct a) @ js ''}''"

definition json_projects :: "proj_assign list option \<Rightarrow> jsstring" where
  "json_projects ps = (case ps of None \<Rightarrow> js ''null'' | Some as \<Rightarrow> js ''['' @ js_join (js '','') (map json_assign as) @ js '']'')"

section \<open>Reading a quoted string back\<close>

definition unhex :: "nat \<Rightarrow> nat" where
  "unhex d = (if d < 58 then d - 48 else d - 87)"

fun read_body :: "jsstring \<Rightarrow> (jsstring \<times> jsstring) option" where
  "read_body [] = None"
| "read_body (c # s) =
     (if c = 34 then Some ([], s)
      else if c = 92 then
        (case s of
           [] \<Rightarrow> None
         | e # r \<Rightarrow>
             if e = 117 then
               (case r of
                  h1 # h2 # h3 # h4 # r' \<Rightarrow>
                    map_option (\<lambda>(t, u). ((4096 * unhex h1 + 256 * unhex h2 + 16 * unhex h3 + unhex h4) # t, u))
                      (read_body r')
                | _ \<Rightarrow> None)
             else map_option (\<lambda>(t, u). ((if e = 98 then 8 else if e = 116 then 9 else if e = 110 then 10
                      else if e = 102 then 12 else if e = 114 then 13 else e) # t, u)) (read_body r))
      else map_option (\<lambda>(t, u). (c # t, u)) (read_body s))"

lemma unhex_hex_digit: "n < 16 \<Longrightarrow> unhex (hex_digit n) = n"
  by (auto simp: unhex_def hex_digit_def)

lemma read_json_u:
  assumes "c < 65536" "read_body r = Some (t, u)"
  shows "read_body (json_u c @ r) = Some (c # t, u)"
proof -
  define q1 q2 q3 where "q1 = c div 16" and "q2 = q1 div 16" and "q3 = q2 div 16"
  have q: "c div 16 = q1" "c div 256 = q2" "c div 4096 = q3"
    by (simp_all add: q1_def q2_def q3_def div_mult2_eq [symmetric])
  have "q3 < 16" using assms(1) by (simp add: q3_def q2_def q1_def div_mult2_eq [symmetric] less_mult_imp_div_less)
  moreover have "c = 16 * q1 + c mod 16" "q1 = 16 * q2 + q1 mod 16" "q2 = 16 * q3 + q2 mod 16"
    by (simp_all add: q1_def q2_def q3_def)
  ultimately have "4096 * (c div 4096) + 256 * (c div 256 mod 16) + 16 * (c div 16 mod 16) + c mod 16 = c"
    unfolding q by linarith
  moreover have "c div 4096 mod 16 = c div 4096" using \<open>q3 < 16\<close> q by simp
  ultimately have "4096 * (c div 4096 mod 16) + 256 * (c div 256 mod 16) + 16 * (c div 16 mod 16) + c mod 16 = c"
    by simp
  then show ?thesis using assms(2)
    by (simp only: json_u_def append.simps read_body.simps list.case option.map prod.case unhex_hex_digit
        pos_mod_bound mod_less_divisor zero_less_numeral) simp
qed

lemma read_json_escape:
  "read_body r = Some (t, u) \<Longrightarrow> read_body (json_escape c @ r) = Some (c # t, u)"
  by (auto simp: json_escape_def read_json_u)

lemma read_json_unit:
  "read_body r = Some (t, u) \<Longrightarrow>
   read_body ((if is_lead c \<or> is_trail c then json_u c else json_escape c) @ r) = Some (c # t, u)"
  by (auto simp: read_json_escape is_lead_def is_trail_def intro!: read_json_u)

lemma read_json_body: "read_body (json_body s @ 34 # r) = Some (s, r)"
proof (induction s rule: json_body.induct)
  case 1
  then show ?case by simp
next
  case (2 c)
  then show ?case using read_json_unit [of "34 # r" "[]" r c] by simp
next
  case (3 c d s)
  show ?case
  proof (cases "is_lead c \<and> is_trail d")
    case True
    then have "c \<noteq> 34" "c \<noteq> 92" "d \<noteq> 34" "d \<noteq> 92" by (auto simp: is_lead_def is_trail_def)
    then show ?thesis using True "3.IH"(1) by simp
  next
    case False
    then show ?thesis
      by (simp only: json_body.simps False if_False append_assoc read_json_unit [OF "3.IH"(2) [OF False]])
  qed
qed

lemma json_body_prefix: "json_body s @ 34 # r = json_body s' @ 34 # r' \<Longrightarrow> s = s' \<and> r = r'"
  using read_json_body [of s r] read_json_body [of s' r'] by (metis option.inject prod.inject)

text \<open>A printed number followed by a non-digit determines the number.\<close>

lemma str_of_nat_inj: "str_of_nat m = str_of_nat n \<Longrightarrow> m = n"
proof (induction m arbitrary: n rule: str_of_nat.induct)
  case (1 m)
  show ?case
  proof (cases "m < 10 \<or> n < 10")
    case True
    then show ?thesis using "1.prems"
      by (auto simp: str_of_nat.simps [of m] str_of_nat.simps [of n] split: if_splits)
  next
    case False
    then have "m div 10 = n div 10 \<and> m mod 10 = n mod 10"
      using 1 by (auto simp: str_of_nat.simps [of m] str_of_nat.simps [of n])
    then show ?thesis by (metis div_mult_mod_eq)
  qed
qed

lemma split_at_nondigit:
  assumes "\<And>c. c \<in> set xs \<Longrightarrow> is_digit c" "\<And>c. c \<in> set ys \<Longrightarrow> is_digit c" "\<not> is_digit u" "\<not> is_digit v"
  shows "xs @ u # r = ys @ v # r' \<Longrightarrow> xs = ys \<and> u # r = v # r'"
  using assms
proof (induction xs arbitrary: ys)
  case Nil
  then show ?case by (cases ys) auto
next
  case (Cons x xs)
  then show ?case by (cases ys) auto
qed

lemma str_of_int_prefix:
  assumes "str_of_int m @ u # r = str_of_int n @ v # r'" "\<not> is_digit u" "\<not> is_digit v"
  shows "m = n \<and> u # r = v # r'"
proof -
  have hd: "\<exists>c s. str_of_nat k = c # s \<and> is_digit c" for k
    using str_of_nat_are_digits [of _ k] str_of_nat_neq_Nil(1) [of k] by (cases "str_of_nat k") auto
  have sign: "m < 0 \<longleftrightarrow> n < 0"
  proof -
    have "(\<exists>s. str_of_int k @ w = 45 # s) \<longleftrightarrow> k < 0" for k w
      using hd [of "nat k"] by (auto simp: str_of_int_def is_digit_def)
    from this [of m "u # r"] this [of n "v # r'"] assms(1) show ?thesis by simp
  qed
  have "str_of_nat (nat \<bar>m\<bar>) @ u # r = str_of_nat (nat \<bar>n\<bar>) @ v # r'"
    using assms(1) sign by (auto simp: str_of_int_def split: if_splits)
  then have "str_of_nat (nat \<bar>m\<bar>) = str_of_nat (nat \<bar>n\<bar>) \<and> u # r = v # r'"
    by (intro split_at_nondigit) (auto simp: assms str_of_nat_are_digits)
  then have "nat \<bar>m\<bar> = nat \<bar>n\<bar>" "u # r = v # r'" using str_of_nat_inj by auto
  then show ?thesis using sign by auto
qed

section \<open>Arrays of assignments are prefix-free\<close>

lemma json_assign_prefix:
  assumes "json_assign a @ r = json_assign b @ r'"
  shows "a = b \<and> r = r'"
proof -
  have "json_body (pa_name a) @ 34 # (js '',\"pct\":'' @ str_of_int (pa_pct a) @ js ''}'' @ r)
      = json_body (pa_name b) @ 34 # (js '',\"pct\":'' @ str_of_int (pa_pct b) @ js ''}'' @ r')"
    using assms by (simp add: json_assign_def json_string_def)
  from json_body_prefix [OF this] have n: "pa_name a = pa_name b"
    and "js '',\"pct\":'' @ str_of_int (pa_pct a) @ js ''}'' @ r
       = js '',\"pct\":'' @ str_of_int (pa_pct b) @ js ''}'' @ r'"
    by simp_all
  then have "str_of_int (pa_pct a) @ 125 # r = str_of_int (pa_pct b) @ 125 # r'"
    by (simp add: js_def)
  then have "pa_pct a = pa_pct b \<and> r = r'"
    using str_of_int_prefix [of "pa_pct a" 125 r "pa_pct b" 125 r'] by (simp add: is_digit_def)
  with n show ?thesis by simp
qed

lemma json_assign_hd: "\<exists>s. json_assign a = 123 # s"
  by (simp add: json_assign_def js_def)

lemma json_list_prefix:
  "js_join [44] (map json_assign as) @ 93 # r = js_join [44] (map json_assign bs) @ 93 # r' \<Longrightarrow> as = bs \<and> r = r'"
proof (induction as arbitrary: bs)
  case Nil
  then show ?case
  proof (cases bs)
    case (Cons b bs')
    then show ?thesis using Nil json_assign_hd [of b] by (cases bs') auto
  qed simp
next
  case (Cons a as)
  obtain b bs' where bs: "bs = b # bs'"
    using Cons.prems json_assign_hd [of a] by (cases bs; cases as) auto
  let ?t = "\<lambda>xs. (if xs = [] then [] else 44 # js_join [44] (map json_assign xs))"
  have j: "js_join [44] (map json_assign (x # xs)) = json_assign x @ ?t xs" for x xs
    by (cases xs) simp_all
  have "json_assign a @ (?t as @ 93 # r) = json_assign b @ (?t bs' @ 93 # r')"
    using Cons.prems unfolding bs j by simp
  then have "a = b" and t: "?t as @ 93 # r = ?t bs' @ 93 # r'"
    using json_assign_prefix by blast+
  moreover have "as = bs' \<and> r = r'"
    using t Cons.IH [of bs'] by (auto split: if_splits)
  ultimately show ?case by (simp add: bs)
qed

lemma json_projects_Some: "json_projects (Some as) @ r = 91 # js_join [44] (map json_assign as) @ 93 # r"
  by (simp add: json_projects_def js_def)

lemma json_projects_None: "json_projects None @ r = 110 # 117 # 108 # 108 # r"
  by (simp add: json_projects_def js_def)

lemma json_projects_prefix:
  assumes "json_projects ps @ r = json_projects qs @ r'"
  shows "ps = qs \<and> r = r'"
proof (cases ps; cases qs)
  fix as bs assume "ps = Some as" "qs = Some bs"
  then show ?thesis using assms json_list_prefix [of as r bs r'] by (simp only: json_projects_Some) simp
qed (use assms in \<open>simp_all only: json_projects_Some json_projects_None\<close>, simp_all)

end
