(* ===== verification/Escape.thy ===== *)
theory Escape
  imports JsPrelude
begin

text \<open>
  Escaping user text: \<open>escapeHtml\<close> (every view), \<open>escTitle\<close> (attribute titles) and the
  escape function of the ICS export. The code escapes HTML by five global replacements in
  turn; the theory shows that this is one pass over the characters, that nothing which can
  open or close a tag or an attribute survives, and that the text is recovered by a reader
  of the entities. The ICS escape is recovered by the reader of RFC 5545.
\<close>

definition escapeHtml :: "jsstring \<Rightarrow> jsstring" where
  "escapeHtml s =
     replace_all 39 (js ''&#39;'') (replace_all 34 (js ''&quot;'') (replace_all 62 (js ''&gt;'')
       (replace_all 60 (js ''&lt;'') (replace_all 38 (js ''&amp;'') s))))"

definition escTitle :: "jsstring \<Rightarrow> jsstring" where
  "escTitle s = replace_all 10 (js ''&#10;'') (escapeHtml s)"

text \<open>The escape function local to the ICS export: backslash, comma, semicolon, line feed.\<close>

definition icsEsc :: "jsstring \<Rightarrow> jsstring" where
  "icsEsc s = replace_all 10 [92, 110] (replace_all 59 [92, 59] (replace_all 44 [92, 44] (replace_all 92 [92, 92] s)))"

section \<open>One pass\<close>

definition html_entity :: "nat \<Rightarrow> jsstring" where
  "html_entity c =
     (if c = 38 then js ''&amp;'' else if c = 60 then js ''&lt;'' else if c = 62 then js ''&gt;''
      else if c = 34 then js ''&quot;'' else if c = 39 then js ''&#39;'' else [c])"

definition ics_unit :: "nat \<Rightarrow> jsstring" where
  "ics_unit c = (if c = 92 then [92, 92] else if c = 44 then [92, 44] else if c = 59 then [92, 59]
     else if c = 10 then [92, 110] else [c])"

lemma escapeHtml_pass: "escapeHtml s = concat (map html_entity s)"
  by (induction s) (auto simp: escapeHtml_def html_entity_def js_def)

lemma escapeHtml_simps [simp]:
  "escapeHtml [] = []" "escapeHtml (c # s) = html_entity c @ escapeHtml s"
  "escapeHtml (s @ t) = escapeHtml s @ escapeHtml t"
  by (simp_all add: escapeHtml_pass)

lemma icsEsc_pass: "icsEsc s = concat (map ics_unit s)"
  by (induction s) (auto simp: icsEsc_def ics_unit_def)

section \<open>What cannot survive\<close>

definition markup_unit :: "nat \<Rightarrow> bool" where
  "markup_unit c \<longleftrightarrow> c \<in> {60, 62, 34, 39}"

lemma html_entity_safe: "u \<in> set (html_entity c) \<Longrightarrow> \<not> markup_unit u"
  by (auto simp: html_entity_def markup_unit_def js_def split: if_splits)

lemma escapeHtml_safe: "u \<in> set (escapeHtml s) \<Longrightarrow> \<not> markup_unit u"
  by (auto simp: escapeHtml_pass dest: html_entity_safe)

lemma escTitle_safe: "u \<in> set (escTitle s) \<Longrightarrow> \<not> markup_unit u \<and> u \<noteq> 10"
  using set_replace_all [of 10 "js ''&#10;''" "escapeHtml s"] escapeHtml_safe
  by (fastforce simp: escTitle_def js_def markup_unit_def)

lemma escapeHtml_plain: "(\<And>c. c \<in> set s \<Longrightarrow> c \<notin> {38, 60, 62, 34, 39}) \<Longrightarrow> escapeHtml s = s"
  by (induction s) (auto simp: html_entity_def)

lemma ics_one_line: "10 \<notin> set (icsEsc s)"
  by (auto simp: icsEsc_pass ics_unit_def split: if_splits)

section \<open>Reading back\<close>

text \<open>A reader of the five entities the code writes.\<close>

fun read_html :: "jsstring \<Rightarrow> jsstring" where
  "read_html [] = []"
| "read_html (c # s) =
     (if take 5 (c # s) = js ''&amp;'' then 38 # read_html (drop 4 s)
      else if take 4 (c # s) = js ''&lt;'' then 60 # read_html (drop 3 s)
      else if take 4 (c # s) = js ''&gt;'' then 62 # read_html (drop 3 s)
      else if take 6 (c # s) = js ''&quot;'' then 34 # read_html (drop 5 s)
      else if take 5 (c # s) = js ''&#39;'' then 39 # read_html (drop 4 s)
      else c # read_html s)"

declare read_html.simps(2) [simp del]

lemma read_html_entity: "read_html (html_entity c @ s) = c # read_html s"
  by (auto simp: html_entity_def js_def read_html.simps(2) numeral_eq_Suc)

lemma read_escapeHtml: "read_html (escapeHtml s) = s"
  by (induction s) (simp_all add: read_html_entity)

lemma escapeHtml_inj: "escapeHtml s = escapeHtml t \<Longrightarrow> s = t"
  using read_escapeHtml by metis

text \<open>RFC 5545, 3.3.11: a TEXT value is read by undoing the backslash escapes.\<close>

fun read_ics :: "jsstring \<Rightarrow> jsstring" where
  "read_ics [] = []"
| "read_ics [c] = [c]"
| "read_ics (c # d # s) =
     (if c = 92 then (if d = 110 \<or> d = 78 then 10 else d) # read_ics s else c # read_ics (d # s))"

lemma read_ics_unit: "read_ics (ics_unit c @ s) = c # read_ics s"
  by (cases s) (auto simp: ics_unit_def)

lemma read_icsEsc: "read_ics (icsEsc s) = s"
  by (induction s) (simp_all add: icsEsc_pass read_ics_unit)

section \<open>Properties\<close>

text \<open>C11: \<open>escapeHtml\<close>, five successive replacements, is one pass over the characters: its
  result has no angle bracket and no quote, and decoding the five entities gives the text
  back, so no text is escaped twice and none is lost.\<close>

theorem escapeHtml_correct:
  "escapeHtml s = concat (map html_entity s) \<and> list_all (\<lambda>u. \<not> markup_unit u) (escapeHtml s)
   \<and> read_html (escapeHtml s) = s"
  using escapeHtml_safe [of _ s] by (auto simp: list_all_iff escapeHtml_pass [symmetric] read_escapeHtml)

text \<open>The escaping of iCalendar text keeps a value on one line and loses nothing: reading
  the escapes gives the value back.\<close>

theorem ics_text_roundtrip: "10 \<notin> set (icsEsc s) \<and> read_ics (icsEsc s) = s"
  by (simp add: ics_one_line read_icsEsc)

end
