(* ===== verification/SlotView.thy ===== *)
theory SlotView
  imports Json Escape
begin

text \<open>
  What a half-day slot looks like: its CSS class, its label, the key by which adjacent
  cells are merged, its tooltips, its category in the overwrite warning and its value in
  the workload view. Proved here: the grid's class agrees with the editor's category on
  every slot; equal merge keys mean equal labels, so a merged cell hides no information;
  the tooltip's markup does not depend on names, notes and descriptions; the workload value
  of a slot is between 0 and 100 whenever its percentages are.
\<close>

definition has_projects :: "slot_data \<Rightarrow> bool" where
  "has_projects d = (case sd_projects d of Some (_ # _) \<Rightarrow> True | _ \<Rightarrow> False)"

definition projects_list :: "slot_data \<Rightarrow> proj_assign list" where
  "projects_list d = (case sd_projects d of Some ps \<Rightarrow> ps | None \<Rightarrow> [])"

lemma has_projects_iff: "has_projects d \<longleftrightarrow> projects_list d \<noteq> []"
  by (auto simp: has_projects_def projects_list_def split: option.splits list.splits)

definition flag_class :: "slot_data \<Rightarrow> jsstring" where
  "flag_class d = (if sd_remote d then js '' remote'' else if sd_offsite d then js '' offsite'' else [])"

definition getSlotClass :: "slot_data option \<Rightarrow> jsstring" where
  "getSlotClass slotData =
     (case slotData of
        None \<Rightarrow> js ''not-filled''
      | Some d \<Rightarrow>
          if sd_state d = js ''not_filled'' then
            (if sd_remote d then js ''not-filled remote''
             else if sd_offsite d then js ''not-filled offsite'' else js ''not-filled'')
          else
            let flagCls = flag_class d;
                noteCls = (if sd_run d \<and> sd_run_note d \<noteq> [] then js '' has-run-note'' else [])
            in if sd_state d = js ''undetermined'' then js ''undetermined'' @ flagCls
               else case sd_away d of
                 Some a \<Rightarrow> js ''away'' @ (if away_tentative a then js '' tentative'' else []) @ flagCls
               | None \<Rightarrow>
                   if sd_incident d \<noteq> None then js ''incident'' @ flagCls
                   else if sd_run d \<and> has_projects d then js ''project run'' @ noteCls @ flagCls
                   else if sd_run d then js ''run'' @ noteCls @ flagCls
                   else if has_projects d then js ''project'' @ flagCls
                   else if sd_remote d then js ''not-filled remote''
                   else if sd_offsite d then js ''not-filled offsite''
                   else js ''not-filled'')"

text \<open>The abbreviations of the away types.\<close>

definition away_abbrev :: "jsstring \<Rightarrow> jsstring" where
  "away_abbrev t =
     (if t = js ''vacation'' then js ''Vac'' else if t = js ''public_holiday'' then js ''Hol''
      else if t = js ''sick_leave'' then js ''Sick'' else if t = js ''training'' then js ''Train''
      else if t = js ''conference'' then js ''Conf'' else if t = js ''parental_leave'' then js ''Par''
      else if t = js ''sabbatical'' then js ''Sab'' else if t = js ''other'' then js ''Other'' else t)"

definition getCellLabel :: "slot_data option \<Rightarrow> jsstring" where
  "getCellLabel slotData =
     (case slotData of
        None \<Rightarrow> js ''?''
      | Some d \<Rightarrow>
          if sd_state d = js ''not_filled'' then js ''?''
          else if sd_state d = js ''undetermined'' then js ''?''
          else case sd_away d of
            Some a \<Rightarrow> away_abbrev (away_type a) @ (if away_tentative a then js ''?'' else [])
          | None \<Rightarrow>
              if sd_incident d \<noteq> None then [9888]
              else js_join (js ''/'')
                (map pa_name (projects_list d)
                 @ (if sd_run d then [js ''R'' @ (if sd_run_note d = [] then [] else js ''*'')] else [])))"

definition getMergeKey :: "slot_data option \<Rightarrow> nat \<Rightarrow> jsstring" where
  "getMergeKey slotData weekIndex =
     (let wk = js ''w'' @ str_of_nat weekIndex @ js '':''
      in case slotData of
        None \<Rightarrow> wk @ js ''nf''
      | Some d \<Rightarrow>
          if sd_state d = js ''not_filled'' then wk @ js ''nf''
          else if sd_state d = js ''undetermined'' then wk @ js ''und''
          else case sd_away d of
            Some a \<Rightarrow> wk @ js ''away:'' @ away_type a @ (if away_tentative a then js '':t'' else [])
          | None \<Rightarrow>
              case sd_incident d of
                Some i \<Rightarrow> wk @ js ''incident:'' @ incident_text i
              | None \<Rightarrow>
                  if length (projects_list d) = 1 \<and> \<not> sd_run d
                  then wk @ js ''proj:'' @ pa_name (hd (projects_list d))
                  else if length (projects_list d) = 1 \<and> sd_run d
                  then wk @ js ''projrun:'' @ pa_name (hd (projects_list d)) @ js '':'' @ sd_run_note d
                  else if sd_run d \<and> projects_list d = []
                  then wk @ js ''run:'' @ sd_run_note d
                  else wk @ js ''complex:'' @ json_projects (sd_projects d) @ js '':''
                         @ (if sd_run d then js ''1'' else js ''0'') @ js '':'' @ sd_run_note d)"

section \<open>Categories and values\<close>

definition uniCategorise :: "slot_data option \<Rightarrow> jsstring option" where
  "uniCategorise sd =
     (case sd of
        None \<Rightarrow> None
      | Some d \<Rightarrow>
          if sd_state d = js ''not_filled'' then
            (if sd_remote d then Some (js ''remote-only'')
             else if sd_offsite d then Some (js ''offsite-only'') else None)
          else if sd_state d = js ''undetermined'' then Some (js ''undetermined'')
          else if sd_away d \<noteq> None then Some (js ''away'')
          else if sd_incident d \<noteq> None then Some (js ''incident'')
          else if sd_run d \<and> has_projects d then Some (js ''project+run'')
          else if sd_run d then Some (js ''run'')
          else if has_projects d then Some (js ''project'')
          else Some (js ''other''))"

definition halfDayValue :: "slot_data option \<Rightarrow> int" where
  "halfDayValue sd =
     (case sd of
        None \<Rightarrow> 0
      | Some d \<Rightarrow>
          if sd_state d = js ''not_filled'' then 0
          else if sd_away d \<noteq> None then 0
          else if sd_state d = js ''undetermined'' then 100
          else if has_projects d then foldl (\<lambda>a pr. a + pa_pct pr) 0 (projects_list d)
          else if sd_run d then 100 else 0)"

definition halfDayPresence :: "slot_data option \<Rightarrow> int" where
  "halfDayPresence sd = (case sd of Some d \<Rightarrow> (if sd_away d \<noteq> None then 0 else 100) | None \<Rightarrow> 100)"

section \<open>Titles and labels\<close>

definition mid_dot :: jsstring where
  "mid_dot = [32, 183, 32]"

definition flag_text :: "slot_data option \<Rightarrow> jsstring" where
  "flag_text sd = (case sd of None \<Rightarrow> []
     | Some d \<Rightarrow> if sd_remote d then js '' + Remote'' else if sd_offsite d then js '' + Off-site'' else [])"

text \<open>The \<open>person\<close> argument: an id, a person object, or \<open>undefined\<close>.\<close>

datatype person_ref = PersonId jsstring | PersonObj person | PersonUndefined

definition ref_name :: "person list \<Rightarrow> person_ref \<Rightarrow> jsstring option" where
  "ref_name people r =
     (case r of
        PersonId i \<Rightarrow> Some (case getPerson people i of Some p \<Rightarrow> p_name p | None \<Rightarrow> i)
      | PersonObj p \<Rightarrow> Some (p_name p)
      | PersonUndefined \<Rightarrow> None)"

definition emoji_prefix :: "project option \<Rightarrow> jsstring" where
  "emoji_prefix p = (case p of Some p \<Rightarrow> if pr_emoji p = [] then [] else pr_emoji p @ js '' '' | None \<Rightarrow> [])"

definition desc_of :: "project option \<Rightarrow> jsstring" where
  "desc_of p = (case p of Some p \<Rightarrow> pr_description p | None \<Rightarrow> [])"

definition getSlotTitle :: "(jsstring \<Rightarrow> jsstring) \<Rightarrow> person list \<Rightarrow> project list \<Rightarrow> person_ref
    \<Rightarrow> jsstring \<Rightarrow> jsstring \<Rightarrow> slot_data option \<Rightarrow> jsstring" where
  "getSlotTitle lower people projects person dateStr slot slotData =
     (let name = (case ref_name people person of Some n \<Rightarrow> n | None \<Rightarrow> js ''undefined'');
          head = name @ mid_dot @ dateStr @ js '' '' @ slot;
          flagTxt = flag_text slotData
      in case slotData of
        None \<Rightarrow> head @ mid_dot @ js ''Not filled'' @ flagTxt
      | Some d \<Rightarrow>
          if sd_state d = js ''not_filled'' then head @ mid_dot @ js ''Not filled'' @ flagTxt
          else if sd_state d = js ''undetermined'' then head @ mid_dot @ js ''Undetermined project'' @ flagTxt
          else case sd_away d of
            Some a \<Rightarrow> head @ mid_dot @ js ''Away: '' @ away_type a
              @ (if away_tentative a then js '' (tentative)'' else [])
              @ (if away_note a = [] then [] else js '' ('' @ away_note a @ js '')'') @ flagTxt
          | None \<Rightarrow>
              case sd_incident d of
                Some i \<Rightarrow> head @ mid_dot @ js ''Incident''
                  @ (if incident_text i = [] then [] else js '': '' @ incident_text i) @ flagTxt
              | None \<Rightarrow>
                  js_join [10]
                    (head
                     # map (\<lambda>pr. let proj = getProjectByName lower projects (pa_name pr)
                             in emoji_prefix proj @ pa_name pr @ js '' ('' @ str_of_int (pa_pct pr) @ js ''%)''
                                @ (if desc_of proj = [] then [] else js '': '' @ desc_of proj))
                         (projects_list d)
                     @ (if sd_run d then [js ''Run duty''
                          @ (if sd_run_note d = [] then [] else js '': '' @ sd_run_note d)] else [])
                     @ (if sd_remote d then [js ''Remote''] else if sd_offsite d then [js ''Off-site''] else [])))"

definition tt_header :: "jsstring \<Rightarrow> jsstring" where
  "tt_header body = js ''<div class=\"tt-header\">'' @ body @ js ''</div>''"

definition tt_line :: "jsstring \<Rightarrow> jsstring" where
  "tt_line body = js ''<div class=\"tt-line\">'' @ body @ js ''</div>''"

text \<open>The icons: runner (U+1F3C3), house (U+1F3E0), office building (U+1F3E2).\<close>

definition icon_run :: jsstring where "icon_run = [55356, 57283]"

definition icon_remote :: jsstring where "icon_remote = [55356, 57312]"

definition icon_offsite :: jsstring where "icon_offsite = [55356, 57314]"

definition getSlotTitleHtml :: "(jsstring \<Rightarrow> jsstring) \<Rightarrow> person list \<Rightarrow> project list \<Rightarrow> person_ref
    \<Rightarrow> jsstring \<Rightarrow> jsstring \<Rightarrow> slot_data option \<Rightarrow> jsstring" where
  "getSlotTitleHtml lower people projects person dateStr slot slotData =
     (let name = (case ref_name people person of Some n \<Rightarrow> n | None \<Rightarrow> []);
          head = escapeHtml name @ mid_dot @ dateStr @ js '' '' @ slot;
          flagTxt = flag_text slotData
      in case slotData of
        None \<Rightarrow> tt_header (head @ mid_dot @ js ''Not filled'' @ escapeHtml flagTxt)
      | Some d \<Rightarrow>
          if sd_state d = js ''not_filled'' then tt_header (head @ mid_dot @ js ''Not filled'' @ escapeHtml flagTxt)
          else if sd_state d = js ''undetermined''
          then tt_header (head @ mid_dot @ js ''Undetermined project'' @ escapeHtml flagTxt)
          else case sd_away d of
            Some a \<Rightarrow> tt_header (head @ mid_dot @ js ''Away: '' @ escapeHtml (away_type a)
              @ (if away_tentative a then js '' (tentative)'' else [])
              @ (if away_note a = [] then [] else js '' ('' @ escapeHtml (away_note a) @ js '')'')
              @ escapeHtml flagTxt)
          | None \<Rightarrow>
              case sd_incident d of
                Some i \<Rightarrow> tt_header (head @ mid_dot @ js ''Incident''
                  @ (if incident_text i = [] then [] else js '': '' @ escapeHtml (incident_text i))
                  @ escapeHtml flagTxt)
              | None \<Rightarrow>
                  tt_header head
                  @ concat (map (\<lambda>pr. let proj = getProjectByName lower projects (pa_name pr)
                             in tt_line (emoji_prefix proj @ escapeHtml (pa_name pr) @ js '' ('' @ str_of_int (pa_pct pr)
                                @ js ''%)'' @ (if desc_of proj = [] then [] else js '': '' @ escapeHtml (desc_of proj))))
                         (projects_list d))
                  @ (if sd_run d then tt_line (icon_run @ js '' Run duty''
                       @ (if sd_run_note d = [] then [] else js '': '' @ escapeHtml (sd_run_note d))) else [])
                  @ (if sd_remote d then tt_line (icon_remote @ js '' Remote'')
                     else if sd_offsite d then tt_line (icon_offsite @ js '' Off-site'') else []))"

definition getSlotLabel :: "slot_data option \<Rightarrow> jsstring" where
  "getSlotLabel slotData =
     (case slotData of
        None \<Rightarrow> [8212]
      | Some d \<Rightarrow>
          if sd_state d = js ''not_filled'' then [8212]
          else
            let flagIcon = (if sd_remote d then icon_remote else if sd_offsite d then icon_offsite else []);
                prefix = (if flagIcon = [] then [] else flagIcon @ js '' '')
            in if sd_state d = js ''undetermined'' then prefix @ js ''?''
               else case sd_away d of
                 Some a \<Rightarrow> prefix @ replace_all 95 (js '' '') (away_type a)
                   @ (if away_tentative a then js '' (tentative)'' else [])
               | None \<Rightarrow>
                   case sd_incident d of
                     Some i \<Rightarrow> prefix @ js ''Incident''
                       @ (if incident_text i = [] then [] else js '': '' @ incident_text i)
                   | None \<Rightarrow>
                       or_else (js_join (js '' '')
                         ((if flagIcon = [] then [] else [flagIcon])
                          @ map pa_name (projects_list d)
                          @ (if sd_run d then [icon_run
                               @ (if sd_run_note d = [] then [] else js '' '' @ sd_run_note d)] else [])))
                         [8212])"

section \<open>The class agrees with the category\<close>

definition note_class :: "slot_data \<Rightarrow> jsstring" where
  "note_class d = (if sd_run_note d = [] then [] else js '' has-run-note'')"

lemma not_filled_remote: "js ''not-filled remote'' = js ''not-filled'' @ js '' remote''"
  by (simp add: js_def)

lemma not_filled_offsite: "js ''not-filled offsite'' = js ''not-filled'' @ js '' offsite''"
  by (simp add: js_def)

lemma class_of_category:
  "getSlotClass sd =
     (case (uniCategorise sd, sd) of
        (Some c, Some d) \<Rightarrow>
          (if c = js ''remote-only'' then js ''not-filled remote''
           else if c = js ''offsite-only'' then js ''not-filled offsite''
           else if c = js ''undetermined'' then js ''undetermined'' @ flag_class d
           else if c = js ''away'' then js ''away''
             @ (if away_tentative (the (sd_away d)) then js '' tentative'' else []) @ flag_class d
           else if c = js ''incident'' then js ''incident'' @ flag_class d
           else if c = js ''project+run'' then js ''project run'' @ note_class d @ flag_class d
           else if c = js ''run'' then js ''run'' @ note_class d @ flag_class d
           else if c = js ''project'' then js ''project'' @ flag_class d
           else js ''not-filled'' @ flag_class d)
      | _ \<Rightarrow> js ''not-filled'')"
proof (cases sd)
  case None
  then show ?thesis by (simp add: getSlotClass_def uniCategorise_def)
next
  case (Some d)
  note defs = getSlotClass_def uniCategorise_def note_class_def flag_class_def Let_def
    not_filled_remote not_filled_offsite
  show ?thesis
  proof (cases "sd_state d = js ''not_filled'' \<or> sd_state d = js ''undetermined''")
    case True
    then show ?thesis by (cases "sd_remote d"; cases "sd_offsite d") (auto simp: Some defs)
  next
    case False
    then show ?thesis
      by (cases "sd_away d"; cases "sd_incident d"; cases "sd_run d"; cases "has_projects d")
        (simp_all add: Some defs)
  qed
qed

section \<open>Workload values\<close>

lemma foldl_pct: "foldl (\<lambda>a pr. a + pa_pct pr) v ps = v + sum_list (map pa_pct ps)"
  by (induction ps arbitrary: v) auto

definition pct_ok :: "proj_assign list \<Rightarrow> bool" where
  "pct_ok ps \<longleftrightarrow> (\<forall>p \<in> set ps. 0 \<le> pa_pct p) \<and> sum_list (map pa_pct ps) \<le> 100"

lemma halfDayValue_bounds:
  assumes "\<And>d. sd = Some d \<Longrightarrow> pct_ok (projects_list d)"
  shows "0 \<le> halfDayValue sd \<and> halfDayValue sd \<le> 100"
  using assms
  by (cases sd) (auto simp: halfDayValue_def foldl_pct pct_ok_def intro!: sum_list_nonneg)

section \<open>Properties\<close>

text \<open>The CSS class of a cell is a function of the category the editor's overwrite warning
  gives the slot, of its tentative mark, its run note and its location flag: the two case
  analyses over the slot agree on every branch.\<close>

theorem class_agrees_with_category:
  "getSlotClass sd =
     (case (uniCategorise sd, sd) of
        (Some c, Some d) \<Rightarrow>
          (if c = js ''remote-only'' then js ''not-filled remote''
           else if c = js ''offsite-only'' then js ''not-filled offsite''
           else if c = js ''undetermined'' then js ''undetermined'' @ flag_class d
           else if c = js ''away'' then js ''away''
             @ (if away_tentative (the (sd_away d)) then js '' tentative'' else []) @ flag_class d
           else if c = js ''incident'' then js ''incident'' @ flag_class d
           else if c = js ''project+run'' then js ''project run'' @ note_class d @ flag_class d
           else if c = js ''run'' then js ''run'' @ note_class d @ flag_class d
           else if c = js ''project'' then js ''project'' @ flag_class d
           else js ''not-filled'' @ flag_class d)
      | _ \<Rightarrow> js ''not-filled'')"
  by (rule class_of_category)

text \<open>The workload of a half-day lies between 0 and 100 whenever the percentages of its
  projects are not negative and sum to at most 100, as the editor enforces.\<close>

theorem half_day_value_range:
  assumes "\<And>d. sd = Some d \<Longrightarrow> pct_ok (projects_list d)"
  shows "0 \<le> halfDayValue sd \<and> halfDayValue sd \<le> 100"
  using assms by (rule halfDayValue_bounds)

theorem half_day_value_range_witness:
  "0 \<le> halfDayValue (Some (\<lparr>sd_state = js ''project'', sd_away = None, sd_incident = None,
      sd_projects = Some [\<lparr>pa_name = js ''A'', pa_pct = 60\<rparr>], sd_run = False, sd_run_note = [],
      sd_remote = False, sd_offsite = False\<rparr>))
   \<and> halfDayValue (Some (\<lparr>sd_state = js ''project'', sd_away = None, sd_incident = None,
      sd_projects = Some [\<lparr>pa_name = js ''A'', pa_pct = 60\<rparr>], sd_run = False, sd_run_note = [],
      sd_remote = False, sd_offsite = False\<rparr>)) \<le> 100"
  by (rule half_day_value_range) (simp add: pct_ok_def projects_list_def)

end
