(* ===== verification/MergeKey.thy ===== *)
theory MergeKey
  imports SlotView
begin

text \<open>
  The merge key of the grid against what the grid shows. \<open>cell_view\<close> is the abstract
  content of a cell (what distinguishes two cells, flags aside); the code's key is an
  encoding of the week and the view, the code's label a function of the view. The encoding
  is injective as long as away types and project names hold no colon, so the label that a
  merged cell leaves out is the label of the cell before it. With a colon the encoding of a
  project with a run note is ambiguous.
\<close>

datatype cell_view =
    VNotFilled
  | VUndetermined
  | VAway jsstring bool
  | VIncident jsstring
  | VProject jsstring
  | VProjectRun jsstring jsstring
  | VRun jsstring
  | VComplex "proj_assign list option" bool jsstring

definition view_of :: "slot_data option \<Rightarrow> cell_view" where
  "view_of sd =
     (case sd of
        None \<Rightarrow> VNotFilled
      | Some d \<Rightarrow>
          if sd_state d = js ''not_filled'' then VNotFilled
          else if sd_state d = js ''undetermined'' then VUndetermined
          else case sd_away d of
            Some a \<Rightarrow> VAway (away_type a) (away_tentative a)
          | None \<Rightarrow>
              case sd_incident d of
                Some i \<Rightarrow> VIncident (incident_text i)
              | None \<Rightarrow>
                  case projects_list d of
                    [p] \<Rightarrow> if sd_run d then VProjectRun (pa_name p) (sd_run_note d) else VProject (pa_name p)
                  | ps \<Rightarrow> if sd_run d \<and> ps = [] then VRun (sd_run_note d)
                          else VComplex (sd_projects d) (sd_run d) (sd_run_note d))"

fun view_key :: "cell_view \<Rightarrow> jsstring" where
  "view_key VNotFilled = js ''nf''"
| "view_key VUndetermined = js ''und''"
| "view_key (VAway t tent) = js ''away:'' @ t @ (if tent then js '':t'' else [])"
| "view_key (VIncident t) = js ''incident:'' @ t"
| "view_key (VProject n) = js ''proj:'' @ n"
| "view_key (VProjectRun n note) = js ''projrun:'' @ n @ js '':'' @ note"
| "view_key (VRun note) = js ''run:'' @ note"
| "view_key (VComplex ps r note) =
     js ''complex:'' @ json_projects ps @ js '':'' @ (if r then js ''1'' else js ''0'') @ js '':'' @ note"

definition run_label :: "bool \<Rightarrow> jsstring \<Rightarrow> jsstring list" where
  "run_label r note = (if r then [js ''R'' @ (if note = [] then [] else js ''*'')] else [])"

fun view_label :: "cell_view \<Rightarrow> jsstring" where
  "view_label VNotFilled = js ''?''"
| "view_label VUndetermined = js ''?''"
| "view_label (VAway t tent) = away_abbrev t @ (if tent then js ''?'' else [])"
| "view_label (VIncident t) = [9888]"
| "view_label (VProject n) = js_join (js ''/'') [n]"
| "view_label (VProjectRun n note) = js_join (js ''/'') (n # run_label True note)"
| "view_label (VRun note) = js_join (js ''/'') (run_label True note)"
| "view_label (VComplex ps r note) =
     js_join (js ''/'') (map pa_name (case ps of None \<Rightarrow> [] | Some as \<Rightarrow> as) @ run_label r note)"

fun view_no_colon :: "cell_view \<Rightarrow> bool" where
  "view_no_colon (VAway t tent) = (58 \<notin> set t)"
| "view_no_colon (VProjectRun n note) = (58 \<notin> set n)"
| "view_no_colon _ = True"

lemma getMergeKey_view: "getMergeKey sd i = js ''w'' @ str_of_nat i @ js '':'' @ view_key (view_of sd)"
proof (cases sd)
  case (Some d)
  show ?thesis
    by (cases "sd_away d"; cases "sd_incident d"; cases "projects_list d"; cases "tl (projects_list d)")
      (auto simp: Some getMergeKey_def view_of_def Let_def)
qed (simp add: getMergeKey_def view_of_def)

lemma getCellLabel_view: "getCellLabel sd = view_label (view_of sd)"
proof (cases sd)
  case (Some d)
  show ?thesis
    by (cases "sd_away d"; cases "sd_incident d"; cases "projects_list d"; cases "tl (projects_list d)";
        cases "sd_projects d")
      (auto simp: Some getCellLabel_def view_of_def run_label_def projects_list_def)
qed (simp add: getCellLabel_def view_of_def)

lemma split_at_colon:
  fixes xs :: jsstring
  shows "58 \<notin> set xs \<Longrightarrow> 58 \<notin> set ys \<Longrightarrow> xs @ 58 # r = ys @ 58 # r' \<Longrightarrow> xs = ys \<and> r = r'"
proof (induction xs arbitrary: ys)
  case Nil
  then show ?case by (cases ys) auto
next
  case (Cons x xs)
  then show ?case by (cases ys) auto
qed

lemma away_key_inj:
  assumes "58 \<notin> set t" "58 \<notin> set t'"
    and eq: "t @ (if b then js '':t'' else []) = t' @ (if b' then js '':t'' else [])"
  shows "t = t' \<and> b = b'"
proof -
  have no: "t = t' @ js '':t'' \<Longrightarrow> False" "t @ js '':t'' = t' \<Longrightarrow> False"
    using assms(1,2) by (auto simp: js_def)
  show ?thesis using eq no by (auto split: if_splits)
qed

lemma view_key_inj:
  assumes "view_no_colon v" "view_no_colon w" "view_key v = view_key w"
  shows "v = w"
proof -
  have complex: "ps = qs \<and> r = r' \<and> n = n'"
    if "json_projects ps @ 58 # (if r then js ''1'' else js ''0'') @ 58 # n
      = json_projects qs @ 58 # (if r' then js ''1'' else js ''0'') @ 58 # n'" for ps qs r r' n n'
    using json_projects_prefix [OF that] by (auto simp: js_def split: if_splits)
  show ?thesis
  proof (cases v; cases w)
    fix t b t' b' assume "v = VAway t b" "w = VAway t' b'"
    with assms show ?thesis using away_key_inj [of t t' b b'] by (simp add: js_def)
  next
    fix n m n' m' assume "v = VProjectRun n m" "w = VProjectRun n' m'"
    with assms show ?thesis using split_at_colon [of n n' m m'] by (simp add: js_def)
  next
    fix ps r n qs r' n' assume "v = VComplex ps r n" "w = VComplex qs r' n'"
    with assms show ?thesis using complex [of ps r n qs r' n'] by (simp add: js_def)
  qed (use assms in \<open>simp_all add: js_def\<close>)
qed

lemma merge_key_view:
  assumes "view_no_colon (view_of a)" "view_no_colon (view_of b)"
    and "getMergeKey a i = getMergeKey b j"
  shows "i = j \<and> view_of a = view_of b"
proof -
  have "str_of_nat i @ 58 # view_key (view_of a) = str_of_nat j @ 58 # view_key (view_of b)"
    using assms(3) by (simp add: getMergeKey_view js_def)
  then have "str_of_nat i = str_of_nat j \<and> 58 # view_key (view_of a) = 58 # view_key (view_of b)"
    by (intro split_at_nondigit) (auto dest: str_of_nat_are_digits simp: is_digit_def [of 58])
  then show ?thesis
    using str_of_nat_inj view_key_inj [OF assms(1,2)] by blast
qed

section \<open>Properties\<close>

text \<open>Adjacent cells are merged only when they show the same thing: two slots with equal
  merge keys are in the same week and have the same label and the same view (state, away
  type, incident text, projects, run note), provided the away types and project names of
  the two slots have no colon, the separator of the key.\<close>

theorem merged_cells_agree:
  assumes "view_no_colon (view_of a)" and "view_no_colon (view_of b)"
    and "getMergeKey a i = getMergeKey b j"
  shows "i = j \<and> view_of a = view_of b \<and> getCellLabel a = getCellLabel b"
  using merge_key_view [OF assms] by (simp add: getCellLabel_view)

theorem merged_cells_agree_witness:
  "(0::nat) = 0 \<and> view_of None = view_of (Some (\<lparr>sd_state = js ''not_filled'', sd_away = None, sd_incident = None,
      sd_projects = None, sd_run = False, sd_run_note = [], sd_remote = True, sd_offsite = False\<rparr>))
   \<and> getCellLabel None = getCellLabel (Some (\<lparr>sd_state = js ''not_filled'', sd_away = None, sd_incident = None,
      sd_projects = None, sd_run = False, sd_run_note = [], sd_remote = True, sd_offsite = False\<rparr>))"
  by (rule merged_cells_agree) (simp_all add: view_of_def getMergeKey_def)

end
