(* ===== verification/ServerStore.thy ===== *)
theory ServerStore
  imports AppState
begin

text \<open>
  The planning table of the Go server, the other side of the client's API calls
  (\<open>internal/store/write.go\<close>, \<open>read.go\<close>): rows keyed by (person, date, slot) under the
  table's UNIQUE constraint, in insertion order. \<open>SetSlot\<close> deletes the row of an empty slot
  and otherwise replaces it; \<open>GetPlanning\<close> reads rows back as slot data. SQL text comparison
  is the order of strings. The theory interprets the interface \<open>slot_store\<close> of the client:
  a slot read after a write is the written slot in the form the table keeps.
\<close>

datatype slot_ref = SlotRef (ref_person: jsstring) (ref_date: jsstring) (ref_slot: jsstring)

text \<open>\<open>ORDER BY person_id, date, slot\<close>.\<close>

instantiation slot_ref :: linorder
begin

definition less_eq_slot_ref :: "slot_ref \<Rightarrow> slot_ref \<Rightarrow> bool" where
  "less_eq_slot_ref a b \<longleftrightarrow>
     ref_person a < ref_person b \<or> ref_person a = ref_person b \<and>
       (ref_date a < ref_date b \<or> ref_date a = ref_date b \<and> ref_slot a \<le> ref_slot b)"

definition less_slot_ref :: "slot_ref \<Rightarrow> slot_ref \<Rightarrow> bool" where
  "less_slot_ref a b \<longleftrightarrow> a \<le> b \<and> \<not> b \<le> a"

instance
proof
  fix x y z :: slot_ref
  show "(x < y) = (x \<le> y \<and> \<not> y \<le> x)" by (simp add: less_slot_ref_def)
  show "x \<le> x" by (simp add: less_eq_slot_ref_def)
  show "x \<le> y \<Longrightarrow> y \<le> z \<Longrightarrow> x \<le> z"
    by (cases x; cases y; cases z) (auto simp: less_eq_slot_ref_def dest: less_trans)
  show "x \<le> y \<Longrightarrow> y \<le> x \<Longrightarrow> x = y"
    by (cases x; cases y) (auto simp: less_eq_slot_ref_def)
  show "x \<le> y \<or> y \<le> x"
    unfolding less_eq_slot_ref_def by (meson linear not_less_iff_gr_or_eq)
qed

end

record slot_row =
  r_state :: jsstring
  r_away_type :: jsstring
  r_away_note :: jsstring
  r_run :: bool
  r_projects :: "proj_assign list"
  r_remote :: bool
  r_offsite :: bool
  r_incident_text :: jsstring
  r_is_incident :: bool
  r_run_note :: jsstring
  r_tentative :: bool

type_synonym store = "(slot_ref, slot_row) dict"

text \<open>
  \<open>runNote[:2000]\<close> cuts the UTF-8 bytes of the note; the bytes of a character cut in two are
  sent back to the client as one replacement character (U+FFFD) each.
\<close>

definition utf8_width :: "nat \<Rightarrow> nat" where
  "utf8_width c = (if c < 128 then 1 else if c < 2048 then 2 else 3)"

fun clip_utf8 :: "nat \<Rightarrow> jsstring \<Rightarrow> jsstring" where
  "clip_utf8 n [] = []"
| "clip_utf8 n (c # s) =
     (if 55296 \<le> c \<and> c \<le> 56319 \<and> s \<noteq> []
      then (if 4 \<le> n then c # hd s # clip_utf8 (n - 4) (tl s) else replicate n 65533)
      else if utf8_width c \<le> n then c # clip_utf8 (n - utf8_width c) s else replicate n 65533)"

definition slot_is_empty :: "slot_data \<Rightarrow> bool" where
  "slot_is_empty d \<longleftrightarrow> sd_state d = js ''not_filled'' \<or>
     sd_state d = [] \<and> sd_away d = None \<and> sd_incident d = None \<and>
     (case sd_projects d of None \<Rightarrow> True | Some ps \<Rightarrow> ps = []) \<and> \<not> sd_run d \<and> \<not> sd_remote d \<and> \<not> sd_offsite d"

definition row_of_slot :: "slot_data \<Rightarrow> slot_row" where
  "row_of_slot d =
     \<lparr>r_state = sd_state d,
      r_away_type = (case sd_away d of Some a \<Rightarrow> away_type a | None \<Rightarrow> []),
      r_away_note = (case sd_away d of Some a \<Rightarrow> away_note a | None \<Rightarrow> []),
      r_run = sd_run d,
      r_projects = (case sd_projects d of Some ps \<Rightarrow> ps | None \<Rightarrow> []),
      r_remote = sd_remote d, r_offsite = sd_offsite d,
      r_incident_text = (case sd_incident d of Some i \<Rightarrow> incident_text i | None \<Rightarrow> []),
      r_is_incident = (sd_incident d \<noteq> None),
      r_run_note = clip_utf8 2000 (sd_run_note d),
      r_tentative = (case sd_away d of Some a \<Rightarrow> away_tentative a | None \<Rightarrow> False)\<rparr>"

definition ClearSlot :: "slot_ref \<Rightarrow> store \<Rightarrow> store" where
  "ClearSlot k s = dict_del k s"

text \<open>\<open>INSERT OR REPLACE\<close> deletes the conflicting row and appends the new one.\<close>

definition SetSlot :: "slot_ref \<Rightarrow> slot_data \<Rightarrow> store \<Rightarrow> store" where
  "SetSlot k d s = (if slot_is_empty d then ClearSlot k s else dict_del k s @ [(k, row_of_slot d)])"

definition slot_of_row :: "slot_row \<Rightarrow> slot_data" where
  "slot_of_row r =
     \<lparr>sd_state = r_state r,
      sd_away = (if r_away_type r \<noteq> [] then Some \<lparr>away_type = r_away_type r, away_note = r_away_note r,
                    away_tentative = r_tentative r\<rparr> else None),
      sd_incident = (if r_is_incident r then Some \<lparr>incident_text = r_incident_text r\<rparr> else None),
      sd_projects = (if r_projects r = [] then None else Some (r_projects r)),
      sd_run = r_run r, sd_run_note = r_run_note r, sd_remote = r_remote r, sd_offsite = r_offsite r\<rparr>"

definition GetPlanning :: "jsstring \<Rightarrow> jsstring \<Rightarrow> store \<Rightarrow> (slot_ref \<times> slot_data) list" where
  "GetPlanning startDate endDate s =
     map (\<lambda>(k, r). (k, slot_of_row r))
       (sort_key fst (filter (\<lambda>(k, r). startDate \<le> ref_date k \<and> ref_date k \<le> endDate
          \<and> r_state r \<noteq> js ''not_filled'') s))"

section \<open>What the table keeps\<close>

text \<open>Reading one slot, and the form a written slot comes back in.\<close>

definition row_visible :: "slot_row \<Rightarrow> bool" where
  "row_visible r \<longleftrightarrow> r_state r \<noteq> js ''not_filled''"

definition read_slot :: "store \<Rightarrow> slot_ref \<Rightarrow> slot_data option" where
  "read_slot s k = (case dict_get s k of None \<Rightarrow> None
     | Some r \<Rightarrow> if row_visible r then Some (slot_of_row r) else None)"

definition kept_slot :: "slot_data \<Rightarrow> slot_data option" where
  "kept_slot d = (if slot_is_empty d then None else Some (slot_of_row (row_of_slot d)))"

definition store_ok :: "store \<Rightarrow> bool" where
  "store_ok s \<longleftrightarrow> dict_ok s \<and> (\<forall>(k, r) \<in> set s. row_visible r)"

lemma dict_get_replace [simp]:
  "dict_get (dict_del k s @ [(k, v)]) j = (if j = k then Some v else dict_get s j)"
  by (induction s) (auto simp: dict_del_def)

lemma set_dict_del: "p \<in> set (dict_del k s) \<Longrightarrow> p \<in> set s"
  by (simp add: dict_del_def)

lemma nonempty_visible: "\<not> slot_is_empty d \<Longrightarrow> row_visible (row_of_slot d)"
  by (auto simp: slot_is_empty_def row_visible_def row_of_slot_def)

lemma read_SetSlot: "read_slot (SetSlot k d s) j = (if j = k then kept_slot d else read_slot s j)"
  using nonempty_visible [of d]
  by (simp add: read_slot_def SetSlot_def ClearSlot_def kept_slot_def)

lemma read_ClearSlot: "read_slot (ClearSlot k s) j = (if j = k then None else read_slot s j)"
  by (simp add: read_slot_def ClearSlot_def)

lemma store_ok_ClearSlot: "store_ok s \<Longrightarrow> store_ok (ClearSlot k s)"
  unfolding store_ok_def ClearSlot_def using set_dict_del by fastforce

lemma dict_ok_replace: "dict_ok s \<Longrightarrow> dict_ok (dict_del k s @ [(k, v)])"
  by (simp add: dict_ok_def dict_del_def distinct_map_filter) auto

lemma store_ok_SetSlot:
  assumes "store_ok s"
  shows "store_ok (SetSlot k d s)"
proof (cases "slot_is_empty d")
  case True
  then show ?thesis using assms by (simp add: SetSlot_def store_ok_ClearSlot)
next
  case False
  have "dict_ok (dict_del k s @ [(k, row_of_slot d)])"
    using assms by (simp add: store_ok_def dict_ok_replace)
  moreover have "row_visible r" if "(j, r) \<in> set (dict_del k s @ [(k, row_of_slot d)])" for j r
    using that assms nonempty_visible [OF False] set_dict_del [of "(j, r)" k s]
    by (auto simp: store_ok_def)
  ultimately show ?thesis
    using False by (auto simp: store_ok_def SetSlot_def)
qed

interpretation srv: slot_store read_slot SetSlot ClearSlot kept_slot store_ok
  by unfold_locales
    (simp_all add: read_SetSlot read_ClearSlot store_ok_SetSlot store_ok_ClearSlot)

section \<open>Slots the table keeps unchanged\<close>

fun utf8_length :: "jsstring \<Rightarrow> nat" where
  "utf8_length [] = 0"
| "utf8_length (c # s) =
     (if 55296 \<le> c \<and> c \<le> 56319 \<and> s \<noteq> [] then 4 + utf8_length (tl s) else utf8_width c + utf8_length s)"

lemma clip_short: "utf8_length s \<le> n \<Longrightarrow> clip_utf8 n s = s"
  by (induction n s rule: clip_utf8.induct) (auto split: if_splits)

definition clean_slot :: "slot_data \<Rightarrow> bool" where
  "clean_slot d \<longleftrightarrow> \<not> slot_is_empty d \<and> sd_projects d \<noteq> Some [] \<and> utf8_length (sd_run_note d) \<le> 2000 \<and>
     (case sd_away d of None \<Rightarrow> True | Some a \<Rightarrow> away_type a \<noteq> [])"

lemma clean_kept: "clean_slot d \<Longrightarrow> kept_slot d = Some d"
  by (cases d)
    (auto simp: clean_slot_def kept_slot_def slot_of_row_def row_of_slot_def clip_short
          split: option.splits)

section \<open>Reading a date range\<close>

lemma map_of_map_filter_visible:
  "dict_ok s \<Longrightarrow>
   map_of (map (\<lambda>(k, r). (k, slot_of_row r))
       (filter (\<lambda>(k, r). P k \<and> r_state r \<noteq> js ''not_filled'') s)) k =
     (if P k then read_slot s k else None)"
proof (induction s)
  case Nil
  then show ?case by (simp add: read_slot_def)
next
  case (Cons p s)
  obtain j r where p: "p = (j, r)" by force
  have ok: "dict_ok s" and nin: "j \<notin> fst ` set s"
    using Cons.prems by (simp_all add: p dict_ok_def)
  have "read_slot s j = None"
    using nin by (simp add: read_slot_def dict_get_None_iff [THEN iffD2])
  moreover have "read_slot ((j, r) # s) k =
      (if j = k then (if row_visible r then Some (slot_of_row r) else None) else read_slot s k)"
    by (simp add: read_slot_def)
  ultimately show ?case
    using Cons.IH [OF ok] by (auto simp: p row_visible_def)
qed

lemma map_of_sort_key_fst:
  fixes f :: "'k::linorder \<times> 'v \<Rightarrow> 'k \<times> 'w"
  assumes f: "\<And>p. fst (f p) = fst p" and d: "distinct (map fst s)"
  shows "map_of (map f (sort_key fst s)) = map_of (map f s)"
proof -
  have m: "map fst (map f t) = map fst t" for t
    using f by simp
  have s: "distinct (map fst (sort_key fst s))"
    using d by (simp add: distinct_map)
  show ?thesis
    using d s m by (subst map_of_inject_set) (simp_all only: set_map set_sort)
qed

lemma distinct_GetPlanning:
  assumes "dict_ok s"
  shows "distinct (map fst (GetPlanning a b s))"
proof -
  let ?P = "\<lambda>(k, r). a \<le> ref_date k \<and> ref_date k \<le> b \<and> r_state r \<noteq> js ''not_filled''"
  have "distinct (map fst (filter ?P s))"
    using assms by (simp add: dict_ok_def distinct_map_filter)
  then have "distinct (map fst (sort_key fst (filter ?P s)))"
    by (simp add: distinct_map)
  then show ?thesis
    by (simp add: GetPlanning_def comp_def case_prod_beta)
qed

lemma GetPlanning_read:
  assumes "dict_ok s"
  shows "map_of (GetPlanning a b s) k = (if a \<le> ref_date k \<and> ref_date k \<le> b then read_slot s k else None)"
proof -
  let ?P = "\<lambda>(k, r). a \<le> ref_date k \<and> ref_date k \<le> b \<and> r_state r \<noteq> js ''not_filled''"
  let ?f = "\<lambda>(k, r). (k, slot_of_row r)"
  have d: "distinct (map fst (filter ?P s))"
    using assms by (simp add: dict_ok_def distinct_map_filter)
  have "map_of (GetPlanning a b s) = map_of (map ?f (filter ?P s))"
    unfolding GetPlanning_def by (rule map_of_sort_key_fst [OF _ d]) (simp add: case_prod_beta)
  then show ?thesis
    using map_of_map_filter_visible [OF assms, of "\<lambda>k. a \<le> ref_date k \<and> ref_date k \<le> b" k]
    by simp
qed

section \<open>Properties\<close>

text \<open>The planning table keeps what was last written: after a batch of writes to distinct
  slots (\<open>None\<close> clears, \<open>Some d\<close> sets), in whatever order they arrive, a slot of the batch reads
  back as the written slot in the form the table keeps, and every other slot is as before.\<close>

theorem batch_read_back:
  assumes "distinct (map fst ws)" and "mset ws' = mset ws"
  shows "read_slot (fold (\<lambda>(k, w). case w of None \<Rightarrow> ClearSlot k | Some d \<Rightarrow> SetSlot k d) ws' s) j =
     (case map_of ws j of None \<Rightarrow> read_slot s j | Some None \<Rightarrow> None | Some (Some d) \<Rightarrow> kept_slot d)"
  using srv.batch_order_irrelevant [OF assms(1) assms(2) [symmetric]] srv.get_batch [OF assms(1)] by metis

theorem batch_read_back_witness:
  "read_slot (fold (\<lambda>(k, w). case w of None \<Rightarrow> ClearSlot k | Some d \<Rightarrow> SetSlot k d)
     [(SlotRef [98] [] [], None),
      (SlotRef [97] [] [], Some (\<lparr>sd_state = js ''run'', sd_away = None, sd_incident = None, sd_projects = None,
         sd_run = True, sd_run_note = [], sd_remote = False, sd_offsite = False\<rparr>))] []) (SlotRef [97] [] []) =
   kept_slot (\<lparr>sd_state = js ''run'', sd_away = None, sd_incident = None, sd_projects = None,
         sd_run = True, sd_run_note = [], sd_remote = False, sd_offsite = False\<rparr>)"
  by (subst batch_read_back [where ws = "[(SlotRef [97] [] [], Some (\<lparr>sd_state = js ''run'', sd_away = None,
        sd_incident = None, sd_projects = None, sd_run = True, sd_run_note = [], sd_remote = False,
        sd_offsite = False\<rparr>)), (SlotRef [98] [] [], None)]"]) (simp_all add: add_mset_commute)

text \<open>The planning request returns each slot of the date range at most once, exactly the
  slots the table holds there, in the form they read back.\<close>

theorem planning_range_exact:
  assumes "store_ok s"
  shows "distinct (map fst (GetPlanning a b s))
    \<and> map_of (GetPlanning a b s) k = (if a \<le> ref_date k \<and> ref_date k \<le> b then read_slot s k else None)"
  using assms by (simp add: store_ok_def distinct_GetPlanning GetPlanning_read)

theorem planning_range_exact_witness:
  "distinct (map fst (GetPlanning [49] [50] []))
    \<and> map_of (GetPlanning [49] [50] []) (SlotRef [97] [50] [97]) =
      (if [49] \<le> ref_date (SlotRef [97] [50] [97]) \<and> ref_date (SlotRef [97] [50] [97]) \<le> [50::nat]
       then read_slot [] (SlotRef [97] [50] [97]) else None)"
  by (rule planning_range_exact) (simp add: store_ok_def)

text \<open>A slot that is not empty, whose away type is not empty, whose project list is not the
  empty list and whose run note has at most 2000 bytes reads back exactly as it was written.\<close>

theorem clean_slot_unchanged:
  assumes "clean_slot d"
  shows "read_slot (SetSlot k d s) k = Some d"
  using assms by (simp add: read_SetSlot clean_kept)

theorem clean_slot_unchanged_witness:
  "read_slot (SetSlot (SlotRef [97] [] []) (\<lparr>sd_state = js ''run'', sd_away = None, sd_incident = None,
       sd_projects = None, sd_run = True, sd_run_note = [], sd_remote = False, sd_offsite = False\<rparr>) [])
     (SlotRef [97] [] []) =
   Some (\<lparr>sd_state = js ''run'', sd_away = None, sd_incident = None,
       sd_projects = None, sd_run = True, sd_run_note = [], sd_remote = False, sd_offsite = False\<rparr>)"
  by (rule clean_slot_unchanged) (simp add: clean_slot_def slot_is_empty_def)

end
