(* ===== verification/ServerTables.thy ===== *)
theory ServerTables
  imports ServerStore
begin

text \<open>
  The other tables of the server (\<open>internal/store\<close>): people, projects, settings, and the
  operations on whole weeks of the planning table (\<open>CopyWeek\<close>, \<open>PruneOldData\<close>). A table is
  the list of its rows in insertion order; \<open>ORDER BY name\<close> compares the bytes of the names,
  which for UTF-8 is comparison by code point.
\<close>

section \<open>Order by name\<close>

definition code_point_key :: "jsstring \<Rightarrow> jsstring" where
  "code_point_key s = map (\<lambda>u. if 55296 \<le> u \<and> u \<le> 57343 then u + 65536 else u) s"

definition ListPeople :: "person list \<Rightarrow> person list" where
  "ListPeople t = sort_key (\<lambda>p. code_point_key (p_name p)) t"

definition ListProjects :: "project list \<Rightarrow> project list" where
  "ListProjects t = sort_key (\<lambda>p. code_point_key (pr_name p)) t"

section \<open>People\<close>

definition emoji_person :: jsstring where "emoji_person = [55357, 56420]"

definition emoji_folder :: jsstring where "emoji_folder = [55357, 56513]"

text \<open>\<open>None\<close>: the insertion violates the primary key. The new row has no calendar token.\<close>

definition AddPerson :: "jsstring \<Rightarrow> person \<Rightarrow> person list \<Rightarrow> (person \<times> person list) option" where
  "AddPerson uuid p t =
     (let p = p\<lparr>p_id := or_else (p_id p) uuid, p_avatar_emoji := or_else (p_avatar_emoji p) emoji_person,
                p_avatar_color := or_else (p_avatar_color p) (js ''#4361ee''),
                p_status := or_else (p_status p) (js ''active'')\<rparr>
      in if p_id p \<in> p_id ` set t then None else Some (p, t @ [p\<lparr>p_ics_token := []\<rparr>]))"

definition UpdatePerson :: "jsstring \<Rightarrow> person \<Rightarrow> person list \<Rightarrow> person list" where
  "UpdatePerson i p t = map (\<lambda>q. if p_id q = i then p\<lparr>p_id := i, p_ics_token := p_ics_token q\<rparr> else q) t"

definition DeletePerson :: "jsstring \<Rightarrow> person list \<Rightarrow> person list" where
  "DeletePerson i t = filter (\<lambda>q. p_id q \<noteq> i) t"

definition ArchivePerson :: "date \<Rightarrow> jsstring \<Rightarrow> person list \<Rightarrow> person list" where
  "ArchivePerson today i t =
     map (\<lambda>q. if p_id q = i then q\<lparr>p_status := js ''archived'', p_archived_date := fmtDate today\<rparr> else q) t"

definition UnarchivePerson :: "jsstring \<Rightarrow> person list \<Rightarrow> person list" where
  "UnarchivePerson i t =
     map (\<lambda>q. if p_id q = i then q\<lparr>p_status := js ''active'', p_archived_date := []\<rparr> else q) t"

section \<open>Projects\<close>

definition AddProject :: "jsstring \<Rightarrow> project \<Rightarrow> project list \<Rightarrow> (project \<times> project list) option" where
  "AddProject uuid p t =
     (let p = p\<lparr>pr_id := or_else (pr_id p) uuid, pr_emoji := or_else (pr_emoji p) emoji_folder,
                pr_status := or_else (pr_status p) (js ''unstarted'')\<rparr>
      in if pr_id p \<in> pr_id ` set t \<or> pr_name p \<in> pr_name ` set t then None else Some (p, t @ [p]))"

definition project_row :: "jsstring \<Rightarrow> project \<Rightarrow> project list \<Rightarrow> project list" where
  "project_row i p t = map (\<lambda>q. if pr_id q = i then p\<lparr>pr_id := i\<rparr> else q) t"

text \<open>\<open>None\<close>: another project has the name, which the table does not allow twice.\<close>

definition UpdateProject :: "jsstring \<Rightarrow> project \<Rightarrow> project list \<Rightarrow> project list option" where
  "UpdateProject i p t =
     (if list_ex (\<lambda>q. pr_id q = i) t \<and> list_ex (\<lambda>q. pr_id q \<noteq> i \<and> pr_name q = pr_name p) t then None
      else Some (project_row i p t))"

definition DeleteProject :: "jsstring \<Rightarrow> project list \<Rightarrow> project list" where
  "DeleteProject i t = filter (\<lambda>q. pr_id q \<noteq> i) t"

section \<open>Settings\<close>

text \<open>\<open>Sscanf(s, "%d")\<close>: the integer the text starts with; 0, like an empty text, means the default.\<close>

definition leading_int :: "jsstring \<Rightarrow> int" where
  "leading_int s =
     (let t = dropWhile is_space s; neg = (take 1 t = [45]);
          ds = takeWhile is_digit (if take 1 t = [45] \<or> take 1 t = [43] then tl t else t)
      in (if neg then - 1 else 1) * int (digits_val ds))"

definition atoiOr :: "jsstring \<Rightarrow> int \<Rightarrow> int" where
  "atoiOr s d = (if s = [] \<or> leading_int s = 0 then d else leading_int s)"

type_synonym setting_table = "(jsstring, jsstring) dict"

definition settingsFromMap :: "setting_table \<Rightarrow> settings" where
  "settingsFromMap m =
     (let v = \<lambda>k. dict_get_or [] m (js k)
      in \<lparr>window_weeks = Number (atoiOr (v ''window_weeks'') 4), prune_weeks = Number (atoiOr (v ''prune_weeks'') 12),
          week_starts = or_else (v ''week_starts'') (js ''monday''), run_mode = or_else (v ''run_mode'') (js ''ratio''),
          run_target_persons = Number (atoiOr (v ''run_target_persons'') 3),
          set_theme = or_else (v ''theme'') (js ''dracula''), export_counter = atoiOr (v ''export_counter'') 1,
          holiday_country = v ''holiday_country''\<rparr>)"

section \<open>Weeks of the planning table\<close>

text \<open>
  The row a copied half-day gets: the columns the insertion does not name take their defaults.
  Absences, incidents and taken targets are skipped; \<open>n\<close> counts the copies.
\<close>

definition copied_row :: "slot_row \<Rightarrow> slot_row" where
  "copied_row r = r\<lparr>r_away_type := [], r_away_note := [], r_incident_text := [], r_is_incident := False,
     r_tentative := False\<rparr>"

definition copy_slot :: "jsstring \<Rightarrow> date \<Rightarrow> date \<Rightarrow> jsstring \<Rightarrow> nat \<times> store \<Rightarrow> nat \<times> store" where
  "copy_slot pid from_day to_day slot = (\<lambda>(n, t).
     case dict_get t (SlotRef pid (fmtDate from_day) slot) of
       None \<Rightarrow> (n, t)
     | Some r \<Rightarrow>
         if r_away_type r \<noteq> [] then (n, t)
         else if r_is_incident r then (n, t)
         else if dict_get t (SlotRef pid (fmtDate to_day) slot) \<noteq> None then (n, t)
         else (n + 1, t @ [(SlotRef pid (fmtDate to_day) slot, copied_row r)]))"

text \<open>Go's \<open>time.Parse\<close> of a date is \<open>parseDate\<close> on the dates the client sends; \<open>None\<close> is an error.\<close>

definition CopyWeek :: "jsstring \<Rightarrow> jsstring \<Rightarrow> jsstring \<Rightarrow> store \<Rightarrow> (nat \<times> store) option" where
  "CopyWeek pid fromWeekStart toWeekStart t =
     (case (parseDate fromWeekStart, parseDate toWeekStart) of
        (Some a, Some b) \<Rightarrow>
          Some (fold (\<lambda>k. fold (\<lambda>slot. copy_slot pid (a + int k) (b + int k) slot) [js ''am'', js ''pm''])
                  [0..<5] (0, t))
      | _ \<Rightarrow> None)"

text \<open>
  \<open>AssignRunPerson\<close> fills the ten half-days of the working week, whatever they hold, and
  counts the ones that showed something.
\<close>

definition week_refs :: "jsstring \<Rightarrow> date \<Rightarrow> slot_ref list" where
  "week_refs pid d = concat (map (\<lambda>k. [SlotRef pid (fmtDate (d + int k)) (js ''am''), SlotRef pid (fmtDate (d + int k)) (js ''pm'')]) [0..<5])"

definition run_duty :: slot_data where
  "run_duty = \<lparr>sd_state = js ''filled'', sd_away = None, sd_incident = None, sd_projects = Some [], sd_run = True,
     sd_run_note = [], sd_remote = False, sd_offsite = False\<rparr>"

definition fill_run_week :: "jsstring \<Rightarrow> date \<Rightarrow> store \<Rightarrow> nat \<times> store" where
  "fill_run_week pid d t =
     (length (filter (\<lambda>r. case dict_get t r of None \<Rightarrow> False | Some row \<Rightarrow> r_state row \<noteq> js ''not_filled'') (week_refs pid d)),
      fold (\<lambda>r. SetSlot r run_duty) (week_refs pid d) t)"

definition PruneOldData :: "date \<Rightarrow> int \<Rightarrow> store \<Rightarrow> nat \<times> store" where
  "PruneOldData today weeksOld t =
     (let cutoff = fmtDate (today - 7 * weeksOld)
      in (length (filter (\<lambda>(k, r). ref_date k < cutoff) t), filter (\<lambda>(k, r). \<not> ref_date k < cutoff) t))"

section \<open>Rows by identifier\<close>

lemma ids_kept [simp]:
  "map p_id (UpdatePerson i p t) = map p_id t" "map p_id (ArchivePerson d i t) = map p_id t"
  "map p_id (UnarchivePerson i t) = map p_id t" "map pr_id (project_row i q u) = map pr_id u"
  by (auto simp: UpdatePerson_def ArchivePerson_def UnarchivePerson_def project_row_def)

lemma getPerson_Nil [simp]: "getPerson [] i = None"
  by (simp add: getPerson_def)

lemma getPerson_Cons [simp]: "getPerson (p # t) i = (if p_id p = i then Some p else getPerson t i)"
  by (simp add: getPerson_def)

lemma getProject_Nil [simp]: "getProject [] i = None"
  by (simp add: getProject_def)

lemma getProject_Cons [simp]: "getProject (p # t) i = (if pr_id p = i then Some p else getProject t i)"
  by (simp add: getProject_def)

lemma getPerson_append: "getPerson (t @ u) i = (case getPerson t i of None \<Rightarrow> getPerson u i | Some p \<Rightarrow> Some p)"
  by (induction t) auto

lemma getProject_append: "getProject (t @ u) i = (case getProject t i of None \<Rightarrow> getProject u i | Some p \<Rightarrow> Some p)"
  by (induction t) auto

lemma getPerson_None: "getPerson t i = None \<longleftrightarrow> i \<notin> p_id ` set t"
  by (induction t) auto

lemma getProject_None: "getProject t i = None \<longleftrightarrow> i \<notin> pr_id ` set t"
  by (induction t) auto

lemma getPerson_map:
  "(\<And>q. p_id (f q) = p_id q) \<Longrightarrow> getPerson (map f t) i = map_option f (getPerson t i)"
  by (induction t) auto

lemma getProject_map:
  "(\<And>q. pr_id (f q) = pr_id q) \<Longrightarrow> getProject (map f t) i = map_option f (getProject t i)"
  by (induction t) auto

lemma getPerson_filter: "getPerson (filter (\<lambda>q. p_id q \<noteq> j) t) i = (if i = j then None else getPerson t i)"
  by (induction t) auto

lemma getProject_filter: "getProject (filter (\<lambda>q. pr_id q \<noteq> j) t) i = (if i = j then None else getProject t i)"
  by (induction t) auto

lemma getPerson_perm:
  assumes "distinct (map p_id t)" "mset u = mset t"
  shows "getPerson u i = getPerson t i"
proof -
  have u: "distinct (map p_id u)" "set u = set t"
    using assms by (metis mset_eq_imp_distinct_iff mset_map, metis mset_eq_setD)
  have "getPerson v i = Some p \<longleftrightarrow> p \<in> set v \<and> p_id p = i" if "distinct (map p_id v)" for v p
    using that by (induction v) (auto simp: image_iff)
  then show ?thesis using assms(1) u by (metis not_Some_eq)
qed

lemma getProject_perm:
  assumes "distinct (map pr_id t)" "mset u = mset t"
  shows "getProject u i = getProject t i"
proof -
  have u: "distinct (map pr_id u)" "set u = set t"
    using assms by (metis mset_eq_imp_distinct_iff mset_map, metis mset_eq_setD)
  have "getProject v i = Some p \<longleftrightarrow> p \<in> set v \<and> pr_id p = i" if "distinct (map pr_id v)" for v p
    using that by (induction v) (auto simp: image_iff)
  then show ?thesis using assms(1) u by (metis not_Some_eq)
qed

end
