(* ===== verification/Csv.thy ===== *)
theory Csv
  imports ServerTables
begin

text \<open>
  The server's own reader of CSV texts (\<open>parseCSV\<close>, \<open>parseCSVLine\<close>, \<open>getField\<close> in
  \<open>internal/api/writes.go\<close>) and the import of projects that stands on it (\<open>importProjectCSV\<close>,
  \<open>UpsertProjectByName\<close>). Go walks over the bytes of the text; the characters that matter are
  ASCII, so that the walk over code units meets them in the same places. Proved here: a text written
  with the usual quoting reads back field by field, and what an import leaves in the table.
\<close>

section \<open>Lines and fields\<close>

text \<open>\<open>strings.TrimSpace\<close>: unlike \<open>trim\<close> of the page it strips U+0085 and keeps U+FEFF.\<close>

definition go_space :: "nat \<Rightarrow> bool" where
  "go_space c \<longleftrightarrow> c \<in> {9, 10, 11, 12, 13, 32, 133, 160, 5760, 8232, 8233, 8239, 8287, 12288} \<or> 8192 \<le> c \<and> c \<le> 8202"

definition go_trim :: "jsstring \<Rightarrow> jsstring" where
  "go_trim s = rev (dropWhile go_space (rev (dropWhile go_space s)))"

text \<open>Of \<open>strings.ToLower\<close> only the letters A to Z matter for the two words that are looked for.\<close>

definition lower_ascii :: "jsstring \<Rightarrow> jsstring" where
  "lower_ascii s = map (\<lambda>c. if 65 \<le> c \<and> c \<le> 90 then c + 32 else c) s"

text \<open>The loop of \<open>parseCSVLine\<close>; \<open>inQuote\<close> and \<open>cur\<close> are its variables.\<close>

fun csv_fields :: "bool \<Rightarrow> jsstring \<Rightarrow> jsstring \<Rightarrow> jsstring list" where
  "csv_fields inQuote cur [] = [cur]"
| "csv_fields True cur (c # s) =
     (if c = 34 then (if s \<noteq> [] \<and> hd s = 34 then csv_fields True (cur @ [34]) (tl s) else csv_fields False cur s)
      else csv_fields True (cur @ [c]) s)"
| "csv_fields False cur (c # s) =
     (if c = 34 then csv_fields True cur s
      else if c = 44 then cur # csv_fields False [] s
      else csv_fields False (cur @ [c]) s)"

definition parseCSVLine :: "jsstring \<Rightarrow> jsstring list" where
  "parseCSVLine line = csv_fields False [] line"

definition csv_header :: "jsstring \<Rightarrow> bool" where
  "csv_header line = (let firstLine = lower_ascii (go_trim line)
     in js_includes firstLine (js ''name'') \<and> js_includes firstLine (js ''status''))"

definition parseCSV :: "jsstring \<Rightarrow> jsstring list list" where
  "parseCSV txt =
     (let lines = js_split 10 (go_trim txt)
      in filter (\<lambda>row. go_trim (hd row) \<noteq> [])
           (map parseCSVLine (filter (\<lambda>line. line \<noteq> []) (map go_trim (if csv_header (hd lines) then tl lines else lines)))))"

definition getField :: "jsstring list \<Rightarrow> nat \<Rightarrow> jsstring" where
  "getField row i = (if i < length row then go_trim (row ! i) else [])"

definition getFieldOr :: "jsstring list \<Rightarrow> nat \<Rightarrow> jsstring \<Rightarrow> jsstring" where
  "getFieldOr row i dflt = or_else (getField row i) dflt"

section \<open>Importing projects\<close>

definition csv_project :: "jsstring list \<Rightarrow> project" where
  "csv_project row =
     (let st = getFieldOr row 6 (js ''unstarted'')
      in \<lparr>pr_id = [], pr_name = getField row 0, pr_emoji = getFieldOr row 1 emoji_folder,
          pr_description = getField row 2, pr_url = getField row 3, pr_start_date = getField row 4,
          pr_end_date = getField row 5,
          pr_status = (if st \<in> set (map js [''unstarted'', ''in_progress'', ''paused'', ''done'']) then st else js ''unstarted''),
          pr_team_lead = []\<rparr>)"

text \<open>Whether the project is new, and the table; \<open>None\<close>: a statement failed.\<close>

definition UpsertProjectByName :: "jsstring \<Rightarrow> project \<Rightarrow> project list \<Rightarrow> (bool \<times> project list) option" where
  "UpsertProjectByName uuid p t =
     (case find (\<lambda>q. pr_name q = pr_name p) t of
        Some q \<Rightarrow> map_option (\<lambda>t'. (False, t')) (UpdateProject (pr_id q) p t)
      | None \<Rightarrow> map_option (\<lambda>(q, t'). (True, t')) (AddProject uuid p t))"

text \<open>One step after the other; a step that fails ends the import, and what was written before it stays.\<close>

fun import_all :: "('a \<Rightarrow> 's \<Rightarrow> 's option) \<Rightarrow> 'a list \<Rightarrow> 's \<Rightarrow> bool \<times> 's" where
  "import_all f [] s = (True, s)"
| "import_all f (x # xs) s = (case f x s of None \<Rightarrow> (False, s) | Some s' \<Rightarrow> import_all f xs s')"

text \<open>The state: identifiers used, projects created, projects updated, the table.\<close>

definition import_row :: "(nat \<Rightarrow> jsstring) \<Rightarrow> jsstring list \<Rightarrow> nat \<times> nat \<times> nat \<times> project list
    \<Rightarrow> (nat \<times> nat \<times> nat \<times> project list) option" where
  "import_row uuid row = (\<lambda>(used, created, updated, t).
     map_option (\<lambda>(isNew, t'). if isNew then (Suc used, created + 1, updated, t') else (used, created, updated + 1, t'))
       (UpsertProjectByName (uuid used) (csv_project row) t))"

section \<open>Writing with quotes\<close>

text \<open>The usual way to write a table, against which the reader is judged: every field in quotes, quotes doubled.\<close>

definition csv_quoted :: "jsstring \<Rightarrow> jsstring" where
  "csv_quoted f = 34 # replace_all 34 [34, 34] f @ [34]"

definition csv_line :: "jsstring list \<Rightarrow> jsstring" where
  "csv_line row = js_join [44] (map csv_quoted row)"

definition csv_text :: "jsstring list list \<Rightarrow> jsstring" where
  "csv_text rows = js_join [10] (map csv_line rows)"

text \<open>The heading that the dialog of the page shows.\<close>

definition csv_heading :: jsstring where
  "csv_heading = js ''name,emoji,description,url,start_date,end_date,status''"

lemma read_quoted:
  "rest = [] \<or> hd rest \<noteq> 34 \<Longrightarrow>
   csv_fields True cur (replace_all 34 [34, 34] f @ 34 # rest) = csv_fields False (cur @ f) rest"
proof (induction f arbitrary: cur)
  case Nil
  then show ?case by (auto simp: replace_all_def)
next
  case (Cons x f)
  then show ?case by simp
qed

lemma read_field:
  "csv_fields False [] (csv_quoted f) = [f]" "csv_fields False [] (csv_quoted f @ 44 # rest) = f # csv_fields False [] rest"
  using read_quoted [of "[]" "[]" f] read_quoted [of "44 # rest" "[]" f] by (simp_all add: csv_quoted_def)

lemma read_line: "row \<noteq> [] \<Longrightarrow> parseCSVLine (csv_line row) = row"
  unfolding parseCSVLine_def csv_line_def
  by (induction row rule: induct_list012) (simp_all add: read_field)

lemma trim_quoted: "s = 34 # t @ [34] \<Longrightarrow> go_trim s = s"
  by (simp add: go_trim_def go_space_def)

lemma join_ends: "xs \<noteq> [] \<Longrightarrow> \<forall>x \<in> set xs. \<exists>t. x = 34 # t @ [34] \<Longrightarrow> \<exists>t. js_join [c] xs = 34 # t @ [34]"
proof (induction xs rule: induct_list012)
  case (3 x y zs)
  obtain t u where "x = 34 # t @ [34]" "js_join [c] (y # zs) = 34 # u @ [34]"
    using 3 by fastforce
  then have "js_join [c] (x # y # zs) = 34 # (t @ 34 # c # 34 # u) @ [34]" by simp
  then show ?case by blast
qed auto

lemma line_ends: "row \<noteq> [] \<Longrightarrow> \<exists>t. csv_line row = 34 # t @ [34]"
  unfolding csv_line_def by (rule join_ends) (auto simp: csv_quoted_def)

lemma set_js_join: "set (js_join sep xs) \<subseteq> set sep \<union> (\<Union>x \<in> set xs. set x)"
  by (induction sep xs rule: js_join.induct) auto

lemma line_no_newline: "\<forall>f \<in> set row. 10 \<notin> set f \<Longrightarrow> 10 \<notin> set (csv_line row)"
proof -
  assume f: "\<forall>f \<in> set row. 10 \<notin> set f"
  have "10 \<notin> set (csv_quoted f)" if "f \<in> set row" for f
    using f that set_replace_all [of 34 "[34, 34]" f] by (auto simp: csv_quoted_def)
  then show ?thesis
    using set_js_join [of "[44]" "map csv_quoted row"] by (auto simp: csv_line_def)
qed

text \<open>A row that is read: it has a name and no line break.\<close>

definition csv_row :: "jsstring list \<Rightarrow> bool" where
  "csv_row row \<longleftrightarrow> row \<noteq> [] \<and> go_trim (hd row) \<noteq> [] \<and> list_all (\<lambda>f. 10 \<notin> set f) row"

lemma read_rows:
  assumes "list_all csv_row rows"
  shows "filter (\<lambda>row. go_trim (hd row) \<noteq> []) (map parseCSVLine (filter (\<lambda>line. line \<noteq> []) (map go_trim (map csv_line rows)))) = rows"
  using assms
proof (induction rows)
  case (Cons row rows)
  then have row: "row \<noteq> []" "go_trim (hd row) \<noteq> []" by (auto simp: csv_row_def)
  obtain t where "csv_line row = 34 # t @ [34]" using line_ends [OF row(1)] by blast
  then have "go_trim (csv_line row) = csv_line row" "csv_line row \<noteq> []" using trim_quoted by auto
  with Cons row show ?case by (simp add: read_line)
qed simp

lemma split_rows:
  assumes "rows \<noteq> []" "list_all csv_row rows"
  shows "js_split 10 (csv_text rows) = map csv_line rows" "\<exists>t. csv_text rows = 34 # t @ [34]"
proof -
  show "js_split 10 (csv_text rows) = map csv_line rows"
    unfolding csv_text_def using assms by (intro js_split_join) (auto simp: list_all_iff csv_row_def line_no_newline)
  show "\<exists>t. csv_text rows = 34 # t @ [34]"
    unfolding csv_text_def using assms by (intro join_ends) (auto simp: list_all_iff csv_row_def line_ends)
qed

lemma heading_facts: "csv_header csv_heading" "10 \<notin> set csv_heading" "csv_heading = 110 # tl csv_heading"
  by (simp_all add: csv_header_def csv_heading_def lower_ascii_def go_trim_def go_space_def js_def Let_def)

section \<open>What an import leaves\<close>

definition project_named :: "project list \<Rightarrow> jsstring \<Rightarrow> project option" where
  "project_named t n = find (\<lambda>q. pr_name q = n) t"

definition projects_ok :: "project list \<Rightarrow> bool" where
  "projects_ok t \<longleftrightarrow> distinct (map pr_id t) \<and> distinct (map pr_name t)"

text \<open>Identifiers that are not used yet.\<close>

definition uuids_fresh :: "(nat \<Rightarrow> jsstring) \<Rightarrow> nat \<Rightarrow> project list \<Rightarrow> bool" where
  "uuids_fresh uuid used t \<longleftrightarrow> inj uuid \<and> (\<forall>n. used \<le> n \<longrightarrow> uuid n \<noteq> [] \<and> uuid n \<notin> pr_id ` set t)"

lemma named_iff: "projects_ok t \<Longrightarrow> project_named t n = Some q \<longleftrightarrow> q \<in> set t \<and> pr_name q = n"
  unfolding projects_ok_def project_named_def
  by (induction t) (auto simp: image_iff)

lemma named_None: "project_named t n = None \<longleftrightarrow> n \<notin> pr_name ` set t"
  by (auto simp: project_named_def find_None_iff)

lemma project_eqI:
  "projects_ok t \<Longrightarrow> a \<in> set t \<Longrightarrow> b \<in> set t \<Longrightarrow> pr_id a = pr_id b \<or> pr_name a = pr_name b \<Longrightarrow> a = b"
  unfolding projects_ok_def distinct_map inj_on_def by blast

lemma same_name_row:
  assumes "projects_ok t" "q \<in> set t" "pr_name q = pr_name p"
  shows "UpdateProject (pr_id q) p t = Some (project_row (pr_id q) p t)"
    "projects_ok (project_row (pr_id q) p t)"
    "project_named (project_row (pr_id q) p t) n = (if n = pr_name p then Some (p\<lparr>pr_id := pr_id q\<rparr>) else project_named t n)"
proof -
  let ?t = "project_row (pr_id q) p t"
  note eq = project_eqI [OF assms(1) _ assms(2)]
  show "UpdateProject (pr_id q) p t = Some ?t"
    using eq assms(3) by (fastforce simp: UpdateProject_def list_ex_iff)
  have "map pr_name ?t = map pr_name t"
    using eq assms(3) by (fastforce simp: project_row_def)
  then show ok: "projects_ok ?t"
    using assms(1) ids_kept(4) [of "pr_id q" p t] by (simp add: projects_ok_def)
  have set: "set ?t = insert (p\<lparr>pr_id := pr_id q\<rparr>) {x \<in> set t. pr_id x \<noteq> pr_id q}"
    using assms(2) by (auto simp: project_row_def)
  show "project_named ?t n = (if n = pr_name p then Some (p\<lparr>pr_id := pr_id q\<rparr>) else project_named t n)"
  proof (cases "project_named t n")
    case None
    then have "n \<noteq> pr_name p" using assms(2,3) by (metis image_eqI named_None)
    moreover have "project_named (project_row (pr_id q) p t) n = None"
      using None calculation by (auto simp: named_None set)
    ultimately show ?thesis using None by simp
  next
    case (Some x)
    then have x: "x \<in> set t" "pr_name x = n" using named_iff [OF assms(1)] by auto
    show ?thesis
    proof (cases "n = pr_name p")
      case True
      have "project_named ?t n = Some (p\<lparr>pr_id := pr_id q\<rparr>)" unfolding named_iff [OF ok] using True by (simp add: set)
      with True show ?thesis by simp
    next
      case False
      have "pr_id x \<noteq> pr_id q" using eq [OF x(1)] False x(2) assms(3) by auto
      then have "project_named ?t n = Some x" unfolding named_iff [OF ok] using x by (simp add: set)
      with False Some show ?thesis by simp
    qed
  qed
qed

lemma upsert_named:
  assumes ok: "projects_ok t" and p: "pr_id p = []" "pr_emoji p \<noteq> []" "pr_status p \<noteq> []"
    and u: "uuid \<noteq> []" "uuid \<notin> pr_id ` set t"
  shows "\<exists>t'. UpsertProjectByName uuid p t = Some (project_named t (pr_name p) = None, t') \<and> projects_ok t'
    \<and> pr_id ` set t' = pr_id ` set t \<union> (if project_named t (pr_name p) = None then {uuid} else {})
    \<and> (\<forall>n. project_named t' n = (if n = pr_name p
          then Some (p\<lparr>pr_id := (case project_named t n of Some q \<Rightarrow> pr_id q | None \<Rightarrow> uuid)\<rparr>) else project_named t n))"
proof (cases "project_named t (pr_name p)")
  case None
  let ?q = "p\<lparr>pr_id := uuid\<rparr>"
  have n: "pr_name p \<notin> pr_name ` set t" using None by (simp add: named_None)
  have "UpsertProjectByName uuid p t = Some (True, t @ [?q])"
    using None n p u by (simp add: UpsertProjectByName_def project_named_def AddProject_def Let_def)
  moreover have "projects_ok (t @ [?q])" using ok n u by (simp add: projects_ok_def)
  moreover have "project_named (t @ [?q]) m = (if m = pr_name p
      then Some (p\<lparr>pr_id := (case project_named t m of Some q \<Rightarrow> pr_id q | None \<Rightarrow> uuid)\<rparr>) else project_named t m)" for m
  proof -
    have app: "find P (t @ [?q]) = (case find P t of None \<Rightarrow> if P ?q then Some ?q else None | r \<Rightarrow> r)" for P
      by (induction t) auto
    show ?thesis using None by (cases "project_named t m") (auto simp: project_named_def app)
  qed
  ultimately show ?thesis using None by (intro exI [of _ "t @ [?q]"]) auto
next
  case (Some q)
  then have q: "q \<in> set t" "pr_name q = pr_name p" using named_iff [OF ok] by auto
  note row = same_name_row [OF ok q]
  have "UpsertProjectByName uuid p t = Some (False, project_row (pr_id q) p t)"
    using Some row(1) by (simp add: UpsertProjectByName_def project_named_def)
  moreover have "pr_id ` set (project_row (pr_id q) p t) = pr_id ` set t"
    using ids_kept(4) [of "pr_id q" p t] by (metis list.set_map)
  ultimately show ?thesis using row Some by (intro exI [of _ "project_row (pr_id q) p t"]) auto
qed

lemma csv_project_fields: "pr_id (csv_project row) = []" "pr_emoji (csv_project row) \<noteq> []" "pr_status (csv_project row) \<noteq> []"
    "pr_name (csv_project row) = getField row 0" "pr_team_lead (csv_project row) = []"
  by (auto simp: csv_project_def getFieldOr_def or_else_def emoji_folder_def js_def Let_def)

text \<open>The last row with a name decides.\<close>

definition last_row :: "jsstring list list \<Rightarrow> jsstring \<Rightarrow> jsstring list option" where
  "last_row rows n = find (\<lambda>row. getField row 0 = n) (rev rows)"

lemma last_row_simps [simp]:
  "last_row [] n = None"
  "last_row (row # rows) n = (case last_row rows n of None \<Rightarrow> if getField row 0 = n then Some row else None | r \<Rightarrow> r)"
proof -
  show "last_row [] n = None" by (simp add: last_row_def)
  have "find P (xs @ [row]) = (case find P xs of None \<Rightarrow> if P row then Some row else None | r \<Rightarrow> r)" for P and xs :: "jsstring list list"
    by (induction xs) auto
  then show "last_row (row # rows) n = (case last_row rows n of None \<Rightarrow> if getField row 0 = n then Some row else None | r \<Rightarrow> r)"
    by (simp add: last_row_def)
qed

lemma import_named:
  "projects_ok t \<Longrightarrow> uuids_fresh uuid used t \<Longrightarrow>
   \<exists>used' created' updated' t'. import_all (import_row uuid) rows (used, created, updated, t) = (True, used', created', updated', t')
     \<and> created' + updated' = created + updated + length rows \<and> projects_ok t' \<and> uuids_fresh uuid used' t'
     \<and> (\<forall>n. map_option (\<lambda>p. p\<lparr>pr_id := []\<rparr>) (project_named t' n) = (case last_row rows n of
            Some row \<Rightarrow> Some (csv_project row) | None \<Rightarrow> map_option (\<lambda>p. p\<lparr>pr_id := []\<rparr>) (project_named t n))
         \<and> (case project_named t n of None \<Rightarrow> True | Some q \<Rightarrow> map_option pr_id (project_named t' n) = Some (pr_id q)))"
proof (induction rows arbitrary: used created updated t)
  case Nil
  then show ?case by (auto split: option.splits)
next
  case (Cons row rows)
  have u: "uuid used \<noteq> []" "uuid used \<notin> pr_id ` set t" using Cons.prems(2) by (auto simp: uuids_fresh_def)
  let ?new = "project_named t (getField row 0) = None"
  obtain t1 where t1: "UpsertProjectByName (uuid used) (csv_project row) t = Some (?new, t1)"
      "projects_ok t1" "pr_id ` set t1 = pr_id ` set t \<union> (if ?new then {uuid used} else {})"
    and named: "\<forall>n. project_named t1 n = (if n = getField row 0
          then Some ((csv_project row)\<lparr>pr_id := (case project_named t n of Some q \<Rightarrow> pr_id q | None \<Rightarrow> uuid used)\<rparr>) else project_named t n)"
    using upsert_named [OF Cons.prems(1) csv_project_fields(1-3) [of row] u] unfolding csv_project_fields(4) by metis
  have fresh: "uuids_fresh uuid (if ?new then Suc used else used) t1"
    using Cons.prems(2) t1(3) by (auto simp: uuids_fresh_def dest: injD)
  obtain used' created' updated' t' where rest:
      "import_all (import_row uuid) rows (if ?new then Suc used else used, if ?new then created + 1 else created,
         if ?new then updated else updated + 1, t1) = (True, used', created', updated', t')"
      "created' + updated' = created + updated + length (row # rows)" "projects_ok t'" "uuids_fresh uuid used' t'"
    and names: "\<forall>n. map_option (\<lambda>p. p\<lparr>pr_id := []\<rparr>) (project_named t' n) = (case last_row rows n of
            Some row \<Rightarrow> Some (csv_project row) | None \<Rightarrow> map_option (\<lambda>p. p\<lparr>pr_id := []\<rparr>) (project_named t1 n))
         \<and> (case project_named t1 n of None \<Rightarrow> True | Some q \<Rightarrow> map_option pr_id (project_named t' n) = Some (pr_id q))"
    using Cons.IH [OF t1(2) fresh, of "if ?new then created + 1 else created" "if ?new then updated else updated + 1"]
    by (auto split: if_splits)
  have step: "import_row uuid row (used, created, updated, t) = Some (if ?new then Suc used else used,
      if ?new then created + 1 else created, if ?new then updated else updated + 1, t1)"
    by (simp add: import_row_def t1(1))
  have eq: "(csv_project row)\<lparr>pr_id := []\<rparr> = csv_project row"
    using csv_project_fields(1) [of row] by (cases "csv_project row") simp
  have "map_option (\<lambda>p. p\<lparr>pr_id := []\<rparr>) (project_named t' n) = (case last_row (row # rows) n of
            Some row \<Rightarrow> Some (csv_project row) | None \<Rightarrow> map_option (\<lambda>p. p\<lparr>pr_id := []\<rparr>) (project_named t n))
         \<and> (case project_named t n of None \<Rightarrow> True | Some q \<Rightarrow> map_option pr_id (project_named t' n) = Some (pr_id q))" for n
    using spec [OF names, of n] by (auto simp: named eq split: option.splits if_splits)
  with rest step show ?case by auto
qed

lemma parse_csv_text:
  assumes "rows \<noteq> []" and "list_all csv_row rows"
  shows "parseCSV (csv_heading @ 10 # csv_text rows) = rows"
proof -
  obtain t where t: "csv_text rows = 34 # t @ [34]" using split_rows(2) [OF assms] by blast
  have "dropWhile go_space (csv_heading @ xs) = csv_heading @ xs" for xs
    by (subst (1 2) heading_facts(3)) (simp add: go_space_def)
  then have "go_trim (csv_heading @ 10 # csv_text rows) = csv_heading @ 10 # csv_text rows"
    by (simp add: go_trim_def t) (simp add: go_space_def)
  then show ?thesis
    using heading_facts read_rows [OF assms(2)] by (simp add: parseCSV_def js_split_append split_rows(1) [OF assms] Let_def)
qed

section \<open>Properties\<close>

text \<open>C34: the reader of CSV texts takes back what is written with quotes: under the heading of the dialog, or
  without one if the first line does not look like a heading, every table of fields without line
  breaks whose rows have a name is read as it is, commas, quotes and spaces included.\<close>

theorem csv_reads_back:
  assumes "rows \<noteq> []" and "list_all csv_row rows"
  shows "parseCSV (csv_heading @ 10 # csv_text rows) = rows
    \<and> (if csv_header (csv_line (hd rows)) then parseCSV (csv_text rows) = tl rows else parseCSV (csv_text rows) = rows)"
proof -
  obtain t where t: "csv_text rows = 34 # t @ [34]" using split_rows(2) [OF assms] by blast
  have "parseCSV (csv_text rows) = (if csv_header (csv_line (hd rows)) then tl rows else rows)"
  proof -
    have lines: "js_split 10 (go_trim (csv_text rows)) = map csv_line rows"
      using trim_quoted [OF t] split_rows(1) [OF assms] by simp
    have hd: "hd (map csv_line rows) = csv_line (hd rows)" and tl: "tl (map csv_line rows) = map csv_line (tl rows)"
      using assms(1) by (simp_all add: hd_map map_tl)
    have "list_all csv_row (tl rows)" using assms by (cases rows) auto
    then show ?thesis
      using read_rows [of "tl rows"] read_rows [OF assms(2)] by (simp only: parseCSV_def Let_def lines hd tl split: if_split) simp
  qed
  with parse_csv_text [OF assms] show ?thesis by simp
qed

theorem csv_reads_back_witness:
  "parseCSV (csv_heading @ 10 # csv_text [[js ''At, las'', js ''say \"hi\"'', []]]) = [[js ''At, las'', js ''say \"hi\"'', []]]
    \<and> (if csv_header (csv_line (hd [[js ''At, las'', js ''say \"hi\"'', []]]))
       then parseCSV (csv_text [[js ''At, las'', js ''say \"hi\"'', []]]) = tl [[js ''At, las'', js ''say \"hi\"'', []]]
       else parseCSV (csv_text [[js ''At, las'', js ''say \"hi\"'', []]]) = [[js ''At, las'', js ''say \"hi\"'', []]])"
  by (rule csv_reads_back) (simp_all add: csv_row_def go_trim_def go_space_def js_def)

end
