(* ===== verification/Server.thy ===== *)
theory Server
  imports Csv
begin

text \<open>
  The tables of the service together (\<open>internal/store\<close>): on-call and rotation, the operations
  that touch several tables (\<open>AssignRunPerson\<close>, the deletion of a person with the rows that
  refer to it, \<open>ResetAllData\<close>), and the data of an export. The record \<open>server\<close> also holds what the service
  takes from outside: the session of the request, the day, identifiers, the TOML library, the order in
  which Go walks over a map, and the time stamps of an export.
\<close>

type_synonym oncall = "(jsstring, oncall_entry list) dict"
type_synonym rotation = "(jsstring, jsstring list) dict"

section \<open>The data of an export\<close>

text \<open>Values of settings in a file; older exports have numbers and booleans.\<close>

datatype toml_value = TomlText jsstring | TomlInt int | TomlBool bool

record export_person =
  xp_id :: jsstring
  xp_name :: jsstring
  xp_role :: jsstring
  xp_sub_team :: jsstring
  xp_avatar_emoji :: jsstring
  xp_avatar_color :: jsstring
  xp_start_date :: jsstring
  xp_default_projects :: "jsstring list"
  xp_status :: jsstring
  xp_archived_date :: jsstring
  xp_is_guest :: bool
  xp_avatar :: "(jsstring \<times> jsstring) option"
  xp_guest :: "bool option"

record export_planning =
  xl_person_id :: jsstring
  xl_date :: jsstring
  xl_slot :: jsstring
  xl_state :: jsstring
  xl_away_type :: jsstring
  xl_away_note :: jsstring
  xl_run :: bool
  xl_remote :: bool
  xl_offsite :: bool
  xl_incident :: bool
  xl_incident_text :: jsstring
  xl_run_note :: jsstring
  xl_tentative :: bool
  xl_projects :: "proj_assign list"

record export_keyval =
  xk_person_id :: jsstring
  xk_week_start :: jsstring
  xk_comment :: jsstring

record export_data =
  xd_schema_version :: int
  xd_exported_at :: jsstring
  xd_settings :: "(jsstring \<times> toml_value) list"
  xd_people :: "export_person list"
  xd_planning :: "export_planning list"
  xd_projects :: "project list"
  xd_oncall :: "export_keyval list"
  xd_rotation :: "export_keyval list"

section \<open>The tables\<close>

record server =
  sv_session :: "user option"
  sv_planning :: store
  sv_oncall :: "(jsstring \<times> jsstring, jsstring) dict"
  sv_rotation :: "(jsstring \<times> jsstring, unit) dict"
  sv_people :: "person list"
  sv_projects :: "project list"
  sv_settings :: setting_table
  sv_holidays :: "holiday list"
  sv_today :: date
  sv_uuid :: "nat \<Rightarrow> jsstring"
  sv_uuids_used :: nat
  sv_toml_parse :: "jsstring \<Rightarrow> export_data option"
  sv_toml_print :: "export_data \<Rightarrow> jsstring"
  sv_map_order :: "jsstring list \<Rightarrow> jsstring list"
  sv_stamps :: "jsstring \<times> jsstring"

definition prune_weeks_used :: "setting_table \<Rightarrow> int" where
  "prune_weeks_used t =
     (case prune_weeks (settingsFromMap t) of Number n \<Rightarrow> if n < 1 then 12 else n | Text _ \<Rightarrow> 12)"

definition SetOnCall :: "jsstring \<Rightarrow> jsstring \<Rightarrow> jsstring \<Rightarrow> bool \<Rightarrow> (jsstring \<times> jsstring, jsstring) dict
    \<Rightarrow> (jsstring \<times> jsstring, jsstring) dict" where
  "SetOnCall pid ws comment isOnCall t =
     (if isOnCall then dict_set (pid, ws) comment t else dict_del (pid, ws) t)"

text \<open>The reply is a Go map, which is encoded with its keys in order.\<close>

definition GetOnCall :: "jsstring \<Rightarrow> jsstring \<Rightarrow> (jsstring \<times> jsstring, jsstring) dict \<Rightarrow> oncall" where
  "GetOnCall startDate endDate t =
     (let rows = filter (\<lambda>((pid, ws), cm). startDate \<le> ws \<and> ws \<le> endDate) t
      in map (\<lambda>w. (w, map (\<lambda>((pid, ws), cm). \<lparr>oe_person_id = pid, oe_comment = cm\<rparr>)
                        (filter (\<lambda>((pid, ws), cm). ws = w) rows)))
           (sort (remdups (map (snd \<circ> fst) rows))))"

definition SetRotation :: "jsstring \<Rightarrow> jsstring \<Rightarrow> bool \<Rightarrow> (jsstring \<times> jsstring, unit) dict
    \<Rightarrow> (jsstring \<times> jsstring, unit) dict" where
  "SetRotation pid ws isRunPerson t =
     (if isRunPerson then dict_del (pid, ws) t @ [((pid, ws), ())] else dict_del (pid, ws) t)"

text \<open>A date that does not parse fails before anything is written.\<close>

definition AssignRunPerson :: "jsstring \<Rightarrow> jsstring \<Rightarrow> server \<Rightarrow> (nat \<times> server) option" where
  "AssignRunPerson pid ws s =
     (case parseDate ws of None \<Rightarrow> None
      | Some d \<Rightarrow> let (n, t) = fill_run_week pid d (sv_planning s)
                  in Some (n, s\<lparr>sv_rotation := SetRotation pid ws True (sv_rotation s), sv_planning := t\<rparr>))"

text \<open>
  The tables that name a person reference the people with \<open>ON DELETE CASCADE\<close>, and the
  connection enforces it: deleting a person deletes the rows of the person.
\<close>

definition cascade_person :: "jsstring \<Rightarrow> server \<Rightarrow> server" where
  "cascade_person i s = s\<lparr>sv_people := DeletePerson i (sv_people s),
     sv_planning := filter (\<lambda>(k, _). ref_person k \<noteq> i) (sv_planning s),
     sv_oncall := filter (\<lambda>((pid, _), _). pid \<noteq> i) (sv_oncall s),
     sv_rotation := filter (\<lambda>((pid, _), _). pid \<noteq> i) (sv_rotation s)\<rparr>"

definition GetRotation :: "jsstring \<Rightarrow> jsstring \<Rightarrow> (jsstring \<times> jsstring, unit) dict \<Rightarrow> rotation" where
  "GetRotation startDate endDate t =
     (let rows = filter (\<lambda>((pid, ws), _). startDate \<le> ws \<and> ws \<le> endDate) t
      in map (\<lambda>w. (w, map (fst \<circ> fst) (filter (\<lambda>((pid, ws), _). ws = w) rows)))
           (sort (remdups (map (snd \<circ> fst) rows))))"

definition ResetAllData :: "server \<Rightarrow> server" where
  "ResetAllData s = s\<lparr>sv_planning := [], sv_oncall := [], sv_rotation := [], sv_people := [], sv_projects := []\<rparr>"

lemma ResetAllData_fields [simp]:
  "sv_planning (ResetAllData s) = []" "sv_oncall (ResetAllData s) = []" "sv_rotation (ResetAllData s) = []"
  "sv_people (ResetAllData s) = []" "sv_projects (ResetAllData s) = []" "sv_settings (ResetAllData s) = sv_settings s"
  "sv_session (ResetAllData s) = sv_session s" "sv_today (ResetAllData s) = sv_today s"
  "sv_holidays (ResetAllData s) = sv_holidays s"
  by (simp_all add: ResetAllData_def)

end
