(* ===== verification/ImportExport.thy ===== *)
theory ImportExport
  imports Server
begin

text \<open>
  Export and import of everything (\<open>GetExportData\<close> in \<open>internal/store/read.go\<close>, \<open>ImportTOMLData\<close> in
  \<open>write.go\<close>, the handlers \<open>exportTOML\<close>, \<open>importTOML\<close>, \<open>importProjectCSV\<close> and \<open>internal/toml\<close>). The TOML
  library is a parameter: \<open>sv_toml_parse\<close>, \<open>sv_toml_print\<close>.
\<close>

section \<open>Export\<close>

definition export_person_of :: "person \<Rightarrow> export_person" where
  "export_person_of p = \<lparr>xp_id = p_id p, xp_name = p_name p, xp_role = p_role p, xp_sub_team = p_sub_team p,
     xp_avatar_emoji = p_avatar_emoji p, xp_avatar_color = p_avatar_color p, xp_start_date = p_start_date p,
     xp_default_projects = p_default_projects p, xp_status = p_status p, xp_archived_date = p_archived_date p,
     xp_is_guest = p_is_guest p, xp_avatar = None, xp_guest = None\<rparr>"

definition export_slot_of :: "slot_ref \<times> slot_data \<Rightarrow> export_planning" where
  "export_slot_of = (\<lambda>(r, d). \<lparr>xl_person_id = ref_person r, xl_date = ref_date r, xl_slot = ref_slot r,
     xl_state = sd_state d,
     xl_away_type = (case sd_away d of None \<Rightarrow> [] | Some a \<Rightarrow> away_type a),
     xl_away_note = (case sd_away d of None \<Rightarrow> [] | Some a \<Rightarrow> away_note a),
     xl_run = sd_run d, xl_remote = sd_remote d, xl_offsite = sd_offsite d,
     xl_incident = (sd_incident d \<noteq> None),
     xl_incident_text = (case sd_incident d of None \<Rightarrow> [] | Some i \<Rightarrow> incident_text i),
     xl_run_note = sd_run_note d,
     xl_tentative = (case sd_away d of None \<Rightarrow> False | Some a \<Rightarrow> away_tentative a),
     xl_projects = (case sd_projects d of None \<Rightarrow> [] | Some ps \<Rightarrow> ps)\<rparr>)"

definition export_from :: jsstring where "export_from = js ''0000/01/01''"

definition export_to :: jsstring where "export_to = js ''9999/12/31''"

text \<open>Go walks over the weeks of a map in any order, \<open>sv_map_order\<close>.\<close>

definition GetExportData :: "server \<Rightarrow> export_data" where
  "GetExportData s =
     (let oncallMap = GetOnCall export_from export_to (sv_oncall s); rotMap = GetRotation export_from export_to (sv_rotation s)
      in \<lparr>xd_schema_version = 1, xd_exported_at = js ''now'',
          xd_settings = map (\<lambda>(k, v). (k, TomlText v)) (sv_settings s),
          xd_people = map export_person_of (ListPeople (sv_people s)),
          xd_planning = map export_slot_of (GetPlanning export_from export_to (sv_planning s)),
          xd_projects = ListProjects (sv_projects s),
          xd_oncall = concat (map (\<lambda>w. map (\<lambda>en. \<lparr>xk_person_id = oe_person_id en, xk_week_start = w, xk_comment = oe_comment en\<rparr>)
                        (dict_get_or [] oncallMap w)) (sv_map_order s (map fst oncallMap))),
          xd_rotation = concat (map (\<lambda>w. map (\<lambda>pid. \<lparr>xk_person_id = pid, xk_week_start = w, xk_comment = []\<rparr>)
                          (dict_get_or [] rotMap w)) (sv_map_order s (map fst rotMap)))\<rparr>)"

text \<open>\<open>strconv.Atoi\<close>, 0 for a text that is no integer; the counter is far from the bounds of an \<open>int\<close>.\<close>

definition go_atoi :: "jsstring \<Rightarrow> int" where
  "go_atoi t =
     (let ds = (if take 1 t = [45] \<or> take 1 t = [43] then tl t else t)
      in if ds = [] \<or> \<not> list_all is_digit ds then 0
         else (if take 1 t = [45] then - 1 else 1) * int (digits_val ds))"

definition zero_padded :: "jsstring \<Rightarrow> jsstring" where
  "zero_padded t = (if length t < 3 then replicate (3 - length t) 48 @ t else t)"

text \<open>The data that is written to the file, with the new value of the counter.\<close>

definition next_counter :: "server \<Rightarrow> jsstring" where
  "next_counter s = str_of_int (go_atoi (or_else (dict_get_or [] (sv_settings s) (js ''export_counter'')) (js ''1'')) + 1)"

definition export_file :: "server \<Rightarrow> export_data" where
  "export_file s = (GetExportData s)\<lparr>xd_exported_at := fst (sv_stamps s),
     xd_settings := dict_set (js ''export_counter'') (TomlText (next_counter s)) (xd_settings (GetExportData s))\<rparr>"

text \<open>File name, text and the new table of settings.\<close>

definition exportTOML :: "server \<Rightarrow> jsstring \<times> jsstring \<times> server" where
  "exportTOML s =
     (snd (sv_stamps s) @ js ''-'' @ zero_padded (next_counter s) @ js ''.toml'', sv_toml_print s (export_file s),
      s\<lparr>sv_settings := dict_set (js ''export_counter'') (next_counter s) (sv_settings s)\<rparr>)"

section \<open>Import\<close>

text \<open>\<open>fmt.Sprint\<close>.\<close>

fun go_sprint :: "toml_value \<Rightarrow> jsstring" where
  "go_sprint (TomlText t) = t"
| "go_sprint (TomlInt n) = str_of_int n"
| "go_sprint (TomlBool b) = (if b then js ''true'' else js ''false'')"

definition import_setting :: "jsstring \<times> toml_value \<Rightarrow> setting_table \<Rightarrow> setting_table" where
  "import_setting = (\<lambda>(k, v) t. if k = js ''export_counter'' \<or> k = js ''_scrollOffset'' then t else dict_set k (go_sprint v) t)"

text \<open>Files of older versions have the avatar in a table of its own and the key \<open>guest\<close>.\<close>

definition person_of_export :: "export_person \<Rightarrow> person" where
  "person_of_export x = \<lparr>p_id = xp_id x, p_name = xp_name x, p_role = xp_role x, p_sub_team = xp_sub_team x,
     p_avatar_emoji = (case xp_avatar x of None \<Rightarrow> xp_avatar_emoji x | Some (em, col) \<Rightarrow> or_else (xp_avatar_emoji x) em),
     p_avatar_color = (case xp_avatar x of None \<Rightarrow> xp_avatar_color x | Some (em, col) \<Rightarrow> or_else (xp_avatar_color x) col),
     p_start_date = xp_start_date x, p_default_projects = xp_default_projects x, p_status = xp_status x,
     p_archived_date = xp_archived_date x, p_is_guest = (case xp_guest x of None \<Rightarrow> xp_is_guest x | Some g \<Rightarrow> g),
     p_ics_token = []\<rparr>"

text \<open>The state of an import: the tables, the people created, the people updated.\<close>

definition import_person :: "export_person \<Rightarrow> server \<times> nat \<times> nat \<Rightarrow> (server \<times> nat \<times> nat) option" where
  "import_person x = (\<lambda>(s, created, updated).
     let p = person_of_export x
     in if getPerson (sv_people s) (xp_id x) \<noteq> None
        then Some (s\<lparr>sv_people := UpdatePerson (xp_id x) p (sv_people s)\<rparr>, created, updated + 1)
        else case AddPerson (sv_uuid s (sv_uuids_used s)) p (sv_people s) of
               None \<Rightarrow> None
             | Some (q, t) \<Rightarrow> Some (s\<lparr>sv_people := t, sv_uuids_used := Suc (sv_uuids_used s)\<rparr>, created + 1, updated))"

text \<open>A row for a person who is not in the table violates its foreign key.\<close>

definition known_person :: "server \<Rightarrow> jsstring \<Rightarrow> bool" where
  "known_person s pid \<longleftrightarrow> getPerson (sv_people s) pid \<noteq> None"

definition slot_of_export :: "export_planning \<Rightarrow> slot_data" where
  "slot_of_export x = \<lparr>sd_state = xl_state x,
     sd_away = (if xl_away_type x = [] then None
                else Some \<lparr>away_type = xl_away_type x, away_note = xl_away_note x, away_tentative = xl_tentative x\<rparr>),
     sd_incident = (if xl_incident x then Some \<lparr>incident_text = xl_incident_text x\<rparr> else None),
     sd_projects = Some (xl_projects x), sd_run = xl_run x, sd_run_note = xl_run_note x,
     sd_remote = xl_remote x, sd_offsite = xl_offsite x\<rparr>"

definition import_slot :: "export_planning \<Rightarrow> server \<times> nat \<times> nat \<Rightarrow> (server \<times> nat \<times> nat) option" where
  "import_slot x = (\<lambda>(s, n).
     if slot_is_empty (slot_of_export x) \<or> known_person s (xl_person_id x)
     then Some (s\<lparr>sv_planning := SetSlot (SlotRef (xl_person_id x) (xl_date x) (xl_slot x)) (slot_of_export x) (sv_planning s)\<rparr>, n)
     else None)"

definition import_project :: "project \<Rightarrow> server \<times> nat \<times> nat \<Rightarrow> (server \<times> nat \<times> nat) option" where
  "import_project p = (\<lambda>(s, n).
     map_option (\<lambda>(isNew, t). (s\<lparr>sv_projects := t, sv_uuids_used := (if isNew then Suc (sv_uuids_used s) else sv_uuids_used s)\<rparr>, n))
       (UpsertProjectByName (sv_uuid s (sv_uuids_used s)) p (sv_projects s)))"

definition import_oncall :: "export_keyval \<Rightarrow> server \<times> nat \<times> nat \<Rightarrow> (server \<times> nat \<times> nat) option" where
  "import_oncall x = (\<lambda>(s, n).
     if known_person s (xk_person_id x)
     then Some (s\<lparr>sv_oncall := SetOnCall (xk_person_id x) (xk_week_start x) (xk_comment x) True (sv_oncall s)\<rparr>, n) else None)"

definition import_rotation :: "export_keyval \<Rightarrow> server \<times> nat \<times> nat \<Rightarrow> (server \<times> nat \<times> nat) option" where
  "import_rotation x = (\<lambda>(s, n).
     if known_person s (xk_person_id x)
     then Some (s\<lparr>sv_rotation := SetRotation (xk_person_id x) (xk_week_start x) True (sv_rotation s)\<rparr>, n) else None)"

definition and_then :: "bool \<times> 's \<Rightarrow> ('s \<Rightarrow> bool \<times> 's) \<Rightarrow> bool \<times> 's" where
  "and_then r f = (if fst r then f (snd r) else r)"

definition ImportTOMLData :: "export_data \<Rightarrow> jsstring \<Rightarrow> server \<Rightarrow> bool \<times> server \<times> nat \<times> nat" where
  "ImportTOMLData d mode s =
     (let s = (if mode = js ''replace'' then ResetAllData s else s);
          s = s\<lparr>sv_settings := fold import_setting (xd_settings d) (sv_settings s)\<rparr>
      in and_then (and_then (and_then (and_then (import_all import_person (xd_people d) (s, 0, 0))
           (import_all import_slot (xd_planning d)))
           (import_all import_project (xd_projects d)))
           (import_all import_oncall (xd_oncall d)))
           (import_all import_rotation (xd_rotation d)))"

text \<open>\<open>toml.Parse\<close>.\<close>

definition parse_toml :: "server \<Rightarrow> jsstring \<Rightarrow> export_data option" where
  "parse_toml s body = map_option (\<lambda>d. if xd_schema_version d = 0 then d\<lparr>xd_schema_version := 1\<rparr> else d) (sv_toml_parse s body)"

text \<open>The status, the two counts and the tables.\<close>

definition importTOML :: "jsstring \<Rightarrow> jsstring \<Rightarrow> server \<Rightarrow> nat \<times> nat \<times> nat \<times> server" where
  "importTOML mode body s =
     (if body = [] then (400, 0, 0, s)
      else case parse_toml s body of
             None \<Rightarrow> (400, 0, 0, s)
           | Some d \<Rightarrow> (case ImportTOMLData d (or_else mode (js ''merge'')) s of
               (ok, s', created, updated) \<Rightarrow> if ok then (200, created, updated, s') else (500, 0, 0, s')))"

definition importProjectCSV :: "jsstring \<Rightarrow> server \<Rightarrow> nat \<times> nat \<times> nat \<times> server" where
  "importProjectCSV body s =
     (if body = [] then (400, 0, 0, s)
      else if parseCSV body = [] then (400, 0, 0, s)
      else case import_all (import_row (sv_uuid s)) (parseCSV body) (sv_uuids_used s, 0, 0, sv_projects s) of
             (ok, used, created, updated, t) \<Rightarrow>
               (if ok then 200 else 500, if ok then created else 0, if ok then updated else 0,
                s\<lparr>sv_projects := t, sv_uuids_used := used\<rparr>))"

lemma import_statuses: "fst (importTOML mode body s) \<in> {200, 400, 500}" "fst (importProjectCSV body s) \<in> {200, 400, 500}"
  by (auto simp: importTOML_def importProjectCSV_def split: option.splits prod.splits)

end
