(* ===== verification/Handlers.thy ===== *)
theory Handlers
  imports ImportExport
begin

text \<open>
  The requests of the page and the handlers that answer them (\<open>internal/auth/middleware.go\<close>,
  \<open>internal/api\<close>): roles, statuses, replies. The record \<open>env\<close> holds what neither side controls: the day and the
  clock, which requests the network or the database fails, and the order in which requests sent
  together arrive.
\<close>

datatype request =
    GetPlanningR jsstring jsstring
  | GetOnCallR jsstring jsstring
  | GetRotationR jsstring jsstring
  | PutSlotR jsstring jsstring jsstring slot_data
  | DelSlotR jsstring jsstring jsstring
  | PutOnCallR jsstring jsstring jsstring
  | DelOnCallR jsstring jsstring
  | GetPeopleR
  | GetProjectsR
  | GetSettingsR
  | GetHolidaysR
  | PostPersonR person
  | PutPersonR jsstring person
  | DelPersonR jsstring
  | ArchivePersonR jsstring
  | UnarchivePersonR jsstring
  | PostProjectR project
  | PutProjectR jsstring project
  | DelProjectR jsstring
  | PutSettingR jsstring jsstring
  | CopyWeekR jsstring jsstring jsstring
  | AssignRunR jsstring jsstring
  | DelRotationR jsstring jsstring
  | ImportCsvR jsstring
  | ImportTomlR jsstring jsstring
  | ExportR
  | PruneR
  | ResetR

datatype reply =
    RDone
  | RError
  | RPlanning "(slot_ref \<times> slot_data) list"
  | ROnCall oncall
  | RRotation rotation
  | RPeople "person list"
  | RProjects "project list"
  | RSettings settings
  | RHolidays "holiday list"
  | RPerson person
  | RProject project
  | RCount nat
  | RImport nat nat
  | RFile jsstring jsstring

datatype net = Up | NoRequest | NoReply

datatype api_error = Unauthorized | Forbidden | NetworkError | TypeError

text \<open>
  \<open>env_db_fails\<close>: the database refuses the statement of a request, as it does when it is
  locked and when the row to write names a person whom the people table does not have.
\<close>

record env =
  env_today :: date
  env_now :: int
  env_net :: "request \<Rightarrow> net"
  env_db_fails :: "request \<Rightarrow> bool"
  env_arrival :: "request list \<Rightarrow> request list"

section \<open>The server\<close>

definition role_level :: "jsstring \<Rightarrow> nat" where
  "role_level r = (if r = js ''admin'' then 3 else if r = js ''normal'' then 2
     else if r = js ''readonly'' then 1 else 0)"

definition roleSatisfies :: "jsstring \<Rightarrow> jsstring \<Rightarrow> bool" where
  "roleSatisfies r low \<longleftrightarrow> role_level low \<le> role_level r"

fun is_write :: "request \<Rightarrow> bool" where
  "is_write (GetPlanningR _ _) = False"
| "is_write (GetOnCallR _ _) = False"
| "is_write (GetRotationR _ _) = False"
| "is_write GetPeopleR = False"
| "is_write GetProjectsR = False"
| "is_write GetSettingsR = False"
| "is_write GetHolidaysR = False"
| "is_write _ = True"

text \<open>The role a route requires, \<open>None\<close> for a route that checks none.\<close>

fun route_role :: "request \<Rightarrow> jsstring option" where
  "route_role ExportR = None"
| "route_role (ImportTomlR _ _) = Some (js ''admin'')"
| "route_role (ImportCsvR _) = Some (js ''admin'')"
| "route_role PruneR = Some (js ''admin'')"
| "route_role ResetR = Some (js ''admin'')"
| "route_role (PutSettingR _ _) = None"
| "route_role r = (if is_write r then Some (js ''normal'') else None)"

definition all_role_keys :: "jsstring list" where
  "all_role_keys = [js ''window_weeks'', js ''run_mode'', js ''run_target_persons'']"

definition admin_keys :: "jsstring list" where
  "admin_keys = [js ''prune_weeks'', js ''holiday_country'']"

text \<open>One setting per request, as the interface sends them.\<close>

definition updateSettings :: "jsstring \<Rightarrow> jsstring \<Rightarrow> user option \<Rightarrow> setting_table \<Rightarrow> nat \<times> setting_table" where
  "updateSettings k v u t =
     (if k \<notin> set all_role_keys \<and> k \<notin> set admin_keys then (400, t)
      else if k \<in> set admin_keys \<and> \<not> isAdmin u then (403, t)
      else (200, dict_set k v t))"

text \<open>An update of a missing row fails after its statement: the handler dereferences the row.\<close>

fun handle :: "request \<Rightarrow> server \<Rightarrow> nat \<times> reply \<times> server" where
  "handle (GetPlanningR a b) s =
     (if a = [] \<or> b = [] then (400, RError, s) else (200, RPlanning (GetPlanning a b (sv_planning s)), s))"
| "handle (GetOnCallR a b) s =
     (if a = [] \<or> b = [] then (400, RError, s) else (200, ROnCall (GetOnCall a b (sv_oncall s)), s))"
| "handle (GetRotationR a b) s =
     (if a = [] \<or> b = [] then (400, RError, s) else (200, RRotation (GetRotation a b (sv_rotation s)), s))"
| "handle (PutSlotR p d sl data) s =
     (if p = [] \<or> d = [] \<or> sl = [] then (400, RError, s)
      else (200, RDone, s\<lparr>sv_planning := SetSlot (SlotRef p d sl) data (sv_planning s)\<rparr>))"
| "handle (DelSlotR p d sl) s =
     (200, RDone, s\<lparr>sv_planning := ClearSlot (SlotRef p d sl) (sv_planning s)\<rparr>)"
| "handle (PutOnCallR p ws cm) s = (200, RDone, s\<lparr>sv_oncall := SetOnCall p ws cm True (sv_oncall s)\<rparr>)"
| "handle (DelOnCallR p ws) s = (200, RDone, s\<lparr>sv_oncall := SetOnCall p ws [] False (sv_oncall s)\<rparr>)"
| "handle GetPeopleR s = (200, RPeople (ListPeople (sv_people s)), s)"
| "handle GetProjectsR s = (200, RProjects (ListProjects (sv_projects s)), s)"
| "handle GetSettingsR s = (200, RSettings (settingsFromMap (sv_settings s)), s)"
| "handle GetHolidaysR s = (200, RHolidays (sort_key h_date (sv_holidays s)), s)"
| "handle (PostPersonR p) s =
     (if p_name p = [] then (400, RError, s)
      else case AddPerson (sv_uuid s (sv_uuids_used s)) p (sv_people s) of
             None \<Rightarrow> (500, RError, s)
           | Some (q, t) \<Rightarrow> (201, RPerson q, s\<lparr>sv_people := t, sv_uuids_used := Suc (sv_uuids_used s)\<rparr>))"
| "handle (PutPersonR i p) s =
     (case getPerson (UpdatePerson i p (sv_people s)) i of
        None \<Rightarrow> (500, RError, s)
      | Some q \<Rightarrow> (200, RPerson q, s\<lparr>sv_people := UpdatePerson i p (sv_people s)\<rparr>))"
| "handle (DelPersonR i) s = (200, RDone, cascade_person i s)"
| "handle (ArchivePersonR i) s = (200, RDone, s\<lparr>sv_people := ArchivePerson (sv_today s) i (sv_people s)\<rparr>)"
| "handle (UnarchivePersonR i) s = (200, RDone, s\<lparr>sv_people := UnarchivePerson i (sv_people s)\<rparr>)"
| "handle (PostProjectR p) s =
     (if pr_name p = [] then (400, RError, s)
      else if pr_name p \<in> pr_name ` set (sv_projects s) then (409, RError, s)
      else case AddProject (sv_uuid s (sv_uuids_used s)) p (sv_projects s) of
             None \<Rightarrow> (500, RError, s)
           | Some (q, t) \<Rightarrow> (201, RProject q, s\<lparr>sv_projects := t, sv_uuids_used := Suc (sv_uuids_used s)\<rparr>))"
| "handle (PutProjectR i p) s =
     (case UpdateProject i p (sv_projects s) of
        None \<Rightarrow> (500, RError, s)
      | Some t \<Rightarrow> (case getProject t i of
            None \<Rightarrow> (500, RError, s)
          | Some q \<Rightarrow> (200, RProject q, s\<lparr>sv_projects := t\<rparr>)))"
| "handle (DelProjectR i) s = (200, RDone, s\<lparr>sv_projects := DeleteProject i (sv_projects s)\<rparr>)"
| "handle (PutSettingR k v) s =
     (let (st, t) = updateSettings k v (sv_session s) (sv_settings s)
      in (st, if st = 200 then RDone else RError, s\<lparr>sv_settings := t\<rparr>))"
| "handle (CopyWeekR p a b) s =
     (case CopyWeek p a b (sv_planning s) of
        None \<Rightarrow> (500, RError, s) | Some (n, t) \<Rightarrow> (200, RCount n, s\<lparr>sv_planning := t\<rparr>))"
| "handle (AssignRunR p ws) s =
     (case AssignRunPerson p ws s of None \<Rightarrow> (500, RError, s) | Some (n, s') \<Rightarrow> (200, RCount n, s'))"
| "handle (DelRotationR p ws) s = (200, RDone, s\<lparr>sv_rotation := SetRotation p ws False (sv_rotation s)\<rparr>)"
| "handle (ImportCsvR body) s =
     (case importProjectCSV body s of (st, n, m, s') \<Rightarrow> (st, if st = 200 then RImport n m else RError, s'))"
| "handle (ImportTomlR mode body) s =
     (case importTOML mode body s of (st, n, m, s') \<Rightarrow> (st, if st = 200 then RImport n m else RError, s'))"
| "handle ExportR s = (case exportTOML s of (name, body, s') \<Rightarrow> (200, RFile name body, s'))"
| "handle PruneR s =
     (let (n, t) = PruneOldData (sv_today s) (prune_weeks_used (sv_settings s)) (sv_planning s)
      in (200, RCount n, s\<lparr>sv_planning := t\<rparr>))"
| "handle ResetR s =
     (200, RDone, ResetAllData s)"

definition serve :: "env \<Rightarrow> request \<Rightarrow> server \<Rightarrow> nat \<times> reply \<times> server" where
  "serve e r s =
     (case sv_session s of
        None \<Rightarrow> (401, RError, s)
      | Some u \<Rightarrow>
          if (case route_role r of None \<Rightarrow> False | Some low \<Rightarrow> \<not> roleSatisfies (u_role u) low) then (403, RError, s)
          else if is_write r \<and> env_db_fails e r then (500, RError, s)
          else handle r s)"

end
