(* ===== verification/Ranges.thy ===== *)
theory Ranges
  imports AppState
begin

text \<open>
  Ranges of half-days: \<open>generateSlotsInRange\<close>, which the range editor and the messages about
  ranges share, the cells a range selects for several people (\<open>getRangeEditorCells\<close>) and the
  keys and cells of a range message (\<open>rangeSlotKeys\<close>). The loop of \<open>generateSlotsInRange\<close> is a
  terminating recursion; it is proved to list exactly the half-days from the first to the last.
\<close>

record range_slot =
  rs_date :: jsstring
  rs_slot :: jsstring

record cell =
  cl_person :: jsstring
  cl_date :: jsstring
  cl_slot :: jsstring

function slots_loop :: "date \<Rightarrow> jsstring \<Rightarrow> date \<Rightarrow> jsstring \<Rightarrow> range_slot list" where
  "slots_loop cd cs lst endSlot =
     (if cd < lst \<or> cd = lst \<and> cs \<le> endSlot then
        \<lparr>rs_date = fmtDate cd, rs_slot = cs\<rparr> #
          (if cs = js ''am'' then slots_loop cd (js ''pm'') lst endSlot
           else slots_loop (setDate cd (getDate cd + 1)) (js ''am'') lst endSlot)
      else [])"
  by pat_completeness auto
termination
  by (relation "measure (\<lambda>(cd, cs, lst, _). 2 * nat (lst + 1 - cd) + (if cs = js ''am'' then 1 else 0))")
    (auto simp: js_eq_iff setDate_plus)

declare slots_loop.simps [simp del]

definition generateSlotsInRange :: "jsstring \<Rightarrow> jsstring \<Rightarrow> jsstring \<Rightarrow> jsstring \<Rightarrow> range_slot list" where
  "generateSlotsInRange startDate startSlot endDate endSlot =
     (case (parseDate startDate, parseDate endDate) of
        (Some start, Some lst) \<Rightarrow> slots_loop start startSlot lst endSlot
      | _ \<Rightarrow> [])"

definition getRangeEditorCells :: "bool \<Rightarrow> jsstring list \<Rightarrow> jsstring \<Rightarrow> jsstring \<Rightarrow> jsstring \<Rightarrow> jsstring \<Rightarrow> cell list" where
  "getRangeEditorCells showWeekend pids sd ss ed es =
     (let slots = filter (\<lambda>sl. showWeekend \<or> \<not> isWeekend (rs_date sl))
                    (generateSlotsInRange (js_trim sd) ss (js_trim ed) es)
      in concat (map (\<lambda>pid. map (\<lambda>sl. \<lparr>cl_person = pid, cl_date = rs_date sl, cl_slot = rs_slot sl\<rparr>) slots) pids))"

text \<open>A missing field of the message is the empty string here: both take the default of \<open>||\<close>.\<close>

definition rangeSlotKeys :: "jsstring list \<Rightarrow> jsstring \<Rightarrow> jsstring \<Rightarrow> jsstring \<Rightarrow> jsstring \<Rightarrow> jsstring list \<times> cell list" where
  "rangeSlotKeys pids start_date start_slot end_date end_slot =
     (let slots = generateSlotsInRange start_date (or_else start_slot (js ''am'')) end_date (or_else end_slot (js ''pm''))
      in (concat (map (\<lambda>pid. map (\<lambda>sl. getSlotKey pid (rs_date sl) (rs_slot sl)) slots) pids),
          concat (map (\<lambda>pid. map (\<lambda>sl. \<lparr>cl_person = pid, cl_date = rs_date sl, cl_slot = rs_slot sl\<rparr>) slots) pids)))"

definition cell_key :: "cell \<Rightarrow> jsstring" where
  "cell_key c = getSlotKey (cl_person c) (cl_date c) (cl_slot c)"

section \<open>Half-days as numbers\<close>

definition half_slot :: "bool \<Rightarrow> jsstring" where
  "half_slot pm = (if pm then js ''pm'' else js ''am'')"

definition half_day :: "date \<Rightarrow> bool \<Rightarrow> int" where
  "half_day d pm = 2 * d + (if pm then 1 else 0)"

definition slot_at :: "int \<Rightarrow> range_slot" where
  "slot_at h = \<lparr>rs_date = fmtDate (h div 2), rs_slot = half_slot (odd h)\<rparr>"

lemma am_le_pm: "js ''am'' \<le> js ''pm''" "\<not> js ''pm'' \<le> js ''am''" "js ''am'' \<noteq> js ''pm''"
  by (simp_all add: js_def)

lemma half_slot_le: "half_slot a \<le> half_slot b \<longleftrightarrow> (a \<longrightarrow> b)"
  by (simp add: half_slot_def am_le_pm)

lemma half_slot_am: "half_slot a = js ''am'' \<longleftrightarrow> \<not> a"
  using am_le_pm(3) by (auto simp: half_slot_def)

lemma half_day_le: "half_day d a \<le> half_day e b \<longleftrightarrow> d < e \<or> d = e \<and> half_slot a \<le> half_slot b"
  by (auto simp: half_day_def half_slot_le)

lemma slot_at_half_day: "slot_at (half_day d pm) = \<lparr>rs_date = fmtDate d, rs_slot = half_slot pm\<rparr>"
  by (simp add: slot_at_def half_day_def)

lemma upto_head: "m \<le> n \<Longrightarrow> map f [m..n] = f m # map f [m + 1..n]" for m n :: int
  by (simp add: upto_rec1)

lemma slots_loop_eq:
  "slots_loop d (half_slot pm) e (half_slot pm') = map slot_at [half_day d pm..half_day e pm']"
proof (induction "nat (half_day e pm' + 1 - half_day d pm)" arbitrary: d pm)
  case 0
  then have le: "\<not> half_day d pm \<le> half_day e pm'" by simp
  then have "slots_loop d (half_slot pm) e (half_slot pm') = []"
    unfolding half_day_le by (subst slots_loop.simps) (simp only: if_False)
  then show ?case using le by simp
next
  case (Suc n)
  then have le: "half_day d pm \<le> half_day e pm'" by simp
  have next_half: "half_day d True = half_day d False + 1" "half_day (d + 1) False = half_day d True + 1"
    by (simp_all add: half_day_def)
  have "slots_loop d (half_slot pm) e (half_slot pm') = slot_at (half_day d pm) #
      (if pm then slots_loop (d + 1) (half_slot False) e (half_slot pm')
       else slots_loop d (half_slot True) e (half_slot pm'))"
    using le by (subst slots_loop.simps)
      (simp add: half_day_le slot_at_half_day half_slot_am setDate_plus, simp add: half_slot_def)
  also have "\<dots> = slot_at (half_day d pm) # map slot_at [half_day d pm + 1..half_day e pm']"
    using Suc(1) [of "d + 1" False] Suc(1) [of d True] Suc(2) by (cases pm) (simp_all add: next_half)
  finally show ?case using le by (simp add: upto_head)
qed

lemma generate_eq:
  assumes "four_digit_year d" "four_digit_year e"
  shows "generateSlotsInRange (fmtDate d) (half_slot pm) (fmtDate e) (half_slot pm')
       = map slot_at [half_day d pm..half_day e pm']"
  using assms by (simp add: generateSlotsInRange_def parse_fmt slots_loop_eq)

lemma slots_loop_plain:
  "sl \<in> set (slots_loop d cs e es) \<Longrightarrow> cs \<in> {js ''am'', js ''pm''} \<Longrightarrow>
     plain_part (rs_date sl) \<and> rs_slot sl \<in> {js ''am'', js ''pm''}"
proof (induction d cs e es rule: slots_loop.induct)
  case (1 cd cs e es)
  from 1(3) have "sl = \<lparr>rs_date = fmtDate cd, rs_slot = cs\<rparr> \<or>
      sl \<in> set (if cs = js ''am'' then slots_loop cd (js ''pm'') e es
                else slots_loop (setDate cd (getDate cd + 1)) (js ''am'') e es)
      \<and> (cd < e \<or> cd = e \<and> cs \<le> es)"
    by (subst (asm) slots_loop.simps) (auto split: if_splits)
  with 1 show ?case by (auto simp: fmtDate_plain split: if_splits)
qed

lemma range_keys_of_cells:
  "fst (rangeSlotKeys pids a b c d) = map cell_key (snd (rangeSlotKeys pids a b c d))"
  by (simp add: rangeSlotKeys_def Let_def map_concat comp_def cell_key_def)

lemma dropWhile_none: "(\<And>x. x \<in> set xs \<Longrightarrow> \<not> P x) \<Longrightarrow> dropWhile P xs = xs"
  by (cases xs) auto

lemma trim_fmtDate: "js_trim (fmtDate d) = fmtDate d"
proof -
  have digit: "is_digit c \<Longrightarrow> \<not> is_space c" for c
    by (auto simp: is_digit_def is_space_def)
  have u: "\<not> is_space 45" "\<not> is_space 47" "\<not> is_space 48"
    by (simp_all add: is_space_def)
  have n: "c \<in> set (str_of_nat n) \<Longrightarrow> \<not> is_space c" for c n
    using digit str_of_nat_are_digits by blast
  have i: "\<not> is_space c" if "c \<in> set (str_of_int n)" for c n
    using that n u by (cases "n < 0") (auto simp: str_of_int_def)
  have p: "\<not> is_space c" if "c \<in> set (pad2 n)" for c n
    using that i [of c n] u by (auto simp: pad2_def pad_start2_def)
  have c: "\<not> is_space c" if "c \<in> set (fmtDate d)" for c
    using that i p u by (auto simp: fmtDate_def js_def)
  have "dropWhile is_space (fmtDate d) = fmtDate d" "dropWhile is_space (rev (fmtDate d)) = rev (fmtDate d)"
    by (rule dropWhile_none, simp add: c)+
  then show ?thesis
    by (simp only: js_trim_def rev_rev_ident)
qed

lemma filter_map_concat:
  "map g (filter P (map f xs)) = concat (map (\<lambda>x. if P (f x) then [g (f x)] else []) xs)"
  by (induction xs) auto

lemma half_day_range:
  assumes "h \<in> {half_day d pm..half_day e pm'}"
  shows "d \<le> h div 2 \<and> h div 2 \<le> e"
proof -
  have "2 * d \<le> h" "h \<le> 2 * e + 1"
    using assms by (auto simp: half_day_def split: if_splits)
  then show ?thesis by linarith
qed

lemma editor_slots:
  assumes "four_digit_year d" "four_digit_year e"
  shows "map (\<lambda>sl. \<lparr>cl_person = pid, cl_date = rs_date sl, cl_slot = rs_slot sl\<rparr>)
           (filter (\<lambda>sl. wk \<or> \<not> isWeekend (rs_date sl)) (map slot_at [half_day d pm..half_day e pm']))
       = concat (map (\<lambda>h. if wk \<or> getDay (h div 2) \<notin> {0, 6}
            then [\<lparr>cl_person = pid, cl_date = fmtDate (h div 2), cl_slot = half_slot (odd h)\<rparr>] else [])
          [half_day d pm..half_day e pm'])"
proof -
  have "isWeekend (fmtDate (h div 2)) \<longleftrightarrow> getDay (h div 2) \<in> {0, 6}"
    if "h \<in> {half_day d pm..half_day e pm'}" for h
    using half_day_range [OF that] assms four_digit_convex [of d e "h div 2"] by (simp add: weekend_iff)
  then show ?thesis
    unfolding filter_map_concat by (intro arg_cong [of _ _ concat] map_cong refl) (simp add: slot_at_def)
qed

lemma editor_cells_eq:
  assumes "four_digit_year d" "four_digit_year e"
  shows "getRangeEditorCells wk pids (fmtDate d) (half_slot pm) (fmtDate e) (half_slot pm')
       = concat (map (\<lambda>pid. concat (map (\<lambda>h. if wk \<or> getDay (h div 2) \<notin> {0, 6}
            then [\<lparr>cl_person = pid, cl_date = fmtDate (h div 2), cl_slot = half_slot (odd h)\<rparr>] else [])
          [half_day d pm..half_day e pm'])) pids)"
  using assms by (simp only: getRangeEditorCells_def Let_def trim_fmtDate generate_eq editor_slots)

section \<open>Properties\<close>

text \<open>The half-days of a range are exactly those from the first to the last, in order and
  each once: the loop terminates, starts with the start slot, ends with the end slot, and
  gives nothing when the end is before the start.\<close>

theorem range_exact:
  assumes "four_digit_year d" and "four_digit_year e"
  shows "generateSlotsInRange (fmtDate d) (half_slot pm) (fmtDate e) (half_slot pm')
       = map slot_at [half_day d pm..half_day e pm']"
  using assms by (rule generate_eq)

theorem range_exact_witness:
  "generateSlotsInRange (fmtDate 20500) (half_slot True) (fmtDate 20502) (half_slot False)
       = map slot_at [half_day 20500 True..half_day 20502 False]"
proof -
  have "four_digit_year 20500" "four_digit_year 20502" by code_simp+
  then show ?thesis by (rule range_exact)
qed

text \<open>The cells the range editor writes are, person by person, the half-days of the range
  without those of Saturdays and Sundays unless the weekend is shown.\<close>

theorem editor_cells_exact:
  assumes "four_digit_year d" and "four_digit_year e"
  shows "getRangeEditorCells showWeekend pids (fmtDate d) (half_slot pm) (fmtDate e) (half_slot pm')
       = [\<lparr>cl_person = pid, cl_date = fmtDate (h div 2), cl_slot = half_slot (odd h)\<rparr>.
            pid \<leftarrow> pids, h \<leftarrow> [half_day d pm..half_day e pm'], showWeekend \<or> getDay (h div 2) \<notin> {0, 6}]"
  using assms by (rule editor_cells_eq)

theorem editor_cells_exact_witness:
  "getRangeEditorCells False [js ''p1''] (fmtDate 20500) (half_slot True) (fmtDate 20502) (half_slot False)
       = [\<lparr>cl_person = pid, cl_date = fmtDate (h div 2), cl_slot = half_slot (odd h)\<rparr>.
            pid \<leftarrow> [js ''p1''], h \<leftarrow> [half_day 20500 True..half_day 20502 False], False \<or> getDay (h div 2) \<notin> {0, 6}]"
proof -
  have "four_digit_year 20500" "four_digit_year 20502" by code_simp+
  then show ?thesis by (rule editor_cells_exact)
qed

end
