(* ===== verification/Client.thy ===== *)
theory Client
  imports Handlers Ranges
begin

text \<open>
  The client's state (the global \<open>State\<close> object, the view state beside it and the two
  undo buttons) and its API layer: \<open>API.call\<close> with its reactions to a status code, requests sent
  together (\<open>Promise.all\<close>) and \<open>reloadPlanning\<close>, with lemmas on requests that succeed.
\<close>

record flash =
  f_pid :: jsstring
  f_date :: jsstring
  f_slot :: jsstring
  f_origin :: jsstring

text \<open>An absent or \<open>null\<close> stack is the empty list; the last element is the top.\<close>

record client =
  c_user :: "user option"
  c_token :: "jsstring option"
  c_people :: "person list"
  c_projects :: "project list"
  c_planning :: planning
  c_settings :: settings
  c_oncall :: oncall
  c_rotation :: rotation
  c_holidays :: "holiday list"
  c_undoStack :: "snapshot list"
  c_redoStack :: "snapshot list"
  c_undoing :: bool
  c_undo_disabled :: bool
  c_redo_disabled :: bool
  c_scrollOffset :: int
  c_currentView :: jsstring
  c_oncallLoadedYear :: "int option"
  c_pendingFlash :: "flash list"
  c_recentSelf :: "(jsstring, int) dict"
  c_presence :: "presence list"
  c_activity :: "event list"

section \<open>The API client\<close>

text \<open>
  A status 401 drops the token (and leaves for the login page), 403 raises; every other status
  is a reply, a failed write included.
\<close>

definition call :: "env \<Rightarrow> request \<Rightarrow> client \<times> server \<Rightarrow> (api_error + reply) \<times> client \<times> server" where
  "call e r = (\<lambda>(c, s).
     case env_net e r of
       NoRequest \<Rightarrow> (Inl NetworkError, c, s)
     | NoReply \<Rightarrow> (Inl NetworkError, c, snd (snd (serve e r s)))
     | Up \<Rightarrow>
         let (status, body, s') = serve e r s
         in if status = 401 then (Inl Unauthorized, c\<lparr>c_token := None\<rparr>, s')
            else if status = 403 then (Inl Forbidden, c, s')
            else (Inr body, c, s'))"

text \<open>The requests of a \<open>Promise.all\<close> are all sent; it fails with the first failure.\<close>

fun call_seq :: "env \<Rightarrow> request list \<Rightarrow> client \<times> server \<Rightarrow> api_error option \<times> client \<times> server" where
  "call_seq e [] cs = (None, cs)"
| "call_seq e (r # rs) cs =
     (let (res, cs') = call e r cs; (err, cs'') = call_seq e rs cs'
      in (case res of Inl x \<Rightarrow> Some x | Inr _ \<Rightarrow> err, cs''))"

definition call_all :: "env \<Rightarrow> request list \<Rightarrow> client \<times> server \<Rightarrow> api_error option \<times> client \<times> server" where
  "call_all e rs = call_seq e (env_arrival e rs)"

definition ref_key :: "slot_ref \<Rightarrow> jsstring" where
  "ref_key r = getSlotKey (ref_person r) (ref_date r) (ref_slot r)"

definition load_entries :: "(slot_ref \<times> slot_data) list \<Rightarrow> planning" where
  "load_entries es = fold (\<lambda>(k, d). dict_set k d) (map (\<lambda>(r, d). (ref_key r, d)) es) []"

definition client_weeks :: "env \<Rightarrow> client \<Rightarrow> date list" where
  "client_weeks e c = getVisibleWeeks (window_weeks (c_settings c)) (env_today e) (c_scrollOffset c)"

definition win_start :: "env \<Rightarrow> client \<Rightarrow> jsstring" where
  "win_start e c = formatWeekStart (hd (client_weeks e c))"

definition win_end :: "env \<Rightarrow> client \<Rightarrow> jsstring" where
  "win_end e c = windowEndDate (client_weeks e c)"

text \<open>Without a visible week, \<open>formatWeekStart\<close> of \<open>undefined\<close> raises before any request.\<close>

definition reloadPlanning :: "env \<Rightarrow> client \<times> server \<Rightarrow> api_error option \<times> client \<times> server" where
  "reloadPlanning e = (\<lambda>(c, s).
     if client_weeks e c = [] then (Some TypeError, c, s)
     else
       let startDate = win_start e c; endDate = win_end e c;
           (r1, c, s) = call e (GetPlanningR startDate endDate) (c, s)
       in case r1 of
            Inl x \<Rightarrow> (Some x, c, s)
          | Inr (RPlanning es) \<Rightarrow>
              let c = c\<lparr>c_planning := load_entries es\<rparr>;
                  (r2, c, s) = call e (GetOnCallR startDate endDate) (c, s);
                  (r3, c, s) = call e (GetRotationR startDate endDate) (c, s)
              in (case (r2, r3) of
                    (Inl x, _) \<Rightarrow> (Some x, c, s)
                  | (_, Inl x) \<Rightarrow> (Some x, c, s)
                  | (Inr (ROnCall oc), Inr (RRotation rt)) \<Rightarrow>
                      (None, c\<lparr>c_oncall := oc, c_rotation := rt\<rparr>, s)
                  | _ \<Rightarrow> (None, c, s))
          | Inr _ \<Rightarrow> (Some TypeError, c\<lparr>c_planning := []\<rparr>, s))"

section \<open>Flashes\<close>

definition FLASH_SELF_SUPPRESS_MS :: int where
  "FLASH_SELF_SUPPRESS_MS = 2500"

definition queueFlash1 :: "env \<Rightarrow> jsstring \<Rightarrow> cell \<Rightarrow> client \<Rightarrow> client" where
  "queueFlash1 e origin cl c =
     (if cl_person cl = [] \<or> cl_date cl = [] \<or> cl_slot cl = [] then c
      else let c = c\<lparr>c_pendingFlash := c_pendingFlash c
                 @ [\<lparr>f_pid = cl_person cl, f_date = cl_date cl, f_slot = cl_slot cl, f_origin = origin\<rparr>]\<rparr>
           in if origin = js ''self''
              then c\<lparr>c_recentSelf := dict_set (cell_key cl) (env_now e + FLASH_SELF_SUPPRESS_MS) (c_recentSelf c)\<rparr>
              else c)"

definition queueFlash :: "env \<Rightarrow> cell list \<Rightarrow> jsstring \<Rightarrow> client \<Rightarrow> client" where
  "queueFlash e cells origin c = fold (queueFlash1 e origin) cells c"

definition isRecentSelf :: "env \<Rightarrow> jsstring list \<Rightarrow> client \<Rightarrow> bool" where
  "isRecentSelf e keys c \<longleftrightarrow>
     list_ex (\<lambda>k. case dict_get (c_recentSelf c) k of None \<Rightarrow> False | Some x \<Rightarrow> x \<noteq> 0 \<and> env_now e < x) keys"

text \<open>\<open>applyPendingFlash\<close> hands the queued flashes to the next frame and empties the queue.\<close>

definition applyPendingFlash :: "client \<Rightarrow> flash list \<times> client" where
  "applyPendingFlash c = (c_pendingFlash c, c\<lparr>c_pendingFlash := []\<rparr>)"

section \<open>Loading planning entries\<close>

definition plain_ref :: "slot_ref \<Rightarrow> bool" where
  "plain_ref r \<longleftrightarrow> plain_part (ref_person r) \<and> plain_part (ref_date r) \<and> plain_part (ref_slot r)"

definition in_window :: "env \<Rightarrow> client \<Rightarrow> slot_ref \<Rightarrow> bool" where
  "in_window e c r \<longleftrightarrow> win_start e c \<le> ref_date r \<and> ref_date r \<le> win_end e c"

lemma ref_key_inj: "plain_ref r \<Longrightarrow> plain_ref r' \<Longrightarrow> ref_key r = ref_key r' \<longleftrightarrow> r = r'"
  by (cases r; cases r') (simp add: ref_key_def plain_ref_def getSlotKey_inj)

lemma map_of_ref_keys:
  assumes "plain_ref r" "\<And>r' d. (r', d) \<in> set es \<Longrightarrow> plain_ref r'"
  shows "map_of (map (\<lambda>(r, d). (ref_key r, d)) es) (ref_key r) = map_of es r"
  using assms(2)
proof (induction es)
  case Nil
  then show ?case by simp
next
  case (Cons p es)
  obtain r' d where p: "p = (r', d)" by force
  have "ref_key r' = ref_key r \<longleftrightarrow> r' = r"
    using Cons.prems [of r' d] assms(1) by (simp add: p ref_key_inj)
  moreover have "map_of (map (\<lambda>(r, d). (ref_key r, d)) es) (ref_key r) = map_of es r"
    using Cons.prems by (intro Cons.IH) auto
  ultimately show ?case by (auto simp: p)
qed

lemma get_load_entries:
  assumes "plain_ref r" "\<And>r' d. (r', d) \<in> set es \<Longrightarrow> plain_ref r'" "distinct (map fst es)"
  shows "dict_get (load_entries es) (ref_key r) = map_of es r"
proof -
  have "map_of (rev es) = map_of es"
    using assms(3) by (rule map_of_rev_distinct)
  then show ?thesis
    unfolding load_entries_def objs.get_load_empty rev_map
    using map_of_ref_keys [of r "rev es"] assms(1,2) by simp
qed

lemma dict_ok_load_entries: "dict_ok (load_entries es)"
  unfolding load_entries_def by (rule objs.ok_load) simp

text \<open>The rows of the table have identifiers without the key separator.\<close>

definition plain_store :: "store \<Rightarrow> bool" where
  "plain_store s \<longleftrightarrow> store_ok s \<and> list_all (\<lambda>(k, r). plain_ref k) s"

lemma plain_GetPlanning: "plain_store s \<Longrightarrow> (r, d) \<in> set (GetPlanning a b s) \<Longrightarrow> plain_ref r"
  by (auto simp: plain_store_def GetPlanning_def list_all_iff)

lemma get_load_GetPlanning:
  assumes "plain_store s" "plain_ref r"
  shows "dict_get (load_entries (GetPlanning a b s)) (ref_key r) =
     (if a \<le> ref_date r \<and> ref_date r \<le> b then read_slot s r else None)"
proof -
  have ok: "dict_ok s" using assms(1) by (simp add: plain_store_def store_ok_def)
  have "dict_get (load_entries (GetPlanning a b s)) (ref_key r) = map_of (GetPlanning a b s) r"
    using assms ok plain_GetPlanning distinct_GetPlanning by (intro get_load_entries) auto
  then show ?thesis by (simp only: GetPlanning_read [OF ok])
qed

section \<open>Requests that succeed\<close>

lemma cascade_person_fields [simp]:
  "sv_people (cascade_person i s) = DeletePerson i (sv_people s)" "sv_projects (cascade_person i s) = sv_projects s"
  "sv_session (cascade_person i s) = sv_session s" "sv_today (cascade_person i s) = sv_today s"
  "sv_planning (cascade_person i s) = filter (\<lambda>(k, _). ref_person k \<noteq> i) (sv_planning s)"
  by (simp_all add: cascade_person_def)

definition env_ok :: "env \<Rightarrow> bool" where
  "env_ok e \<longleftrightarrow> (\<forall>r. env_net e r = Up \<and> \<not> env_db_fails e r) \<and> (\<forall>rs. mset (env_arrival e rs) = mset rs)"

definition may_write :: "server \<Rightarrow> bool" where
  "may_write s = (case sv_session s of None \<Rightarrow> False | Some u \<Rightarrow> roleSatisfies (u_role u) (js ''normal''))"

lemma may_write_session: "may_write s \<Longrightarrow> sv_session s \<noteq> None"
  by (auto simp: may_write_def split: option.splits)

lemma may_write_roles:
  "may_write s \<longleftrightarrow> (\<exists>u. sv_session s = Some u \<and> (u_role u = js ''admin'' \<or> u_role u = js ''normal''))"
  by (auto simp: may_write_def roleSatisfies_def role_level_def js_eq_iff split: option.splits)

text \<open>Requests that the roles \<open>normal\<close> and \<open>admin\<close> may make alike; the export, which asks for no role, is left out.\<close>

fun open_request :: "request \<Rightarrow> bool" where
  "open_request PruneR = False"
| "open_request (ImportTomlR mode body) = False"
| "open_request (ImportCsvR body) = False"
| "open_request ExportR = False"
| "open_request ResetR = False"
| "open_request (PutSettingR k v) = False"
| "open_request r = True"

lemma open_route: "open_request r \<Longrightarrow> route_role r = (if is_write r then Some (js ''normal'') else None)"
  by (cases r) auto

lemma read_open: "\<not> is_write r \<Longrightarrow> open_request r"
  by (cases r) auto

lemma open_status: "open_request r \<Longrightarrow> fst (handle r s) \<noteq> 401 \<and> fst (handle r s) \<noteq> 403"
  by (cases r) (auto simp: Let_def split: option.splits)

lemma call_ok:
  assumes "env_ok e" "sv_session s \<noteq> None" "open_request r" "is_write r \<Longrightarrow> may_write s"
  shows "call e r (c, s) = (let (st, b, s') = handle r s in (Inr b, c, s'))"
proof -
  have "serve e r s = handle r s"
    using assms open_route [OF assms(3)] by (auto simp: serve_def env_ok_def may_write_def)
  with open_status [OF assms(3)] show ?thesis
    using assms(1) by (simp add: call_def env_ok_def split_def)
qed

lemma call_read:
  assumes "env_ok e" "sv_session s \<noteq> None" "\<not> is_write r"
  shows "call e r (c, s) = (let (st, b, s') = handle r s in (Inr b, c, s'))"
  using assms by (intro call_ok) (auto simp: read_open)

lemma reload_ok:
  assumes e: "env_ok e" and s: "sv_session s \<noteq> None" and w: "client_weeks e c \<noteq> []"
    and dates: "win_start e c \<noteq> []" "win_end e c \<noteq> []"
  shows "reloadPlanning e (c, s) =
     (None, c\<lparr>c_planning := load_entries (GetPlanning (win_start e c) (win_end e c) (sv_planning s)),
              c_oncall := GetOnCall (win_start e c) (win_end e c) (sv_oncall s),
              c_rotation := GetRotation (win_start e c) (win_end e c) (sv_rotation s)\<rparr>, s)"
  using w dates by (simp add: reloadPlanning_def call_read [OF e s] Let_def)

lemma fmtDate_nonempty [simp]: "fmtDate d \<noteq> []"
  by (simp add: fmtDate_def js_def)

lemma window_dates_nonempty: "client_weeks e c \<noteq> [] \<Longrightarrow> win_start e c \<noteq> [] \<and> win_end e c \<noteq> []"
  by (simp add: win_start_def win_end_def windowEndDate_def formatWeekStart_def Let_def)

lemma read_after_reload:
  assumes "env_ok e" "sv_session s \<noteq> None" "client_weeks e c \<noteq> []" "plain_store (sv_planning s)" "plain_ref r"
    and "reloadPlanning e (c, s) = (err, c', s')"
  shows "err = None \<and> s' = s \<and>
     dict_get (c_planning c') (ref_key r) = (if in_window e c r then read_slot (sv_planning s) r else None)"
proof -
  have w: "win_start e c \<noteq> []" "win_end e c \<noteq> []"
    using window_dates_nonempty [OF assms(3)] by auto
  have "err = None" "s' = s"
    "c_planning c' = load_entries (GetPlanning (win_start e c) (win_end e c) (sv_planning s))"
    using assms(6) unfolding reload_ok [OF assms(1,2,3) w] by auto
  then show ?thesis
    by (simp add: get_load_GetPlanning [OF assms(4,5)] in_window_def)
qed

section \<open>What a request may change\<close>

lemma call_client: "\<exists>t. fst (snd (call e r (c, s))) = c\<lparr>c_token := t\<rparr>"
  by (auto simp: call_def split_def Let_def split: net.splits intro: exI [of _ "c_token c"])

lemma call_seq_client: "\<exists>t. fst (snd (call_seq e rs (c, s))) = c\<lparr>c_token := t\<rparr>"
proof (induction rs arbitrary: c s)
  case Nil
  show ?case by (auto intro: exI [of _ "c_token c"])
next
  case (Cons r rs)
  obtain res c1 s1 where 1: "call e r (c, s) = (res, c1, s1)" by (metis prod.exhaust)
  obtain err c2 s2 where 2: "call_seq e rs (c1, s1) = (err, c2, s2)" by (metis prod.exhaust)
  obtain t where "c1 = c\<lparr>c_token := t\<rparr>" using call_client [of e r c s] 1 by auto
  moreover obtain t' where "c2 = c1\<lparr>c_token := t'\<rparr>" using Cons.IH [of c1 s1] 2 by auto
  ultimately have "c2 = c\<lparr>c_token := t'\<rparr>" by simp
  then show ?case by (auto simp: 1 2)
qed

lemma call_all_client:
  "call_all e rs (c, s) = (err, c', s') \<Longrightarrow> \<exists>t. c' = c\<lparr>c_token := t\<rparr>"
  using call_seq_client [of e "env_arrival e rs" c s] by (simp add: call_all_def)

text \<open>The fields of the client that requests and reloads leave alone.\<close>

definition same_edit_state :: "client \<Rightarrow> client \<Rightarrow> bool" where
  "same_edit_state c c' \<longleftrightarrow> c_undoStack c' = c_undoStack c \<and> c_redoStack c' = c_redoStack c
     \<and> c_undoing c' = c_undoing c \<and> c_undo_disabled c' = c_undo_disabled c
     \<and> c_redo_disabled c' = c_redo_disabled c \<and> c_scrollOffset c' = c_scrollOffset c
     \<and> c_settings c' = c_settings c"

lemma same_edit_token [simp]: "same_edit_state c (c\<lparr>c_token := t\<rparr>)"
  by (simp add: same_edit_state_def)

lemma same_edit_trans: "same_edit_state a b \<Longrightarrow> same_edit_state b c \<Longrightarrow> same_edit_state a c"
  by (simp add: same_edit_state_def)

lemma reload_edit_state: "same_edit_state c (fst (snd (reloadPlanning e (c, s))))"
proof -
  obtain r1 c1 s1 where 1: "call e (GetPlanningR (win_start e c) (win_end e c)) (c, s) = (r1, c1, s1)"
    by (metis prod.exhaust)
  have c1: "same_edit_state c c1"
    using call_client [of e "GetPlanningR (win_start e c) (win_end e c)" c s] 1 by auto
  have two: "same_edit_state c c3"
    if "call e a (c1\<lparr>c_planning := pl\<rparr>, s1) = (x, c2, s2)" "call e b (c2, s2) = (y, c3, s3)"
    for a b pl x y c2 c3 s2 s3
    using c1 call_client [of e a "c1\<lparr>c_planning := pl\<rparr>" s1] call_client [of e b c2 s2] that
    by (auto simp: same_edit_state_def)
  have upd: "same_edit_state c (x\<lparr>c_oncall := oc, c_rotation := rt\<rparr>)" "same_edit_state c (x\<lparr>c_planning := pl\<rparr>)"
    if "same_edit_state c x" for x oc rt pl
    using that by (simp_all add: same_edit_state_def)
  show ?thesis
    using c1 two upd
    by (auto simp: reloadPlanning_def Let_def 1 same_edit_state_def [of c c] split: sum.splits reply.splits prod.splits)
qed

text \<open>A reload changes the loaded data and perhaps the token, nothing else.\<close>

definition loaded_from :: "client \<Rightarrow> client \<Rightarrow> bool" where
  "loaded_from c c' \<longleftrightarrow> c'\<lparr>c_token := c_token c, c_planning := c_planning c, c_oncall := c_oncall c,
      c_rotation := c_rotation c\<rparr> = c
     \<and> (c_planning c' = c_planning c \<or> dict_ok (c_planning c'))"

lemma loaded_from_intros:
  "loaded_from c c" "loaded_from c x \<Longrightarrow> loaded_from c (x\<lparr>c_token := t\<rparr>)"
  "loaded_from c x \<Longrightarrow> loaded_from c (x\<lparr>c_oncall := oc, c_rotation := rt\<rparr>)"
  "loaded_from c x \<Longrightarrow> dict_ok pl \<Longrightarrow> loaded_from c (x\<lparr>c_planning := pl\<rparr>)"
  by (simp_all add: loaded_from_def)

lemma loaded_from_call: "loaded_from c x \<Longrightarrow> call e r (x, s) = (v, y, s') \<Longrightarrow> loaded_from c y"
  using call_client [of e r x s] loaded_from_intros(2) by auto

lemma reload_loaded: "loaded_from c (fst (snd (reloadPlanning e (c, s))))"
proof -
  obtain r1 c1 s1 where 1: "call e (GetPlanningR (win_start e c) (win_end e c)) (c, s) = (r1, c1, s1)"
    by (metis prod.exhaust)
  have c1: "loaded_from c c1"
    by (rule loaded_from_call [OF loaded_from_intros(1) 1])
  have two: "loaded_from c c3"
    if "call e a (c1\<lparr>c_planning := load_entries es\<rparr>, s1) = (x, c2, s2)" "call e b (c2, s2) = (y, c3, s3)"
    for a b es x y c2 c3 s2 s3
    using that loaded_from_call loaded_from_intros(4) [OF c1 dict_ok_load_entries] by blast
  show ?thesis
    using c1 two loaded_from_intros
    by (auto simp: reloadPlanning_def Let_def 1 dict_ok_def [of "[]"] split: sum.splits reply.splits prod.splits)
qed

end
