(* ===== verification/UndoRedo.thy ===== *)
theory UndoRedo
  imports Client
begin

text \<open>
  Undo and redo (\<open>pushUndo\<close>, \<open>undo\<close>, \<open>redo\<close> of \<open>app.js\<close>): stacks of snapshots, at most
  twenty deep, replayed as requests to the server and followed by a reload of the visible
  window. Each operation is split where it first awaits: \<open>undo_begin\<close> and \<open>redo_begin\<close> run
  to that point, \<open>after_writes\<close> is what both do with the outcome of the writes.
\<close>

text \<open>\<open>snap[k] = State.planning[k] ? clone(...) : null\<close> for the keys in order.\<close>

definition take_snapshot :: "planning \<Rightarrow> jsstring list \<Rightarrow> snapshot" where
  "take_snapshot pl ks = fold (\<lambda>k. dict_set k (dict_get pl k)) ks []"

definition pushUndo :: "jsstring list \<Rightarrow> client \<Rightarrow> client" where
  "pushUndo keys c =
     (let snap = take_snapshot (c_planning c) (if keys \<noteq> [] then keys else dict_keys (c_planning c));
          st = c_undoStack c @ [snap]
      in c\<lparr>c_undoStack := (if 20 < length st then tl st else st), c_redoStack := [],
           c_undo_disabled := False, c_redo_disabled := True\<rparr>)"

text \<open>
  The three parts of \<open>k.split('|')\<close>; a part that is \<open>undefined\<close> is left out of the request's
  JSON and read as the empty string by the server.
\<close>

definition key_ref :: "jsstring \<Rightarrow> slot_ref" where
  "key_ref k = (let ps = js_split 124 k; part = (\<lambda>i. if i < length ps then ps ! i else [])
     in SlotRef (part 0) (part 1) (part 2))"

definition write_req :: "slot_ref \<times> slot_data option \<Rightarrow> request" where
  "write_req w = (case w of
       (r, None) \<Rightarrow> DelSlotR (ref_person r) (ref_date r) (ref_slot r)
     | (r, Some d) \<Rightarrow> PutSlotR (ref_person r) (ref_date r) (ref_slot r) d)"

text \<open>
  The writes of an undo or a redo: one for each key whose value differs from the current one.
  The texts that \<open>JSON.stringify\<close> gives the two values are equal exactly when the values are,
  both having been built with their fields in the same order.
\<close>

definition revert_list :: "snapshot \<Rightarrow> planning \<Rightarrow> (slot_ref \<times> slot_data option) list" where
  "revert_list snap pl =
     map (\<lambda>(k, prev). (key_ref k, prev)) (filter (\<lambda>(k, prev). prev \<noteq> dict_get pl k) snap)"

definition undo_begin :: "client \<Rightarrow> (snapshot \<times> request list \<times> client) option" where
  "undo_begin c =
     (if c_undoStack c = [] then None
      else let snap = last (c_undoStack c);
               st = butlast (c_undoStack c);
               redoSnap = take_snapshot (c_planning c) (dict_keys snap)
           in Some (snap, map write_req (revert_list snap (c_planning c)),
                c\<lparr>c_undoStack := st, c_redoStack := c_redoStack c @ [redoSnap],
                  c_undo_disabled := (st = []), c_redo_disabled := False, c_undoing := True\<rparr>))"

definition redo_begin :: "client \<Rightarrow> (snapshot \<times> request list \<times> client) option" where
  "redo_begin c =
     (if c_redoStack c = [] then None
      else let snap = last (c_redoStack c);
               st = butlast (c_redoStack c);
               undoSnap = take_snapshot (c_planning c) (dict_keys snap)
           in Some (snap, map write_req (revert_list snap (c_planning c)),
                c\<lparr>c_redoStack := st, c_undoStack := c_undoStack c @ [undoSnap],
                  c_undo_disabled := False, c_redo_disabled := (st = []), c_undoing := True\<rparr>))"

definition flash_snap :: "env \<Rightarrow> snapshot \<Rightarrow> client \<Rightarrow> client" where
  "flash_snap e snap c =
     queueFlash e
       (map (\<lambda>(k, _). let r = key_ref k in \<lparr>cl_person = ref_person r, cl_date = ref_date r, cl_slot = ref_slot r\<rparr>)
         (filter (\<lambda>(k, prev). prev \<noteq> None \<or> dict_get (c_planning c) k \<noteq> None) snap))
       (js ''self'') c"

text \<open>The rest of the \<open>try\<close> block and the \<open>finally\<close>, and the flashes when nothing was raised.\<close>

definition after_writes :: "env \<Rightarrow> snapshot \<Rightarrow> api_error option \<Rightarrow> client \<times> server
    \<Rightarrow> api_error option \<times> client \<times> server" where
  "after_writes e snap err = (\<lambda>(c, s).
     case err of
       Some x \<Rightarrow> (Some x, c\<lparr>c_undoing := False\<rparr>, s)
     | None \<Rightarrow>
         let (err', c, s) = reloadPlanning e (c, s)
         in (case err' of
               Some x \<Rightarrow> (Some x, c\<lparr>c_undoing := False\<rparr>, s)
             | None \<Rightarrow> (None, flash_snap e snap (c\<lparr>c_undoing := False\<rparr>), s)))"

definition replay :: "env \<Rightarrow> (snapshot \<times> request list \<times> client) option \<Rightarrow> client \<times> server
    \<Rightarrow> api_error option \<times> client \<times> server" where
  "replay e begun = (\<lambda>(c, s).
     case begun of
       None \<Rightarrow> (None, c, s)
     | Some (snap, writes, c') \<Rightarrow>
         if writes = [] then (None, c'\<lparr>c_undoing := False\<rparr>, s)
         else let (err, cs) = call_all e writes (c', s) in after_writes e snap err cs)"

definition undo :: "env \<Rightarrow> client \<times> server \<Rightarrow> api_error option \<times> client \<times> server" where
  "undo e cs = replay e (undo_begin (fst cs)) cs"

definition redo :: "env \<Rightarrow> client \<times> server \<Rightarrow> api_error option \<times> client \<times> server" where
  "redo e cs = replay e (redo_begin (fst cs)) cs"

section \<open>Snapshots\<close>

lemma get_take_snapshot:
  "dict_get (take_snapshot pl ks) k = (if k \<in> set ks then Some (dict_get pl k) else None)"
proof -
  have "dict_get (fold (\<lambda>k. dict_set k (dict_get pl k)) ks d) k =
      (if k \<in> set ks then Some (dict_get pl k) else dict_get d k)" for d
    by (induction ks arbitrary: d) auto
  then show ?thesis by (simp add: take_snapshot_def)
qed

lemma dict_ok_take_snapshot [simp]: "dict_ok (take_snapshot pl ks)"
proof -
  have "dict_ok d \<Longrightarrow> dict_ok (fold (\<lambda>k. dict_set k (dict_get pl k)) ks d)" for d :: snapshot
    by (induction ks arbitrary: d) auto
  then show ?thesis by (simp add: take_snapshot_def)
qed

lemma keys_take_snapshot: "fst ` set (take_snapshot pl ks) = set ks"
proof -
  have "k \<in> fst ` set (take_snapshot pl ks) \<longleftrightarrow> k \<in> set ks" for k
    using dict_get_None_iff [of "take_snapshot pl ks" k] by (auto simp: get_take_snapshot split: if_splits)
  then show ?thesis by blast
qed

text \<open>Well-formed snapshots: a value for each of some slots, which the table can hold.\<close>

definition proper_ref :: "slot_ref \<Rightarrow> bool" where
  "proper_ref r \<longleftrightarrow> plain_ref r \<and> ref_person r \<noteq> [] \<and> ref_date r \<noteq> [] \<and> ref_slot r \<noteq> []"

definition proper_key :: "jsstring \<Rightarrow> bool" where
  "proper_key k \<longleftrightarrow> proper_ref (key_ref k) \<and> ref_key (key_ref k) = k"

definition snap_ok :: "snapshot \<Rightarrow> bool" where
  "snap_ok snap \<longleftrightarrow> dict_ok snap \<and> list_all (\<lambda>(k, _). proper_key k) snap"

lemma key_ref_key: "plain_ref r \<Longrightarrow> key_ref (ref_key r) = r"
  by (cases r)
    (simp add: key_ref_def ref_key_def getSlotKey_append plain_ref_def plain_part_def
      js_split_append js_split_no_sep Let_def)

lemma proper_ref_key: "proper_ref r \<Longrightarrow> proper_key (ref_key r)"
  by (simp add: proper_key_def proper_ref_def key_ref_key)

lemma key_ref_inj: "proper_key k \<Longrightarrow> proper_key k' \<Longrightarrow> key_ref k = key_ref k' \<longleftrightarrow> k = k'"
  by (metis proper_key_def)

lemma snap_ok_take:
  assumes "list_all proper_key ks"
  shows "snap_ok (take_snapshot pl ks)"
proof -
  have "proper_key k" if "(k, v) \<in> set (take_snapshot pl ks)" for k v
  proof -
    have "k \<in> fst ` set (take_snapshot pl ks)" using that by force
    then show ?thesis using assms by (simp add: keys_take_snapshot list_all_iff)
  qed
  then show ?thesis by (auto simp: snap_ok_def list_all_iff)
qed

lemma snap_ok_keys: "snap_ok snap \<Longrightarrow> list_all proper_key (dict_keys snap)"
  by (auto simp: snap_ok_def list_all_iff dict_keys_def)

section \<open>The writes of a replay\<close>

text \<open>What a key is set to: nothing, or the value of the snapshot where it differs.\<close>

definition revert_to :: "snapshot \<Rightarrow> planning \<Rightarrow> jsstring \<Rightarrow> slot_data option option" where
  "revert_to snap pl k =
     (case dict_get snap k of None \<Rightarrow> None | Some prev \<Rightarrow> if prev = dict_get pl k then None else Some prev)"

lemma revert_list_refs:
  assumes "snap_ok snap"
  shows "distinct (map fst (revert_list snap pl))"
    and "\<And>r w. (r, w) \<in> set (revert_list snap pl) \<Longrightarrow> proper_ref r"
proof -
  let ?f = "filter (\<lambda>(k, prev). prev \<noteq> dict_get pl k) snap"
  have p: "proper_key k" if "k \<in> set (map fst ?f)" for k
    using that assms by (auto simp: snap_ok_def list_all_iff)
  have "distinct (map fst ?f)"
    using assms by (simp add: snap_ok_def dict_ok_def distinct_map_filter)
  moreover have "inj_on key_ref (set (map fst ?f))"
    using p key_ref_inj by (intro inj_onI) blast
  ultimately have "distinct (map key_ref (map fst ?f))"
    by (simp only: distinct_map)
  then show "distinct (map fst (revert_list snap pl))"
    by (simp add: revert_list_def comp_def case_prod_beta)
  show "proper_ref r" if "(r, w) \<in> set (revert_list snap pl)" for r w
    using that assms by (auto simp: revert_list_def snap_ok_def list_all_iff proper_key_def)
qed

lemma map_of_revert_list:
  assumes "snap_ok snap" "proper_ref r"
  shows "map_of (revert_list snap pl) r = revert_to snap pl (ref_key r)"
  using assms(1)
proof (induction snap)
  case Nil
  then show ?case by (simp add: revert_list_def revert_to_def)
next
  case (Cons p snap)
  obtain k v where p: "p = (k, v)" by force
  have k: "key_ref k = r \<longleftrightarrow> k = ref_key r"
    using Cons.prems proper_ref_key [OF assms(2)] assms(2) key_ref_key [of r]
    by (auto simp: p snap_ok_def proper_key_def proper_ref_def)
  have ok: "snap_ok snap" and fresh: "k \<notin> fst ` set snap"
    using Cons.prems by (auto simp: p snap_ok_def dict_ok_def)
  have none: "dict_get snap k = None" using fresh by (simp add: dict_get_None_iff)
  have IH: "map_of (revert_list snap pl) r = revert_to snap pl (ref_key r)"
    by (rule Cons.IH [OF ok])
  show ?case
  proof (cases "k = ref_key r")
    case True
    then have "revert_to snap pl (ref_key r) = None" using none by (simp add: revert_to_def)
    with IH True k show ?thesis by (simp add: p revert_list_def revert_to_def)
  next
    case False
    then have "key_ref k \<noteq> r" using k by simp
    with IH False show ?thesis by (simp add: p revert_list_def revert_to_def)
  qed
qed

definition apply_writes :: "(slot_ref \<times> slot_data option) list \<Rightarrow> store \<Rightarrow> store" where
  "apply_writes ws s = fold (\<lambda>(k, w). case w of None \<Rightarrow> ClearSlot k | Some d \<Rightarrow> SetSlot k d) ws s"

lemma call_write:
  assumes "env_ok e" "may_write s" "proper_ref r"
  shows "call e (write_req (r, w)) (c, s) = (Inr RDone, c,
     s\<lparr>sv_planning := (case w of None \<Rightarrow> ClearSlot r | Some d \<Rightarrow> SetSlot r d) (sv_planning s)\<rparr>)"
  using call_ok [OF assms(1) may_write_session [OF assms(2)], of "write_req (r, w)" c] assms(2,3)
  by (cases r) (simp add: write_req_def proper_ref_def split: option.splits)

lemma call_seq_writes:
  assumes "env_ok e" "may_write s" "\<And>r w. (r, w) \<in> set ws \<Longrightarrow> proper_ref r"
  shows "call_seq e (map write_req ws) (c, s) = (None, c, s\<lparr>sv_planning := apply_writes ws (sv_planning s)\<rparr>)"
  using assms(2,3)
proof (induction ws arbitrary: s)
  case Nil
  then show ?case by (simp add: apply_writes_def)
next
  case (Cons p ws)
  obtain r w where p: "p = (r, w)" by force
  let ?s = "s\<lparr>sv_planning := (case w of None \<Rightarrow> ClearSlot r | Some d \<Rightarrow> SetSlot r d) (sv_planning s)\<rparr>"
  have "may_write ?s" using Cons.prems(1) by (simp add: may_write_def)
  then have "call_seq e (map write_req ws) (c, ?s) = (None, c, ?s\<lparr>sv_planning := apply_writes ws (sv_planning ?s)\<rparr>)"
    using Cons.prems(2) by (intro Cons.IH) auto
  moreover have "call e (write_req p) (c, s) = (Inr RDone, c, ?s)"
    unfolding p using Cons.prems(2) by (intro call_write [OF assms(1) Cons.prems(1)]) (auto simp: p)
  ultimately show ?case
    by (simp add: p apply_writes_def)
qed

text \<open>Requests in another order are the same writes in another order.\<close>

lemma mset_map_preimage:
  "mset xs = mset (map f ys) \<Longrightarrow> \<exists>ys'. xs = map f ys' \<and> mset ys' = mset ys"
proof (induction xs arbitrary: ys)
  case Nil
  then show ?case by simp
next
  case (Cons x xs)
  have "x \<in> set (map f ys)" using Cons.prems by (metis list.set_intros(1) mset_eq_setD)
  then obtain y where y: "y \<in> set ys" "x = f y" by auto
  have mset_split: "mset ys = add_mset y (mset (remove1 y ys))"
    using y(1) by simp
  have "mset (map f ys) = add_mset (f y) (mset (map f (remove1 y ys)))"
    by (simp del: mset_remove1 add: mset_split flip: image_mset_add_mset)
  then have "mset xs = mset (map f (remove1 y ys))"
    using Cons.prems y by simp
  then obtain ys' where "xs = map f ys'" "mset ys' = mset (remove1 y ys)"
    using Cons.IH by blast
  with y show ?case by (intro exI [of _ "y # ys'"]) simp
qed

lemma call_all_writes:
  assumes e: "env_ok e" and w: "may_write s" and snap: "snap_ok snap"
    and run: "call_all e (map write_req (revert_list snap pl)) (c, s) = (err, c', s')"
  shows "err = None \<and> c' = c \<and> sv_session s' = sv_session s \<and> sv_oncall s' = sv_oncall s
    \<and> sv_rotation s' = sv_rotation s \<and> (store_ok (sv_planning s) \<longrightarrow> store_ok (sv_planning s'))"
    and "proper_ref r \<Longrightarrow> read_slot (sv_planning s') r =
       (case revert_to snap pl (ref_key r) of
          None \<Rightarrow> read_slot (sv_planning s) r | Some None \<Rightarrow> None | Some (Some d) \<Rightarrow> kept_slot d)"
proof -
  let ?ws = "revert_list snap pl"
  obtain ws where ws: "env_arrival e (map write_req ?ws) = map write_req ws" "mset ws = mset ?ws"
    using mset_map_preimage [of "env_arrival e (map write_req ?ws)" write_req ?ws] e by (auto simp: env_ok_def)
  have proper: "proper_ref r" if "(r, v) \<in> set ws" for r v
    using that revert_list_refs(2) [OF snap] mset_eq_setD [OF ws(2)] by blast
  have "call_seq e (map write_req ws) (c, s) = (None, c, s\<lparr>sv_planning := apply_writes ws (sv_planning s)\<rparr>)"
    by (rule call_seq_writes [OF e w proper])
  then have eq: "err = None" "c' = c" "s' = s\<lparr>sv_planning := apply_writes ws (sv_planning s)\<rparr>"
    using run by (simp_all add: call_all_def ws(1))
  have "store_ok (sv_planning s) \<Longrightarrow> store_ok (apply_writes ws (sv_planning s))"
    unfolding apply_writes_def by (rule srv.ok_batch)
  with eq show "err = None \<and> c' = c \<and> sv_session s' = sv_session s \<and> sv_oncall s' = sv_oncall s
    \<and> sv_rotation s' = sv_rotation s \<and> (store_ok (sv_planning s) \<longrightarrow> store_ok (sv_planning s'))"
    by simp
  assume r: "proper_ref r"
  have d: "distinct (map fst ?ws)" by (rule revert_list_refs(1) [OF snap])
  have "read_slot (apply_writes ws (sv_planning s)) r = read_slot (apply_writes ?ws (sv_planning s)) r"
    unfolding apply_writes_def by (rule srv.batch_order_irrelevant [OF d ws(2) [symmetric], symmetric])
  also have "\<dots> = (case map_of ?ws r of
      None \<Rightarrow> read_slot (sv_planning s) r | Some None \<Rightarrow> None | Some (Some d) \<Rightarrow> kept_slot d)"
    unfolding apply_writes_def by (rule srv.get_batch [OF d])
  finally show "read_slot (sv_planning s') r =
       (case revert_to snap pl (ref_key r) of
          None \<Rightarrow> read_slot (sv_planning s) r | Some None \<Rightarrow> None | Some (Some d) \<Rightarrow> kept_slot d)"
    by (simp add: eq map_of_revert_list [OF snap r])
qed

section \<open>What a replay does\<close>

text \<open>Two clients that differ in their flashes only.\<close>

definition flash_only :: "client \<Rightarrow> client \<Rightarrow> bool" where
  "flash_only c c' \<longleftrightarrow> c'\<lparr>c_pendingFlash := c_pendingFlash c, c_recentSelf := c_recentSelf c\<rparr> = c"

lemma flash_only_trans: "flash_only a b \<Longrightarrow> flash_only b c \<Longrightarrow> flash_only a c"
  by (cases a; cases b; cases c) (auto simp: flash_only_def)

lemma flash_only_fields:
  assumes "flash_only c c'"
  shows "c_planning c' = c_planning c" "c_settings c' = c_settings c" "c_scrollOffset c' = c_scrollOffset c"
    "same_edit_state c c'"
  using assms by (cases c; cases c'; simp add: flash_only_def same_edit_state_def)+

lemma flash1_frame: "flash_only c (queueFlash1 e origin cl c)"
  by (simp add: flash_only_def queueFlash1_def Let_def)

lemma queueFlash_frame: "flash_only c (queueFlash e cells origin c)"
proof (induction cells arbitrary: c)
  case Nil
  show ?case by (simp add: queueFlash_def flash_only_def)
next
  case (Cons cl cells)
  have "flash_only (queueFlash1 e origin cl c) (queueFlash e (cl # cells) origin c)"
    using Cons.IH [of "queueFlash1 e origin cl c"] by (simp add: queueFlash_def)
  with flash1_frame show ?case by (rule flash_only_trans)
qed

lemma flash_snap_frame: "flash_only c (flash_snap e snap c)"
  unfolding flash_snap_def by (rule queueFlash_frame)

text \<open>The client holds what the server has for the visible window.\<close>

definition synced :: "env \<Rightarrow> client \<Rightarrow> server \<Rightarrow> bool" where
  "synced e c s \<longleftrightarrow> c_planning c = load_entries (GetPlanning (win_start e c) (win_end e c) (sv_planning s))"

lemma synced_get:
  "synced e c s \<Longrightarrow> plain_store (sv_planning s) \<Longrightarrow> plain_ref r \<Longrightarrow>
   dict_get (c_planning c) (ref_key r) = (if in_window e c r then read_slot (sv_planning s) r else None)"
  by (simp add: synced_def get_load_GetPlanning in_window_def)

definition value_kept :: "slot_data option \<Rightarrow> bool" where
  "value_kept v = (case v of None \<Rightarrow> True | Some d \<Rightarrow> kept_slot d = Some d)"

definition snap_kept :: "snapshot \<Rightarrow> bool" where
  "snap_kept snap \<longleftrightarrow> list_all (\<lambda>(_, v). value_kept v) snap"

lemma snap_kept_get: "snap_kept snap \<Longrightarrow> dict_get snap k = Some v \<Longrightarrow> value_kept v"
  by (induction snap) (auto simp: snap_kept_def split: if_splits)

lemma plain_store_writes:
  assumes "plain_store s" "\<And>r w. (r, w) \<in> set ws \<Longrightarrow> proper_ref r"
  shows "plain_store (apply_writes ws s)"
  using assms
proof (induction ws arbitrary: s)
  case Nil
  then show ?case by (simp add: apply_writes_def)
next
  case (Cons p ws)
  obtain r w where p: "p = (r, w)" by force
  let ?s = "(case w of None \<Rightarrow> ClearSlot r | Some d \<Rightarrow> SetSlot r d) s"
  have r: "plain_ref r" using Cons.prems(2) [of r w] by (simp add: p proper_ref_def)
  have "store_ok ?s"
    using Cons.prems(1) by (simp add: plain_store_def store_ok_SetSlot store_ok_ClearSlot split: option.splits)
  moreover have "list_all (\<lambda>(k, r). plain_ref k) ?s"
    using Cons.prems(1) r
    by (auto simp: plain_store_def SetSlot_def ClearSlot_def list_all_iff dict_del_def split: option.splits)
  ultimately have "plain_store ?s" by (simp add: plain_store_def)
  then have "plain_store (apply_writes ws ?s)"
    using Cons.prems(2) by (intro Cons.IH) auto
  then show ?case by (simp add: p apply_writes_def)
qed

text \<open>What the table holds after a replay.\<close>

definition replayed :: "env \<Rightarrow> client \<Rightarrow> snapshot \<Rightarrow> store \<Rightarrow> slot_ref \<Rightarrow> slot_data option" where
  "replayed e c snap s r =
     (case dict_get snap (ref_key r) of
        None \<Rightarrow> read_slot s r
      | Some (Some d) \<Rightarrow> Some d
      | Some None \<Rightarrow> if in_window e c r then None else read_slot s r)"

lemma revert_to_replayed:
  assumes "synced e c s" "plain_store (sv_planning s)" "proper_ref r" "snap_kept snap"
  shows "(case revert_to snap (c_planning c) (ref_key r) of
      None \<Rightarrow> read_slot (sv_planning s) r | Some None \<Rightarrow> None | Some (Some d) \<Rightarrow> kept_slot d)
    = replayed e c snap (sv_planning s) r"
proof (cases "dict_get snap (ref_key r)")
  case None
  then show ?thesis by (simp add: revert_to_def replayed_def)
next
  case (Some v)
  have "plain_ref r" using assms(3) by (simp add: proper_ref_def)
  note get = synced_get [OF assms(1,2) this]
  have kept: "value_kept v" by (rule snap_kept_get [OF assms(4) Some])
  show ?thesis
    using Some get kept by (cases v) (auto simp: revert_to_def replayed_def value_kept_def)
qed

lemma same_window:
  assumes "c_settings c' = c_settings c" "c_scrollOffset c' = c_scrollOffset c"
  shows "client_weeks e c' = client_weeks e c" "win_start e c' = win_start e c" "win_end e c' = win_end e c"
    "in_window e c' r = in_window e c r"
  using assms by (simp_all add: client_weeks_def win_start_def win_end_def in_window_def)

definition replay_ready :: "env \<Rightarrow> client \<Rightarrow> server \<Rightarrow> bool" where
  "replay_ready e c s \<longleftrightarrow> env_ok e \<and> may_write s \<and> plain_store (sv_planning s)
     \<and> client_weeks e c \<noteq> [] \<and> synced e c s"

lemma replay_read:
  assumes "replay_ready e c s" "snap_ok snap" "snap_kept snap"
    and run: "call_all e (map write_req (revert_list snap (c_planning c))) (c1, s) = (err, c', s')"
  shows "err = None \<and> c' = c1 \<and> may_write s' \<and> plain_store (sv_planning s')"
    and "proper_ref r \<Longrightarrow> read_slot (sv_planning s') r = replayed e c snap (sv_planning s) r"
proof -
  have e: "env_ok e" "may_write s" "plain_store (sv_planning s)" "synced e c s"
    using assms(1) by (simp_all add: replay_ready_def)
  let ?ws = "revert_list snap (c_planning c)"
  note wr = call_all_writes [OF e(1,2) assms(2) run]
  obtain ws where ws: "env_arrival e (map write_req ?ws) = map write_req ws" "mset ws = mset ?ws"
    using mset_map_preimage [of "env_arrival e (map write_req ?ws)" write_req ?ws] e(1) by (auto simp: env_ok_def)
  have proper: "proper_ref q" if "(q, v) \<in> set ws" for q v
    using that revert_list_refs(2) [OF assms(2)] mset_eq_setD [OF ws(2)] by blast
  have "s' = s\<lparr>sv_planning := apply_writes ws (sv_planning s)\<rparr>"
    using run call_seq_writes [OF e(1,2) proper, where c = c1] by (simp add: call_all_def ws(1))
  then have "plain_store (sv_planning s')"
    using plain_store_writes [OF e(3) proper] by simp
  then show "err = None \<and> c' = c1 \<and> may_write s' \<and> plain_store (sv_planning s')"
    using wr(1) e(2) by (simp add: may_write_def)
  show "read_slot (sv_planning s') r = replayed e c snap (sv_planning s) r" if "proper_ref r"
    using wr(2) [OF that] revert_to_replayed [OF e(4,3) that assms(3)] by simp
qed

lemma replay_main:
  assumes ready: "replay_ready e c s" and snap: "snap_ok snap" "snap_kept snap"
    and c1: "c_planning c1 = c_planning c" "c_settings c1 = c_settings c" "c_scrollOffset c1 = c_scrollOffset c"
    and run: "replay e (Some (snap, map write_req (revert_list snap (c_planning c)), c1)) (c, s) = (err, c', s')"
  shows "err = None \<and> replay_ready e c' s' \<and> same_edit_state (c1\<lparr>c_undoing := False\<rparr>) c'"
    and "proper_ref r \<Longrightarrow> read_slot (sv_planning s') r = replayed e c snap (sv_planning s) r"
proof -
  let ?ws = "revert_list snap (c_planning c)"
  have e: "env_ok e" "plain_store (sv_planning s)" "client_weeks e c \<noteq> []" "synced e c s"
    using ready by (simp_all add: replay_ready_def)
  have "(err = None \<and> replay_ready e c' s' \<and> same_edit_state (c1\<lparr>c_undoing := False\<rparr>) c') \<and>
    (proper_ref r \<longrightarrow> read_slot (sv_planning s') r = replayed e c snap (sv_planning s) r)" for r
  proof (cases "?ws = []")
    case True
    then have c': "err = None" "c' = c1\<lparr>c_undoing := False\<rparr>" "s' = s"
      using run by (simp_all add: replay_def)
    have win: "client_weeks e c' = client_weeks e c" "win_start e c' = win_start e c" "win_end e c' = win_end e c"
      using same_window [of c' c e] by (simp_all add: c' c1)
    have "replay_ready e c' s'"
      using ready win by (simp add: replay_ready_def synced_def c' c1)
    moreover have "read_slot (sv_planning s) r = replayed e c snap (sv_planning s) r" if "proper_ref r"
      using revert_to_replayed [OF e(4,2) that snap(2)] map_of_revert_list [OF snap(1) that, of "c_planning c"] True
      by simp
    ultimately show ?thesis by (simp add: c' same_edit_state_def)
  next
    case False
    obtain err1 c2 s1 where all: "call_all e (map write_req ?ws) (c1, s) = (err1, c2, s1)"
      by (metis prod.exhaust)
    note w = replay_read [OF ready snap all]
    have win: "client_weeks e c1 = client_weeks e c"
      using same_window [of c1 c e] c1 by simp
    then have weeks: "client_weeks e c1 \<noteq> []" using e(3) by simp
    have dates: "win_start e c1 \<noteq> []" "win_end e c1 \<noteq> []"
      using window_dates_nonempty [OF weeks] by auto
    let ?c = "c1\<lparr>c_planning := load_entries (GetPlanning (win_start e c1) (win_end e c1) (sv_planning s1)),
              c_oncall := GetOnCall (win_start e c1) (win_end e c1) (sv_oncall s1),
              c_rotation := GetRotation (win_start e c1) (win_end e c1) (sv_rotation s1), c_undoing := False\<rparr>"
    have "sv_session s1 \<noteq> None" using w(1) may_write_session by blast
    then have "reloadPlanning e (c1, s1) = (None, ?c\<lparr>c_undoing := c_undoing c1\<rparr>, s1)"
      by (simp add: reload_ok [OF e(1) _ weeks dates])
    then have c': "err = None" "c' = flash_snap e snap ?c" "s' = s1"
      using run False w(1) by (auto simp add: replay_def all after_writes_def)
    note same = flash_only_fields [OF flash_snap_frame [of ?c e snap], folded c'(2)]
    have "same_edit_state (c1\<lparr>c_undoing := False\<rparr>) c'"
      using same(4) by (simp add: same_edit_state_def)
    moreover have "replay_ready e c' s'"
      using w(1) e(1) weeks same(1-3) same_window [of c' c1 e]
      by (simp add: replay_ready_def synced_def c'(3))
    ultimately show ?thesis using c' w(2) by simp
  qed
  then show "err = None \<and> replay_ready e c' s' \<and> same_edit_state (c1\<lparr>c_undoing := False\<rparr>) c'"
    and "proper_ref r \<Longrightarrow> read_slot (sv_planning s') r = replayed e c snap (sv_planning s) r"
    by blast+
qed

lemma undo_main:
  assumes "replay_ready e c s" "c_undoStack c = st @ [snap]" "snap_ok snap" "snap_kept snap"
    and "undo e (c, s) = (err, c', s')"
  shows "err = None \<and> replay_ready e c' s' \<and> c_undoStack c' = st
      \<and> c_redoStack c' = c_redoStack c @ [take_snapshot (c_planning c) (dict_keys snap)]
      \<and> \<not> c_undoing c' \<and> c_settings c' = c_settings c \<and> c_scrollOffset c' = c_scrollOffset c"
    and "proper_ref r \<Longrightarrow> read_slot (sv_planning s') r = replayed e c snap (sv_planning s) r"
proof -
  let ?c1 = "c\<lparr>c_undoStack := st, c_redoStack := c_redoStack c @ [take_snapshot (c_planning c) (dict_keys snap)],
     c_undo_disabled := (st = []), c_redo_disabled := False, c_undoing := True\<rparr>"
  have run: "replay e (Some (snap, map write_req (revert_list snap (c_planning c)), ?c1)) (c, s) = (err, c', s')"
    using assms(2,5) by (simp add: undo_def undo_begin_def Let_def)
  note m = replay_main [OF assms(1,3,4) _ _ _ run]
  show "err = None \<and> replay_ready e c' s' \<and> c_undoStack c' = st
      \<and> c_redoStack c' = c_redoStack c @ [take_snapshot (c_planning c) (dict_keys snap)]
      \<and> \<not> c_undoing c' \<and> c_settings c' = c_settings c \<and> c_scrollOffset c' = c_scrollOffset c"
    using m(1) by (simp add: same_edit_state_def)
  show "proper_ref r \<Longrightarrow> read_slot (sv_planning s') r = replayed e c snap (sv_planning s) r"
    using m(2) by simp
qed

lemma redo_main:
  assumes "replay_ready e c s" "c_redoStack c = st @ [snap]" "snap_ok snap" "snap_kept snap"
    and "redo e (c, s) = (err, c', s')"
  shows "err = None \<and> replay_ready e c' s' \<and> c_redoStack c' = st
      \<and> c_undoStack c' = c_undoStack c @ [take_snapshot (c_planning c) (dict_keys snap)]
      \<and> \<not> c_undoing c' \<and> c_settings c' = c_settings c \<and> c_scrollOffset c' = c_scrollOffset c"
    and "proper_ref r \<Longrightarrow> read_slot (sv_planning s') r = replayed e c snap (sv_planning s) r"
proof -
  let ?c1 = "c\<lparr>c_redoStack := st, c_undoStack := c_undoStack c @ [take_snapshot (c_planning c) (dict_keys snap)],
     c_undo_disabled := False, c_redo_disabled := (st = []), c_undoing := True\<rparr>"
  have run: "replay e (Some (snap, map write_req (revert_list snap (c_planning c)), ?c1)) (c, s) = (err, c', s')"
    using assms(2,5) by (simp add: redo_def redo_begin_def Let_def)
  note m = replay_main [OF assms(1,3,4) _ _ _ run]
  show "err = None \<and> replay_ready e c' s' \<and> c_redoStack c' = st
      \<and> c_undoStack c' = c_undoStack c @ [take_snapshot (c_planning c) (dict_keys snap)]
      \<and> \<not> c_undoing c' \<and> c_settings c' = c_settings c \<and> c_scrollOffset c' = c_scrollOffset c"
    using m(1) by (simp add: same_edit_state_def)
  show "proper_ref r \<Longrightarrow> read_slot (sv_planning s') r = replayed e c snap (sv_planning s) r"
    using m(2) by simp
qed

section \<open>Undo followed by redo\<close>

definition planning_kept :: "planning \<Rightarrow> bool" where
  "planning_kept pl \<longleftrightarrow> list_all (\<lambda>(_, d). kept_slot d = Some d) pl"

lemma snap_kept_take:
  assumes "planning_kept pl"
  shows "snap_kept (take_snapshot pl ks)"
proof -
  have pl: "value_kept (dict_get pl k)" for k
    using assms by (induction pl) (auto simp: planning_kept_def value_kept_def split: option.splits if_splits)
  have "value_kept v" if "(k, v) \<in> set (take_snapshot pl ks)" for k v
  proof -
    have "dict_get (take_snapshot pl ks) k = Some v"
      using that dict_ok_take_snapshot [of pl ks] by (simp add: dict_get_def dict_ok_def)
    then show ?thesis using pl [of k] by (auto simp: get_take_snapshot split: if_splits)
  qed
  then show ?thesis by (auto simp: snap_kept_def list_all_iff)
qed

lemma get_take_keys:
  "dict_get (take_snapshot pl (dict_keys snap)) k = (if dict_get snap k = None then None else Some (dict_get pl k))"
  by (simp add: get_take_snapshot dict_keys_def dict_get_None_iff)

lemma replay_ready_get:
  "replay_ready e c s \<Longrightarrow> proper_ref r \<Longrightarrow>
   dict_get (c_planning c) (ref_key r) = (if in_window e c r then read_slot (sv_planning s) r else None)"
  by (simp add: replay_ready_def proper_ref_def synced_get)

lemma push_edit_window:
  "c_planning (pushUndo ks c) = c_planning c" "c_settings (pushUndo ks c) = c_settings c"
  "c_scrollOffset (pushUndo ks c) = c_scrollOffset c"
  by (simp_all add: pushUndo_def Let_def)

lemma push_top: "ks \<noteq> [] \<Longrightarrow> \<exists>st. c_undoStack (pushUndo ks c) = st @ [take_snapshot (c_planning c) ks]"
  by (cases "c_undoStack c") (auto simp: pushUndo_def Let_def)

text \<open>Undoing any change of the snapshot's slots that left the client in step.\<close>

lemma undo_snapshot:
  assumes ready: "replay_ready e c s" "replay_ready e c1 s1"
    and push: "same_edit_state (pushUndo ks c) c1" "ks \<noteq> []" "list_all proper_key ks" "planning_kept (c_planning c)"
    and frame: "ref_key r \<notin> set ks \<Longrightarrow> read_slot (sv_planning s1) r = read_slot (sv_planning s) r"
    and run: "undo e (c1, s1) = (err2, c2, s2)"
    and r: "proper_ref r" "in_window e c r"
  shows "err2 = None \<and> read_slot (sv_planning s2) r = read_slot (sv_planning s) r
     \<and> dict_get (c_planning c2) (ref_key r) = dict_get (c_planning c) (ref_key r)"
proof -
  let ?pl = "c_planning c"
  let ?snap = "take_snapshot ?pl ks"
  obtain st where st: "c_undoStack c1 = st @ [?snap]"
    using push_top [OF push(2), of c] push(1) by (auto simp: same_edit_state_def)
  have snap: "snap_ok ?snap" "snap_kept ?snap"
    using push(3,4) by (simp_all add: snap_ok_take snap_kept_take)
  note u = undo_main [OF ready(2) st snap run]
  have fields: "c_settings c1 = c_settings c" "c_scrollOffset c1 = c_scrollOffset c"
    using push(1) push_edit_window by (simp_all add: same_edit_state_def)
  have win: "in_window e c1 r" "in_window e c2 r"
    using same_window(4) [of c1 c e r] same_window(4) [of c2 c1 e r] fields u(1) r(2) by simp_all
  have get: "dict_get ?pl (ref_key r) = read_slot (sv_planning s) r"
    using replay_ready_get [OF ready(1) r(1)] r(2) by simp
  have "read_slot (sv_planning s2) r = read_slot (sv_planning s) r"
    using u(2) [OF r(1)] win get frame by (auto simp: replayed_def get_take_snapshot split: option.splits)
  then show ?thesis
    using u(1) win(2) get replay_ready_get [of e c2 s2 r] r(1) by simp
qed

lemma undo_redo_main:
  assumes ready: "replay_ready e c s" and st: "c_undoStack c = st @ [snap]"
    and snap: "snap_ok snap" "snap_kept snap" "planning_kept (c_planning c)"
    and 1: "undo e (c, s) = (err1, c1, s1)" and 2: "redo e (c1, s1) = (err2, c2, s2)"
    and r: "proper_ref r" "in_window e c r \<or> dict_get snap (ref_key r) = None"
  shows "err1 = None \<and> err2 = None \<and> c_redoStack c2 = c_redoStack c \<and> length (c_undoStack c2) = length (c_undoStack c)
     \<and> \<not> c_undoing c2 \<and> read_slot (sv_planning s2) r = read_slot (sv_planning s) r
     \<and> dict_get (c_planning c2) (ref_key r) = dict_get (c_planning c) (ref_key r)"
proof -
  let ?now = "take_snapshot (c_planning c) (dict_keys snap)"
  have kept: "snap_ok ?now" "snap_kept ?now"
    using snap by (simp_all add: snap_ok_take snap_ok_keys snap_kept_take)
  note u = undo_main [OF ready st snap(1,2) 1]
  have ready1: "replay_ready e c1 s1" and top: "c_redoStack c1 = c_redoStack c @ [?now]"
    using u(1) by simp_all
  note d = redo_main [OF ready1 top kept 2]
  have win: "in_window e c1 r = in_window e c r" "in_window e c2 r = in_window e c r"
    using same_window(4) [of c1 c e r] same_window(4) [of c2 c e r] u(1) d(1) by simp_all
  have "read_slot (sv_planning s2) r = read_slot (sv_planning s) r"
  proof (cases "dict_get snap (ref_key r)")
    case None
    then show ?thesis using u(2) d(2) r(1) by (simp add: replayed_def get_take_keys)
  next
    case (Some v)
    then have "in_window e c r" using r(2) by simp
    then show ?thesis
      using d(2) [OF r(1)] Some win replay_ready_get [OF ready r(1)]
      by (simp add: replayed_def get_take_keys split: option.splits)
  qed
  then show ?thesis
    using u(1) d(1) st win replay_ready_get [OF ready r(1)] replay_ready_get [of e c2 s2 r] r(1) by simp
qed

section \<open>A small instance\<close>

definition demo_slot :: slot_data where
  "demo_slot = \<lparr>sd_state = js ''filled'', sd_away = None, sd_incident = None, sd_projects = None,
     sd_run = True, sd_run_note = js ''INC'', sd_remote = False, sd_offsite = False\<rparr>"

definition demo_ref :: slot_ref where
  "demo_ref = SlotRef (js ''p1'') (fmtDate 20500) (js ''am'')"

definition demo_env :: env where
  "demo_env = \<lparr>env_today = 20500, env_now = 1000, env_net = (\<lambda>_. Up), env_db_fails = (\<lambda>_. False), env_arrival = rev\<rparr>"

definition demo_ann :: person where
  "demo_ann = \<lparr>p_id = js ''p1'', p_name = js ''Ann'', p_role = [], p_sub_team = [], p_avatar_emoji = [], p_avatar_color = [],
     p_start_date = [], p_default_projects = [], p_status = js ''active'', p_archived_date = [], p_is_guest = False,
     p_ics_token = []\<rparr>"

definition demo_server :: server where
  "demo_server = \<lparr>sv_session = Some \<lparr>u_username = js ''ann'', u_role = js ''normal''\<rparr>,
     sv_planning = [(demo_ref, row_of_slot demo_slot)], sv_oncall = [], sv_rotation = [],
     sv_people = [demo_ann], sv_projects = [], sv_settings = [], sv_holidays = [], sv_today = 20500,
     sv_uuid = (\<lambda>n. js ''new'' @ str_of_nat n), sv_uuids_used = 0,
     sv_toml_parse = (\<lambda>_. None), sv_toml_print = (\<lambda>_. js ''schema_version = 1''), sv_map_order = rev,
     sv_stamps = (js ''2026-02-16T08:00:00Z'', js ''2026-02-16-09-00'')\<rparr>"

definition demo_client :: client where
  "demo_client = \<lparr>c_user = Some \<lparr>u_username = js ''ann'', u_role = js ''normal''\<rparr>, c_token = Some (js ''t''),
     c_people = [demo_ann], c_projects = [], c_planning = [(ref_key demo_ref, demo_slot)], c_settings = defaultSettings,
     c_oncall = [], c_rotation = [], c_holidays = [], c_undoStack = [[(ref_key demo_ref, None)]], c_redoStack = [],
     c_undoing = False, c_undo_disabled = False, c_redo_disabled = True, c_scrollOffset = 0,
     c_currentView = js ''team'', c_oncallLoadedYear = None, c_pendingFlash = [], c_recentSelf = [],
     c_presence = [], c_activity = []\<rparr>"

lemma demo_env_ok: "env_ok demo_env"
  by (simp add: env_ok_def demo_env_def)

lemma demo_dates:
  "win_start demo_env demo_client \<le> ref_date demo_ref" "ref_date demo_ref \<le> win_end demo_env demo_client"
proof -
  have w: "client_weeks demo_env demo_client = getVisibleWeeks (Number 4) 20500 0"
    by (simp add: client_weeks_def demo_client_def demo_env_def defaultSettings_def)
  have d: "four_digit_year (getWeekStart 20500)" "four_digit_year 20500" "four_digit_year (getWeekStart 20500 + 27)"
    by code_simp+
  have le: "getWeekStart 20500 \<le> 20500" "(20500::int) \<le> getWeekStart 20500 + 27"
    using getWeekStart_le [of 20500] by simp_all
  have "win_start demo_env demo_client = fmtDate (getWeekStart 20500)"
    using hd_visible_weeks [of 4 20500 0] by (simp add: win_start_def w formatWeekStart_def)
  then show "win_start demo_env demo_client \<le> ref_date demo_ref"
    using d le by (simp add: demo_ref_def fmtDate_le_iff)
  have "win_end demo_env demo_client = fmtDate (getWeekStart 20500 + 27)"
    using last_visible_weeks [of 4 20500 0] length_visible_weeks [of 4 20500 0]
    by (auto simp: win_end_def w windowEndDate_def setDate_plus add.commute)
  then show "ref_date demo_ref \<le> win_end demo_env demo_client"
    using d le by (simp add: demo_ref_def fmtDate_le_iff)
qed

lemma demo_kept: "kept_slot demo_slot = Some demo_slot"
  by (rule clean_kept) (simp add: clean_slot_def slot_is_empty_def demo_slot_def js_def utf8_width_def)

lemma demo_row: "slot_of_row (row_of_slot demo_slot) = demo_slot" "r_state (row_of_slot demo_slot) = js ''filled''"
  using demo_kept by (auto simp: kept_slot_def row_of_slot_def demo_slot_def split: if_splits)

lemma demo_proper: "proper_ref demo_ref"
  by (simp add: proper_ref_def plain_ref_def demo_ref_def fmtDate_plain) (simp add: plain_part_def js_def)

lemma demo_plain: "plain_store (sv_planning demo_server)"
  using demo_proper
  by (simp add: plain_store_def store_ok_def demo_server_def dict_ok_def row_visible_def demo_row proper_ref_def)

lemma demo_synced: "synced demo_env demo_client demo_server"
  by (simp add: synced_def demo_server_def GetPlanning_def demo_dates demo_row load_entries_def)
    (simp add: demo_client_def)

lemma demo_write: "may_write demo_server"
  by (simp add: may_write_roles demo_server_def)

lemma demo_weeks: "client_weeks demo_env demo_client \<noteq> []"
  by (simp add: client_weeks_def getVisibleWeeks_def demo_client_def defaultSettings_def)

lemma demo_window: "in_window demo_env demo_client demo_ref"
  by (simp add: in_window_def demo_dates)

lemma demo_snap: "snap_ok [(ref_key demo_ref, None)]" "snap_kept [(ref_key demo_ref, None)]"
  "planning_kept (c_planning demo_client)"
  by (simp_all add: snap_ok_def dict_ok_def proper_ref_key demo_proper snap_kept_def value_kept_def
      planning_kept_def demo_client_def demo_kept)

lemma demo_ready: "replay_ready demo_env demo_client demo_server"
  using demo_env_ok demo_plain demo_synced demo_write demo_weeks by (simp add: replay_ready_def)

lemma demo_stack: "c_undoStack demo_client = [] @ [[(ref_key demo_ref, None)]]"
  by (simp add: demo_client_def)

text \<open>The same client ten weeks further on.\<close>

definition demo_far :: client where
  "demo_far = demo_client\<lparr>c_scrollOffset := 10, c_planning := []\<rparr>"

lemma demo_far_window: "\<not> in_window demo_env demo_far demo_ref"
proof -
  have "four_digit_year (getWeekStart 20500 + 70)" "four_digit_year 20500" by code_simp+
  moreover have "(20500::int) < getWeekStart 20500 + 70" using getWeekStart_le [of 20500] by simp
  moreover have "win_start demo_env demo_far = fmtDate (getWeekStart 20500 + 70)"
    using hd_visible_weeks [of 4 20500 10]
    by (simp add: win_start_def client_weeks_def demo_far_def demo_client_def demo_env_def defaultSettings_def
        formatWeekStart_def)
  ultimately show ?thesis by (simp add: in_window_def demo_ref_def fmtDate_le_iff)
qed

lemma demo_far_ready: "replay_ready demo_env demo_far demo_server"
proof -
  have "client_weeks demo_env demo_far \<noteq> []"
    by (simp add: client_weeks_def getVisibleWeeks_def demo_far_def demo_client_def defaultSettings_def)
  moreover have "GetPlanning (win_start demo_env demo_far) (win_end demo_env demo_far) (sv_planning demo_server) = []"
    using demo_far_window by (auto simp: GetPlanning_def demo_server_def in_window_def)
  then have "synced demo_env demo_far demo_server"
    by (simp add: synced_def demo_far_def load_entries_def)
  ultimately show ?thesis
    using demo_env_ok demo_plain demo_write by (simp add: replay_ready_def)
qed

section \<open>Properties\<close>

text \<open>C2: undo gives back what was there. With a working server and a client that holds the
  server's state of the visible window, undoing the snapshot on top of the stack succeeds,
  pops it, and afterwards every slot of the window reads, on the client and on the server, as
  the snapshot recorded it when the snapshot has it and as before the undo when it has not;
  the writes may arrive in any order.\<close>

theorem undo_restores:
  assumes "replay_ready e c s" and "c_undoStack c = st @ [snap]" and "snap_ok snap" and "snap_kept snap"
    and "proper_ref r" and "in_window e c r"
  shows "case undo e (c, s) of (err, c', s') \<Rightarrow>
     err = None \<and> c_undoStack c' = st \<and> \<not> c_undoing c'
     \<and> dict_get (c_planning c') (ref_key r) =
         (case dict_get snap (ref_key r) of None \<Rightarrow> dict_get (c_planning c) (ref_key r) | Some v \<Rightarrow> v)
     \<and> read_slot (sv_planning s') r = dict_get (c_planning c') (ref_key r)"
proof -
  obtain err c' s' where run: "undo e (c, s) = (err, c', s')" by (metis prod.exhaust)
  note u = undo_main [OF assms(1-4) run]
  have "in_window e c' r" using same_window(4) [of c' c e r] u(1) assms(6) by simp
  then have get: "dict_get (c_planning c') (ref_key r) = read_slot (sv_planning s') r"
    using replay_ready_get [of e c' s' r] u(1) assms(5) by simp
  have "dict_get (c_planning c) (ref_key r) = read_slot (sv_planning s) r"
    using replay_ready_get [OF assms(1,5)] assms(6) by simp
  then show ?thesis
    using u(1) u(2) [OF assms(5)] assms(6) get
    by (auto simp: run replayed_def split: option.splits)
qed

theorem undo_restores_witness:
  "case undo demo_env (demo_client, demo_server) of (err, c', s') \<Rightarrow>
     err = None \<and> c_undoStack c' = [] \<and> \<not> c_undoing c'
     \<and> dict_get (c_planning c') (ref_key demo_ref) =
         (case dict_get [(ref_key demo_ref, None)] (ref_key demo_ref) of
            None \<Rightarrow> dict_get (c_planning demo_client) (ref_key demo_ref) | Some v \<Rightarrow> v)
     \<and> read_slot (sv_planning s') demo_ref = dict_get (c_planning c') (ref_key demo_ref)"
  by (rule undo_restores [OF demo_ready demo_stack demo_snap(1,2) demo_proper demo_window])

text \<open>C3: redo takes an undo back: undo followed by redo succeeds, restores both stacks'
  depths, and leaves every slot as it was, on the client and on the server, except slots of
  the snapshot outside the visible window.\<close>

theorem undo_redo_inverse:
  assumes "replay_ready e c s" and "c_undoStack c = st @ [snap]" and "snap_ok snap" and "snap_kept snap"
    and "planning_kept (c_planning c)" and "proper_ref r"
    and "in_window e c r \<or> dict_get snap (ref_key r) = None"
  shows "case undo e (c, s) of (err1, cs1) \<Rightarrow> case redo e cs1 of (err2, c2, s2) \<Rightarrow>
     err1 = None \<and> err2 = None \<and> c_redoStack c2 = c_redoStack c
     \<and> length (c_undoStack c2) = length (c_undoStack c) \<and> \<not> c_undoing c2
     \<and> read_slot (sv_planning s2) r = read_slot (sv_planning s) r
     \<and> dict_get (c_planning c2) (ref_key r) = dict_get (c_planning c) (ref_key r)"
proof -
  obtain err1 c1 s1 where 1: "undo e (c, s) = (err1, c1, s1)" by (metis prod.exhaust)
  obtain err2 c2 s2 where 2: "redo e (c1, s1) = (err2, c2, s2)" by (metis prod.exhaust)
  show ?thesis
    using undo_redo_main [OF assms(1-5) 1 2 assms(6,7)] by (simp add: 1 2)
qed

theorem undo_redo_inverse_witness:
  "case undo demo_env (demo_client, demo_server) of (err1, cs1) \<Rightarrow> case redo demo_env cs1 of (err2, c2, s2) \<Rightarrow>
     err1 = None \<and> err2 = None \<and> c_redoStack c2 = c_redoStack demo_client
     \<and> length (c_undoStack c2) = length (c_undoStack demo_client) \<and> \<not> c_undoing c2
     \<and> read_slot (sv_planning s2) demo_ref = read_slot (sv_planning demo_server) demo_ref
     \<and> dict_get (c_planning c2) (ref_key demo_ref) = dict_get (c_planning demo_client) (ref_key demo_ref)"
  by (rule undo_redo_inverse [OF demo_ready demo_stack demo_snap demo_proper])
    (rule disjI1 [OF demo_window])

text \<open>A slot that was empty when the snapshot was taken and lies outside the visible window
  when undo is pressed is not reverted: undo pops the snapshot, reports no failure and sends
  no request for it, so the slot keeps whatever the server has.\<close>

theorem undo_skips_outside_window:
  assumes "replay_ready e c s" and "c_undoStack c = st @ [snap]" and "snap_ok snap" and "snap_kept snap"
    and "proper_ref r" and "\<not> in_window e c r" and "dict_get snap (ref_key r) = Some None"
  shows "case undo e (c, s) of (err, c', s') \<Rightarrow>
     err = None \<and> c_undoStack c' = st \<and> read_slot (sv_planning s') r = read_slot (sv_planning s) r"
proof -
  obtain err c' s' where run: "undo e (c, s) = (err, c', s')" by (metis prod.exhaust)
  show ?thesis
    using undo_main [OF assms(1-4) run] assms(5-7) by (simp add: run replayed_def)
qed

theorem undo_skips_outside_window_witness:
  "case undo demo_env (demo_far, demo_server) of (err, c', s') \<Rightarrow>
     err = None \<and> c_undoStack c' = [] \<and> read_slot (sv_planning s') demo_ref = read_slot (sv_planning demo_server) demo_ref"
proof (rule undo_skips_outside_window [OF demo_far_ready _ demo_snap(1,2) demo_proper demo_far_window])
  show "c_undoStack demo_far = [] @ [[(ref_key demo_ref, None)]]"
    by (simp add: demo_far_def demo_client_def)
qed simp

end
