(* ===== verification/EditHistory.thy ===== *)
theory EditHistory
  imports UndoRedo
begin

text \<open>
  The life of the undo and redo stacks as a step relation. A state is the client, the server
  and the replays in flight: undo and redo run to their first \<open>await\<close> in one step, and what
  follows the replies is a later step, so other operations (a second undo included) run in
  between. Proved by rule induction: the stacks together never hold more than twenty
  snapshots, the two buttons are enabled exactly when there is something to undo or redo,
  every snapshot on a stack can be replayed, and the flag that holds back planning messages
  is never left set.
\<close>

type_synonym flight = "snapshot \<times> request list"
type_synonym session = "client \<times> server \<times> flight list"

text \<open>Any other operation leaves the stacks, the buttons and the flag alone.\<close>

definition same_stacks :: "client \<Rightarrow> client \<Rightarrow> bool" where
  "same_stacks c c' \<longleftrightarrow> c_undoStack c' = c_undoStack c \<and> c_redoStack c' = c_redoStack c
     \<and> c_undoing c' = c_undoing c \<and> c_undo_disabled c' = c_undo_disabled c
     \<and> c_redo_disabled c' = c_redo_disabled c"

inductive hstep :: "session \<Rightarrow> session \<Rightarrow> bool" where
  edit: "list_all proper_key (if keys \<noteq> [] then keys else dict_keys (c_planning c)) \<Longrightarrow>
     hstep (c, s, fl) (pushUndo keys c, s, fl)"
| undo_nothing: "undo_begin c = Some (snap, [], c') \<Longrightarrow> hstep (c, s, fl) (c'\<lparr>c_undoing := False\<rparr>, s, fl)"
| undo_start: "undo_begin c = Some (snap, ws, c') \<Longrightarrow> ws \<noteq> [] \<Longrightarrow> hstep (c, s, fl) (c', s, (snap, ws) # fl)"
| redo_nothing: "redo_begin c = Some (snap, [], c') \<Longrightarrow> hstep (c, s, fl) (c'\<lparr>c_undoing := False\<rparr>, s, fl)"
| redo_start: "redo_begin c = Some (snap, ws, c') \<Longrightarrow> ws \<noteq> [] \<Longrightarrow> hstep (c, s, fl) (c', s, (snap, ws) # fl)"
| finish: "call_all e ws (c, s) = (err, c1, s1) \<Longrightarrow> after_writes e snap err (c1, s1) = (err', c2, s2) \<Longrightarrow>
     hstep (c, s, fl1 @ (snap, ws) # fl2) (c2, s2, fl1 @ fl2)"
| other: "same_stacks c c' \<Longrightarrow> hstep (c, s, fl) (c', s', fl)"

inductive_cases hstepE: "hstep (c, s, fl) st'"

definition fresh_client :: "client \<Rightarrow> bool" where
  "fresh_client c \<longleftrightarrow> c_undoStack c = [] \<and> c_redoStack c = [] \<and> \<not> c_undoing c
     \<and> c_undo_disabled c \<and> c_redo_disabled c"

inductive reachable :: "session \<Rightarrow> bool" where
  start: "fresh_client c \<Longrightarrow> reachable (c, s, [])"
| step: "reachable st \<Longrightarrow> hstep st st' \<Longrightarrow> reachable st'"

definition history_ok :: "client \<Rightarrow> bool" where
  "history_ok c \<longleftrightarrow> length (c_undoStack c) + length (c_redoStack c) \<le> 20
     \<and> (c_undo_disabled c \<longleftrightarrow> c_undoStack c = []) \<and> (c_redo_disabled c \<longleftrightarrow> c_redoStack c = [])
     \<and> list_all snap_ok (c_undoStack c) \<and> list_all snap_ok (c_redoStack c)"

lemma history_same: "same_stacks c c' \<Longrightarrow> history_ok c \<Longrightarrow> history_ok c'"
  by (simp add: history_ok_def same_stacks_def)

lemma history_pushUndo:
  assumes "history_ok c" "list_all proper_key (if keys \<noteq> [] then keys else dict_keys (c_planning c))"
  shows "history_ok (pushUndo keys c)"
proof -
  have snap: "snap_ok (take_snapshot (c_planning c) (if keys \<noteq> [] then keys else dict_keys (c_planning c)))"
    using assms(2) by (rule snap_ok_take)
  show ?thesis
    using assms(1) snap by (cases "c_undoStack c") (auto simp: pushUndo_def history_ok_def Let_def)
qed

lemma history_undo_begin:
  assumes "history_ok c" "undo_begin c = Some (snap, ws, c')"
  shows "history_ok c' \<and> snap_ok snap"
proof -
  obtain st top where st: "c_undoStack c = st @ [top]"
    using assms(2) by (cases "c_undoStack c" rule: rev_cases) (auto simp: undo_begin_def)
  have "snap_ok top" using assms(1) by (simp add: history_ok_def st)
  then have "snap_ok (take_snapshot (c_planning c) (dict_keys top))"
    by (intro snap_ok_take snap_ok_keys)
  with assms \<open>snap_ok top\<close> show ?thesis
    by (auto simp: undo_begin_def Let_def st history_ok_def)
qed

lemma history_redo_begin:
  assumes "history_ok c" "redo_begin c = Some (snap, ws, c')"
  shows "history_ok c' \<and> snap_ok snap"
proof -
  obtain st top where st: "c_redoStack c = st @ [top]"
    using assms(2) by (cases "c_redoStack c" rule: rev_cases) (auto simp: redo_begin_def)
  have "snap_ok top" using assms(1) by (simp add: history_ok_def st)
  then have "snap_ok (take_snapshot (c_planning c) (dict_keys top))"
    by (intro snap_ok_take snap_ok_keys)
  with assms \<open>snap_ok top\<close> show ?thesis
    by (auto simp: redo_begin_def Let_def st history_ok_def)
qed

text \<open>The end of a replay resets the flag on every path, errors included.\<close>

lemma after_writes_stacks:
  assumes "call_all e ws (c, s) = (err, c1, s1)" "after_writes e snap err (c1, s1) = (err', c2, s2)"
  shows "same_stacks (c\<lparr>c_undoing := False\<rparr>) c2"
proof -
  obtain t where c1: "c1 = c\<lparr>c_token := t\<rparr>"
    using call_all_client [OF assms(1)] by blast
  obtain e3 c3 s3 where re: "reloadPlanning e (c1, s1) = (e3, c3, s3)" by (metis prod.exhaust)
  have c3: "same_edit_state c1 c3" using reload_edit_state [of c1 e s1] re by simp
  have flash: "same_edit_state (c3\<lparr>c_undoing := False\<rparr>) (flash_snap e snap (c3\<lparr>c_undoing := False\<rparr>))"
    by (rule flash_only_fields(4) [OF flash_snap_frame])
  have same: "same_stacks (c\<lparr>c_undoing := False\<rparr>) x"
    if "same_edit_state (c3\<lparr>c_undoing := False\<rparr>) x" for x
    using that c3 by (simp add: c1 same_stacks_def same_edit_state_def)
  show ?thesis
  proof (cases err)
    case (Some x)
    then show ?thesis using assms(2) by (auto simp: after_writes_def c1 same_stacks_def)
  next
    case None
    then have "c2 = c3\<lparr>c_undoing := False\<rparr> \<or> c2 = flash_snap e snap (c3\<lparr>c_undoing := False\<rparr>)"
      using assms(2) by (auto simp: after_writes_def re split: option.splits)
    then show ?thesis
      using same [OF flash] same [of "c3\<lparr>c_undoing := False\<rparr>"] by (auto simp: same_edit_state_def)
  qed
qed

lemma history_undoing_False: "history_ok (c\<lparr>c_undoing := False\<rparr>) \<longleftrightarrow> history_ok c"
  by (simp add: history_ok_def)

definition session_ok :: "session \<Rightarrow> bool" where
  "session_ok st \<longleftrightarrow> (case st of (c, s, fl) \<Rightarrow>
     history_ok c \<and> list_all (\<lambda>(snap, ws). snap_ok snap \<and> ws \<noteq> []) fl \<and> (fl = [] \<longrightarrow> \<not> c_undoing c))"

lemma session_ok_step:
  assumes "hstep st st'" "session_ok st"
  shows "session_ok st'"
  using assms
proof (induction rule: hstep.induct)
  case (edit keys c s fl)
  then show ?case using history_pushUndo [of c keys] by (simp add: session_ok_def pushUndo_def Let_def)
next
  case (undo_nothing c snap c' s fl)
  then show ?case using history_undo_begin [of c] by (simp add: session_ok_def history_undoing_False)
next
  case (undo_start c snap ws c' s fl)
  then show ?case using history_undo_begin [of c] by (simp add: session_ok_def)
next
  case (redo_nothing c snap c' s fl)
  then show ?case using history_redo_begin [of c] by (simp add: session_ok_def history_undoing_False)
next
  case (redo_start c snap ws c' s fl)
  then show ?case using history_redo_begin [of c] by (simp add: session_ok_def)
next
  case (finish e ws c s err c1 s1 snap err' c2 s2 fl1 fl2)
  have same: "same_stacks (c\<lparr>c_undoing := False\<rparr>) c2"
    by (rule after_writes_stacks [OF finish(1,2)])
  have "history_ok c2"
    using history_same [OF same] finish(3) by (simp add: session_ok_def history_undoing_False)
  then show ?case
    using finish(3) same by (simp add: session_ok_def same_stacks_def)
next
  case (other c c' s fl s')
  then show ?case using history_same [of c c'] by (simp add: session_ok_def same_stacks_def)
qed

lemma reachable_ok: "reachable st \<Longrightarrow> session_ok st"
proof (induction rule: reachable.induct)
  case (start c s)
  then show ?case by (simp add: session_ok_def history_ok_def fresh_client_def)
next
  case (step st st')
  show ?case by (rule session_ok_step [OF step.hyps(2) step.IH])
qed

section \<open>Properties\<close>

text \<open>C4: in every reachable state the two stacks together hold at most twenty snapshots (redo
  pushes without the limit check of \<open>pushUndo\<close>, which is safe only because of this), each
  button is enabled exactly when its stack is not empty, and every snapshot on the stacks has
  distinct keys that split back into a person, a date and a half-day.\<close>

theorem history_invariant:
  assumes "reachable (c, s, fl)"
  shows "length (c_undoStack c) + length (c_redoStack c) \<le> 20
     \<and> (c_undo_disabled c \<longleftrightarrow> c_undoStack c = []) \<and> (c_redo_disabled c \<longleftrightarrow> c_redoStack c = [])
     \<and> list_all snap_ok (c_undoStack c @ c_redoStack c)"
  using reachable_ok [OF assms] by (simp add: session_ok_def history_ok_def)

text \<open>A client just loaded, with nothing to undo.\<close>

definition demo_fresh :: client where
  "demo_fresh = demo_client\<lparr>c_undoStack := [], c_undo_disabled := True, c_planning := []\<rparr>"

lemma demo_fresh_reachable: "reachable (demo_fresh, demo_server, [])"
  by (rule reachable.start) (simp add: fresh_client_def demo_fresh_def demo_client_def)

theorem history_invariant_witness:
  "length (c_undoStack demo_fresh) + length (c_redoStack demo_fresh) \<le> 20
     \<and> (c_undo_disabled demo_fresh \<longleftrightarrow> c_undoStack demo_fresh = [])
     \<and> (c_redo_disabled demo_fresh \<longleftrightarrow> c_redoStack demo_fresh = [])
     \<and> list_all snap_ok (c_undoStack demo_fresh @ c_redoStack demo_fresh)"
  by (rule history_invariant [OF demo_fresh_reachable])

text \<open>C5: the flag that suppresses planning messages during an undo or redo never sticks: when no
  replay is in flight it is clear, whatever requests failed.\<close>

theorem undoing_never_sticks:
  assumes "reachable (c, s, [])"
  shows "\<not> c_undoing c"
  using reachable_ok [OF assms] by (simp add: session_ok_def)

theorem undoing_never_sticks_witness: "\<not> c_undoing demo_fresh"
  by (rule undoing_never_sticks [OF demo_fresh_reachable])

text \<open>C6: whatever the network, the session and the database do, an undo with something on the
  stack pops exactly one snapshot, pushes one snapshot of the same keys for redo, clears the
  flag and enables the redo button; a failure is reported and is not followed by a flash.\<close>

theorem undo_on_every_outcome:
  assumes "c_undoStack c = st @ [snap]"
  shows "case undo e (c, s) of (err, c', s') \<Rightarrow>
     c_undoStack c' = st \<and> c_redoStack c' = c_redoStack c @ [take_snapshot (c_planning c) (dict_keys snap)]
     \<and> \<not> c_undoing c' \<and> (c_undo_disabled c' \<longleftrightarrow> st = []) \<and> \<not> c_redo_disabled c'"
proof -
  let ?c1 = "c\<lparr>c_undoStack := st, c_redoStack := c_redoStack c @ [take_snapshot (c_planning c) (dict_keys snap)],
     c_undo_disabled := (st = []), c_redo_disabled := False, c_undoing := True\<rparr>"
  let ?ws = "map write_req (revert_list snap (c_planning c))"
  obtain err1 c1 s1 where all: "call_all e ?ws (?c1, s) = (err1, c1, s1)" by (metis prod.exhaust)
  obtain err2 c2 s2 where aft: "after_writes e snap err1 (c1, s1) = (err2, c2, s2)" by (metis prod.exhaust)
  have "same_stacks (?c1\<lparr>c_undoing := False\<rparr>) c2" by (rule after_writes_stacks [OF all aft])
  then show ?thesis
    using assms by (simp add: undo_def undo_begin_def replay_def Let_def all aft same_stacks_def)
qed

theorem undo_on_every_outcome_witness:
  "case undo (demo_env\<lparr>env_net := \<lambda>_. NoReply\<rparr>) (demo_client, demo_server) of (err, c', s') \<Rightarrow>
     c_undoStack c' = [] \<and> c_redoStack c' = c_redoStack demo_client
       @ [take_snapshot (c_planning demo_client) (dict_keys [(ref_key demo_ref, None :: slot_data option)])]
     \<and> \<not> c_undoing c' \<and> (c_undo_disabled c' \<longleftrightarrow> ([] :: snapshot list) = []) \<and> \<not> c_redo_disabled c'"
  by (rule undo_on_every_outcome [OF demo_stack])

end
