(* ===== verification/Editor.thy ===== *)
theory Editor
  imports EditHistory SlotView
begin

text \<open>
  The unified slot editor: what \<open>openUnifiedEditor\<close> puts into the form for a selection of
  cells, the tri-state toggles, the overwrite warning, and \<open>applyUnifiedEditor\<close>, which turns
  the form into one write per cell. The form's fields are the record \<open>form\<close>; a toggle is a
  value of \<open>tri\<close>. Proved here: every slot the editor writes obeys the exclusions the editor
  announces, a grey toggle keeps the value of each cell, and applying an edit and then
  undoing it restores the window.
\<close>

datatype tri = Grey | Tick | Empty

record form =
  fm_pids :: "jsstring list"
  fm_start_date :: jsstring
  fm_start_slot :: jsstring
  fm_end_date :: jsstring
  fm_end_slot :: jsstring
  fm_tab :: jsstring
  fm_rows :: "(jsstring \<times> int) list"
  fm_run :: tri
  fm_remote :: tri
  fm_offsite :: tri
  fm_grey_run :: bool
  fm_grey_remote :: bool
  fm_grey_offsite :: bool
  fm_run_note :: jsstring
  fm_note_disabled :: bool
  fm_away_type :: jsstring
  fm_away_note :: jsstring
  fm_away_tentative :: bool
  fm_incident :: jsstring

section \<open>Opening the editor\<close>

definition cell_slot :: "planning \<Rightarrow> cell \<Rightarrow> slot_data option" where
  "cell_slot pl c = getSlot pl (cl_person c) (cl_date c) (cl_slot c)"

definition slot_filled :: "slot_data option \<Rightarrow> bool" where
  "slot_filled sd = (case sd of None \<Rightarrow> False | Some d \<Rightarrow> sd_state d \<noteq> js ''not_filled'')"

definition editorSource :: "planning \<Rightarrow> cell list \<Rightarrow> slot_data option" where
  "editorSource pl cells = Option.bind (find (\<lambda>c. slot_filled (cell_slot pl c)) cells) (cell_slot pl)"

definition activeTab :: "slot_data option \<Rightarrow> jsstring" where
  "activeTab src = (case src of None \<Rightarrow> js ''project''
     | Some d \<Rightarrow> if sd_state d = js ''undetermined'' then js ''undetermined''
         else if sd_away d \<noteq> None then js ''away''
         else if sd_incident d \<noteq> None then js ''incident'' else js ''project'')"

definition hasFlag :: "(slot_data \<Rightarrow> bool) \<Rightarrow> planning \<Rightarrow> cell list \<Rightarrow> bool" where
  "hasFlag f pl cells = list_ex (\<lambda>c. case cell_slot pl c of None \<Rightarrow> False | Some d \<Rightarrow> f d) cells"

definition triInit :: "(slot_data \<Rightarrow> bool) \<Rightarrow> planning \<Rightarrow> cell list \<Rightarrow> tri" where
  "triInit f pl cells =
     (if 1 < length cells then (if hasFlag f pl cells then Grey else Empty)
      else (case editorSource pl cells of None \<Rightarrow> Empty | Some d \<Rightarrow> if f d then Tick else Empty))"

definition awayTypes :: "jsstring list" where
  "awayTypes = [js ''vacation'', js ''public_holiday'', js ''sick_leave'', js ''training'', js ''conference'',
     js ''parental_leave'', js ''sabbatical'', js ''other'']"

text \<open>A select without a selected option shows its first one.\<close>

definition openUnifiedEditor :: "planning \<Rightarrow> cell list \<Rightarrow> form option" where
  "openUnifiedEditor pl cells =
     (if cells = [] then None
      else let src = editorSource pl cells;
               isRange = 1 < length cells;
               away = Option.bind src sd_away;
               t = (case away of Some a \<Rightarrow> away_type a | None \<Rightarrow> js ''vacation'')
           in Some \<lparr>fm_pids = rev (remdups (rev (map cl_person cells))),
                fm_start_date = cl_date (hd cells), fm_start_slot = cl_slot (hd cells),
                fm_end_date = cl_date (last cells), fm_end_slot = cl_slot (last cells),
                fm_tab = activeTab src,
                fm_rows = (case src of Some d \<Rightarrow> if has_projects d then map (\<lambda>p. (pa_name p, pa_pct p)) (projects_list d)
                              else [([], 100)] | None \<Rightarrow> [([], 100)]),
                fm_run = triInit sd_run pl cells, fm_remote = triInit sd_remote pl cells,
                fm_offsite = triInit sd_offsite pl cells,
                fm_grey_run = (isRange \<and> hasFlag sd_run pl cells),
                fm_grey_remote = (isRange \<and> hasFlag sd_remote pl cells),
                fm_grey_offsite = (isRange \<and> hasFlag sd_offsite pl cells),
                fm_run_note = (case src of Some d \<Rightarrow> sd_run_note d | None \<Rightarrow> []),
                fm_note_disabled = (triInit sd_run pl cells \<noteq> Tick),
                fm_away_type = (if t \<in> set awayTypes then t else hd awayTypes),
                fm_away_note = (case away of Some a \<Rightarrow> away_note a | None \<Rightarrow> []),
                fm_away_tentative = (case away of Some a \<Rightarrow> away_tentative a | None \<Rightarrow> False),
                fm_incident = (case Option.bind src sd_incident of Some i \<Rightarrow> incident_text i | None \<Rightarrow> [])\<rparr>)"

section \<open>The toggles and the warning\<close>

definition cycleTri :: "bool \<Rightarrow> tri \<Rightarrow> tri" where
  "cycleTri allowGrey cur =
     (if allowGrey then (case cur of Grey \<Rightarrow> Tick | Tick \<Rightarrow> Empty | Empty \<Rightarrow> Grey)
      else if cur = Tick then Empty else Tick)"

text \<open>A click on the run toggle also enables or disables the note.\<close>

definition clickRun :: "form \<Rightarrow> form" where
  "clickRun f = (let nxt = cycleTri (fm_grey_run f) (fm_run f)
     in f\<lparr>fm_run := nxt, fm_note_disabled := (nxt \<noteq> Tick)\<rparr>)"

definition resolveTri :: "tri \<Rightarrow> bool \<Rightarrow> bool" where
  "resolveTri t existing = (case t of Tick \<Rightarrow> True | Empty \<Rightarrow> False | Grey \<Rightarrow> existing)"

definition form_cells :: "bool \<Rightarrow> form \<Rightarrow> cell list" where
  "form_cells showWeekend f =
     getRangeEditorCells showWeekend (fm_pids f) (fm_start_date f) (fm_start_slot f) (fm_end_date f) (fm_end_slot f)"

definition count_categories :: "planning \<Rightarrow> cell list \<Rightarrow> nat \<times> (jsstring, nat) dict" where
  "count_categories pl cells =
     fold (\<lambda>c (total, cats). case uniCategorise (cell_slot pl c) of
             None \<Rightarrow> (total, cats)
           | Some cat \<Rightarrow> (total + 1, dict_set cat (dict_get_or 0 cats cat + 1) cats)) cells (0, [])"

definition updateOverwriteWarning :: "planning \<Rightarrow> cell list \<Rightarrow> jsstring option" where
  "updateOverwriteWarning pl cells =
     (if length cells \<le> 1 then None
      else let (total, cats) = count_categories pl cells
           in if total = 0 then None
              else Some ([9888] @ js '' Overwrites '' @ str_of_nat total @ js '' slot'' @ (if 1 < total then js ''s'' else [])
                @ js '': '' @ js_join (js '', '') (map (\<lambda>(k, v). str_of_nat v @ js '' '' @ k) cats)))"

section \<open>Applying the form\<close>

definition form_projects :: "form \<Rightarrow> proj_assign list" where
  "form_projects f =
     (if fm_tab f = js ''project''
      then map (\<lambda>(n, pct). \<lparr>pa_name = js_trim n, pa_pct = pct\<rparr>) (filter (\<lambda>(n, pct). js_trim n \<noteq> []) (fm_rows f))
      else [])"

definition form_total :: "form \<Rightarrow> int" where
  "form_total f = sum_list (map pa_pct (form_projects f))"

text \<open>\<open>None\<close> deletes the slot, \<open>Some\<close> data is written.\<close>

definition slotWrite :: "form \<Rightarrow> slot_data option \<Rightarrow> slot_data option" where
  "slotWrite f ex =
     (let exRun = (case ex of None \<Rightarrow> False | Some d \<Rightarrow> sd_run d);
          exRemote = (case ex of None \<Rightarrow> False | Some d \<Rightarrow> sd_remote d);
          exOffsite = (case ex of None \<Rightarrow> False | Some d \<Rightarrow> sd_offsite d);
          exRunNote = (case ex of None \<Rightarrow> [] | Some d \<Rightarrow> sd_run_note d);
          tab = fm_tab f;
          editorRunNote = take 2000 (fm_run_note f);
          run = (if tab = js ''project'' \<or> tab = js ''clear'' then resolveTri (fm_run f) exRun else False);
          remote = resolveTri (fm_remote f) exRemote;
          offsite = resolveTri (fm_offsite f) exOffsite;
          runNote = (if (tab = js ''project'' \<or> tab = js ''clear'') \<and> fm_run f = Tick then editorRunNote else exRunNote);
          projects = form_projects f
      in if tab = js ''away'' then
           Some \<lparr>sd_state = js ''filled'',
             sd_away = Some \<lparr>away_type = fm_away_type f, away_note = fm_away_note f, away_tentative = fm_away_tentative f\<rparr>,
             sd_incident = None, sd_projects = Some [], sd_run = False, sd_run_note = exRunNote,
             sd_remote = remote, sd_offsite = offsite\<rparr>
         else if tab = js ''incident'' then
           Some \<lparr>sd_state = js ''filled'', sd_away = None, sd_incident = Some \<lparr>incident_text = js_trim (fm_incident f)\<rparr>,
             sd_projects = Some [], sd_run = False, sd_run_note = exRunNote, sd_remote = remote, sd_offsite = offsite\<rparr>
         else if tab = js ''undetermined'' then
           Some \<lparr>sd_state = js ''undetermined'', sd_away = None, sd_incident = None, sd_projects = Some [],
             sd_run = False, sd_run_note = exRunNote, sd_remote = remote, sd_offsite = offsite\<rparr>
         else if tab = js ''clear'' then
           (if \<not> run \<and> \<not> remote \<and> \<not> offsite then None
            else Some \<lparr>sd_state = js ''filled'', sd_away = None, sd_incident = None, sd_projects = Some [],
                   sd_run = run, sd_run_note = runNote, sd_remote = remote, sd_offsite = offsite\<rparr>)
         else
           Some \<lparr>sd_state = (if projects \<noteq> [] \<or> run \<or> remote \<or> offsite then js ''filled'' else js ''not_filled''),
             sd_away = None, sd_incident = None, sd_projects = Some projects, sd_run = run, sd_run_note = runNote,
             sd_remote = remote, sd_offsite = offsite\<rparr>)"

definition cell_ref :: "cell \<Rightarrow> slot_ref" where
  "cell_ref c = SlotRef (cl_person c) (cl_date c) (cl_slot c)"

definition editor_writes :: "form \<Rightarrow> planning \<Rightarrow> cell list \<Rightarrow> (slot_ref \<times> slot_data option) list" where
  "editor_writes f pl cells = map (\<lambda>c. (cell_ref c, slotWrite f (cell_slot pl c))) cells"

definition applyUnifiedEditor :: "env \<Rightarrow> bool \<Rightarrow> form \<Rightarrow> client \<times> server \<Rightarrow> api_error option \<times> client \<times> server" where
  "applyUnifiedEditor e showWeekend f = (\<lambda>(c, s).
     if fm_tab f = js ''project'' \<and> 100 < form_total f then (None, c, s)
     else
       let cells = form_cells showWeekend f;
           c = pushUndo (map cell_key cells) c;
           (err, c, s) = call_all e (map write_req (editor_writes f (c_planning c) cells)) (c, s)
       in case err of
            Some x \<Rightarrow> (Some x, c, s)
          | None \<Rightarrow>
              let (err, c, s) = reloadPlanning e (c, s)
              in (case err of
                    Some x \<Rightarrow> (Some x, c, s)
                  | None \<Rightarrow> (None, queueFlash e cells (js ''self'') c, s)))"

section \<open>Slots the editor writes\<close>

text \<open>The exclusions the editor announces on its tabs.\<close>

definition exclusive :: "slot_data \<Rightarrow> bool" where
  "exclusive d \<longleftrightarrow>
     (sd_away d \<noteq> None \<longrightarrow> sd_state d = js ''filled'' \<and> sd_incident d = None \<and> projects_list d = [] \<and> \<not> sd_run d) \<and>
     (sd_incident d \<noteq> None \<longrightarrow> sd_state d = js ''filled'' \<and> projects_list d = [] \<and> \<not> sd_run d) \<and>
     (sd_state d = js ''undetermined'' \<longrightarrow> sd_away d = None \<and> sd_incident d = None \<and> projects_list d = [] \<and> \<not> sd_run d) \<and>
     sum_list (map pa_pct (projects_list d)) \<le> 100 \<and>
     list_all (\<lambda>p. pa_name p \<noteq> []) (projects_list d)"

definition has_content :: "slot_data \<Rightarrow> bool" where
  "has_content d \<longleftrightarrow> sd_away d \<noteq> None \<or> sd_incident d \<noteq> None \<or> projects_list d \<noteq> [] \<or> sd_run d
     \<or> sd_remote d \<or> sd_offsite d \<or> sd_state d = js ''undetermined''"

definition form_accepted :: "form \<Rightarrow> bool" where
  "form_accepted f \<longleftrightarrow> \<not> (fm_tab f = js ''project'' \<and> 100 < form_total f)"

lemma form_projects_named: "list_all (\<lambda>p. pa_name p \<noteq> []) (form_projects f)"
  by (auto simp: form_projects_def list_all_iff)

lemma form_total_accepted: "form_accepted f \<Longrightarrow> sum_list (map pa_pct (form_projects f)) \<le> 100"
  by (cases "fm_tab f = js ''project''") (auto simp: form_accepted_def form_total_def form_projects_def)

lemma states_differ: "js ''filled'' \<noteq> js ''undetermined''" "js ''filled'' \<noteq> js ''not_filled''"
  "js ''undetermined'' \<noteq> js ''not_filled''"
  by (simp_all add: js_eq_iff)

lemma slotWrite_exclusive:
  assumes "form_accepted f" "slotWrite f ex = Some d"
  shows "exclusive d"
  using assms(2) form_total_accepted [OF assms(1)] form_projects_named [of f]
  by (auto simp: slotWrite_def Let_def exclusive_def projects_list_def states_differ states_differ [symmetric] split: if_splits)

lemma slotWrite_content:
  assumes "slotWrite f ex = Some d"
  shows "sd_state d = js ''not_filled'' \<longleftrightarrow> \<not> has_content d"
  using assms
  by (auto simp: slotWrite_def Let_def has_content_def projects_list_def states_differ states_differ [symmetric] split: if_splits)

section \<open>Opening and applying without a change\<close>

text \<open>A slot as the editor writes it, with a type the select offers.\<close>

definition editable :: "slot_data \<Rightarrow> bool" where
  "editable d \<longleftrightarrow> exclusive d \<and> has_content d \<and> (sd_state d = js ''filled'' \<or> sd_state d = js ''undetermined'')
     \<and> length (sd_run_note d) \<le> 2000
     \<and> (case sd_away d of None \<Rightarrow> True | Some a \<Rightarrow> away_type a \<in> set awayTypes)
     \<and> (case sd_incident d of None \<Rightarrow> True | Some i \<Rightarrow> js_trim (incident_text i) = incident_text i)
     \<and> list_all (\<lambda>p. js_trim (pa_name p) = pa_name p) (projects_list d)"

lemma single_source:
  "cell_slot pl c = Some d \<Longrightarrow> sd_state d \<noteq> js ''not_filled'' \<Longrightarrow> editorSource pl [c] = Some d"
  by (simp add: editorSource_def slot_filled_def)

lemma single_tri:
  "cell_slot pl c = Some d \<Longrightarrow> sd_state d \<noteq> js ''not_filled'' \<Longrightarrow>
   triInit f pl [c] = (if f d then Tick else Empty)"
  by (simp add: triInit_def single_source)

lemma resolve_init: "resolveTri (if b then Tick else Empty) x = b"
  by (simp add: resolveTri_def)

lemma row_form_projects:
  assumes "list_all (\<lambda>p. pa_name p \<noteq> [] \<and> js_trim (pa_name p) = pa_name p) ps"
  shows "map (\<lambda>(n, pct). \<lparr>pa_name = js_trim n, pa_pct = pct\<rparr>)
      (filter (\<lambda>(n, pct). js_trim n \<noteq> []) (map (\<lambda>p. (pa_name p, pa_pct p)) ps)) = ps"
  using assms by (induction ps) auto

lemma trim_Nil [simp]: "js_trim [] = []"
  by (simp add: js_trim_def)

lemma open_form:
  assumes "cell_slot pl c = Some d" "sd_state d \<noteq> js ''not_filled''" "openUnifiedEditor pl [c] = Some f"
  shows "fm_tab f = activeTab (Some d)" "fm_run f = (if sd_run d then Tick else Empty)"
    "fm_remote f = (if sd_remote d then Tick else Empty)" "fm_offsite f = (if sd_offsite d then Tick else Empty)"
    "fm_run_note f = sd_run_note d"
    "fm_rows f = (if has_projects d then map (\<lambda>p. (pa_name p, pa_pct p)) (projects_list d) else [([], 100)])"
    "\<And>a. sd_away d = Some a \<Longrightarrow> away_type a \<in> set awayTypes \<Longrightarrow>
       fm_away_type f = away_type a \<and> fm_away_note f = away_note a \<and> fm_away_tentative f = away_tentative a"
    "\<And>i. sd_incident d = Some i \<Longrightarrow> fm_incident f = incident_text i"
  using assms(3) [symmetric]
  by (simp_all add: openUnifiedEditor_def Let_def single_source [OF assms(1,2)] single_tri [OF assms(1,2)])

lemma open_projects:
  assumes "cell_slot pl c = Some d" "editable d" "openUnifiedEditor pl [c] = Some f" "fm_tab f = js ''project''"
  shows "form_projects f = projects_list d"
proof -
  have st: "sd_state d \<noteq> js ''not_filled''"
    using assms(2) states_differ by (auto simp: editable_def)
  have "list_all (\<lambda>p. pa_name p \<noteq> [] \<and> js_trim (pa_name p) = pa_name p) (projects_list d)"
    using assms(2) unfolding editable_def exclusive_def list_all_iff by blast
  note ps = row_form_projects [OF this]
  note rows = open_form(6) [OF assms(1) st assms(3)]
  show ?thesis
  proof (cases "projects_list d = []")
    case True
    then show ?thesis using rows by (simp add: form_projects_def has_projects_iff)
  next
    case False
    then have "fm_rows f = map (\<lambda>p. (pa_name p, pa_pct p)) (projects_list d)"
      using rows by (simp only: has_projects_iff if_True simp_thms)
    then show ?thesis using ps by (simp only: form_projects_def assms(4) if_True simp_thms)
  qed
qed

lemma open_tabs:
  assumes "editable d"
  shows "activeTab (Some d) = js ''undetermined'' \<longleftrightarrow> sd_state d = js ''undetermined''"
    "activeTab (Some d) = js ''away'' \<longleftrightarrow> sd_away d \<noteq> None"
    "activeTab (Some d) = js ''incident'' \<longleftrightarrow> sd_incident d \<noteq> None"
    "activeTab (Some d) \<noteq> js ''clear''"
    "activeTab (Some d) = js ''project'' \<longleftrightarrow> sd_state d = js ''filled'' \<and> sd_away d = None \<and> sd_incident d = None"
  using assms
  by (cases "sd_away d"; cases "sd_incident d"; cases "sd_state d = js ''undetermined''";
      simp add: activeTab_def editable_def exclusive_def js_eq_iff; fail)+

lemma row_of_slot_eqI:
  assumes "sd_state d = sd_state d'" "sd_away d = sd_away d'" "sd_incident d = sd_incident d'"
    "projects_list d = projects_list d'" "sd_run d = sd_run d'" "sd_run_note d = sd_run_note d'"
    "sd_remote d = sd_remote d'" "sd_offsite d = sd_offsite d'"
  shows "row_of_slot d = row_of_slot d'"
  using assms by (simp add: row_of_slot_def projects_list_def)

lemma open_apply:
  assumes c: "cell_slot pl c = Some d" and d: "editable d" and f: "openUnifiedEditor pl [c] = Some f"
  shows "\<exists>d'. slotWrite f (Some d) = Some d' \<and> row_of_slot d' = row_of_slot d"
proof -
  have st: "sd_state d \<noteq> js ''not_filled''"
    using d states_differ by (auto simp: editable_def)
  note o = open_form [OF c st f] and t = open_tabs [OF d]
  have note_len: "take 2000 (sd_run_note d) = sd_run_note d" using d by (simp add: editable_def)
  have ex: "exclusive d" using d by (simp add: editable_def)
  consider "sd_state d = js ''undetermined''" | a where "sd_away d = Some a" | i where "sd_incident d = Some i"
    | "sd_state d = js ''filled''" "sd_away d = None" "sd_incident d = None"
    using d by (auto simp: editable_def)
  then show ?thesis
  proof cases
    case 1
    then have tab: "fm_tab f = js ''undetermined''" using t(1) o(1) by simp
    show ?thesis
      using 1 ex by (simp add: slotWrite_def Let_def tab o resolve_init js_eq_iff)
        (rule row_of_slot_eqI; simp add: exclusive_def projects_list_def)
  next
    case (2 a)
    then have tab: "fm_tab f = js ''away''" using t(2) o(1) by simp
    have "away_type a \<in> set awayTypes" using d 2 by (simp add: editable_def)
    from o(7) [OF 2 this] show ?thesis
      using 2 ex by (simp add: slotWrite_def Let_def tab o resolve_init)
        (rule row_of_slot_eqI; simp add: exclusive_def projects_list_def)
  next
    case (3 i)
    then have tab: "fm_tab f = js ''incident''" using t(3) o(1) by simp
    have "js_trim (incident_text i) = incident_text i" using d 3 by (simp add: editable_def)
    with o(8) [OF 3] show ?thesis
      using 3 ex by (simp add: slotWrite_def Let_def tab o resolve_init js_eq_iff)
        (rule row_of_slot_eqI; simp add: exclusive_def projects_list_def)
  next
    case 4
    then have tab: "fm_tab f = js ''project''" using t(5) o(1) by simp
    have ps: "form_projects f = projects_list d" by (rule open_projects [OF c d f tab])
    have "projects_list d \<noteq> [] \<or> sd_run d \<or> sd_remote d \<or> sd_offsite d"
      using d 4 states_differ by (auto simp: editable_def has_content_def)
    then show ?thesis
      using 4 note_len by (simp add: slotWrite_def Let_def tab o resolve_init ps js_eq_iff)
        (rule row_of_slot_eqI; simp add: projects_list_def)
  qed
qed

section \<open>What applying the form does\<close>

lemma read_apply_frame: "r \<notin> fst ` set ws \<Longrightarrow> read_slot (apply_writes ws s) r = read_slot s r"
proof (induction ws arbitrary: s)
  case Nil
  then show ?case by (simp add: apply_writes_def)
next
  case (Cons p ws)
  obtain q w where p: "p = (q, w)" by force
  have "read_slot (apply_writes ws ((case w of None \<Rightarrow> ClearSlot q | Some d \<Rightarrow> SetSlot q d) s)) r
      = read_slot ((case w of None \<Rightarrow> ClearSlot q | Some d \<Rightarrow> SetSlot q d) s) r"
    using Cons.prems by (intro Cons.IH) auto
  also have "\<dots> = read_slot s r"
    using Cons.prems by (auto simp: p read_SetSlot read_ClearSlot split: option.splits)
  finally show ?case by (simp add: p apply_writes_def)
qed

lemma call_all_proper:
  assumes "env_ok e" "may_write s" "plain_store (sv_planning s)" "\<forall>p \<in> set ws. proper_ref (fst p)"
    and "call_all e (map write_req ws) (c, s) = (err, c', s')"
  shows "\<exists>ws'. mset ws' = mset ws \<and> err = None \<and> c' = c \<and> s' = s\<lparr>sv_planning := apply_writes ws' (sv_planning s)\<rparr>
     \<and> may_write s' \<and> plain_store (sv_planning s')"
proof -
  obtain ws' where ws': "env_arrival e (map write_req ws) = map write_req ws'" "mset ws' = mset ws"
    using mset_map_preimage [of "env_arrival e (map write_req ws)" write_req ws] assms(1) by (auto simp: env_ok_def)
  have proper: "proper_ref r" if "(r, w) \<in> set ws'" for r w
    using that assms(4) mset_eq_setD [OF ws'(2)] by force
  have "err = None" "c' = c" "s' = s\<lparr>sv_planning := apply_writes ws' (sv_planning s)\<rparr>"
    using assms(5) call_seq_writes [OF assms(1,2) proper, where c = c] by (simp_all add: call_all_def ws'(1))
  moreover have "plain_store (apply_writes ws' (sv_planning s))"
    by (rule plain_store_writes [OF assms(3) proper])
  ultimately show ?thesis
    using assms(2) ws'(2) by (intro exI [of _ ws']) (simp add: may_write_def)
qed

lemma cell_key_ref: "cell_key c = ref_key (cell_ref c)"
  by (simp add: cell_key_def ref_key_def cell_ref_def)

definition cells_proper :: "cell list \<Rightarrow> bool" where
  "cells_proper cells \<longleftrightarrow> list_all (\<lambda>c. proper_ref (cell_ref c)) cells"

lemma apply_main:
  assumes ready: "replay_ready e c s" and f: "form_accepted f" and cells: "cells_proper (form_cells wk f)"
    and run: "applyUnifiedEditor e wk f (c, s) = (err, c', s')"
  shows "err = None \<and> replay_ready e c' s' \<and> same_edit_state (pushUndo (map cell_key (form_cells wk f)) c) c'"
    and "\<exists>ws. mset ws = mset (editor_writes f (c_planning c) (form_cells wk f))
       \<and> sv_planning s' = apply_writes ws (sv_planning s)"
proof -
  let ?cells = "form_cells wk f" and ?c1 = "pushUndo (map cell_key (form_cells wk f)) c"
  let ?ws = "editor_writes f (c_planning c) ?cells"
  have e: "env_ok e" "may_write s" "plain_store (sv_planning s)" "client_weeks e c \<noteq> []"
    using ready by (simp_all add: replay_ready_def)
  have proper: "\<forall>p \<in> set ?ws. proper_ref (fst p)"
    using cells by (auto simp: editor_writes_def cells_proper_def list_all_iff)
  obtain err1 c2 s1 where all: "call_all e (map write_req ?ws) (?c1, s) = (err1, c2, s1)" by (metis prod.exhaust)
  obtain ws where ws: "mset ws = mset ?ws" "err1 = None" "c2 = ?c1" "may_write s1" "plain_store (sv_planning s1)"
      "s1 = s\<lparr>sv_planning := apply_writes ws (sv_planning s)\<rparr>"
    using call_all_proper [OF e(1-3) proper all] by blast
  have weeks: "client_weeks e ?c1 \<noteq> []" using e(4) same_window(1) [of ?c1 c e] push_edit_window by simp
  have dates: "win_start e ?c1 \<noteq> []" "win_end e ?c1 \<noteq> []"
    using window_dates_nonempty [OF weeks] by auto
  let ?c2 = "?c1\<lparr>c_planning := load_entries (GetPlanning (win_start e ?c1) (win_end e ?c1) (sv_planning s1)),
              c_oncall := GetOnCall (win_start e ?c1) (win_end e ?c1) (sv_oncall s1),
              c_rotation := GetRotation (win_start e ?c1) (win_end e ?c1) (sv_rotation s1)\<rparr>"
  have re: "reloadPlanning e (?c1, s1) = (None, ?c2, s1)"
    using reload_ok [OF e(1) may_write_session [OF ws(4)] weeks dates] .
  have c': "err = None" "c' = queueFlash e ?cells (js ''self'') ?c2" "s' = s1"
    using run f ws(2,3) re by (auto simp: applyUnifiedEditor_def form_accepted_def Let_def push_edit_window all)
  note same = flash_only_fields [OF queueFlash_frame [of ?c2 e ?cells "js ''self''"], folded c'(2)]
  have "same_edit_state ?c1 c'" using same(4) by (simp add: same_edit_state_def)
  moreover have "replay_ready e c' s'"
    using ws(4,5) e(1) weeks same(1-3) same_window [of c' ?c1 e] by (simp add: replay_ready_def synced_def c'(3))
  ultimately show "err = None \<and> replay_ready e c' s' \<and> same_edit_state ?c1 c'" using c'(1) by simp
  show "\<exists>ws. mset ws = mset ?ws \<and> sv_planning s' = apply_writes ws (sv_planning s)"
    using ws(1,6) c'(3) by auto
qed

lemma edit_undo_main:
  assumes ready: "replay_ready e c s" and f: "form_accepted f" and cells: "cells_proper (form_cells wk f)"
    and some: "form_cells wk f \<noteq> []" and kept: "planning_kept (c_planning c)"
    and 1: "applyUnifiedEditor e wk f (c, s) = (err1, c1, s1)" and 2: "undo e (c1, s1) = (err2, c2, s2)"
    and r: "proper_ref r" "in_window e c r"
  shows "err1 = None \<and> err2 = None \<and> read_slot (sv_planning s2) r = read_slot (sv_planning s) r
     \<and> dict_get (c_planning c2) (ref_key r) = dict_get (c_planning c) (ref_key r)"
proof -
  let ?keys = "map cell_key (form_cells wk f)"
  note a = apply_main [OF ready f cells 1]
  have keys: "list_all proper_key ?keys"
    using cells proper_ref_key by (auto simp: cells_proper_def list_all_iff cell_key_ref)
  have frame: "read_slot (sv_planning s1) r = read_slot (sv_planning s) r" if "ref_key r \<notin> set ?keys"
  proof -
    have "r \<notin> fst ` set (editor_writes f (c_planning c) (form_cells wk f))"
      using that by (auto simp: editor_writes_def cell_key_ref)
    moreover obtain ws where "mset ws = mset (editor_writes f (c_planning c) (form_cells wk f))"
        "sv_planning s1 = apply_writes ws (sv_planning s)"
      using a(2) by blast
    ultimately show ?thesis
      using read_apply_frame [of r ws] mset_eq_setD by metis
  qed
  from a(1) show ?thesis
    using undo_snapshot [OF ready _ _ _ keys kept frame 2 r] some by simp
qed

section \<open>Properties\<close>

text \<open>C8: every slot the editor writes obeys the exclusions it announces, whatever the slot held
  before: away, incident and undetermined slots carry no project, no run and none of each
  other, project percentages sum to at most 100 and no project is unnamed; and the slot is
  written as \<open>not_filled\<close>, which deletes it, exactly when it holds nothing.\<close>

theorem editor_writes_exclusive:
  assumes "form_accepted f" and "slotWrite f ex = Some d"
  shows "exclusive d \<and> (sd_state d = js ''not_filled'' \<longleftrightarrow> \<not> has_content d)"
  using slotWrite_exclusive [OF assms] slotWrite_content [OF assms(2)] by simp

text \<open>A form with one project and the run toggle left alone.\<close>

definition demo_form :: form where
  "demo_form = \<lparr>fm_pids = [js ''p1''], fm_start_date = fmtDate 20500, fm_start_slot = js ''am'',
     fm_end_date = fmtDate 20500, fm_end_slot = js ''am'', fm_tab = js ''project'', fm_rows = [(js ''Apollo'', 60)],
     fm_run = Grey, fm_remote = Tick, fm_offsite = Empty, fm_grey_run = True, fm_grey_remote = False,
     fm_grey_offsite = False, fm_run_note = js ''n'', fm_note_disabled = True, fm_away_type = js ''vacation'',
     fm_away_note = [], fm_away_tentative = False, fm_incident = []\<rparr>"

lemma demo_form_projects: "form_projects demo_form = [\<lparr>pa_name = js ''Apollo'', pa_pct = 60\<rparr>]"
  by (simp add: form_projects_def demo_form_def js_trim_def is_space_def js_def)

lemma demo_form_ok: "form_accepted demo_form"
  by (simp add: form_accepted_def form_total_def demo_form_projects)

definition demo_written :: slot_data where
  "demo_written = \<lparr>sd_state = js ''filled'', sd_away = None, sd_incident = None,
     sd_projects = Some [\<lparr>pa_name = js ''Apollo'', pa_pct = 60\<rparr>], sd_run = True, sd_run_note = js ''INC'',
     sd_remote = True, sd_offsite = False\<rparr>"

lemma demo_write_form: "slotWrite demo_form (Some demo_slot) = Some demo_written"
  by (simp add: slotWrite_def Let_def demo_form_projects)
    (simp add: demo_form_def demo_slot_def demo_written_def resolveTri_def js_eq_iff)

theorem editor_writes_exclusive_witness:
  "exclusive demo_written \<and> (sd_state demo_written = js ''not_filled'' \<longleftrightarrow> \<not> has_content demo_written)"
  by (rule editor_writes_exclusive [OF demo_form_ok demo_write_form])

text \<open>A toggle left at "don't change" keeps the value of every cell on every tab where it
  applies, and the run note of a cell changes only when run is set on.\<close>

theorem grey_keeps_values:
  assumes "slotWrite f (Some ex) = Some d"
  shows "(fm_remote f = Grey \<longrightarrow> sd_remote d = sd_remote ex) \<and> (fm_offsite f = Grey \<longrightarrow> sd_offsite d = sd_offsite ex)
     \<and> (fm_run f = Grey \<and> (fm_tab f = js ''project'' \<or> fm_tab f = js ''clear'') \<longrightarrow> sd_run d = sd_run ex)
     \<and> (fm_run f \<noteq> Tick \<longrightarrow> sd_run_note d = sd_run_note ex)"
  using assms by (auto simp: slotWrite_def Let_def resolveTri_def split: if_splits)

theorem grey_keeps_values_witness:
  "sd_run demo_written = sd_run demo_slot \<and> sd_run_note demo_written = sd_run_note demo_slot"
proof -
  have "fm_run demo_form = Grey" "fm_tab demo_form = js ''project''" by (simp_all add: demo_form_def)
  then show ?thesis using grey_keeps_values [OF demo_write_form] by simp
qed

text \<open>C9: opening the editor on one filled cell and applying it without a change writes the slot
  that is there: the table row stays the same, on each of the four tabs that can open.\<close>

theorem open_apply_unchanged:
  assumes "cell_slot pl c = Some d" and "editable d" and "openUnifiedEditor pl [c] = Some f"
  shows "\<exists>d'. slotWrite f (Some d) = Some d' \<and> row_of_slot d' = row_of_slot d"
  using assms by (rule open_apply)

theorem open_apply_unchanged_witness:
  "\<exists>d'. slotWrite (the (openUnifiedEditor (c_planning demo_client)
        [\<lparr>cl_person = js ''p1'', cl_date = fmtDate 20500, cl_slot = js ''am''\<rparr>])) (Some demo_slot) = Some d'
     \<and> row_of_slot d' = row_of_slot demo_slot"
proof (rule open_apply_unchanged)
  show "cell_slot (c_planning demo_client) \<lparr>cl_person = js ''p1'', cl_date = fmtDate 20500, cl_slot = js ''am''\<rparr> = Some demo_slot"
    by (simp add: cell_slot_def getSlot_def demo_client_def demo_ref_def ref_key_def)
  show "editable demo_slot"
    by (simp add: editable_def exclusive_def has_content_def demo_slot_def projects_list_def states_differ)
qed (simp add: openUnifiedEditor_def Let_def)

text \<open>The cell of the form.\<close>

lemma demo_form_cells: "form_cells wk demo_form = [\<lparr>cl_person = js ''p1'', cl_date = fmtDate 20500, cl_slot = js ''am''\<rparr>]"
proof -
  have d: "four_digit_year 20500" "getDay 20500 \<notin> {0, 6}" by code_simp+
  show ?thesis
    using editor_cells_eq [OF d(1) d(1), of wk "[js ''p1'']" False False] d(2)
    by (simp add: form_cells_def demo_form_def half_slot_def half_day_def)
qed

lemma demo_cells_proper: "cells_proper (form_cells wk demo_form)"
  using demo_proper by (simp add: demo_form_cells cells_proper_def cell_ref_def demo_ref_def)

text \<open>C7: applying the editor writes, for each selected cell, the slot the form makes of what the
  cell held, in whatever order the requests arrive; no other slot changes, and afterwards the
  client shows the server's window again.\<close>

theorem apply_writes_cells:
  assumes "replay_ready e c s" and "form_accepted f" and "cells_proper (form_cells wk f)"
    and "distinct (map cell_ref (form_cells wk f))"
  shows "case applyUnifiedEditor e wk f (c, s) of (err, c', s') \<Rightarrow>
     err = None \<and> replay_ready e c' s' \<and>
     read_slot (sv_planning s') r =
       (case find (\<lambda>cl. cell_ref cl = r) (form_cells wk f) of
          None \<Rightarrow> read_slot (sv_planning s) r
        | Some cl \<Rightarrow> Option.bind (slotWrite f (cell_slot (c_planning c) cl)) kept_slot)"
proof -
  obtain err c' s' where run: "applyUnifiedEditor e wk f (c, s) = (err, c', s')" by (metis prod.exhaust)
  let ?cells = "form_cells wk f" and ?pl = "c_planning c"
  note a = apply_main [OF assms(1-3) run]
  obtain ws where ws: "mset ws = mset (editor_writes f ?pl ?cells)" "sv_planning s' = apply_writes ws (sv_planning s)"
    using a(2) by blast
  have d: "distinct (map fst (editor_writes f ?pl ?cells))"
    using assms(4) by (simp add: editor_writes_def comp_def)
  have m: "map_of (map (\<lambda>c. (cell_ref c, slotWrite f (cell_slot ?pl c))) cs) r
      = map_option (\<lambda>cl. slotWrite f (cell_slot ?pl cl)) (find (\<lambda>cl. cell_ref cl = r) cs)" for cs
    by (induction cs) auto
  have "read_slot (sv_planning s') r = read_slot (apply_writes (editor_writes f ?pl ?cells) (sv_planning s)) r"
    unfolding ws(2) apply_writes_def
    by (rule srv.batch_order_irrelevant [OF d ws(1) [symmetric], symmetric])
  also have "\<dots> = (case map_of (editor_writes f ?pl ?cells) r of
      None \<Rightarrow> read_slot (sv_planning s) r | Some None \<Rightarrow> None | Some (Some d) \<Rightarrow> kept_slot d)"
    unfolding apply_writes_def by (rule srv.get_batch [OF d])
  finally show ?thesis
    using a(1) by (auto simp: run editor_writes_def m split: option.splits)
qed

theorem apply_writes_cells_witness:
  "case applyUnifiedEditor demo_env False demo_form (demo_client, demo_server) of (err, c', s') \<Rightarrow>
     err = None \<and> replay_ready demo_env c' s' \<and>
     read_slot (sv_planning s') demo_ref =
       (case find (\<lambda>cl. cell_ref cl = demo_ref) (form_cells False demo_form) of
          None \<Rightarrow> read_slot (sv_planning demo_server) demo_ref
        | Some cl \<Rightarrow> Option.bind (slotWrite demo_form (cell_slot (c_planning demo_client) cl)) kept_slot)"
  by (rule apply_writes_cells [OF demo_ready demo_form_ok demo_cells_proper]) (simp add: demo_form_cells)

end
