(* ===== verification/Oncall.thy ===== *)
theory Oncall
  imports UndoRedo Trimester
begin

text \<open>
  On-call and rotation: the lookups over \<open>State.oncall\<close> and \<open>State.rotation\<close>, the operations
  that change an assignment on the server and then in the client's copy, the on-call tab's
  navigation, its loading of a whole year and its statistics. The operations are proved to
  keep the client's copy of every week equal to the server's rows, as an interpretation of a
  locale for such mirrored operations; the one exception is stated as a property of its own.
\<close>

definition week_entries :: "oncall \<Rightarrow> jsstring \<Rightarrow> oncall_entry list" where
  "week_entries oc ws = dict_get_or [] oc ws"

definition isOnCall :: "oncall \<Rightarrow> jsstring \<Rightarrow> jsstring \<Rightarrow> bool" where
  "isOnCall oc personId weekStart = list_ex (\<lambda>e. oe_person_id e = personId) (week_entries oc weekStart)"

definition isRunPerson :: "rotation \<Rightarrow> jsstring \<Rightarrow> jsstring \<Rightarrow> bool" where
  "isRunPerson rt personId weekStart = (personId \<in> set (dict_get_or [] rt weekStart))"

definition getRunPeople :: "person list \<Rightarrow> rotation \<Rightarrow> jsstring \<Rightarrow> person list" where
  "getRunPeople people rt weekStart = filter (\<lambda>p. isRunPerson rt (p_id p) weekStart) (getActivePeople people)"

text \<open>\<open>getWeekDays(parseDate(s))\<close>; a text that is no date is \<open>null\<close>, the epoch's day.\<close>

definition week_days_of :: "jsstring \<Rightarrow> date list" where
  "week_days_of weekStart = getWeekDays (case parseDate weekStart of Some d \<Rightarrow> d | None \<Rightarrow> 0)"

definition collectRunNotes :: "planning \<Rightarrow> jsstring \<Rightarrow> jsstring \<Rightarrow> jsstring" where
  "collectRunNotes pl personId weekStart =
     js_join [10] (concat (map (\<lambda>d. concat (map (\<lambda>(slot, upper).
        case getSlot pl personId (fmtDate d) slot of
          None \<Rightarrow> []
        | Some sd \<Rightarrow> if sd_run sd \<and> sd_run_note sd \<noteq> []
            then [fmtDate d @ js '' '' @ upper @ js '': '' @ sd_run_note sd] else [])
        [(js ''am'', js ''AM''), (js ''pm'', js ''PM'')])) (week_days_of weekStart)))"

definition onCallComment :: "oncall \<Rightarrow> jsstring \<Rightarrow> jsstring \<Rightarrow> jsstring" where
  "onCallComment oc personId weekStart =
     (case find (\<lambda>e. oe_person_id e = personId) (week_entries oc weekStart) of
        None \<Rightarrow> [] | Some e \<Rightarrow> oe_comment e)"

section \<open>Changing an assignment\<close>

definition push_entry :: "jsstring \<Rightarrow> jsstring \<Rightarrow> jsstring \<Rightarrow> oncall \<Rightarrow> oncall" where
  "push_entry pid ws comment oc =
     dict_set ws (week_entries oc ws @ [\<lparr>oe_person_id = pid, oe_comment = comment\<rparr>]) oc"

definition drop_person :: "jsstring \<Rightarrow> jsstring \<Rightarrow> oncall \<Rightarrow> oncall" where
  "drop_person pid ws oc = dict_set ws (filter (\<lambda>e. oe_person_id e \<noteq> pid) (week_entries oc ws)) oc"

definition toggleOnCall :: "env \<Rightarrow> jsstring \<Rightarrow> jsstring \<Rightarrow> client \<times> server \<Rightarrow> api_error option \<times> client \<times> server" where
  "toggleOnCall e pid ws = (\<lambda>(c, s).
     if isOnCall (c_oncall c) pid ws then
       (case call e (DelOnCallR pid ws) (c, s) of
          (Inl x, c, s) \<Rightarrow> (Some x, c, s)
        | (Inr _, c, s) \<Rightarrow> (None, c\<lparr>c_oncall := drop_person pid ws (c_oncall c)\<rparr>, s))
     else
       (case call e (PutOnCallR pid ws []) (c, s) of
          (Inl x, c, s) \<Rightarrow> (Some x, c, s)
        | (Inr _, c, s) \<Rightarrow> (None, c\<lparr>c_oncall := push_entry pid ws [] (c_oncall c)\<rparr>, s)))"

text \<open>The first entry of the person gets the comment; without one, an entry is added.\<close>

definition set_entry :: "jsstring \<Rightarrow> jsstring \<Rightarrow> jsstring \<Rightarrow> oncall \<Rightarrow> oncall" where
  "set_entry pid ws comment oc =
     (if isOnCall oc pid ws
      then dict_set ws (update_first (\<lambda>e. oe_person_id e = pid) (\<lambda>e. e\<lparr>oe_comment := comment\<rparr>) (week_entries oc ws)) oc
      else push_entry pid ws comment oc)"

definition setOnCallAssignment :: "env \<Rightarrow> jsstring \<Rightarrow> jsstring \<Rightarrow> jsstring \<Rightarrow> client \<times> server
    \<Rightarrow> api_error option \<times> client \<times> server" where
  "setOnCallAssignment e pid ws comment = (\<lambda>(c, s).
     case call e (PutOnCallR pid ws comment) (c, s) of
       (Inl x, c, s) \<Rightarrow> (Some x, c, s)
     | (Inr _, c, s) \<Rightarrow> (None, c\<lparr>c_oncall := set_entry pid ws comment (c_oncall c)\<rparr>, s))"

definition removeOnCallAssignment :: "env \<Rightarrow> jsstring \<Rightarrow> jsstring \<Rightarrow> client \<times> server
    \<Rightarrow> api_error option \<times> client \<times> server" where
  "removeOnCallAssignment e pid ws = (\<lambda>(c, s).
     case call e (DelOnCallR pid ws) (c, s) of
       (Inl x, c, s) \<Rightarrow> (Some x, c, s)
     | (Inr _, c, s) \<Rightarrow> (None, c\<lparr>c_oncall := drop_person pid ws (c_oncall c)\<rparr>, s))"

definition changeOnCallPerson :: "env \<Rightarrow> jsstring \<Rightarrow> jsstring \<Rightarrow> jsstring \<Rightarrow> client \<times> server
    \<Rightarrow> api_error option \<times> client \<times> server" where
  "changeOnCallPerson e oldPid ws newPid = (\<lambda>(c, s).
     let cm = onCallComment (c_oncall c) oldPid ws
     in case call e (DelOnCallR oldPid ws) (c, s) of
          (Inl x, c, s) \<Rightarrow> (Some x, c, s)
        | (Inr _, c, s) \<Rightarrow>
            let c = c\<lparr>c_oncall := drop_person oldPid ws (c_oncall c)\<rparr>
            in (case call e (PutOnCallR newPid ws cm) (c, s) of
                  (Inl x, c, s) \<Rightarrow> (Some x, c, s)
                | (Inr _, c, s) \<Rightarrow> (None, c\<lparr>c_oncall := push_entry newPid ws cm (c_oncall c)\<rparr>, s)))"

definition addOncall :: "env \<Rightarrow> jsstring \<Rightarrow> client \<times> server \<Rightarrow> api_error option \<times> client \<times> server" where
  "addOncall e ws = (\<lambda>(c, s).
     let assigned = map oe_person_id (week_entries (c_oncall c) ws)
     in case find (\<lambda>p. p_id p \<notin> set assigned) (getActivePeople (c_people c)) of
          None \<Rightarrow> (None, c, s)
        | Some p \<Rightarrow> setOnCallAssignment e (p_id p) ws [] (c, s))"

section \<open>The on-call tab\<close>

record oncall_view =
  ov_year :: int
  ov_tri :: int
  ov_before :: nat
  ov_after :: nat

definition oncallTriPrev :: "oncall_view \<times> client \<Rightarrow> oncall_view \<times> client" where
  "oncallTriPrev = (\<lambda>(v, c).
     let tri = ov_tri v - 1
     in if tri < 0
        then (v\<lparr>ov_tri := 3, ov_year := ov_year v - 1, ov_before := 0, ov_after := 0\<rparr>, c\<lparr>c_oncallLoadedYear := None\<rparr>)
        else (v\<lparr>ov_tri := tri, ov_before := 0, ov_after := 0\<rparr>, c))"

definition oncallTriNext :: "oncall_view \<times> client \<Rightarrow> oncall_view \<times> client" where
  "oncallTriNext = (\<lambda>(v, c).
     let tri = ov_tri v + 1
     in if 3 < tri
        then (v\<lparr>ov_tri := 0, ov_year := ov_year v + 1, ov_before := 0, ov_after := 0\<rparr>, c\<lparr>c_oncallLoadedYear := None\<rparr>)
        else (v\<lparr>ov_tri := tri, ov_before := 0, ov_after := 0\<rparr>, c))"

text \<open>The tab loads the assignments of its year unless it believes to hold them.\<close>

definition renderOnCall :: "env \<Rightarrow> int \<Rightarrow> client \<times> server \<Rightarrow> api_error option \<times> client \<times> server" where
  "renderOnCall e year = (\<lambda>(c, s).
     if c_oncallLoadedYear c = Some year then (None, c, s)
     else case call e (GetOnCallR (str_of_int year @ js ''/01/01'') (str_of_int year @ js ''/12/31'')) (c, s) of
            (Inl x, c, s) \<Rightarrow> (Some x, c, s)
          | (Inr (ROnCall oc), c, s) \<Rightarrow> (None, c\<lparr>c_oncall := oc, c_oncallLoadedYear := Some year\<rparr>, s)
          | (Inr _, c, s) \<Rightarrow> (None, c\<lparr>c_oncall := [], c_oncallLoadedYear := Some year\<rparr>, s))"

definition shown_entries :: "person list \<Rightarrow> oncall \<Rightarrow> jsstring \<Rightarrow> oncall_entry list" where
  "shown_entries people oc ws =
     filter (\<lambda>e. list_ex (\<lambda>p. p_id p = oe_person_id e) (getActivePeople people)) (week_entries oc ws)"

definition count_entry :: "oncall_entry \<Rightarrow> (jsstring, nat) dict \<times> nat \<Rightarrow> (jsstring, nat) dict \<times> nat" where
  "count_entry e = (\<lambda>(counts, total).
     (dict_set (oe_person_id e) (dict_get_or 0 counts (oe_person_id e) + 1) counts, total + 1))"

definition oncallCounts :: "oncall \<Rightarrow> jsstring \<Rightarrow> jsstring \<Rightarrow> (jsstring, nat) dict \<times> nat" where
  "oncallCounts oc startStr endStr =
     fold (\<lambda>(ws, entries) acc. if startStr \<le> ws \<and> ws \<le> endStr then fold count_entry entries acc else acc) oc ([], 0)"

text \<open>The rows of the statistics: people with assignments, the most assigned first.\<close>

definition statsRows :: "person list \<Rightarrow> (jsstring, nat) dict \<Rightarrow> (person \<times> nat) list" where
  "statsRows people counts =
     sort_key (\<lambda>(p, c). - int c)
       (filter (\<lambda>(p, c). 0 < c) (map (\<lambda>p. (p, dict_get_or 0 counts (p_id p))) (getActivePeople people)))"

section \<open>The client's copy as a store\<close>

definition oncall_lookup :: "oncall \<Rightarrow> jsstring \<times> jsstring \<Rightarrow> jsstring option" where
  "oncall_lookup oc k = map_option oe_comment (find (\<lambda>e. oe_person_id e = fst k) (week_entries oc (snd k)))"

definition oncall_ok :: "oncall \<Rightarrow> bool" where
  "oncall_ok oc \<longleftrightarrow> dict_ok oc \<and> list_all (\<lambda>(ws, es). distinct (map oe_person_id es)) oc"

lemma week_entries_set [simp]: "week_entries (dict_set ws es oc) w = (if ws = w then es else week_entries oc w)"
  by (simp add: week_entries_def)

lemma list_ex_find: "list_ex P xs \<longleftrightarrow> find P xs \<noteq> None"
  by (induction xs) auto

lemma isOnCall_lookup: "isOnCall oc pid ws \<longleftrightarrow> oncall_lookup oc (pid, ws) \<noteq> None"
  by (simp add: isOnCall_def oncall_lookup_def list_ex_find)

lemma find_filter_other: "pid \<noteq> q \<Longrightarrow>
    find (\<lambda>e. oe_person_id e = q) (filter (\<lambda>e. oe_person_id e \<noteq> pid) es) = find (\<lambda>e. oe_person_id e = q) es"
  by (induction es) auto

lemma find_filter_same: "find (\<lambda>e. oe_person_id e = q) (filter (\<lambda>e. oe_person_id e \<noteq> q) es) = None"
  by (induction es) auto

lemma find_update:
  "map_option oe_comment (find (\<lambda>e. oe_person_id e = q)
      (update_first (\<lambda>e. oe_person_id e = pid) (\<lambda>e. e\<lparr>oe_comment := cm\<rparr>) es)) =
   (if q = pid \<and> list_ex (\<lambda>e. oe_person_id e = pid) es then Some cm
    else map_option oe_comment (find (\<lambda>e. oe_person_id e = q) es))"
  by (induction es) auto

lemma find_append: "find P (xs @ ys) = (case find P xs of None \<Rightarrow> find P ys | Some x \<Rightarrow> Some x)"
  by (induction xs) auto

lemma lookup_set_entry:
  "oncall_lookup (set_entry pid ws cm oc) j = (if j = (pid, ws) then Some cm else oncall_lookup oc j)"
proof (cases "isOnCall oc pid ws")
  case True
  then show ?thesis
    by (cases j) (simp add: set_entry_def oncall_lookup_def find_update isOnCall_def)
next
  case False
  then have "find (\<lambda>e. oe_person_id e = pid) (week_entries oc ws) = None"
    by (simp add: isOnCall_def list_ex_find)
  with False show ?thesis
    by (cases j) (auto simp: set_entry_def push_entry_def oncall_lookup_def find_append split: option.splits)
qed

lemma lookup_drop_person:
  "oncall_lookup (drop_person pid ws oc) j = (if j = (pid, ws) then None else oncall_lookup oc j)"
  by (cases j; cases "fst j = pid") (auto simp: drop_person_def oncall_lookup_def find_filter_same find_filter_other)

lemma oncall_empty: "oncall_lookup [] k = None" "oncall_ok []"
  by (simp_all add: oncall_lookup_def week_entries_def dict_get_or_def oncall_ok_def)

lemma oncall_ok_entries: "oncall_ok oc \<Longrightarrow> distinct (map oe_person_id (week_entries oc ws))"
  by (induction oc) (auto simp: oncall_ok_def week_entries_def dict_get_or_def dict_ok_def)

lemma set_dict_set: "p \<in> set (dict_set k v d) \<Longrightarrow> p = (k, v) \<or> p \<in> set d"
  by (induction k v d rule: dict_set.induct) (auto split: if_splits)

lemma oncall_ok_set: "oncall_ok oc \<Longrightarrow> distinct (map oe_person_id es) \<Longrightarrow> oncall_ok (dict_set ws es oc)"
  using set_dict_set [of _ ws es oc] by (fastforce simp: oncall_ok_def list_all_iff)

lemma oncall_ok_ops:
  assumes "oncall_ok oc"
  shows "oncall_ok (set_entry pid ws cm oc)" "oncall_ok (drop_person pid ws oc)"
proof -
  let ?es = "week_entries oc ws"
  have d: "distinct (map oe_person_id ?es)" by (rule oncall_ok_entries [OF assms])
  have "map oe_person_id (update_first (\<lambda>e. oe_person_id e = pid) (\<lambda>e. e\<lparr>oe_comment := cm\<rparr>) ?es) = map oe_person_id ?es"
    by (rule map_update_first) simp
  moreover have "\<not> isOnCall oc pid ws \<Longrightarrow> pid \<notin> set (map oe_person_id ?es)"
    by (auto simp: isOnCall_def list_ex_iff)
  ultimately show "oncall_ok (set_entry pid ws cm oc)"
    using d assms by (auto simp: set_entry_def push_entry_def intro!: oncall_ok_set)
  show "oncall_ok (drop_person pid ws oc)"
    using d assms by (simp add: drop_person_def oncall_ok_set distinct_map_filter)
qed

interpretation oncall_copy: keyed_store oncall_lookup "\<lambda>(pid, ws) cm. set_entry pid ws cm"
    "\<lambda>(pid, ws). drop_person pid ws" oncall_ok "[]"
  by unfold_locales (simp_all add: split_def lookup_set_entry lookup_drop_person oncall_ok_ops oncall_empty)

text \<open>The operations of the server's table are those of a dictionary.\<close>

interpretation oncall_mirror: store_mirror oncall_lookup "\<lambda>(pid, ws) cm. set_entry pid ws cm"
    "\<lambda>(pid, ws). drop_person pid ws" Some oncall_ok
    dict_get "\<lambda>(pid, ws) cm. SetOnCall pid ws cm True" "\<lambda>(pid, ws). SetOnCall pid ws [] False" dict_ok
  by unfold_locales (simp_all add: split_def SetOnCall_def)

lemma sv_oncall_fields [simp]:
  "sv_oncall (s\<lparr>sv_oncall := t\<rparr>) = t"
  by simp

lemma call_put_oncall:
  assumes "env_ok e" "may_write s"
  shows "call e (PutOnCallR pid ws cm) (c, s) = (Inr RDone, c, s\<lparr>sv_oncall := SetOnCall pid ws cm True (sv_oncall s)\<rparr>)"
    and "call e (DelOnCallR pid ws) (c, s) = (Inr RDone, c, s\<lparr>sv_oncall := SetOnCall pid ws [] False (sv_oncall s)\<rparr>)"
  using call_ok [OF assms(1) may_write_session [OF assms(2)], of _ c] assms(2) by simp_all

lemma push_is_set: "\<not> isOnCall oc pid ws \<Longrightarrow> push_entry pid ws cm oc = set_entry pid ws cm oc"
  by (simp add: set_entry_def)

lemma not_on_call_dropped: "\<not> isOnCall oc q ws \<or> q = pid \<Longrightarrow> \<not> isOnCall (drop_person pid ws oc) q ws"
  by (auto simp: isOnCall_lookup lookup_drop_person)

lemmas mirror_laws = oncall_mirror.mirror_put [where k = "(pid, ws)" for pid ws, unfolded split_conv]
  oncall_mirror.mirror_del [where k = "(pid, ws)" for pid ws, unfolded split_conv]

section \<open>Counting\<close>

definition range_entries :: "oncall \<Rightarrow> jsstring \<Rightarrow> jsstring \<Rightarrow> oncall_entry list" where
  "range_entries oc a b = concat (map snd (filter (\<lambda>(ws, _). a \<le> ws \<and> ws \<le> b) oc))"

lemma counts_as_fold: "oncallCounts oc a b = fold count_entry (range_entries oc a b) ([], 0)"
proof -
  have "fold (\<lambda>(ws, entries) acc. if a \<le> ws \<and> ws \<le> b then fold count_entry entries acc else acc) oc acc
      = fold count_entry (range_entries oc a b) acc" for acc
    by (induction oc arbitrary: acc) (auto simp: range_entries_def split: if_splits)
  then show ?thesis by (simp add: oncallCounts_def)
qed

lemma sum_list_set: "sum_list (map snd (dict_set k (v::nat) d)) + dict_get_or 0 d k = v + sum_list (map snd d)"
  by (induction k v d rule: dict_set.induct) (auto simp: dict_get_or_def)

lemma count_entry_pair:
  "count_entry x (counts, n) = (dict_set (oe_person_id x) (dict_get_or 0 counts (oe_person_id x) + 1) counts, n + 1)"
  by (simp add: count_entry_def)

lemma fold_count:
  "fold count_entry es (counts, n) = (counts', n') \<Longrightarrow>
   n' = n + length es
   \<and> dict_get_or 0 counts' pid = dict_get_or 0 counts pid + length (filter (\<lambda>e. oe_person_id e = pid) es)
   \<and> sum_list (map snd counts') = sum_list (map snd counts) + length es"
proof (induction es arbitrary: counts n)
  case Nil
  then show ?case by simp
next
  case (Cons x es)
  let ?counts = "dict_set (oe_person_id x) (dict_get_or 0 counts (oe_person_id x) + 1) counts"
  have "fold count_entry es (?counts, n + 1) = (counts', n')"
    using Cons.prems by (simp add: count_entry_pair)
  from Cons.IH [OF this] show ?case
    using sum_list_set [of "oe_person_id x" "dict_get_or 0 counts (oe_person_id x) + 1" counts] by simp
qed

lemma sorted_stats: "sorted_wrt (\<lambda>(_, c) (_, c'). c' \<le> c) (statsRows people counts)"
proof -
  have "sorted (map (\<lambda>(p, c). - int c) (statsRows people counts))"
    by (simp add: statsRows_def)
  then show ?thesis
    unfolding sorted_map by (rule sorted_wrt_mono_rel [rotated]) auto
qed

section \<open>Properties\<close>

text \<open>C10: with a working server, toggling, setting, removing or moving an on-call assignment
  keeps the client's copy equal to the server's table: any person and week on which they
  agreed before, they agree on afterwards; moving needs the new person not to be on call
  that week already.\<close>

theorem oncall_operations_mirror:
  assumes "env_ok e" and "may_write s" and "oncall_lookup (c_oncall c) k = dict_get (sv_oncall s) k"
  shows "(case toggleOnCall e pid ws (c, s) of (err, c', s') \<Rightarrow>
        err = None \<and> oncall_lookup (c_oncall c') k = dict_get (sv_oncall s') k)
    \<and> (case setOnCallAssignment e pid ws cm (c, s) of (err, c', s') \<Rightarrow>
        err = None \<and> oncall_lookup (c_oncall c') k = dict_get (sv_oncall s') k)
    \<and> (case removeOnCallAssignment e pid ws (c, s) of (err, c', s') \<Rightarrow>
        err = None \<and> oncall_lookup (c_oncall c') k = dict_get (sv_oncall s') k)
    \<and> (\<not> isOnCall (c_oncall c) newPid ws \<longrightarrow>
        (case changeOnCallPerson e pid ws newPid (c, s) of (err, c', s') \<Rightarrow>
          err = None \<and> oncall_lookup (c_oncall c') k = dict_get (sv_oncall s') k))"
proof -
  note calls = call_put_oncall [OF assms(1)]
  have w: "may_write (s\<lparr>sv_oncall := t\<rparr>)" for t using assms(2) by (simp add: may_write_def)
  show ?thesis
    using assms(3)
    by (auto simp: toggleOnCall_def setOnCallAssignment_def removeOnCallAssignment_def changeOnCallPerson_def Let_def
        calls [OF assms(2)] calls [OF w] push_is_set not_on_call_dropped intro!: mirror_laws)
qed

theorem oncall_operations_mirror_witness:
  "case changeOnCallPerson demo_env (js ''p1'') (js ''w'') (js ''p2'') (demo_client, demo_server) of (err, c', s') \<Rightarrow>
     err = None \<and> oncall_lookup (c_oncall c') (js ''p2'', js ''w'') = dict_get (sv_oncall s') (js ''p2'', js ''w'')"
proof -
  have f: "oncall_lookup (c_oncall demo_client) (js ''p2'', js ''w'') = dict_get (sv_oncall demo_server) (js ''p2'', js ''w'')"
    "\<not> isOnCall (c_oncall demo_client) (js ''p2'') (js ''w'')"
    by (simp_all add: demo_client_def demo_server_def oncall_empty isOnCall_lookup)
  note m = oncall_operations_mirror [OF demo_env_ok demo_write f(1), of "js ''p1''" "js ''w''" "[]" "js ''p2''"]
  show ?thesis
    by (rule m [THEN conjunct2, THEN conjunct2, THEN conjunct2, THEN mp, OF f(2)])
qed

text \<open>Moving an assignment to a person who is already on call that week leaves one row on the
  server and two entries in the client's copy, until the week is loaded again.\<close>

theorem change_to_assigned_duplicates:
  assumes "env_ok e" and "may_write s" and "newPid \<noteq> oldPid"
  shows "case changeOnCallPerson e oldPid ws newPid (c, s) of (err, c', s') \<Rightarrow>
     err = None
     \<and> length (filter (\<lambda>en. oe_person_id en = newPid) (week_entries (c_oncall c') ws)) =
        length (filter (\<lambda>en. oe_person_id en = newPid) (week_entries (c_oncall c) ws)) + 1
     \<and> (dict_ok (sv_oncall s) \<longrightarrow> dict_ok (sv_oncall s'))"
proof -
  note calls = call_put_oncall [OF assms(1)]
  have w: "may_write (s\<lparr>sv_oncall := t\<rparr>)" for t using assms(2) by (simp add: may_write_def)
  have same: "filter (\<lambda>en. oe_person_id en \<noteq> oldPid \<and> oe_person_id en = newPid) es
      = filter (\<lambda>en. oe_person_id en = newPid) es" for es
    using assms(3) by (intro filter_cong) auto
  show ?thesis
    by (simp add: changeOnCallPerson_def Let_def calls [OF assms(2)] calls [OF w] push_entry_def drop_person_def
        SetOnCall_def same)
qed

theorem change_to_assigned_duplicates_witness:
  "case changeOnCallPerson demo_env (js ''p1'') (js ''w'') (js ''p2'')
       (demo_client\<lparr>c_oncall := [(js ''w'', [\<lparr>oe_person_id = js ''p1'', oe_comment = []\<rparr>,
          \<lparr>oe_person_id = js ''p2'', oe_comment = []\<rparr>])]\<rparr>, demo_server) of (err, c', s') \<Rightarrow>
     length (filter (\<lambda>en. oe_person_id en = js ''p2'') (week_entries (c_oncall c') (js ''w''))) = 2"
  using change_to_assigned_duplicates [OF demo_env_ok demo_write, of "js ''p2''" "js ''p1''" "js ''w''"
      "demo_client\<lparr>c_oncall := [(js ''w'', [\<lparr>oe_person_id = js ''p1'', oe_comment = []\<rparr>,
          \<lparr>oe_person_id = js ''p2'', oe_comment = []\<rparr>])]\<rparr>"]
  by (auto simp: js_eq_iff week_entries_def dict_get_or_def)

text \<open>The on-call statistics count every assignment of the range once: the total is the
  number of assignments, each person's count is the number of theirs, the counts sum to the
  total, and the rows shown are sorted from the most assigned down.\<close>

theorem oncall_statistics:
  "case oncallCounts oc a b of (counts, n) \<Rightarrow>
     n = length (range_entries oc a b)
     \<and> dict_get_or 0 counts pid = length (filter (\<lambda>en. oe_person_id en = pid) (range_entries oc a b))
     \<and> sum_list (map snd counts) = n
     \<and> sorted_wrt (\<lambda>(_, m) (_, m'). m' \<le> m) (statsRows people counts)"
proof -
  obtain counts n where run: "fold count_entry (range_entries oc a b) ([], 0) = (counts, n)"
    by (metis prod.exhaust)
  show ?thesis
    using fold_count [OF run, of pid] sorted_stats [of people counts]
    by (simp add: counts_as_fold run dict_get_or_def)
qed

text \<open>The on-call tab can show the wrong data: once it has loaded a year, a reload of the
  planning replaces the assignments by those of the visible window, and the tab, which still
  believes to hold the year, does not load again.\<close>

theorem oncall_year_goes_stale:
  assumes "env_ok e" and "sv_session s \<noteq> None" and "client_weeks e c \<noteq> []" and "c_oncallLoadedYear c = Some year"
  shows "case reloadPlanning e (c, s) of (err, cs) \<Rightarrow> case renderOnCall e year cs of (err', c', s') \<Rightarrow>
     err = None \<and> err' = None \<and> c_oncall c' = GetOnCall (win_start e c) (win_end e c) (sv_oncall s)"
  using reload_ok [OF assms(1-3)] window_dates_nonempty [OF assms(3)] assms(4)
  by (simp add: renderOnCall_def)

theorem oncall_year_goes_stale_witness:
  "case reloadPlanning demo_env (demo_client\<lparr>c_oncallLoadedYear := Some 2026\<rparr>, demo_server) of (err, cs) \<Rightarrow>
   case renderOnCall demo_env 2026 cs of (err', c', s') \<Rightarrow>
     err = None \<and> err' = None \<and>
     c_oncall c' = GetOnCall (win_start demo_env (demo_client\<lparr>c_oncallLoadedYear := Some 2026\<rparr>))
       (win_end demo_env (demo_client\<lparr>c_oncallLoadedYear := Some 2026\<rparr>)) (sv_oncall demo_server)"
proof (rule oncall_year_goes_stale [OF demo_env_ok])
  show "client_weeks demo_env (demo_client\<lparr>c_oncallLoadedYear := Some 2026\<rparr>) \<noteq> []"
    using demo_weeks by (simp add: client_weeks_def)
qed (simp_all add: demo_server_def)

text \<open>The trimester buttons are inverse to each other on the year and the trimester and keep
  the trimester between 0 and 3.\<close>

theorem trimester_buttons_inverse:
  assumes "0 \<le> ov_tri v" and "ov_tri v \<le> 3"
  shows "(case oncallTriPrev (oncallTriNext (v, c)) of (v', _) \<Rightarrow> ov_year v' = ov_year v \<and> ov_tri v' = ov_tri v)
    \<and> (case oncallTriNext (oncallTriPrev (v, c)) of (v', _) \<Rightarrow> ov_year v' = ov_year v \<and> ov_tri v' = ov_tri v)
    \<and> ov_tri (fst (oncallTriNext (v, c))) \<in> {0..3} \<and> ov_tri (fst (oncallTriPrev (v, c))) \<in> {0..3}"
  using assms by (simp add: oncallTriPrev_def oncallTriNext_def Let_def)

theorem trimester_buttons_inverse_witness:
  "(case oncallTriPrev (oncallTriNext (\<lparr>ov_year = 2025, ov_tri = 3, ov_before = 1, ov_after = 0\<rparr>, demo_client)) of
      (v', _) \<Rightarrow> ov_year v' = 2025 \<and> ov_tri v' = 3)"
  using trimester_buttons_inverse [of "\<lparr>ov_year = 2025, ov_tri = 3, ov_before = 1, ov_after = 0\<rparr>" demo_client] by simp

end
