(* ===== verification/Coverage.thy ===== *)
theory Coverage
  imports Oncall SlotView
begin

text \<open>
  The computed views: run ratio of a person, run coverage of a week, the shortfall in the
  status bar, the day summary of the availability view and the numbers of the workload view.
  Proved here: the coverage of a half-day splits the active team, the run half-days counted
  per person and per half-day agree, the day summary counts every half-day once, and the
  percentages stay between 0 and 100.
\<close>

definition slots2 :: "jsstring list" where
  "slots2 = [js ''am'', js ''pm'']"

record run_ratio =
  rr_working :: nat
  rr_run :: nat

definition ratio_step :: "slot_data option \<Rightarrow> run_ratio \<Rightarrow> run_ratio" where
  "ratio_step sd r =
     (case sd of
        None \<Rightarrow> r\<lparr>rr_working := rr_working r + 1\<rparr>
      | Some d \<Rightarrow>
          if sd_state d = js ''not_filled'' then r\<lparr>rr_working := rr_working r + 1\<rparr>
          else if sd_state d = js ''undetermined'' then r\<lparr>rr_working := rr_working r + 1\<rparr>
          else if sd_away d \<noteq> None then r
          else if sd_run d then r\<lparr>rr_working := rr_working r + 1, rr_run := rr_run r + 1\<rparr>
          else r\<lparr>rr_working := rr_working r + 1\<rparr>)"

definition calcRunRatio :: "planning \<Rightarrow> jsstring \<Rightarrow> jsstring \<Rightarrow> run_ratio" where
  "calcRunRatio pl personId weekStart =
     fold (\<lambda>d. fold (\<lambda>slot. ratio_step (getSlot pl personId (fmtDate d) slot)) slots2)
       (week_days_of weekStart) \<lparr>rr_working = 0, rr_run = 0\<rparr>"

record slot_cover =
  sc_onRun :: nat
  sc_away :: nat
  sc_avail :: nat

record day_cover =
  dc_name :: jsstring
  dc_date :: jsstring
  dc_am :: slot_cover
  dc_pm :: slot_cover

definition cover_step :: "slot_data option \<Rightarrow> slot_cover \<Rightarrow> slot_cover" where
  "cover_step sd c =
     (case sd of
        None \<Rightarrow> c\<lparr>sc_avail := sc_avail c + 1\<rparr>
      | Some d \<Rightarrow>
          if sd_state d = js ''not_filled'' \<or> sd_state d = js ''undetermined'' then c\<lparr>sc_avail := sc_avail c + 1\<rparr>
          else if sd_away d \<noteq> None then c\<lparr>sc_away := sc_away c + 1\<rparr>
          else if sd_run d then c\<lparr>sc_avail := sc_avail c + 1, sc_onRun := sc_onRun c + 1\<rparr>
          else c\<lparr>sc_avail := sc_avail c + 1\<rparr>)"

definition cover_slot :: "person list \<Rightarrow> planning \<Rightarrow> jsstring \<Rightarrow> jsstring \<Rightarrow> slot_cover" where
  "cover_slot people pl ds slot =
     fold (\<lambda>p. cover_step (getSlot pl (p_id p) ds slot)) people \<lparr>sc_onRun = 0, sc_away = 0, sc_avail = 0\<rparr>"

definition dayNames7 :: "jsstring list" where
  "dayNames7 = [js ''Mon'', js ''Tue'', js ''Wed'', js ''Thu'', js ''Fri'', js ''Sat'', js ''Sun'']"

definition calcRunCoveragePerSlot :: "bool \<Rightarrow> client \<Rightarrow> jsstring \<Rightarrow> day_cover list" where
  "calcRunCoveragePerSlot showWeekend c weekStart =
     (let people = getActivePeople (c_people c)
      in concat (map (\<lambda>(di, d).
           if 5 \<le> di \<and> \<not> showWeekend then []
           else if isHoliday (c_settings c) (c_holidays c) (fmtDate d) \<notin> {None, Some []} then []
           else [\<lparr>dc_name = dayNames7 ! di, dc_date = fmtDate d,
                  dc_am = cover_slot people (c_planning c) (fmtDate d) (js ''am''),
                  dc_pm = cover_slot people (c_planning c) (fmtDate d) (js ''pm'')\<rparr>])
         (zip [0..<7] (week_days_of weekStart))))"

definition count_below :: "int option \<Rightarrow> day_cover list \<Rightarrow> nat" where
  "count_below target days =
     length (filter (\<lambda>c. below_num (int (sc_onRun c)) target) (concat (map (\<lambda>d. [dc_am d, dc_pm d]) days)))"

text \<open>The two texts of the status bar.\<close>

definition updateStatusBar :: "(date \<Rightarrow> int) \<Rightarrow> env \<Rightarrow> bool \<Rightarrow> client \<Rightarrow> jsstring \<times> jsstring" where
  "updateStatusBar tz e showWeekend c =
     (let totalBelow = sum_list (map (\<lambda>w. count_below (runTarget (c_settings c))
                          (calcRunCoveragePerSlot showWeekend c (formatWeekStart w))) (client_weeks e c))
      in (str_of_nat (length (getActivePeople (c_people c))) @ js '' team'' @ mid_dot
            @ str_of_nat (length (getActiveGuests (c_people c))) @ js '' guests'' @ mid_dot
            @ str_of_nat (length (getArchivedPeople (c_people c))) @ js '' archived'',
          js ''Week '' @ str_of_int (getWeekNumber tz (env_today e)) @ mid_dot @ fmtDate (env_today e)
            @ (if 0 < totalBelow then [32, 9888, 32] @ str_of_nat totalBelow @ js '' slots below run target'' else [])))"

text \<open>The run coverage view: whether a week falls short, and who is listed as on run.\<close>

definition weekBelow :: "bool \<Rightarrow> client \<Rightarrow> jsstring \<Rightarrow> bool" where
  "weekBelow showWeekend c ws =
     list_ex (\<lambda>d. below_num (int (sc_onRun (dc_am d))) (runTarget (c_settings c))
        \<or> below_num (int (sc_onRun (dc_pm d))) (runTarget (c_settings c)))
       (calcRunCoveragePerSlot showWeekend c ws)"

definition listedRunPeople :: "client \<Rightarrow> jsstring \<Rightarrow> person list" where
  "listedRunPeople c ws =
     (if run_mode (c_settings c) = js ''rotation'' then getRunPeople (c_people c) (c_rotation c) ws
      else filter (\<lambda>p. 0 < rr_run (calcRunRatio (c_planning c) (p_id p) ws)) (getActivePeople (c_people c)))"

section \<open>Availability\<close>

record day_summary =
  ds_away :: nat
  ds_run :: nat
  ds_proj :: nat
  ds_nf :: nat
  ds_und :: nat
  ds_inc :: nat

definition summary_step :: "slot_data option \<Rightarrow> day_summary \<Rightarrow> day_summary" where
  "summary_step sd s =
     (case sd of
        None \<Rightarrow> s\<lparr>ds_nf := ds_nf s + 1\<rparr>
      | Some d \<Rightarrow>
          if sd_state d = js ''not_filled'' then s\<lparr>ds_nf := ds_nf s + 1\<rparr>
          else if sd_state d = js ''undetermined'' then s\<lparr>ds_und := ds_und s + 1\<rparr>
          else if sd_away d \<noteq> None then s\<lparr>ds_away := ds_away s + 1\<rparr>
          else if sd_incident d \<noteq> None then s\<lparr>ds_inc := ds_inc s + 1\<rparr>
          else if sd_run d then s\<lparr>ds_run := ds_run s + 1\<rparr>
          else s\<lparr>ds_proj := ds_proj s + 1\<rparr>)"

definition daySummary :: "person list \<Rightarrow> planning \<Rightarrow> jsstring \<Rightarrow> day_summary" where
  "daySummary people pl selDate =
     fold (\<lambda>p. fold (\<lambda>slot. summary_step (getSlot pl (p_id p) selDate slot)) slots2) people
       \<lparr>ds_away = 0, ds_run = 0, ds_proj = 0, ds_nf = 0, ds_und = 0, ds_inc = 0\<rparr>"

definition availabilityDetail :: "slot_data option \<Rightarrow> jsstring" where
  "availabilityDetail sd =
     (case sd of
        None \<Rightarrow> js ''Available''
      | Some d \<Rightarrow>
          if sd_state d = js ''not_filled'' then js ''Available''
          else
            let rem = (if sd_remote d then icon_remote @ js '' '' else if sd_offsite d then icon_offsite @ js '' '' else [])
            in if sd_state d = js ''undetermined'' then rem @ js ''Project (TBD)''
               else case sd_away d of
                 Some a \<Rightarrow> js ''Away: '' @ replace_all 95 (js '' '') (away_type a)
                   @ (if away_tentative a then js '' (tentative)'' else [])
               | None \<Rightarrow>
                   case sd_incident d of
                     Some i \<Rightarrow> js ''Incident'' @ (if incident_text i = [] then [] else js '': '' @ incident_text i)
                   | None \<Rightarrow>
                       let pn = js_join (js '', '') (map pa_name (projects_list d))
                       in if sd_run d then rem @ pn @ js '' + Run''
                            @ (if sd_run_note d = [] then [] else js '': '' @ sd_run_note d)
                          else or_else (rem @ pn) (js ''Available''))"

section \<open>Workload\<close>

record load_cell =
  lc_avg :: int
  lc_over :: bool

definition workloadCell :: "planning \<Rightarrow> jsstring \<Rightarrow> jsstring \<Rightarrow> load_cell" where
  "workloadCell pl pid ds =
     (let amVal = halfDayValue (getSlot pl pid ds (js ''am'')); pmVal = halfDayValue (getSlot pl pid ds (js ''pm''))
      in \<lparr>lc_avg = round_quot (amVal + pmVal) 2, lc_over = (100 < amVal \<or> 100 < pmVal)\<rparr>)"

definition push_new :: "'a \<Rightarrow> 'a list \<Rightarrow> 'a list" where
  "push_new x xs = (if x \<in> set xs then xs else xs @ [x])"

definition tip_step :: "slot_data option \<Rightarrow> jsstring list \<Rightarrow> jsstring list" where
  "tip_step sd parts =
     (case sd of
        None \<Rightarrow> parts
      | Some d \<Rightarrow>
          let parts = fold (\<lambda>pr. push_new (pa_name pr)) (projects_list d) parts;
              parts = (if sd_state d = js ''undetermined'' then push_new (js ''TBD'') parts else parts)
          in if sd_run d \<and> projects_list d = [] then push_new (js ''Run'') parts else parts)"

definition workloadTip :: "planning \<Rightarrow> jsstring \<Rightarrow> jsstring \<Rightarrow> jsstring list" where
  "workloadTip pl pid ds = fold (\<lambda>slot. tip_step (getSlot pl pid ds slot)) slots2 []"

text \<open>
  \<open>Math.round(n / m * 100)\<close> is the parameter \<open>pct\<close>: floating-point division and product may end on
  either side of an exact half, so all that is used of it is that the result is a nearest integer.
\<close>

definition nearest_pct :: "(nat \<Rightarrow> nat \<Rightarrow> int) \<Rightarrow> bool" where
  "nearest_pct pct \<longleftrightarrow> (\<forall>n m. 0 < m \<longrightarrow> 2 * \<bar>int m * pct n m - 100 * int n\<bar> \<le> int m)"

definition flagPct :: "(nat \<Rightarrow> nat \<Rightarrow> int) \<Rightarrow> (slot_data \<Rightarrow> bool) \<Rightarrow> person list \<Rightarrow> planning \<Rightarrow> jsstring \<Rightarrow> int" where
  "flagPct pct flag people pl ds =
     (let n = length (filter (\<lambda>p. list_ex (\<lambda>slot. case getSlot pl (p_id p) ds slot of None \<Rightarrow> False | Some d \<Rightarrow> flag d)
                slots2) people)
      in if 0 < length people then pct n (length people) else 0)"

definition remotePct :: "(nat \<Rightarrow> nat \<Rightarrow> int) \<Rightarrow> person list \<Rightarrow> planning \<Rightarrow> jsstring \<Rightarrow> int" where
  "remotePct pct = flagPct pct sd_remote"

definition offsitePct :: "(nat \<Rightarrow> nat \<Rightarrow> int) \<Rightarrow> person list \<Rightarrow> planning \<Rightarrow> jsstring \<Rightarrow> int" where
  "offsitePct pct = flagPct pct sd_offsite"

definition presencePct :: "bool \<Rightarrow> person list \<Rightarrow> planning \<Rightarrow> date \<Rightarrow> int" where
  "presencePct showWeekend people pl w =
     (let days = (if showWeekend then getWeekDays w else take 5 (getWeekDays w));
          vals = concat (map (\<lambda>p. concat (map (\<lambda>d. map (\<lambda>slot. halfDayPresence (getSlot pl (p_id p) (fmtDate d) slot))
                   slots2) days)) people)
      in if vals \<noteq> [] then round_quot (sum_list vals) (int (length vals)) else 0)"

section \<open>Counting half-days\<close>

definition is_away :: "slot_data option \<Rightarrow> bool" where
  "is_away sd = (case sd of None \<Rightarrow> False
     | Some d \<Rightarrow> sd_state d \<noteq> js ''not_filled'' \<and> sd_state d \<noteq> js ''undetermined'' \<and> sd_away d \<noteq> None)"

definition on_run :: "slot_data option \<Rightarrow> bool" where
  "on_run sd = (case sd of None \<Rightarrow> False
     | Some d \<Rightarrow> sd_state d \<noteq> js ''not_filled'' \<and> sd_state d \<noteq> js ''undetermined'' \<and> sd_away d = None \<and> sd_run d)"

lemma on_run_not_away: "on_run sd \<Longrightarrow> \<not> is_away sd"
  by (auto simp: on_run_def is_away_def split: option.splits)

lemma ratio_step_counts:
  "rr_working (ratio_step sd r) = rr_working r + of_bool (\<not> is_away sd)"
  "rr_run (ratio_step sd r) = rr_run r + of_bool (on_run sd)"
  by (auto simp: ratio_step_def is_away_def on_run_def split: option.splits)

lemma cover_step_counts:
  "sc_onRun (cover_step sd c) = sc_onRun c + of_bool (on_run sd)"
  "sc_away (cover_step sd c) = sc_away c + of_bool (is_away sd)"
  "sc_avail (cover_step sd c) = sc_avail c + of_bool (\<not> is_away sd)"
  by (auto simp: cover_step_def is_away_def on_run_def split: option.splits)

lemma cover_slot_counts:
  "sc_onRun (cover_slot people pl ds slot) = sum_list (map (\<lambda>p. of_bool (on_run (getSlot pl (p_id p) ds slot))) people)"
  "sc_away (cover_slot people pl ds slot) = sum_list (map (\<lambda>p. of_bool (is_away (getSlot pl (p_id p) ds slot))) people)"
  "sc_avail (cover_slot people pl ds slot) = sum_list (map (\<lambda>p. of_bool (\<not> is_away (getSlot pl (p_id p) ds slot))) people)"
proof -
  let ?f = "\<lambda>c. fold (\<lambda>p. cover_step (getSlot pl (p_id p) ds slot)) people c"
  have "sc_onRun (?f c) = sc_onRun c + sum_list (map (\<lambda>p. of_bool (on_run (getSlot pl (p_id p) ds slot))) people)"
    "sc_away (?f c) = sc_away c + sum_list (map (\<lambda>p. of_bool (is_away (getSlot pl (p_id p) ds slot))) people)"
    "sc_avail (?f c) = sc_avail c + sum_list (map (\<lambda>p. of_bool (\<not> is_away (getSlot pl (p_id p) ds slot))) people)" for c
    by (induction people arbitrary: c) (simp_all add: cover_step_counts)
  then show "sc_onRun (cover_slot people pl ds slot) = sum_list (map (\<lambda>p. of_bool (on_run (getSlot pl (p_id p) ds slot))) people)"
    "sc_away (cover_slot people pl ds slot) = sum_list (map (\<lambda>p. of_bool (is_away (getSlot pl (p_id p) ds slot))) people)"
    "sc_avail (cover_slot people pl ds slot) = sum_list (map (\<lambda>p. of_bool (\<not> is_away (getSlot pl (p_id p) ds slot))) people)"
    by (simp_all add: cover_slot_def)
qed

lemma cover_slot_split:
  "sc_avail (cover_slot people pl ds slot) + sc_away (cover_slot people pl ds slot) = length people"
  "sc_onRun (cover_slot people pl ds slot) \<le> sc_avail (cover_slot people pl ds slot)"
proof -
  show "sc_avail (cover_slot people pl ds slot) + sc_away (cover_slot people pl ds slot) = length people"
    unfolding cover_slot_counts by (induction people) auto
  show "sc_onRun (cover_slot people pl ds slot) \<le> sc_avail (cover_slot people pl ds slot)"
    unfolding cover_slot_counts by (rule sum_list_map_le) (auto dest: on_run_not_away)
qed

definition slot_runs :: "planning \<Rightarrow> jsstring \<Rightarrow> date \<Rightarrow> nat" where
  "slot_runs pl pid d = sum_list (map (\<lambda>slot. of_bool (on_run (getSlot pl pid (fmtDate d) slot))) slots2)"

lemma ratio_fold:
  "rr_run (fold (\<lambda>d. fold (\<lambda>slot. ratio_step (getSlot pl pid (fmtDate d) slot)) slots2) days r)
     = rr_run r + sum_list (map (slot_runs pl pid) days)"
  "rr_working (fold (\<lambda>d. fold (\<lambda>slot. ratio_step (getSlot pl pid (fmtDate d) slot)) slots2) days r)
     = rr_working r + sum_list (map (\<lambda>d. sum_list (map (\<lambda>slot. of_bool (\<not> is_away (getSlot pl pid (fmtDate d) slot))) slots2)) days)"
  by (induction days arbitrary: r) (simp_all add: slots2_def slot_runs_def ratio_step_counts)

lemma calcRunRatio_counts:
  "rr_run (calcRunRatio pl pid ws) = sum_list (map (slot_runs pl pid) (week_days_of ws))"
  "rr_working (calcRunRatio pl pid ws) =
     sum_list (map (\<lambda>d. sum_list (map (\<lambda>slot. of_bool (\<not> is_away (getSlot pl pid (fmtDate d) slot))) slots2)) (week_days_of ws))"
  by (simp_all add: calcRunRatio_def ratio_fold)

lemma length_week_days: "length (week_days_of ws) = 7"
  by (simp add: week_days_of_def getWeekDays_def)

lemma ratio_bounds: "rr_run (calcRunRatio pl pid ws) \<le> rr_working (calcRunRatio pl pid ws)"
  "rr_working (calcRunRatio pl pid ws) \<le> 14"
proof -
  show "rr_run (calcRunRatio pl pid ws) \<le> rr_working (calcRunRatio pl pid ws)"
    unfolding calcRunRatio_counts slot_runs_def
    by (intro sum_list_map_le) (auto dest: on_run_not_away)
  have "sum_list (map (\<lambda>d. sum_list (map (\<lambda>slot. of_bool (\<not> is_away (getSlot pl pid (fmtDate d) slot))) slots2)) days)
      \<le> sum_list (map (\<lambda>_. 2 :: nat) days)" for days
    by (rule sum_list_map_le) (simp add: slots2_def)
  from this [of "week_days_of ws"] show "rr_working (calcRunRatio pl pid ws) \<le> 14"
    by (simp add: calcRunRatio_counts sum_list_triv length_week_days)
qed

lemma sum_list_swap:
  fixes f :: "'a \<Rightarrow> 'b \<Rightarrow> nat"
  shows "sum_list (map (\<lambda>x. sum_list (map (f x) ys)) xs) = sum_list (map (\<lambda>y. sum_list (map (\<lambda>x. f x y) xs)) ys)"
  by (induction xs) (simp_all add: sum_list_addf)

lemma coverage_all_days:
  assumes "\<And>d. d \<in> set (week_days_of ws) \<Longrightarrow> isHoliday (c_settings c) (c_holidays c) (fmtDate d) = None"
  shows "map (\<lambda>day. (dc_am day, dc_pm day)) (calcRunCoveragePerSlot True c ws) =
     map (\<lambda>d. (cover_slot (getActivePeople (c_people c)) (c_planning c) (fmtDate d) (js ''am''),
                cover_slot (getActivePeople (c_people c)) (c_planning c) (fmtDate d) (js ''pm''))) (week_days_of ws)"
proof -
  let ?cov = "\<lambda>d slot. cover_slot (getActivePeople (c_people c)) (c_planning c) (fmtDate d) slot"
  let ?day = "\<lambda>(di, d). if 5 \<le> di \<and> \<not> True then []
           else if isHoliday (c_settings c) (c_holidays c) (fmtDate d) \<notin> {None, Some []} then []
           else [\<lparr>dc_name = dayNames7 ! di, dc_date = fmtDate d, dc_am = ?cov d (js ''am''), dc_pm = ?cov d (js ''pm'')\<rparr>]"
  have "map (\<lambda>day. (dc_am day, dc_pm day)) (concat (map ?day (zip ns ds))) = map (\<lambda>d. (?cov d (js ''am''), ?cov d (js ''pm''))) ds"
    if "length ns = length ds" "\<And>d. d \<in> set ds \<Longrightarrow> isHoliday (c_settings c) (c_holidays c) (fmtDate d) = None" for ns :: "nat list" and ds
    using that by (induction ns ds rule: list_induct2) auto
  from this [of "[0..<7]" "week_days_of ws"] show ?thesis
    using assms by (simp add: calcRunCoveragePerSlot_def length_week_days Let_def)
qed

section \<open>Day summary and percentages\<close>

definition ds_total :: "day_summary \<Rightarrow> nat" where
  "ds_total s = ds_away s + ds_run s + ds_proj s + ds_nf s + ds_und s + ds_inc s"

lemma summary_step_counts:
  "ds_away (summary_step sd s) = ds_away s + of_bool (is_away sd)" "ds_total (summary_step sd s) = ds_total s + 1"
  by (auto simp: summary_step_def is_away_def ds_total_def split: option.splits)

lemma daySummary_counts:
  "ds_away (daySummary people pl ds) =
     sum_list (map (\<lambda>p. sum_list (map (\<lambda>slot. of_bool (is_away (getSlot pl (p_id p) ds slot))) slots2)) people)"
  "ds_total (daySummary people pl ds) = 2 * length people"
proof -
  let ?f = "\<lambda>s. fold (\<lambda>p. fold (\<lambda>slot. summary_step (getSlot pl (p_id p) ds slot)) slots2) people s"
  have "ds_away (?f s) = ds_away s
      + sum_list (map (\<lambda>p. sum_list (map (\<lambda>slot. of_bool (is_away (getSlot pl (p_id p) ds slot))) slots2)) people)"
    "ds_total (?f s) = ds_total s + 2 * length people" for s
    by (induction people arbitrary: s) (simp_all add: slots2_def summary_step_counts)
  then show "ds_away (daySummary people pl ds) =
     sum_list (map (\<lambda>p. sum_list (map (\<lambda>slot. of_bool (is_away (getSlot pl (p_id p) ds slot))) slots2)) people)"
    "ds_total (daySummary people pl ds) = 2 * length people"
    unfolding daySummary_def by (simp_all only:) (simp_all add: ds_total_def)
qed

lemma day_away_coverage:
  "ds_away (daySummary people pl ds) =
     sc_away (cover_slot people pl ds (js ''am'')) + sc_away (cover_slot people pl ds (js ''pm''))"
  unfolding daySummary_counts cover_slot_counts by (induction people) (simp_all add: slots2_def)

lemma round_between:
  assumes "0 < b" "b * l \<le> a" "a \<le> b * u"
  shows "l \<le> round_quot a b \<and> round_quot a b \<le> u"
proof -
  have "l * (2 * b) \<le> 2 * a + b" using assms(1,2) by (simp add: algebra_simps)
  then have "(l * (2 * b)) div (2 * b) \<le> (2 * a + b) div (2 * b)" using assms(1) by (intro zdiv_mono1) auto
  moreover have "2 * a + b \<le> u * (2 * b) + b" using assms(3) by (simp add: algebra_simps)
  then have "(2 * a + b) div (2 * b) \<le> (u * (2 * b) + b) div (2 * b)" using assms(1) by (intro zdiv_mono1) auto
  moreover have "(u * (2 * b) + b) div (2 * b) = u"
    by (rule int_div_pos_eq [where r = b]) (use assms(1) in auto)
  ultimately show ?thesis using assms(1) by (simp add: round_quot_def)
qed

lemma nearest_between:
  assumes "nearest_pct pct" "0 < m" "n \<le> m"
  shows "0 \<le> pct n m \<and> pct n m \<le> 100"
proof -
  have "2 * \<bar>int m * pct n m - 100 * int n\<bar> \<le> int m"
    using assms(1,2) by (simp add: nearest_pct_def)
  then have near: "2 * (int m * pct n m) - 200 * int n \<le> int m" "200 * int n - 2 * (int m * pct n m) \<le> int m"
    by (simp_all add: abs_if split: if_splits)
  have m: "0 < int m" "100 * int n \<le> int m * 100" using assms(2,3) by simp_all
  have "0 \<le> pct n m"
  proof (rule ccontr)
    assume "\<not> 0 \<le> pct n m"
    then have "int m * pct n m \<le> int m * (- 1)" using m(1) by (intro mult_left_mono) auto
    then show False using near(2) m(1) by linarith
  qed
  moreover have "pct n m \<le> 100"
  proof (rule ccontr)
    assume "\<not> pct n m \<le> 100"
    then have "int m * 101 \<le> int m * pct n m" using m(1) by (intro mult_left_mono) auto
    then show False using near(1) m by linarith
  qed
  ultimately show ?thesis by simp
qed

lemma presence_values: "halfDayPresence sd = 0 \<or> halfDayPresence sd = 100"
  by (auto simp: halfDayPresence_def split: option.splits)

lemma sum_list_between:
  fixes xs :: "int list"
  shows "list_all (\<lambda>x. 0 \<le> x \<and> x \<le> 100) xs \<Longrightarrow> 0 \<le> sum_list xs \<and> sum_list xs \<le> int (length xs) * 100"
  by (induction xs) auto

lemma presence_between: "0 \<le> presencePct wk people pl w \<and> presencePct wk people pl w \<le> 100"
proof -
  define vals where "vals = concat (map (\<lambda>p. concat (map (\<lambda>d. map (\<lambda>slot.
      halfDayPresence (getSlot pl (p_id p) (fmtDate d) slot)) slots2)
      (if wk then getWeekDays w else take 5 (getWeekDays w)))) people)"
  have "0 \<le> halfDayPresence sd \<and> halfDayPresence sd \<le> 100" for sd
    using presence_values [of sd] by auto
  then have "list_all (\<lambda>x. 0 \<le> x \<and> x \<le> 100) vals" by (auto simp: vals_def list_all_iff)
  from sum_list_between [OF this]
  have "0 \<le> (if vals \<noteq> [] then round_quot (sum_list vals) (int (length vals)) else 0)
      \<and> (if vals \<noteq> [] then round_quot (sum_list vals) (int (length vals)) else 0) \<le> 100"
    using round_between [of "int (length vals)" 0 "sum_list vals" 100] by simp
  then show ?thesis
    unfolding presencePct_def Let_def vals_def .
qed

section \<open>Properties\<close>

text \<open>On every day of the run coverage that is shown, in both halves, the people available and
  the people away make up the active team, and the people on run are among the available.\<close>

theorem coverage_splits_team:
  "list_all (\<lambda>day. list_all (\<lambda>cov. sc_avail cov + sc_away cov = length (getActivePeople (c_people c))
       \<and> sc_onRun cov \<le> sc_avail cov) [dc_am day, dc_pm day])
     (calcRunCoveragePerSlot showWeekend c ws)"
  by (auto simp: calcRunCoveragePerSlot_def Let_def list_all_iff cover_slot_split split: if_splits)

text \<open>The run half-days of a week add up to the same number per person (\<open>calcRunRatio\<close> over the
  active team) and per half-day (\<open>calcRunCoveragePerSlot\<close> over the whole week), when the week has
  no holiday; and a person's run half-days are among at most fourteen working half-days.\<close>

theorem run_counted_both_ways:
  assumes "\<And>d. d \<in> set (week_days_of ws) \<Longrightarrow> isHoliday (c_settings c) (c_holidays c) (fmtDate d) = None"
  shows "sum_list (map (\<lambda>p. rr_run (calcRunRatio (c_planning c) (p_id p) ws)) (getActivePeople (c_people c)))
     = sum_list (map (\<lambda>day. sc_onRun (dc_am day) + sc_onRun (dc_pm day)) (calcRunCoveragePerSlot True c ws))
   \<and> rr_run (calcRunRatio (c_planning c) pid ws) \<le> rr_working (calcRunRatio (c_planning c) pid ws)
   \<and> rr_working (calcRunRatio (c_planning c) pid ws) \<le> 14"
proof -
  let ?people = "getActivePeople (c_people c)" and ?pl = "c_planning c"
  have "sum_list (map (\<lambda>p. rr_run (calcRunRatio ?pl (p_id p) ws)) ?people)
      = sum_list (map (\<lambda>d. sum_list (map (\<lambda>p. slot_runs ?pl (p_id p) d) ?people)) (week_days_of ws))"
    unfolding calcRunRatio_counts by (rule sum_list_swap)
  also have "\<dots> = sum_list (map (\<lambda>d. sc_onRun (cover_slot ?people ?pl (fmtDate d) (js ''am''))
      + sc_onRun (cover_slot ?people ?pl (fmtDate d) (js ''pm''))) (week_days_of ws))"
    by (simp add: cover_slot_counts slot_runs_def slots2_def sum_list_addf)
  also have "\<dots> = sum_list (map (\<lambda>(a, b). sc_onRun a + sc_onRun b)
      (map (\<lambda>day. (dc_am day, dc_pm day)) (calcRunCoveragePerSlot True c ws)))"
    by (subst coverage_all_days [OF assms]) (simp_all add: comp_def)
  finally show ?thesis
    using ratio_bounds [of ?pl pid ws] by (simp add: comp_def)
qed

theorem run_counted_both_ways_witness:
  "sum_list (map (\<lambda>p. rr_run (calcRunRatio (c_planning demo_client) (p_id p) (js ''2026/02/16''))) (getActivePeople (c_people demo_client)))
     = sum_list (map (\<lambda>day. sc_onRun (dc_am day) + sc_onRun (dc_pm day)) (calcRunCoveragePerSlot True demo_client (js ''2026/02/16'')))
   \<and> rr_run (calcRunRatio (c_planning demo_client) (js ''p1'') (js ''2026/02/16''))
       \<le> rr_working (calcRunRatio (c_planning demo_client) (js ''p1'') (js ''2026/02/16''))
   \<and> rr_working (calcRunRatio (c_planning demo_client) (js ''p1'') (js ''2026/02/16'')) \<le> 14"
  by (rule run_counted_both_ways) (simp add: isHoliday_def demo_client_def defaultSettings_def)

text \<open>The day summary of the availability view puts each half-day of each person into exactly
  one of its six counts, and its away count is that of the run coverage.\<close>

theorem day_summary_partition:
  "ds_away (daySummary people pl ds) + ds_run (daySummary people pl ds) + ds_proj (daySummary people pl ds)
     + ds_nf (daySummary people pl ds) + ds_und (daySummary people pl ds) + ds_inc (daySummary people pl ds)
     = 2 * length people
   \<and> ds_away (daySummary people pl ds) =
      sc_away (cover_slot people pl ds (js ''am'')) + sc_away (cover_slot people pl ds (js ''pm''))"
  using daySummary_counts(2) [of people pl ds] day_away_coverage by (simp add: ds_total_def)

text \<open>The numbers of the workload view are percentages: the average of a day whose slots keep
  to 100 percent is between 0 and 100 and not marked as over, and the remote, off-site and
  presence rows are between 0 and 100.\<close>

theorem workload_percentages:
  assumes "\<And>slot d. getSlot pl pid ds slot = Some d \<Longrightarrow> pct_ok (projects_list d)" and "nearest_pct pct"
  shows "0 \<le> lc_avg (workloadCell pl pid ds) \<and> lc_avg (workloadCell pl pid ds) \<le> 100
     \<and> \<not> lc_over (workloadCell pl pid ds)
     \<and> 0 \<le> remotePct pct people pl ds \<and> remotePct pct people pl ds \<le> 100
     \<and> 0 \<le> offsitePct pct people pl ds \<and> offsitePct pct people pl ds \<le> 100
     \<and> 0 \<le> presencePct showWeekend people pl w \<and> presencePct showWeekend people pl w \<le> 100"
proof -
  have v: "0 \<le> halfDayValue (getSlot pl pid ds slot) \<and> halfDayValue (getSlot pl pid ds slot) \<le> 100" for slot
    using assms(1) by (rule halfDayValue_bounds)
  have flag: "0 \<le> flagPct pct f people pl ds \<and> flagPct pct f people pl ds \<le> 100" for f
    by (simp add: flagPct_def Let_def nearest_between [OF assms(2)])
  show ?thesis
    using v [of "js ''am''"] v [of "js ''pm''"] flag presence_between
      round_between [of 2 0 "halfDayValue (getSlot pl pid ds (js ''am'')) + halfDayValue (getSlot pl pid ds (js ''pm''))" 100]
    by (simp add: workloadCell_def Let_def remotePct_def offsitePct_def)
qed

lemma demo_nearest: "nearest_pct (\<lambda>n m. round_quot (100 * int n) (int m))"
proof -
  have near: "2 * \<bar>b * ((2 * a + b) div (2 * b)) - a\<bar> \<le> b" if "0 < b" for a b :: int
  proof -
    have "2 * b * ((2 * a + b) div (2 * b)) = 2 * a + b - (2 * a + b) mod (2 * b)"
      by (rule minus_mod_eq_mult_div [symmetric])
    moreover have "0 \<le> (2 * a + b) mod (2 * b)" "(2 * a + b) mod (2 * b) < 2 * b"
      using that by simp_all
    ultimately have "2 * (b * ((2 * a + b) div (2 * b))) - 2 * a \<le> b" "2 * a - 2 * (b * ((2 * a + b) div (2 * b))) \<le> b"
      by simp_all
    then show ?thesis by (simp add: abs_if)
  qed
  show ?thesis
    unfolding nearest_pct_def round_quot_def
  proof (intro allI impI)
    fix n m :: nat
    assume "0 < m"
    then show "2 * \<bar>int m * ((2 * (100 * int n) + int m) div (2 * int m)) - 100 * int n\<bar> \<le> int m"
      using near [of "int m" "100 * int n"] by simp
  qed
qed

theorem workload_percentages_witness:
  "0 \<le> lc_avg (workloadCell [] (js ''p1'') []) \<and> lc_avg (workloadCell [] (js ''p1'') []) \<le> 100
     \<and> \<not> lc_over (workloadCell [] (js ''p1'') [])
     \<and> 0 \<le> remotePct (\<lambda>n m. round_quot (100 * int n) (int m)) [] [] [] \<and> remotePct (\<lambda>n m. round_quot (100 * int n) (int m)) [] [] [] \<le> 100
     \<and> 0 \<le> offsitePct (\<lambda>n m. round_quot (100 * int n) (int m)) [] [] [] \<and> offsitePct (\<lambda>n m. round_quot (100 * int n) (int m)) [] [] [] \<le> 100
     \<and> 0 \<le> presencePct True [] [] 20500 \<and> presencePct True [] [] 20500 \<le> 100"
  by (rule workload_percentages [OF _ demo_nearest]) (simp add: getSlot_def)

end
