(* ===== verification/Directory.thy ===== *)
theory Directory
  imports UndoRedo
begin

text \<open>
  People, projects and settings on the client: loading everything at the start (\<open>loadAll\<close>), the
  modals that add and edit people and projects, archiving, restoring and deleting, the settings
  and admin buttons. Every operation writes to the server and then changes the client's copy
  from what it sent, not from the reply; the copies are proved to agree. A reply that is an
  error message is used as if it were the new object: its fields are all \<open>undefined\<close>, here the
  empty texts of \<open>no_person\<close> and \<open>no_project\<close>.
\<close>

definition no_person :: person where
  "no_person = \<lparr>p_id = [], p_name = [], p_role = [], p_sub_team = [], p_avatar_emoji = [], p_avatar_color = [],
     p_start_date = [], p_default_projects = [], p_status = [], p_archived_date = [], p_is_guest = False,
     p_ics_token = []\<rparr>"

definition no_project :: project where
  "no_project = \<lparr>pr_id = [], pr_name = [], pr_emoji = [], pr_description = [], pr_url = [], pr_start_date = [],
     pr_end_date = [], pr_status = [], pr_team_lead = []\<rparr>"

section \<open>Loading everything\<close>

text \<open>
  Four requests sent together, then the planning, then on-call and rotation, as in
  \<open>reloadPlanning\<close>, whose code \<open>loadAll\<close> repeats. An error reply leaves no usable list.
\<close>

definition loadAll :: "env \<Rightarrow> client \<times> server \<Rightarrow> api_error option \<times> client \<times> server" where
  "loadAll e = (\<lambda>(c, s).
     let (r1, c, s) = call e GetPeopleR (c, s); (r2, c, s) = call e GetProjectsR (c, s);
         (r3, c, s) = call e GetSettingsR (c, s); (r4, c, s) = call e GetHolidaysR (c, s)
     in case (r1, r2, r3, r4) of
          (Inr (RPeople ps), Inr (RProjects prs), Inr (RSettings st), Inr (RHolidays hs)) \<Rightarrow>
            reloadPlanning e (c\<lparr>c_people := ps, c_projects := prs, c_settings := st, c_holidays := hs\<rparr>, s)
        | (Inl x, _, _, _) \<Rightarrow> (Some x, c, s)
        | (_, Inl x, _, _) \<Rightarrow> (Some x, c, s)
        | (_, _, Inl x, _) \<Rightarrow> (Some x, c, s)
        | (_, _, _, Inl x) \<Rightarrow> (Some x, c, s)
        | _ \<Rightarrow> (Some TypeError, c, s))"

section \<open>People\<close>

record person_form =
  pf_name :: jsstring
  pf_role :: jsstring
  pf_team :: jsstring
  pf_emoji :: jsstring
  pf_projects :: jsstring

text \<open>\<open>split(',')\<close>, \<open>trim\<close>, \<open>filter(Boolean)\<close>.\<close>

definition comma_list :: "jsstring \<Rightarrow> jsstring list" where
  "comma_list s = filter (\<lambda>t. t \<noteq> []) (map js_trim (js_split 44 s))"

definition form_person :: "person_form \<Rightarrow> person \<Rightarrow> person" where
  "form_person f p = p\<lparr>p_name := js_trim (pf_name f), p_role := js_trim (pf_role f), p_sub_team := js_trim (pf_team f),
     p_avatar_emoji := or_else (js_trim (pf_emoji f)) emoji_person, p_default_projects := comma_list (pf_projects f)\<rparr>"

definition submitAddPerson :: "env \<Rightarrow> bool \<Rightarrow> person_form \<Rightarrow> client \<times> server \<Rightarrow> api_error option \<times> client \<times> server" where
  "submitAddPerson e isGuest f = (\<lambda>(c, s).
     if js_trim (pf_name f) = [] then (None, c, s)
     else case call e (PostPersonR (form_person f (no_person\<lparr>p_is_guest := isGuest, p_status := js ''active''\<rparr>))) (c, s) of
            (Inl x, c, s) \<Rightarrow> (Some x, c, s)
          | (Inr reply, c, s) \<Rightarrow>
              let person = (case reply of RPerson q \<Rightarrow> q | _ \<Rightarrow> no_person)
              in (None, if list_ex (\<lambda>x. p_id x = p_id person) (c_people c) then c
                        else c\<lparr>c_people := c_people c @ [person]\<rparr>, s))"

definition submitEditPerson :: "env \<Rightarrow> jsstring \<Rightarrow> person_form \<Rightarrow> client \<times> server \<Rightarrow> api_error option \<times> client \<times> server" where
  "submitEditPerson e personId f = (\<lambda>(c, s).
     if js_trim (pf_name f) = [] then (None, c, s)
     else let updated = form_person f (case getPerson (c_people c) personId of None \<Rightarrow> no_person | Some p \<Rightarrow> p)
          in case call e (PutPersonR personId updated) (c, s) of
               (Inl x, c, s) \<Rightarrow> (Some x, c, s)
             | (Inr _, c, s) \<Rightarrow>
                 (None, c\<lparr>c_people := update_first (\<lambda>x. p_id x = personId) (\<lambda>_. updated) (c_people c)\<rparr>, s))"

definition confirmArchivePerson :: "env \<Rightarrow> bool \<Rightarrow> jsstring \<Rightarrow> client \<times> server \<Rightarrow> api_error option \<times> client \<times> server" where
  "confirmArchivePerson e confirmed i = (\<lambda>(c, s).
     if getPerson (c_people c) i = None \<or> \<not> confirmed then (None, c, s)
     else case call e (ArchivePersonR i) (c, s) of
            (Inl x, c, s) \<Rightarrow> (Some x, c, s)
          | (Inr _, c, s) \<Rightarrow>
              (None, c\<lparr>c_people := update_first (\<lambda>x. p_id x = i)
                 (\<lambda>p. p\<lparr>p_status := js ''archived'', p_archived_date := fmtDate (env_today e)\<rparr>) (c_people c)\<rparr>, s))"

text \<open>The \<open>Restore\<close> button of the archived view.\<close>

definition restorePerson :: "env \<Rightarrow> jsstring \<Rightarrow> client \<times> server \<Rightarrow> api_error option \<times> client \<times> server" where
  "restorePerson e i = (\<lambda>(c, s).
     case call e (UnarchivePersonR i) (c, s) of
       (Inl x, c, s) \<Rightarrow> (Some x, c, s)
     | (Inr _, c, s) \<Rightarrow>
         (None, c\<lparr>c_people := update_first (\<lambda>x. p_id x = i)
            (\<lambda>p. p\<lparr>p_status := js ''active'', p_archived_date := []\<rparr>) (c_people c)\<rparr>, s))"

definition confirmDeletePerson :: "env \<Rightarrow> bool \<Rightarrow> jsstring \<Rightarrow> client \<times> server \<Rightarrow> api_error option \<times> client \<times> server" where
  "confirmDeletePerson e confirmed i = (\<lambda>(c, s).
     if getPerson (c_people c) i = None \<or> \<not> confirmed then (None, c, s)
     else case call e (DelPersonR i) (c, s) of
            (Inl x, c, s) \<Rightarrow> (Some x, c, s)
          | (Inr _, c, s) \<Rightarrow> (None, c\<lparr>c_people := filter (\<lambda>x. p_id x \<noteq> i) (c_people c)\<rparr>, s))"

section \<open>Projects\<close>

record project_form =
  jf_name :: jsstring
  jf_emoji :: jsstring
  jf_description :: jsstring
  jf_url :: jsstring
  jf_start :: jsstring
  jf_end :: jsstring
  jf_status :: jsstring
  jf_lead :: jsstring

definition form_project :: "project_form \<Rightarrow> project \<Rightarrow> project" where
  "form_project f p = p\<lparr>pr_name := js_trim (jf_name f), pr_emoji := or_else (js_trim (jf_emoji f)) emoji_folder,
     pr_description := js_trim (jf_description f), pr_url := js_trim (jf_url f), pr_start_date := js_trim (jf_start f),
     pr_end_date := js_trim (jf_end f), pr_status := jf_status f, pr_team_lead := jf_lead f\<rparr>"

definition submitAddProject :: "(jsstring \<Rightarrow> jsstring) \<Rightarrow> env \<Rightarrow> project_form \<Rightarrow> client \<times> server
    \<Rightarrow> api_error option \<times> client \<times> server" where
  "submitAddProject lower e f = (\<lambda>(c, s).
     if js_trim (jf_name f) = [] then (None, c, s)
     else if getProjectByName lower (c_projects c) (js_trim (jf_name f)) \<noteq> None then (None, c, s)
     else case call e (PostProjectR (form_project f no_project)) (c, s) of
            (Inl x, c, s) \<Rightarrow> (Some x, c, s)
          | (Inr reply, c, s) \<Rightarrow>
              let proj = (case reply of RProject q \<Rightarrow> q | _ \<Rightarrow> no_project)
              in (None, if list_ex (\<lambda>x. pr_id x = pr_id proj) (c_projects c) then c
                        else c\<lparr>c_projects := c_projects c @ [proj]\<rparr>, s))"

definition submitEditProject :: "env \<Rightarrow> jsstring \<Rightarrow> project_form \<Rightarrow> client \<times> server
    \<Rightarrow> api_error option \<times> client \<times> server" where
  "submitEditProject e i f = (\<lambda>(c, s).
     if js_trim (jf_name f) = [] then (None, c, s)
     else case call e (PutProjectR i (form_project f no_project)) (c, s) of
            (Inl x, c, s) \<Rightarrow> (Some x, c, s)
          | (Inr _, c, s) \<Rightarrow>
              (None, c\<lparr>c_projects := update_first (\<lambda>p. pr_id p = i) (form_project f) (c_projects c)\<rparr>, s))"

definition confirmDeleteProject :: "env \<Rightarrow> bool \<Rightarrow> jsstring \<Rightarrow> client \<times> server \<Rightarrow> api_error option \<times> client \<times> server" where
  "confirmDeleteProject e confirmed i = (\<lambda>(c, s).
     if getProject (c_projects c) i = None \<or> \<not> confirmed then (None, c, s)
     else case call e (DelProjectR i) (c, s) of
            (Inl x, c, s) \<Rightarrow> (Some x, c, s)
          | (Inr _, c, s) \<Rightarrow> (None, c\<lparr>c_projects := filter (\<lambda>x. pr_id x \<noteq> i) (c_projects c)\<rparr>, s))"

text \<open>The directory operations of the interface.\<close>

datatype dir_op =
    AddPersonOp bool person_form
  | EditPersonOp jsstring person_form
  | ArchiveOp bool jsstring
  | RestoreOp jsstring
  | DeletePersonOp bool jsstring
  | AddProjectOp project_form
  | EditProjectOp jsstring project_form
  | DeleteProjectOp bool jsstring

fun run_dir_op :: "(jsstring \<Rightarrow> jsstring) \<Rightarrow> env \<Rightarrow> dir_op \<Rightarrow> client \<times> server \<Rightarrow> api_error option \<times> client \<times> server" where
  "run_dir_op lower e (AddPersonOp g f) = submitAddPerson e g f"
| "run_dir_op lower e (EditPersonOp i f) = submitEditPerson e i f"
| "run_dir_op lower e (ArchiveOp b i) = confirmArchivePerson e b i"
| "run_dir_op lower e (RestoreOp i) = restorePerson e i"
| "run_dir_op lower e (DeletePersonOp b i) = confirmDeletePerson e b i"
| "run_dir_op lower e (AddProjectOp f) = submitAddProject lower e f"
| "run_dir_op lower e (EditProjectOp i f) = submitEditProject e i f"
| "run_dir_op lower e (DeleteProjectOp b i) = confirmDeleteProject e b i"

section \<open>Settings and administration\<close>

text \<open>The handlers of the settings inputs; \<open>n\<close> is the number the input's value denotes.\<close>

definition put_setting :: "env \<Rightarrow> jsstring \<Rightarrow> jsstring \<Rightarrow> (settings \<Rightarrow> settings) \<Rightarrow> client \<times> server
    \<Rightarrow> api_error option \<times> client \<times> server" where
  "put_setting e k v upd = (\<lambda>(c, s).
     case call e (PutSettingR k v) (c, s) of
       (Inl x, c, s) \<Rightarrow> (Some x, c, s)
     | (Inr _, c, s) \<Rightarrow> (None, c\<lparr>c_settings := upd (c_settings c)\<rparr>, s))"

definition setWindowWeeks :: "env \<Rightarrow> int \<Rightarrow> client \<times> server \<Rightarrow> api_error option \<times> client \<times> server" where
  "setWindowWeeks e n = put_setting e (js ''window_weeks'') (str_of_int (max 3 n)) (window_weeks_update (\<lambda>_. Number (max 3 n)))"

definition setRunMode :: "env \<Rightarrow> jsstring \<Rightarrow> client \<times> server \<Rightarrow> api_error option \<times> client \<times> server" where
  "setRunMode e v = put_setting e (js ''run_mode'') v (run_mode_update (\<lambda>_. v))"

definition setRunTarget :: "env \<Rightarrow> int \<Rightarrow> client \<times> server \<Rightarrow> api_error option \<times> client \<times> server" where
  "setRunTarget e n = put_setting e (js ''run_target_persons'') (str_of_int n) (run_target_persons_update (\<lambda>_. Number n))"

definition setPruneWeeks :: "env \<Rightarrow> int \<Rightarrow> client \<times> server \<Rightarrow> api_error option \<times> client \<times> server" where
  "setPruneWeeks e n = put_setting e (js ''prune_weeks'') (str_of_int (max 1 n)) (prune_weeks_update (\<lambda>_. Number (max 1 n)))"

definition pruneOld :: "env \<Rightarrow> bool \<Rightarrow> client \<times> server \<Rightarrow> api_error option \<times> client \<times> server" where
  "pruneOld e confirmed cs =
     (if \<not> confirmed then (None, cs)
      else case call e PruneR cs of (Inl x, cs) \<Rightarrow> (Some x, cs) | (Inr _, cs) \<Rightarrow> reloadPlanning e cs)"

definition resetAll :: "env \<Rightarrow> bool \<Rightarrow> client \<times> server \<Rightarrow> api_error option \<times> client \<times> server" where
  "resetAll e confirmed cs =
     (if \<not> confirmed then (None, cs)
      else case call e ResetR cs of (Inl x, cs) \<Rightarrow> (Some x, cs) | (Inr _, cs) \<Rightarrow> loadAll e cs)"

section \<open>The client's copy\<close>

definition directory_synced :: "client \<Rightarrow> server \<Rightarrow> bool" where
  "directory_synced c s \<longleftrightarrow> (\<forall>i. getPerson (c_people c) i = getPerson (sv_people s) i)
     \<and> (\<forall>i. getProject (c_projects c) i = getProject (sv_projects s) i)"

text \<open>Primary keys, and an identifier generator that does not repeat itself.\<close>

definition rows_ok :: "server \<Rightarrow> bool" where
  "rows_ok s \<longleftrightarrow> distinct (map p_id (sv_people s)) \<and> distinct (map pr_id (sv_projects s))
     \<and> distinct (map pr_name (sv_projects s))"

definition fresh_id :: "server \<Rightarrow> bool" where
  "fresh_id s \<longleftrightarrow> sv_uuid s (sv_uuids_used s) \<noteq> []
     \<and> sv_uuid s (sv_uuids_used s) \<notin> p_id ` set (sv_people s) \<union> pr_id ` set (sv_projects s)"

lemma getPerson_update_first:
  "(\<And>q. p_id q = j \<Longrightarrow> p_id (f q) = j) \<Longrightarrow>
   getPerson (update_first (\<lambda>x. p_id x = j) f t) i = (if i = j then map_option f (getPerson t i) else getPerson t i)"
  by (induction t) auto

lemma getProject_update_first:
  "(\<And>q. pr_id q = j \<Longrightarrow> pr_id (f q) = j) \<Longrightarrow>
   getProject (update_first (\<lambda>x. pr_id x = j) f t) i = (if i = j then map_option f (getProject t i) else getProject t i)"
  by (induction t) auto

lemma person_absent:
  "getPerson t i = None \<Longrightarrow> update_first (\<lambda>x. p_id x = i) f t = t \<and> \<not> list_ex (\<lambda>x. p_id x = i) t"
  by (induction t) (auto split: if_splits)

lemma project_absent:
  "getProject t i = None \<Longrightarrow> update_first (\<lambda>x. pr_id x = i) f t = t \<and> \<not> list_ex (\<lambda>x. pr_id x = i) t"
  by (induction t) (auto split: if_splits)

lemma get_UpdatePerson:
  "getPerson (UpdatePerson j p t) i =
     (if i = j then map_option (\<lambda>q. p\<lparr>p_id := j, p_ics_token := p_ics_token q\<rparr>) (getPerson t i) else getPerson t i)"
  by (induction t) (auto simp: UpdatePerson_def)

lemma get_project_row:
  "getProject (project_row j p t) i =
     (if i = j then map_option (\<lambda>_. p\<lparr>pr_id := j\<rparr>) (getProject t i) else getProject t i)"
  by (induction t) (auto simp: project_row_def)

lemma get_ArchivePerson:
  "getPerson (ArchivePerson d j t) i =
     (if i = j then map_option (\<lambda>q. q\<lparr>p_status := js ''archived'', p_archived_date := fmtDate d\<rparr>) (getPerson t i)
      else getPerson t i)"
  by (induction t) (auto simp: ArchivePerson_def)

lemma get_UnarchivePerson:
  "getPerson (UnarchivePerson j t) i =
     (if i = j then map_option (\<lambda>q. q\<lparr>p_status := js ''active'', p_archived_date := []\<rparr>) (getPerson t i)
      else getPerson t i)"
  by (induction t) (auto simp: UnarchivePerson_def)

lemma get_DeletePerson: "getPerson (DeletePerson j t) i = (if i = j then None else getPerson t i)"
  by (simp add: DeletePerson_def getPerson_filter)

lemma get_DeleteProject: "getProject (DeleteProject j t) i = (if i = j then None else getProject t i)"
  by (simp add: DeleteProject_def getProject_filter)

lemmas directory_gets = getPerson_update_first getProject_update_first get_UpdatePerson get_project_row
  get_ArchivePerson get_UnarchivePerson get_DeletePerson get_DeleteProject getPerson_filter getProject_filter
  getPerson_append getProject_append

text \<open>No other project has the name.\<close>

definition name_free :: "jsstring \<Rightarrow> jsstring \<Rightarrow> project list \<Rightarrow> bool" where
  "name_free i n t \<longleftrightarrow> list_all (\<lambda>q. pr_id q = i \<or> pr_name q \<noteq> n) t"

lemma UpdateProject_eq:
  "UpdateProject i p t = (if getProject t i = None \<or> name_free i (pr_name p) t then Some (project_row i p t) else None)"
  using project_absent [of t i id] by (auto simp: UpdateProject_def name_free_def list_ex_iff list_all_iff getProject_None)

lemma absent_row: "i \<notin> pr_id ` set t \<Longrightarrow> project_row i p t = t"
  unfolding project_row_def by (rule map_idI) auto

lemma distinct_names_row:
  "distinct (map pr_id t) \<Longrightarrow> distinct (map pr_name t) \<Longrightarrow> getProject t i = None \<or> name_free i (pr_name p) t \<Longrightarrow>
   distinct (map pr_name (project_row i p t))"
proof (induction t)
  case (Cons q t)
  show ?case
  proof (cases "pr_id q = i")
    case True
    then have "project_row i p t = t" "pr_name p \<notin> pr_name ` set t"
      using Cons.prems by (auto simp: absent_row name_free_def list_all_iff) (metis image_eqI)
    with True Cons.prems show ?thesis by (simp add: project_row_def)
  next
    case False
    have "pr_name q \<notin> pr_name ` set (project_row i p t)"
      using False Cons.prems by (auto simp: project_row_def name_free_def getProject_None split: if_splits)
    moreover have "distinct (map pr_name (project_row i p t))"
      using Cons False by (auto simp: name_free_def)
    moreover have "project_row i p (q # t) = q # project_row i p t" using False by (simp add: project_row_def)
    ultimately show ?thesis by simp
  qed
qed (simp add: project_row_def)

lemma own_name_free: "distinct (map pr_name t) \<Longrightarrow> getProject t i = Some p \<Longrightarrow> name_free i (pr_name p) t"
  by (induction t) (auto simp: name_free_def list_all_iff image_iff getProject_def dest: find_Some_iff2 split: if_splits)

lemma rows_ok_delete:
  "rows_ok s \<Longrightarrow> rows_ok (cascade_person i s)"
  "rows_ok s \<Longrightarrow> rows_ok (s\<lparr>sv_projects := DeleteProject i (sv_projects s)\<rparr>)"
  by (simp_all add: rows_ok_def DeletePerson_def DeleteProject_def distinct_map_filter)

lemma rows_ok_update:
  "rows_ok s \<Longrightarrow> rows_ok (s\<lparr>sv_people := UpdatePerson i p (sv_people s)\<rparr>)"
  "rows_ok s \<Longrightarrow> rows_ok (s\<lparr>sv_people := ArchivePerson d i (sv_people s)\<rparr>)"
  "rows_ok s \<Longrightarrow> rows_ok (s\<lparr>sv_people := UnarchivePerson i (sv_people s)\<rparr>)"
  "rows_ok s \<Longrightarrow> UpdateProject i q (sv_projects s) = Some u \<Longrightarrow> rows_ok (s\<lparr>sv_projects := u\<rparr>)"
  using distinct_names_row by (auto simp: rows_ok_def UpdateProject_eq split: if_splits)

definition in_step :: "api_error option \<times> client \<times> server \<Rightarrow> bool" where
  "in_step = (\<lambda>(err, c, s). err = None \<and> directory_synced c s \<and> rows_ok s)"

lemma form_person_ids [simp]: "p_id (form_person f p) = p_id p" "p_ics_token (form_person f p) = p_ics_token p"
  "p_name (form_person f p) = js_trim (pf_name f)" "p_avatar_emoji (form_person f p) \<noteq> []"
  by (simp_all add: form_person_def or_else_def emoji_person_def)

lemma form_project_ids [simp]: "pr_id (form_project f p) = pr_id p" "pr_name (form_project f p) = js_trim (jf_name f)"
  by (simp_all add: form_project_def)

definition dir_ready :: "env \<Rightarrow> client \<Rightarrow> server \<Rightarrow> bool" where
  "dir_ready e c s \<longleftrightarrow> env_ok e \<and> may_write s \<and> env_today e = sv_today s \<and> directory_synced c s
     \<and> rows_ok s \<and> fresh_id s"

lemma call_dir:
  assumes "dir_ready e c s" "open_request r"
  shows "call e r (c, s) = (let (st, b, s') = handle r s in (Inr b, c, s'))"
  using assms by (intro call_ok) (auto simp: dir_ready_def may_write_session)

lemma add_person_in_step:
  assumes r: "dir_ready e c s"
  shows "in_step (submitAddPerson e g f (c, s))"
proof (cases "js_trim (pf_name f) = []")
  case True
  with r show ?thesis by (simp add: submitAddPerson_def in_step_def dir_ready_def)
next
  case False
  let ?id = "sv_uuid s (sv_uuids_used s)"
  let ?p = "form_person f (no_person\<lparr>p_is_guest := g, p_status := js ''active''\<rparr>)"
  have fresh: "?id \<noteq> []" "?id \<notin> p_id ` set (sv_people s)" and rows: "rows_ok s" and sync: "directory_synced c s"
    using r by (auto simp: dir_ready_def fresh_id_def)
  obtain q where q: "AddPerson ?id ?p (sv_people s) = Some (q, sv_people s @ [q])" "p_id q = ?id"
    using fresh by (simp add: AddPerson_def Let_def no_person_def or_else_def)
  have none: "getPerson (c_people c) ?id = None"
    using sync fresh by (simp add: directory_synced_def getPerson_None)
  then have "\<not> list_ex (\<lambda>x. p_id x = ?id) (c_people c)"
    using person_absent by blast
  then have "submitAddPerson e g f (c, s) = (None, c\<lparr>c_people := c_people c @ [q]\<rparr>,
      s\<lparr>sv_people := sv_people s @ [q], sv_uuids_used := Suc (sv_uuids_used s)\<rparr>)"
    using False q by (simp add: submitAddPerson_def call_dir [OF r])
  then show ?thesis
    using sync rows fresh q(2) by (simp add: in_step_def directory_synced_def rows_ok_def getPerson_append)
qed

lemma edit_person_in_step:
  assumes r: "dir_ready e c s"
  shows "in_step (submitEditPerson e i f (c, s))"
proof (cases "js_trim (pf_name f) = []")
  case True
  with r show ?thesis by (simp add: submitEditPerson_def in_step_def dir_ready_def)
next
  case False
  have sync: "directory_synced c s" and rows: "rows_ok s"
    using r by (auto simp: dir_ready_def)
  have same: "getPerson (c_people c) j = getPerson (sv_people s) j" for j
    using sync by (simp add: directory_synced_def)
  show ?thesis
  proof (cases "getPerson (sv_people s) i")
    case None
    then have "submitEditPerson e i f (c, s) = (None, c, s)"
      using False same [of i] by (simp add: submitEditPerson_def call_dir [OF r] get_UpdatePerson person_absent)
    with sync rows show ?thesis by (simp add: in_step_def)
  next
    case (Some p)
    have p: "p_id p = i" using getPerson_id [OF Some] by simp
    let ?u = "form_person f p"
    have u: "?u\<lparr>p_id := i, p_ics_token := p_ics_token p\<rparr> = ?u"
      by (simp add: form_person_def p [symmetric])
    have "submitEditPerson e i f (c, s) =
        (None, c\<lparr>c_people := update_first (\<lambda>x. p_id x = i) (\<lambda>_. ?u) (c_people c)\<rparr>,
         s\<lparr>sv_people := UpdatePerson i ?u (sv_people s)\<rparr>)"
      using False same [of i] Some by (simp add: submitEditPerson_def call_dir [OF r] get_UpdatePerson Let_def)
    moreover have "directory_synced (c\<lparr>c_people := update_first (\<lambda>x. p_id x = i) (\<lambda>_. ?u) (c_people c)\<rparr>)
        (s\<lparr>sv_people := UpdatePerson i ?u (sv_people s)\<rparr>)"
      using sync Some u p by (simp add: directory_synced_def directory_gets)
    ultimately show ?thesis
      using rows by (simp add: in_step_def rows_ok_update)
  qed
qed

lemma status_in_step:
  assumes r: "dir_ready e c s"
  shows "in_step (confirmArchivePerson e b i (c, s))" "in_step (restorePerson e i (c, s))"
    "in_step (confirmDeletePerson e b i (c, s))" "in_step (confirmDeleteProject e b i (c, s))"
proof -
  have sync: "directory_synced c s" and rows: "rows_ok s" and today: "env_today e = sv_today s"
    using r by (auto simp: dir_ready_def)
  show "in_step (confirmArchivePerson e b i (c, s))"
    using sync rows today
    by (auto simp: confirmArchivePerson_def in_step_def call_dir [OF r] directory_synced_def directory_gets rows_ok_update)
  show "in_step (restorePerson e i (c, s))"
    using sync rows
    by (auto simp: restorePerson_def in_step_def call_dir [OF r] directory_synced_def directory_gets rows_ok_update)
  show "in_step (confirmDeletePerson e b i (c, s))"
    using sync rows
    by (auto simp: confirmDeletePerson_def in_step_def call_dir [OF r] directory_synced_def directory_gets rows_ok_delete)
  show "in_step (confirmDeleteProject e b i (c, s))"
    using sync rows
    by (auto simp: confirmDeleteProject_def in_step_def call_dir [OF r] directory_synced_def directory_gets rows_ok_delete)
qed

lemma name_found:
  assumes "p \<in> set (sv_projects s)" "directory_synced c s" "rows_ok s"
  shows "getProjectByName lower (c_projects c) (pr_name p) \<noteq> None"
proof -
  have "getProject t (pr_id p) = Some p" if "distinct (map pr_id t)" "p \<in> set t" for t
    using that by (induction t) (auto simp: image_iff)
  then have "getProject (c_projects c) (pr_id p) = Some p"
    using assms by (simp add: directory_synced_def rows_ok_def)
  then have "p \<in> set (c_projects c)"
    by (auto simp: getProject_def dest: find_Some_iff2)
  then show ?thesis
    by (auto simp: getProjectByName_def find_None_iff)
qed

lemma add_project_in_step:
  assumes r: "dir_ready e c s"
  shows "in_step (submitAddProject lower e f (c, s))"
proof -
  have fresh: "sv_uuid s (sv_uuids_used s) \<noteq> []" "sv_uuid s (sv_uuids_used s) \<notin> pr_id ` set (sv_projects s)"
    and rows: "rows_ok s" and sync: "directory_synced c s"
    using r by (auto simp: dir_ready_def fresh_id_def)
  show ?thesis
  proof (cases "js_trim (jf_name f) = [] \<or> getProjectByName lower (c_projects c) (js_trim (jf_name f)) \<noteq> None")
    case True
    with sync rows show ?thesis by (auto simp: submitAddProject_def in_step_def)
  next
    case False
    let ?id = "sv_uuid s (sv_uuids_used s)"
    let ?p = "form_project f no_project"
    have new: "js_trim (jf_name f) \<notin> pr_name ` set (sv_projects s)"
      using False name_found [OF _ sync rows] by fastforce
    obtain q where q: "AddProject ?id ?p (sv_projects s) = Some (q, sv_projects s @ [q])" "pr_id q = ?id"
      using fresh new by (simp add: AddProject_def Let_def or_else_def) (simp add: no_project_def)
    have qn: "pr_name q = js_trim (jf_name f)"
      using q by (auto simp: AddProject_def Let_def split: if_splits)
    have "getProject (c_projects c) ?id = None"
      using sync fresh by (simp add: directory_synced_def getProject_None)
    then have "\<not> list_ex (\<lambda>x. pr_id x = ?id) (c_projects c)"
      using project_absent by blast
    then have "submitAddProject lower e f (c, s) = (None, c\<lparr>c_projects := c_projects c @ [q]\<rparr>,
        s\<lparr>sv_projects := sv_projects s @ [q], sv_uuids_used := Suc (sv_uuids_used s)\<rparr>)"
      using False q new by (simp add: submitAddProject_def call_dir [OF r])
    then show ?thesis
      using sync rows fresh q(2) new qn by (simp add: in_step_def directory_synced_def rows_ok_def getProject_append)
  qed
qed

text \<open>The client compares names when a project is added but not when it is edited.\<close>

fun dir_op_fits :: "server \<Rightarrow> dir_op \<Rightarrow> bool" where
  "dir_op_fits s (EditProjectOp i f) = name_free i (js_trim (jf_name f)) (sv_projects s)"
| "dir_op_fits s oper = True"

lemma edit_project_in_step:
  assumes r: "dir_ready e c s" and free: "name_free i (js_trim (jf_name f)) (sv_projects s)"
  shows "in_step (submitEditProject e i f (c, s))"
proof (cases "js_trim (jf_name f) = []")
  case True
  with r show ?thesis by (simp add: submitEditProject_def in_step_def dir_ready_def)
next
  case False
  have sync: "directory_synced c s" and rows: "rows_ok s"
    using r by (auto simp: dir_ready_def)
  have same: "getProject (c_projects c) j = getProject (sv_projects s) j" for j
    using sync by (simp add: directory_synced_def)
  have eq: "(form_project f no_project)\<lparr>pr_id := pr_id p\<rparr> = form_project f p" for p
    by (simp add: form_project_def no_project_def)
  have upd: "UpdateProject i (form_project f no_project) (sv_projects s) = Some (project_row i (form_project f no_project) (sv_projects s))"
    using free by (simp add: UpdateProject_eq)
  show ?thesis
  proof (cases "getProject (sv_projects s) i")
    case None
    then have "submitEditProject e i f (c, s) = (None, c, s)"
      using False same [of i] by (simp add: submitEditProject_def call_dir [OF r] upd get_project_row project_absent)
    with sync rows show ?thesis by (simp add: in_step_def)
  next
    case (Some p)
    have p: "pr_id p = i" using Some by (auto simp: getProject_def dest: find_Some_iff2)
    have "submitEditProject e i f (c, s) =
        (None, c\<lparr>c_projects := update_first (\<lambda>x. pr_id x = i) (form_project f) (c_projects c)\<rparr>,
         s\<lparr>sv_projects := project_row i (form_project f no_project) (sv_projects s)\<rparr>)"
      using False Some by (simp add: submitEditProject_def call_dir [OF r] upd get_project_row)
    moreover have "directory_synced (c\<lparr>c_projects := update_first (\<lambda>x. pr_id x = i) (form_project f) (c_projects c)\<rparr>)
        (s\<lparr>sv_projects := project_row i (form_project f no_project) (sv_projects s)\<rparr>)"
      using sync Some eq [of p] p by (simp add: directory_synced_def directory_gets)
    ultimately show ?thesis
      using rows_ok_update(4) [OF rows upd] by (simp add: in_step_def)
  qed
qed

lemma run_dir_op_in_step: "dir_ready e c s \<Longrightarrow> dir_op_fits s oper \<Longrightarrow> in_step (run_dir_op lower e oper (c, s))"
  by (cases oper) (simp_all add: add_person_in_step edit_person_in_step status_in_step add_project_in_step
    edit_project_in_step)

section \<open>Starting\<close>

definition loaded_client :: "server \<Rightarrow> client \<Rightarrow> client" where
  "loaded_client s c = c\<lparr>c_people := ListPeople (sv_people s), c_projects := ListProjects (sv_projects s),
     c_settings := settingsFromMap (sv_settings s), c_holidays := sort_key h_date (sv_holidays s)\<rparr>"

lemma loadAll_eq:
  assumes "env_ok e" "sv_session s \<noteq> None"
  shows "loadAll e (c, s) = reloadPlanning e (loaded_client s c, s)"
  by (simp add: loadAll_def loaded_client_def call_read [OF assms] Let_def)

lemma lists_by_name:
  assumes "rows_ok s"
  shows "getPerson (ListPeople (sv_people s)) i = getPerson (sv_people s) i"
    "getProject (ListProjects (sv_projects s)) j = getProject (sv_projects s) j"
  using assms unfolding rows_ok_def ListPeople_def ListProjects_def
  by (auto intro!: getPerson_perm getProject_perm)

lemma loadAll_main:
  assumes "env_ok e" "sv_session s \<noteq> None" "client_weeks e (loaded_client s c) \<noteq> []" "rows_ok s"
    and "loadAll e (c, s) = (err, c', s')"
  shows "err = None \<and> s' = s \<and> directory_synced c' s \<and> c_settings c' = settingsFromMap (sv_settings s) \<and> synced e c' s"
proof -
  have w: "win_start e (loaded_client s c) \<noteq> []" "win_end e (loaded_client s c) \<noteq> []"
    using window_dates_nonempty [OF assms(3)] by auto
  note eq = assms(5) [unfolded loadAll_eq [OF assms(1,2)] reload_ok [OF assms(1,2,3) w], symmetric]
  show ?thesis
    using eq by (simp add: loaded_client_def directory_synced_def lists_by_name [OF assms(4)] synced_def
        win_start_def win_end_def client_weeks_def)
qed

section \<open>Properties\<close>

text \<open>After \<open>loadAll\<close> with a working server the client holds every person and project of the
  server, its settings, and the planning, on-call and rotation of the visible window.\<close>

theorem start_loads_everything:
  assumes "env_ok e" and "sv_session s \<noteq> None" and "client_weeks e (loaded_client s c) \<noteq> []" and "rows_ok s"
    and "plain_store (sv_planning s)" and "plain_ref r"
  shows "case loadAll e (c, s) of (err, c', s') \<Rightarrow> err = None \<and> s' = s
     \<and> getPerson (c_people c') i = getPerson (sv_people s) i \<and> getProject (c_projects c') j = getProject (sv_projects s) j
     \<and> c_settings c' = settingsFromMap (sv_settings s)
     \<and> dict_get (c_planning c') (ref_key r) = (if in_window e c' r then read_slot (sv_planning s) r else None)"
proof -
  obtain err c' s' where run: "loadAll e (c, s) = (err, c', s')" by (metis prod.exhaust)
  have main: "err = None" "s' = s" "directory_synced c' s" "c_settings c' = settingsFromMap (sv_settings s)" "synced e c' s"
    using loadAll_main [OF assms(1-4) run] by auto
  show ?thesis
    using main(1-4) synced_get [OF main(5) assms(5,6)] by (simp add: run directory_synced_def)
qed

theorem start_loads_everything_witness:
  "case loadAll demo_env (demo_client, demo_server) of (err, c', s') \<Rightarrow> err = None \<and> s' = demo_server
     \<and> getPerson (c_people c') (js ''p1'') = getPerson (sv_people demo_server) (js ''p1'')
     \<and> getProject (c_projects c') (js ''j1'') = getProject (sv_projects demo_server) (js ''j1'')
     \<and> c_settings c' = settingsFromMap (sv_settings demo_server)
     \<and> dict_get (c_planning c') (ref_key demo_ref) =
         (if in_window demo_env c' demo_ref then read_slot (sv_planning demo_server) demo_ref else None)"
proof (rule start_loads_everything [OF demo_env_ok _ _ _ demo_plain])
  show "sv_session demo_server \<noteq> None" "rows_ok demo_server" by (simp_all add: demo_server_def rows_ok_def)
  show "client_weeks demo_env (loaded_client demo_server demo_client) \<noteq> []"
    by (simp add: client_weeks_def getVisibleWeeks_def loaded_client_def settingsFromMap_def demo_server_def
        dict_get_or_def atoiOr_def Let_def)
  show "plain_ref demo_ref" using demo_proper by (simp add: proper_ref_def)
qed


definition demo_person_form :: person_form where
  "demo_person_form = \<lparr>pf_name = js '' Ann '', pf_role = [], pf_team = js ''Core'', pf_emoji = [], pf_projects = js ''Atlas, ,Beacon''\<rparr>"

definition demo_project_form :: project_form where
  "demo_project_form = \<lparr>jf_name = js ''Atlas'', jf_emoji = [], jf_description = [], jf_url = [], jf_start = [],
     jf_end = [], jf_status = js ''in_progress'', jf_lead = []\<rparr>"

lemma demo_dir_ready: "dir_ready demo_env demo_client demo_server"
  by (simp add: dir_ready_def demo_env_ok demo_write directory_synced_def rows_ok_def fresh_id_def)
    (simp add: demo_env_def demo_server_def demo_client_def demo_ann_def js_def)


text \<open>Editing a project asks nobody whether the new name is free: the table refuses the name of another project, the
  client takes the answer for a success and shows two projects of one name.\<close>

theorem taken_name_shown:
  assumes "dir_ready e c s" and "getProject (sv_projects s) i = Some p" and "js_trim (jf_name f) \<noteq> []"
    and "\<not> name_free i (js_trim (jf_name f)) (sv_projects s)"
  shows "case submitEditProject e i f (c, s) of (err, c', s') \<Rightarrow> err = None \<and> s' = s
     \<and> getProject (c_projects c') i = Some (form_project f p) \<and> pr_name (form_project f p) \<noteq> pr_name p
     \<and> \<not> name_free i (js_trim (jf_name f)) (sv_projects s')"
proof -
  have "pr_id p = i" using assms(2) by (auto simp: getProject_def dest: find_Some_iff2)
  moreover have "getProject (c_projects c) i = Some p" using assms(1,2) by (simp add: dir_ready_def directory_synced_def)
  moreover have "pr_name p \<noteq> js_trim (jf_name f)"
    using own_name_free [OF _ assms(2)] assms(1,4) by (auto simp: dir_ready_def rows_ok_def)
  ultimately show ?thesis
    using assms(2-4) by (simp add: submitEditProject_def call_dir [OF assms(1)] UpdateProject_eq getProject_update_first)
qed

definition demo_two_projects :: "project list" where
  "demo_two_projects = [no_project\<lparr>pr_id := js ''j1'', pr_name := js ''Atlas''\<rparr>, no_project\<lparr>pr_id := js ''j2'', pr_name := js ''Beacon''\<rparr>]"

theorem taken_name_shown_witness:
  "case submitEditProject demo_env (js ''j2'') demo_project_form
      (demo_client\<lparr>c_projects := demo_two_projects\<rparr>, demo_server\<lparr>sv_projects := demo_two_projects\<rparr>) of (err, c', s') \<Rightarrow>
     err = None \<and> s' = demo_server\<lparr>sv_projects := demo_two_projects\<rparr>
     \<and> getProject (c_projects c') (js ''j2'') = Some (form_project demo_project_form (demo_two_projects ! 1))
     \<and> pr_name (form_project demo_project_form (demo_two_projects ! 1)) \<noteq> pr_name (demo_two_projects ! 1)
     \<and> \<not> name_free (js ''j2'') (js_trim (jf_name demo_project_form)) (sv_projects s')"
proof (rule taken_name_shown)
  have w: "may_write (demo_server\<lparr>sv_projects := demo_two_projects\<rparr>)" using demo_write by (simp add: may_write_def)
  show "dir_ready demo_env (demo_client\<lparr>c_projects := demo_two_projects\<rparr>) (demo_server\<lparr>sv_projects := demo_two_projects\<rparr>)"
    by (simp add: dir_ready_def demo_env_ok w directory_synced_def rows_ok_def fresh_id_def)
      (simp add: demo_env_def demo_server_def demo_client_def demo_ann_def demo_two_projects_def js_def)
qed (simp_all add: demo_two_projects_def demo_project_form_def name_free_def js_def js_trim_def is_space_def)

text \<open>\<open>API.call\<close> takes a refused write for a successful one: when the database fails, saving
  an edited person raises nothing, changes the client's copy and leaves the server as it was.\<close>

theorem failed_edit_looks_saved:
  assumes "env_net e = (\<lambda>_. Up)" and "env_db_fails e = (\<lambda>_. True)" and "may_write s"
    and "js_trim (pf_name f) \<noteq> []" and "getPerson (c_people c) i = Some p"
  shows "case submitEditPerson e i f (c, s) of (err, c', s') \<Rightarrow>
     err = None \<and> s' = s \<and> getPerson (c_people c') i = Some (form_person f p)"
proof -
  have p: "p_id p = i" using getPerson_id [OF assms(5)] by simp
  have "call e (PutPersonR i (form_person f p)) (c, s) = (Inr RError, c, s)"
    using assms(1-3) by (cases "sv_session s") (simp_all add: call_def serve_def may_write_def)
  then show ?thesis
    using assms(4,5) p by (simp add: submitEditPerson_def getPerson_update_first Let_def)
qed

theorem failed_edit_looks_saved_witness:
  "case submitEditPerson (demo_env\<lparr>env_db_fails := (\<lambda>_. True)\<rparr>) [] demo_person_form
      (demo_client\<lparr>c_people := [no_person]\<rparr>, demo_server) of (err, c', s') \<Rightarrow>
     err = None \<and> s' = demo_server \<and> getPerson (c_people c') [] = Some (form_person demo_person_form no_person)"
proof (rule failed_edit_looks_saved [OF _ _ demo_write])
  show "env_net (demo_env\<lparr>env_db_fails := (\<lambda>_. True)\<rparr>) = (\<lambda>_. Up)" by (simp add: demo_env_def)
  show "env_db_fails (demo_env\<lparr>env_db_fails := (\<lambda>_. True)\<rparr>) = (\<lambda>_. True)" by simp
  show "js_trim (pf_name demo_person_form) \<noteq> []"
    by (simp add: demo_person_form_def js_def js_trim_def is_space_def)
  show "getPerson (c_people (demo_client\<lparr>c_people := [no_person]\<rparr>)) [] = Some no_person"
    by (simp add: no_person_def)
qed

text \<open>A project that the server refuses because its name is taken is added to the client's
  list all the same, as an entry without identifier, name or status.\<close>

theorem refused_project_leaves_blank:
  assumes "env_ok e" and "may_write s" and "js_trim (jf_name f) \<noteq> []"
    and "js_trim (jf_name f) \<in> pr_name ` set (sv_projects s)"
    and "getProjectByName lower (c_projects c) (js_trim (jf_name f)) = None" and "getProject (c_projects c) [] = None"
  shows "submitAddProject lower e f (c, s) = (None, c\<lparr>c_projects := c_projects c @ [no_project]\<rparr>, s)"
proof -
  have "call e (PostProjectR (form_project f no_project)) (c, s) = (Inr RError, c, s)"
    using assms(3,4) call_ok [OF assms(1) may_write_session [OF assms(2)], of _ c] assms(2) by simp
  then show ?thesis
    using assms(3,5) project_absent [OF assms(6)] by (simp add: submitAddProject_def no_project_def)
qed

theorem refused_project_leaves_blank_witness:
  "submitAddProject (\<lambda>s. s) demo_env demo_project_form
      (demo_client, demo_server\<lparr>sv_projects := [form_project demo_project_form (no_project\<lparr>pr_id := js ''j1''\<rparr>)]\<rparr>)
     = (None, demo_client\<lparr>c_projects := c_projects demo_client @ [no_project]\<rparr>,
        demo_server\<lparr>sv_projects := [form_project demo_project_form (no_project\<lparr>pr_id := js ''j1''\<rparr>)]\<rparr>)"
proof (rule refused_project_leaves_blank [OF demo_env_ok])
  show "js_trim (jf_name demo_project_form) \<noteq> []"
    by (simp add: demo_project_form_def js_def js_trim_def is_space_def)
qed (use demo_write in \<open>simp_all add: may_write_def demo_client_def getProjectByName_def\<close>)

lemma in_window_day:
  assumes "window_weeks (c_settings c) = Number n" "0 < n"
    and "four_digit_year a" "four_digit_year (a + 7 * n - 1)" "four_digit_year d"
    and a: "a = getWeekStart (env_today e) + 7 * c_scrollOffset c"
  shows "in_window e c (SlotRef p (fmtDate d) sl) \<longleftrightarrow> a \<le> d \<and> d \<le> a + 7 * n - 1"
proof -
  have w: "client_weeks e c = getVisibleWeeks (Number n) (env_today e) (c_scrollOffset c)"
    by (simp add: client_weeks_def assms(1))
  then have "client_weeks e c \<noteq> []"
    using assms(2) length_visible_weeks [of n "env_today e" "c_scrollOffset c"] by auto
  moreover have "last (client_weeks e c) = a + 7 * n - 7" "hd (client_weeks e c) = a"
    using assms(2) hd_visible_weeks [of n "env_today e" "c_scrollOffset c"] last_visible_weeks [of n "env_today e" "c_scrollOffset c"]
    unfolding w a by (simp_all add: algebra_simps)
  ultimately have "win_start e c = fmtDate a" "win_end e c = fmtDate (a + 7 * n - 1)"
    by (simp_all add: win_start_def win_end_def windowEndDate_def formatWeekStart_def setDate_plus)
  with assms(3-5) show ?thesis
    by (simp add: in_window_def fmtDate_le_iff)
qed

text \<open>Widening the window shows the added weeks empty: the setting is saved and the view
  rendered, but no planning is requested for the new weeks, so a slot of the first added week
  that the server holds is in the window and absent from the client.\<close>

theorem wider_window_shows_empty:
  assumes "env_ok e" and "sv_session s \<noteq> None" and "synced e c s" and "plain_store (sv_planning s)"
    and "window_weeks (c_settings c) = Number m" and "0 < m" and "m < n" and "3 \<le> n"
    and "d = getWeekStart (env_today e) + 7 * c_scrollOffset c + 7 * m"
    and "four_digit_year (d - 7 * m)" and "four_digit_year (d + 7 * (n - m) - 1)" and "plain_part p"
    and "slot = js ''am'' \<or> slot = js ''pm''"
    and "read_slot (sv_planning s) (SlotRef p (fmtDate d) slot) = Some x"
  shows "case setWindowWeeks e n (c, s) of (err, c', s') \<Rightarrow> err = None
     \<and> in_window e c' (SlotRef p (fmtDate d) slot)
     \<and> read_slot (sv_planning s') (SlotRef p (fmtDate d) slot) = Some x
     \<and> getSlot (c_planning c') p (fmtDate d) slot = None"
proof -
  let ?r = "SlotRef p (fmtDate d) slot"
  let ?c = "c\<lparr>c_settings := (c_settings c)\<lparr>window_weeks := Number n\<rparr>\<rparr>"
  define a where "a = d - 7 * m"
  have a: "a = getWeekStart (env_today e) + 7 * c_scrollOffset c" "d = a + 7 * m" using assms(9) by (simp_all add: a_def)
  have year: "four_digit_year a" "four_digit_year (a + 7 * n - 1)" using assms(10,11) by (simp_all add: a algebra_simps)
  have d: "four_digit_year d" "four_digit_year (a + 7 * m - 1)"
    by (rule four_digit_convex [OF year], use assms(6,7) a(2) in simp_all)+
  have ref: "plain_ref ?r"
    using assms(12,13) by (auto simp: plain_ref_def fmtDate_plain)
  have out: "\<not> in_window e c ?r"
    using in_window_day [OF assms(5,6) year(1) d(2,1) a(1)] by (simp add: a(2))
  have "in_window e ?c ?r"
    using in_window_day [of ?c n a d e p slot] assms(6,7) year d(1) a by simp
  moreover have "getSlot (c_planning c) p (fmtDate d) slot = None"
    using synced_get [OF assms(3,4) ref] out by (simp add: ref_key_def getSlot_def)
  moreover have "call e (PutSettingR (js ''window_weeks'') v) (c, s) =
      (Inr RDone, c, s\<lparr>sv_settings := dict_set (js ''window_weeks'') v (sv_settings s)\<rparr>)" for v
    using assms(1,2) by (cases "sv_session s")
      (simp_all add: call_def serve_def env_ok_def updateSettings_def all_role_keys_def admin_keys_def)
  ultimately show ?thesis
    using assms(8,14) by (simp add: setWindowWeeks_def put_setting_def max_def)
qed

theorem wider_window_shows_empty_witness:
  "case setWindowWeeks demo_env 6 (demo_client\<lparr>c_planning := [], c_scrollOffset := - 4\<rparr>, demo_server) of (err, c', s') \<Rightarrow>
     err = None
     \<and> in_window demo_env c' (SlotRef (js ''p1'') (fmtDate 20500) (js ''am''))
     \<and> read_slot (sv_planning s') (SlotRef (js ''p1'') (fmtDate 20500) (js ''am'')) = Some demo_slot
     \<and> getSlot (c_planning c') (js ''p1'') (fmtDate 20500) (js ''am'') = None"
proof (rule wider_window_shows_empty [OF demo_env_ok _ _ demo_plain, where m = 4])
  let ?c = "demo_client\<lparr>c_planning := [], c_scrollOffset := - 4\<rparr>"
  have d: "getWeekStart (env_today demo_env) + 7 * c_scrollOffset ?c = 20472"
  proof -
    have "getWeekStart 20500 = 20500" by code_simp
    then show ?thesis by (simp add: demo_env_def)
  qed
  show "sv_session demo_server \<noteq> None" by (simp add: demo_server_def)
  show "window_weeks (c_settings ?c) = Number 4" by (simp add: demo_client_def defaultSettings_def)
  have "\<not> in_window demo_env ?c demo_ref"
  proof -
    have "four_digit_year 20472" "four_digit_year (20472 + 7 * 4 - 1)" "four_digit_year 20500" by code_simp+
    then show ?thesis
      using in_window_day [of ?c 4 20472 20500 demo_env "js ''p1''" "js ''am''"] d [symmetric]
      by (simp add: demo_ref_def demo_client_def defaultSettings_def)
  qed
  then show "synced demo_env ?c demo_server"
    by (auto simp: synced_def demo_server_def GetPlanning_def in_window_def load_entries_def)
  show "20500 = getWeekStart (env_today demo_env) + 7 * c_scrollOffset ?c + 7 * 4"
    unfolding d by simp
  show "four_digit_year (20500 - 7 * 4)" "four_digit_year (20500 + 7 * (6 - 4) - 1)" by code_simp+
  show "plain_part (js ''p1'')" by (simp add: plain_part_def js_def)
  show "read_slot (sv_planning demo_server) (SlotRef (js ''p1'') (fmtDate 20500) (js ''am'')) = Some demo_slot"
    using demo_row demo_proper
    by (simp add: demo_server_def read_slot_def demo_ref_def row_visible_def)
qed simp_all

end
