(* ===== verification/CopyWeek.thy ===== *)
theory CopyWeek
  imports Oncall
begin

text \<open>
  Copying last week's half-days (\<open>copyLastWeek\<close> in \<open>app.js\<close>, \<open>CopyWeek\<close> in
  \<open>internal/store/write.go\<close>): what the server copies, proved slot by slot, and that the
  client's undo takes the copy back.
\<close>

text \<open>\<open>confirmed\<close> is the answer to the question whether to copy.\<close>

definition copy_keys :: "jsstring \<Rightarrow> jsstring \<Rightarrow> jsstring list" where
  "copy_keys personId toWS =
     concat (map (\<lambda>d. map (\<lambda>s. getSlotKey personId (fmtDate d) s) [js ''am'', js ''pm'']) (take 5 (week_days_of toWS)))"

definition copyLastWeek :: "env \<Rightarrow> bool \<Rightarrow> jsstring \<Rightarrow> client \<times> server \<Rightarrow> api_error option \<times> client \<times> server" where
  "copyLastWeek e confirmed personId = (\<lambda>(c, s).
     let weeks = client_weeks e c
     in if length weeks < 2 then (None, c, s)
        else let fromWS = formatWeekStart (addWeeks (hd weeks) (- 1)); toWS = formatWeekStart (hd weeks)
             in if \<not> confirmed then (None, c, s)
                else let c = pushUndo (copy_keys personId toWS) c
                     in case call e (CopyWeekR personId fromWS toWS) (c, s) of
                          (Inl x, c, s) \<Rightarrow> (Some x, c, s)
                        | (Inr _, c, s) \<Rightarrow> reloadPlanning e (c, s))"

section \<open>The rows after a copy\<close>

text \<open>A half-day and its copy as a pair of slots; what ends up at the target.\<close>

definition copy_pair :: "slot_ref \<times> slot_ref \<Rightarrow> nat \<times> store \<Rightarrow> nat \<times> store" where
  "copy_pair = (\<lambda>(f, k) (n, t).
     case dict_get t f of
       None \<Rightarrow> (n, t)
     | Some r \<Rightarrow> if r_away_type r \<noteq> [] \<or> r_is_incident r \<or> dict_get t k \<noteq> None then (n, t)
                else (n + 1, t @ [(k, copied_row r)]))"

definition copied :: "slot_row option \<Rightarrow> slot_row option \<Rightarrow> slot_row option" where
  "copied src target = (case target of Some r \<Rightarrow> Some r | None \<Rightarrow>
     (case src of None \<Rightarrow> None | Some r \<Rightarrow> if r_away_type r \<noteq> [] \<or> r_is_incident r then None else Some (copied_row r)))"

lemma copy_slot_pair:
  "copy_slot pid a b slot = copy_pair (SlotRef pid (fmtDate a) slot, SlotRef pid (fmtDate b) slot)"
  by (auto simp: copy_slot_def copy_pair_def fun_eq_iff split: option.splits)

lemma get_copy_pair:
  "dict_get (snd (copy_pair (f, k) (n, t))) j = (if j = k then copied (dict_get t f) (dict_get t k) else dict_get t j)"
  by (auto simp: copy_pair_def copied_def dict_get_def map_add_def split: option.splits)

lemma get_copy_pairs:
  "distinct (map snd ps) \<Longrightarrow> set (map fst ps) \<inter> set (map snd ps) = {} \<Longrightarrow>
   dict_get (snd (fold copy_pair ps nt)) j =
     (case map_of (map prod.swap ps) j of None \<Rightarrow> dict_get (snd nt) j
      | Some f \<Rightarrow> copied (dict_get (snd nt) f) (dict_get (snd nt) j))"
proof (induction ps arbitrary: nt)
  case Nil
  then show ?case by simp
next
  case (Cons p ps)
  obtain f k where p: "p = (f, k)" by force
  let ?nt = "copy_pair (f, k) nt"
  have get: "dict_get (snd ?nt) i = (if i = k then copied (dict_get (snd nt) f) (dict_get (snd nt) k) else dict_get (snd nt) i)" for i
    using get_copy_pair [of f k "fst nt" "snd nt"] by simp
  have IH: "dict_get (snd (fold copy_pair ps ?nt)) j =
     (case map_of (map prod.swap ps) j of None \<Rightarrow> dict_get (snd ?nt) j
      | Some f \<Rightarrow> copied (dict_get (snd ?nt) f) (dict_get (snd ?nt) j))"
    using Cons.prems by (intro Cons.IH) (auto simp: p)
  have k: "map_of (map prod.swap ps) k = None" "\<And>i g. map_of (map prod.swap ps) i = Some g \<Longrightarrow> g \<noteq> k"
    using Cons.prems by (auto simp: p map_of_eq_None_iff image_image dest!: map_of_SomeD) force+
  show ?case
    using IH k by (auto simp: p get split: option.splits)
qed

definition copy_pairs :: "jsstring \<Rightarrow> date \<Rightarrow> date \<Rightarrow> (slot_ref \<times> slot_ref) list" where
  "copy_pairs pid a b = map (\<lambda>(i, slot). (SlotRef pid (fmtDate (a + int i)) slot, SlotRef pid (fmtDate (b + int i)) slot))
     (List.product [0..<5] [js ''am'', js ''pm''])"

lemma CopyWeek_pairs:
  assumes "parseDate x = Some a" "parseDate y = Some b"
  shows "CopyWeek pid x y t = Some (fold copy_pair (copy_pairs pid a b) (0, t))"
  by (simp add: CopyWeek_def assms copy_slot_pair copy_pairs_def upt_conv_Cons)

lemma week_years:
  assumes "four_digit_year a" "four_digit_year (a + 4)" "i < 5"
  shows "four_digit_year (a + int i)"
  by (rule four_digit_convex [OF assms(1,2)]) (use assms(3) in simp_all)

text \<open>The weeks are apart and their dates have four-digit years.\<close>

definition weeks_apart :: "date \<Rightarrow> date \<Rightarrow> bool" where
  "weeks_apart a b \<longleftrightarrow> four_digit_year a \<and> four_digit_year (a + 4) \<and> four_digit_year b \<and> four_digit_year (b + 4) \<and> a + 5 \<le> b"

lemma copy_pairs_ok:
  assumes "weeks_apart a b"
  shows "distinct (map snd (copy_pairs pid a b))"
    "set (map fst (copy_pairs pid a b)) \<inter> set (map snd (copy_pairs pid a b)) = {}"
proof -
  have y: "four_digit_year (a + int i)" "four_digit_year (b + int i)" if "i < 5" for i
    using that assms week_years unfolding weeks_apart_def by blast+
  have "inj_on (\<lambda>(i, slot). SlotRef pid (fmtDate (b + int i)) slot) (set (List.product [0..<5] [js ''am'', js ''pm'']))"
    using y by (auto simp: inj_on_def fmtDate_inj)
  then show "distinct (map snd (copy_pairs pid a b))"
    by (simp add: copy_pairs_def distinct_map distinct_product comp_def split_def js_eq_iff)
  show "set (map fst (copy_pairs pid a b)) \<inter> set (map snd (copy_pairs pid a b)) = {}"
    using y assms by (auto simp: copy_pairs_def fmtDate_inj weeks_apart_def)
qed

lemma copy_source:
  assumes "weeks_apart a b"
  shows "i < 5 \<Longrightarrow> map_of (map prod.swap (copy_pairs pid a b)) (SlotRef pid (fmtDate (b + int i)) (half_slot pm))
      = Some (SlotRef pid (fmtDate (a + int i)) (half_slot pm))"
    "q \<notin> snd ` set (copy_pairs pid a b) \<Longrightarrow> map_of (map prod.swap (copy_pairs pid a b)) q = None"
proof -
  have "distinct (map fst (map prod.swap (copy_pairs pid a b)))"
    using copy_pairs_ok(1) [OF assms] by (simp add: comp_def)
  moreover have "(SlotRef pid (fmtDate (b + int i)) (half_slot pm), SlotRef pid (fmtDate (a + int i)) (half_slot pm))
      \<in> set (map prod.swap (copy_pairs pid a b))" if "i < 5"
    using that by (force simp: copy_pairs_def half_slot_def image_iff)
  ultimately show "i < 5 \<Longrightarrow> map_of (map prod.swap (copy_pairs pid a b)) (SlotRef pid (fmtDate (b + int i)) (half_slot pm))
      = Some (SlotRef pid (fmtDate (a + int i)) (half_slot pm))"
    by (rule map_of_is_SomeI)
  show "q \<notin> snd ` set (copy_pairs pid a b) \<Longrightarrow> map_of (map prod.swap (copy_pairs pid a b)) q = None"
    by (auto simp: map_of_eq_None_iff image_image)
qed

text \<open>Seen through reads.\<close>

definition copied_slot :: "slot_data option \<Rightarrow> slot_data option \<Rightarrow> slot_data option" where
  "copied_slot src target = (case target of Some d \<Rightarrow> Some d | None \<Rightarrow>
     (case src of None \<Rightarrow> None | Some d \<Rightarrow> if sd_away d \<noteq> None \<or> sd_incident d \<noteq> None then None else Some d))"

lemma store_ok_visible: "store_ok t \<Longrightarrow> dict_get t k = Some r \<Longrightarrow> row_visible r"
  by (auto simp: store_ok_def dict_get_def dest!: map_of_SomeD)

lemma read_visible: "store_ok t \<Longrightarrow> read_slot t k = map_option slot_of_row (dict_get t k)"
  using store_ok_visible [of t k] by (cases "dict_get t k") (auto simp: read_slot_def)

lemma slot_of_copied:
  "map_option slot_of_row (copied x y) = copied_slot (map_option slot_of_row x) (map_option slot_of_row y)"
  by (auto simp: copied_def copied_slot_def copied_row_def slot_of_row_def split: option.splits)

lemma read_of_get: "(\<And>r. dict_get t k = Some r \<Longrightarrow> row_visible r) \<Longrightarrow> read_slot t k = map_option slot_of_row (dict_get t k)"
  by (cases "dict_get t k") (auto simp: read_slot_def)

lemma copied_visible: "copied x y = Some r \<Longrightarrow> (\<And>q. x = Some q \<Longrightarrow> row_visible q) \<Longrightarrow> (\<And>q. y = Some q \<Longrightarrow> row_visible q) \<Longrightarrow> row_visible r"
  by (auto simp: copied_def copied_row_def row_visible_def split: option.splits if_splits)

lemma read_CopyWeek:
  assumes t: "store_ok t" and w: "weeks_apart a b"
  obtains n t' where "CopyWeek pid (fmtDate a) (fmtDate b) t = Some (n, t')"
    and "\<And>i pm. i < 5 \<Longrightarrow> read_slot t' (SlotRef pid (fmtDate (b + int i)) (half_slot pm)) =
       copied_slot (read_slot t (SlotRef pid (fmtDate (a + int i)) (half_slot pm)))
                   (read_slot t (SlotRef pid (fmtDate (b + int i)) (half_slot pm)))"
    and "\<And>q. q \<notin> snd ` set (copy_pairs pid a b) \<Longrightarrow> read_slot t' q = read_slot t q"
proof -
  obtain n t' where f: "fold copy_pair (copy_pairs pid a b) (0, t) = (n, t')" by force
  have get: "dict_get t' j = (case map_of (map prod.swap (copy_pairs pid a b)) j of None \<Rightarrow> dict_get t j
      | Some f \<Rightarrow> copied (dict_get t f) (dict_get t j))" for j
    using get_copy_pairs [OF copy_pairs_ok(1) [OF w, of pid] copy_pairs_ok(2) [OF w, of pid], of "(0, t)" j] f
    by (simp cong: option.case_cong)
  have vis: "row_visible r" if "dict_get t' j = Some r" for j r
    using that store_ok_visible [OF t] copied_visible unfolding get by (fastforce split: option.splits)
  have read: "read_slot t' j = map_option slot_of_row (dict_get t' j)" for j
    by (rule read_of_get) (rule vis)
  show thesis
  proof (rule that [of n t'])
    show "CopyWeek pid (fmtDate a) (fmtDate b) t = Some (n, t')"
      using w CopyWeek_pairs [of "fmtDate a" a "fmtDate b" b pid t] f by (simp add: weeks_apart_def parse_fmt)
  qed (simp_all add: read get copy_source [OF w] slot_of_copied read_visible [OF t])
qed

lemma plain_copy_slot:
  assumes "plain_store t" "plain_part pid" "plain_part slot"
  shows "plain_store (snd (copy_slot pid a b slot (n, t)))"
proof -
  have row: "row_visible r" if "dict_get t k = Some r" for k r
    using assms(1) that by (auto simp: plain_store_def store_ok_def dict_get_def dest: map_of_SomeD)
  have ref: "plain_ref (SlotRef pid (fmtDate b) slot)"
    using assms by (simp add: plain_ref_def fmtDate_plain)
  show ?thesis
    using assms(1) ref row
    by (auto simp: copy_slot_def plain_store_def store_ok_def dict_ok_def dict_get_None_iff row_visible_def
        copied_row_def split: option.splits)
qed

lemma plain_CopyWeek:
  assumes "plain_store t" "plain_part pid" "CopyWeek pid x y t = Some (n, t')"
  shows "plain_store t'"
proof -
  have step: "plain_store (snd (copy_slot pid a b slot nt))" if "plain_store (snd nt)" "plain_part slot" for a b slot nt
    using plain_copy_slot [OF that(1) assms(2) that(2), of a b "fst nt"] by simp
  have loop: "plain_store (snd (fold (\<lambda>k. fold (\<lambda>slot. copy_slot pid (a + int k) (b + int k) slot) [js ''am'', js ''pm'']) ks nt))"
    if "plain_store (snd nt)" for a b ks nt
    using that by (induction ks arbitrary: nt) (simp_all add: step)
  show ?thesis
  proof (cases "(parseDate x, parseDate y)")
    case (Pair a b)
    with assms(3) obtain a' b' where "a = Some a'" "b = Some b'"
      by (auto simp: CopyWeek_def split: option.splits)
    then show ?thesis
      using Pair assms(1,3) loop [of "(0, t)" a' b' "[0..<5]"] by (simp add: CopyWeek_def)
  qed
qed

section \<open>Copying and undoing\<close>

lemma reload_ready:
  assumes "env_ok e" "may_write s" "plain_store (sv_planning s)" "client_weeks e c \<noteq> []"
    and "reloadPlanning e (c, s) = (err, c', s')"
  shows "err = None \<and> s' = s \<and> replay_ready e c' s"
proof -
  have w: "win_start e c \<noteq> []" "win_end e c \<noteq> []"
    using window_dates_nonempty [OF assms(4)] by auto
  note eq = assms(5) [unfolded reload_ok [OF assms(1) may_write_session [OF assms(2)] assms(4) w], symmetric]
  then have "client_weeks e c' = client_weeks e c" "win_start e c' = win_start e c" "win_end e c' = win_end e c"
    using same_window [of c' c e] by simp_all
  with eq show ?thesis
    using assms(1-4) by (simp add: replay_ready_def synced_def)
qed

lemma copy_keys_eq:
  assumes "four_digit_year b"
  shows "copy_keys pid (fmtDate b) = map ref_key (map snd (copy_pairs pid a b))"
  using assms by (simp add: copy_keys_def week_days_of_def parse_fmt getWeekDays_eq copy_pairs_def ref_key_def
      upt_conv_Cons numeral_eq_Suc)

text \<open>The week before the first visible one and that week, for a client with two weeks or more.\<close>

definition copy_ready :: "env \<Rightarrow> client \<Rightarrow> jsstring \<Rightarrow> bool" where
  "copy_ready e c pid \<longleftrightarrow> 2 \<le> length (client_weeks e c) \<and> weeks_apart (hd (client_weeks e c) - 7) (hd (client_weeks e c))
     \<and> plain_part pid \<and> pid \<noteq> []"

lemma copy_main:
  assumes ready: "replay_ready e c s" and copy: "copy_ready e c pid"
    and run: "copyLastWeek e True pid (c, s) = (err, c', s')"
  defines "b \<equiv> hd (client_weeks e c)"
  shows "err = None \<and> replay_ready e c' s' \<and> same_edit_state (pushUndo (copy_keys pid (fmtDate b)) c) c'"
    and "\<exists>n. CopyWeek pid (fmtDate (b - 7)) (fmtDate b) (sv_planning s) = Some (n, sv_planning s')"
proof -
  have w: "weeks_apart (b - 7) b" and pid: "plain_part pid" and len: "\<not> length (client_weeks e c) < 2"
    using copy by (simp_all add: copy_ready_def b_def)
  have e: "env_ok e" "may_write s" "plain_store (sv_planning s)"
    using ready by (simp_all add: replay_ready_def)
  let ?c = "pushUndo (copy_keys pid (fmtDate b)) c"
  obtain n t where copied: "CopyWeek pid (fmtDate (b - 7)) (fmtDate b) (sv_planning s) = Some (n, t)"
    using CopyWeek_pairs [of "fmtDate (b - 7)" "b - 7" "fmtDate b" b pid "sv_planning s"] w
    by (cases "fold copy_pair (copy_pairs pid (b - 7) b) (0, sv_planning s)") (simp add: weeks_apart_def parse_fmt)
  have t: "plain_store t" by (rule plain_CopyWeek [OF e(3) pid copied])
  let ?s = "s\<lparr>sv_planning := t\<rparr>"
  have "call e (CopyWeekR pid (fmtDate (b - 7)) (fmtDate b)) (?c, s) = (Inr (RCount n), ?c, ?s)"
    using call_ok [OF e(1) may_write_session [OF e(2)], of "CopyWeekR pid (fmtDate (b - 7)) (fmtDate b)" ?c] e(2) copied
    by simp
  then have re: "reloadPlanning e (?c, ?s) = (err, c', s')"
    using run len by (simp add: copyLastWeek_def Let_def formatWeekStart_def b_def [symmetric])
  have "client_weeks e ?c \<noteq> []"
    using len same_window(1) [of ?c c e] push_edit_window by auto
  then have "err = None \<and> s' = ?s \<and> replay_ready e c' ?s"
    using reload_ready [OF e(1) _ _ _ re] e(2) t by (simp add: may_write_def)
  moreover have "same_edit_state ?c c'"
    using reload_edit_state [of ?c e ?s] re by simp
  ultimately show "err = None \<and> replay_ready e c' s' \<and> same_edit_state ?c c'"
    "\<exists>n. CopyWeek pid (fmtDate (b - 7)) (fmtDate b) (sv_planning s) = Some (n, sv_planning s')"
    using copied by auto
qed

lemma copy_keys_proper:
  assumes "weeks_apart a b" "plain_part pid" "pid \<noteq> []"
  shows "list_all proper_key (copy_keys pid (fmtDate b))" "copy_keys pid (fmtDate b) \<noteq> []"
proof -
  have "proper_ref r" if "r \<in> snd ` set (copy_pairs pid a b)" for r
    using that assms(2,3) by (auto simp: copy_pairs_def proper_ref_def plain_ref_def fmtDate_plain)
  then show "list_all proper_key (copy_keys pid (fmtDate b))" "copy_keys pid (fmtDate b) \<noteq> []"
    using assms(1) copy_keys_eq [of b pid a] by (auto simp: weeks_apart_def list_all_iff proper_ref_key copy_pairs_def
        upt_conv_Cons)
qed

section \<open>Properties\<close>

text \<open>C13: copying a week gives each empty half-day of the target week's working days what the
  source week holds there, unless that is an absence or an incident, and changes no other slot:
  nothing is overwritten.\<close>

theorem copy_week_exact:
  assumes "store_ok t" and "weeks_apart a b" and "i < 5"
  shows "case CopyWeek pid (fmtDate a) (fmtDate b) t of None \<Rightarrow> False | Some (n, t') \<Rightarrow>
     read_slot t' (SlotRef pid (fmtDate (b + int i)) (half_slot pm)) =
       copied_slot (read_slot t (SlotRef pid (fmtDate (a + int i)) (half_slot pm)))
                   (read_slot t (SlotRef pid (fmtDate (b + int i)) (half_slot pm)))
     \<and> (if ref_key q \<in> set (copy_keys pid (fmtDate b)) then True else read_slot t' q = read_slot t q)"
proof -
  obtain n t' where r: "CopyWeek pid (fmtDate a) (fmtDate b) t = Some (n, t')"
    "read_slot t' (SlotRef pid (fmtDate (b + int i)) (half_slot pm)) =
       copied_slot (read_slot t (SlotRef pid (fmtDate (a + int i)) (half_slot pm)))
                   (read_slot t (SlotRef pid (fmtDate (b + int i)) (half_slot pm)))"
    "\<And>q. q \<notin> snd ` set (copy_pairs pid a b) \<Longrightarrow> read_slot t' q = read_slot t q"
    using read_CopyWeek [OF assms(1,2)] assms(3) by metis
  moreover have "q \<notin> snd ` set (copy_pairs pid a b)" if "ref_key q \<notin> set (copy_keys pid (fmtDate b))"
    using that assms(2) copy_keys_eq [of b pid a] by (auto simp: weeks_apart_def)
  ultimately show ?thesis by simp
qed

lemma demo_weeks_apart: "weeks_apart 20493 20500"
proof -
  have "four_digit_year 20493" "four_digit_year (20493 + 4)" "four_digit_year 20500" "four_digit_year (20500 + 4)" by code_simp+
  then show ?thesis by (simp add: weeks_apart_def)
qed

theorem copy_week_exact_witness:
  "case CopyWeek (js ''p1'') (fmtDate 20493) (fmtDate 20500) (sv_planning demo_server) of None \<Rightarrow> False | Some (n, t') \<Rightarrow>
     read_slot t' (SlotRef (js ''p1'') (fmtDate (20500 + int 0)) (half_slot False)) =
       copied_slot (read_slot (sv_planning demo_server) (SlotRef (js ''p1'') (fmtDate (20493 + int 0)) (half_slot False)))
                   (read_slot (sv_planning demo_server) (SlotRef (js ''p1'') (fmtDate (20500 + int 0)) (half_slot False)))
     \<and> (if ref_key demo_ref \<in> set (copy_keys (js ''p1'') (fmtDate 20500)) then True
        else read_slot t' demo_ref = read_slot (sv_planning demo_server) demo_ref)"
  using demo_plain by (intro copy_week_exact demo_weeks_apart) (simp_all add: plain_store_def)

text \<open>C14: copying last week and undoing leaves no trace in the visible window, on the client
  and on the server: the keys the client saves before the copy cover every slot the server may
  fill.\<close>

theorem copy_then_undo:
  assumes "replay_ready e c s" and "copy_ready e c pid" and "planning_kept (c_planning c)"
    and "proper_ref r" and "in_window e c r"
  shows "case copyLastWeek e True pid (c, s) of (err1, cs1) \<Rightarrow> case undo e cs1 of (err2, c2, s2) \<Rightarrow>
     err1 = None \<and> err2 = None
     \<and> read_slot (sv_planning s2) r = read_slot (sv_planning s) r
     \<and> dict_get (c_planning c2) (ref_key r) = dict_get (c_planning c) (ref_key r)"
proof -
  obtain err1 c1 s1 where 1: "copyLastWeek e True pid (c, s) = (err1, c1, s1)" by (metis prod.exhaust)
  obtain err2 c2 s2 where 2: "undo e (c1, s1) = (err2, c2, s2)" by (metis prod.exhaust)
  define b where "b = hd (client_weeks e c)"
  have w: "weeks_apart (b - 7) b" and pid: "plain_part pid" "pid \<noteq> []"
    using assms(2) by (simp_all add: copy_ready_def b_def)
  note m = copy_main [OF assms(1,2) 1, folded b_def]
  have t: "store_ok (sv_planning s)" using assms(1) by (simp add: replay_ready_def plain_store_def)
  have frame: "read_slot (sv_planning s1) r = read_slot (sv_planning s) r" if "ref_key r \<notin> set (copy_keys pid (fmtDate b))"
  proof -
    have "r \<notin> snd ` set (copy_pairs pid (b - 7) b)"
      using that w copy_keys_eq [of b pid "b - 7"] by (auto simp: weeks_apart_def)
    then show ?thesis using m(2) read_CopyWeek [OF t w] by (metis option.inject prod.inject)
  qed
  show ?thesis
    using undo_snapshot [OF assms(1) _ _ copy_keys_proper(2,1) [OF w pid] assms(3) frame 2 assms(4,5)] m(1)
    by (simp add: 1 2)
qed

lemma demo_copy_ready: "copy_ready demo_env demo_client (js ''p1'')"
proof -
  have w: "client_weeks demo_env demo_client = getVisibleWeeks (Number 4) 20500 0"
    by (simp add: client_weeks_def demo_client_def demo_env_def defaultSettings_def)
  have "getWeekStart 20500 = 20500" by code_simp
  then have "hd (client_weeks demo_env demo_client) = 20500"
    using hd_visible_weeks [of 4 20500 0] by (simp add: w)
  then show ?thesis
    using demo_weeks_apart length_visible_weeks [of 4 20500 0]
    by (simp add: copy_ready_def w plain_part_def js_def)
qed

theorem copy_then_undo_witness:
  "case copyLastWeek demo_env True (js ''p1'') (demo_client, demo_server) of (err1, cs1) \<Rightarrow>
   case undo demo_env cs1 of (err2, c2, s2) \<Rightarrow>
     err1 = None \<and> err2 = None
     \<and> read_slot (sv_planning s2) demo_ref = read_slot (sv_planning demo_server) demo_ref
     \<and> dict_get (c_planning c2) (ref_key demo_ref) = dict_get (c_planning demo_client) (ref_key demo_ref)"
  by (rule copy_then_undo [OF demo_ready demo_copy_ready demo_snap(3) demo_proper demo_window])

end
