(* ===== verification/Sync.thy ===== *)
theory Sync
  imports Directory CopyWeek
begin

text \<open>
  Live updates: the messages the server sends to every client after a write
  (\<open>hub.Broadcast\<close> in \<open>internal/api\<close>) and what \<open>WS.onMessage\<close> does with each. A message is
  handled at once; a request it causes is its follow-up. The theorems say when a client that
  only listens stays in step with the server, and where it does not.
\<close>

record range_message =
  rm_person_ids :: "jsstring list"
  rm_start_date :: jsstring
  rm_start_slot :: jsstring
  rm_end_date :: jsstring
  rm_end_slot :: jsstring

datatype message =
    PersonAdded person
  | PersonUpdated person
  | PersonDeleted jsstring
  | PersonArchived jsstring
  | PersonUnarchived jsstring
  | PlanningUpdated slot_ref slot_data
  | PlanningCleared slot_ref
  | PlanningRange range_message
  | PlanningRangeCleared range_message
  | PlanningCopied
  | PlanningPruned
  | DataReset
  | DataImported
  | ProjectAdded project
  | ProjectUpdated project
  | ProjectDeleted jsstring
  | OncallChanged
  | RotationChanged
  | SettingsUpdated "(jsstring \<times> jsstring) list"
  | HolidaysImported
  | Presence "presence list"
  | ActivityNew event
  | OtherMessage

datatype followup = NoFollow | Render | ReloadRender | FetchOncall | FetchRotation | FetchHolidays

text \<open>\<open>Object.assign\<close> of the changed settings, whose values are texts.\<close>

definition merge_setting :: "jsstring \<times> jsstring \<Rightarrow> settings \<Rightarrow> settings" where
  "merge_setting = (\<lambda>(k, v) st.
     if k = js ''window_weeks'' then st\<lparr>window_weeks := Text v\<rparr>
     else if k = js ''prune_weeks'' then st\<lparr>prune_weeks := Text v\<rparr>
     else if k = js ''run_target_persons'' then st\<lparr>run_target_persons := Text v\<rparr>
     else if k = js ''run_mode'' then st\<lparr>run_mode := v\<rparr>
     else if k = js ''holiday_country'' then st\<lparr>holiday_country := v\<rparr>
     else st)"

definition ref_cell :: "slot_ref \<Rightarrow> cell" where
  "ref_cell r = \<lparr>cl_person = ref_person r, cl_date = ref_date r, cl_slot = ref_slot r\<rparr>"

definition range_message_keys :: "range_message \<Rightarrow> jsstring list \<times> cell list" where
  "range_message_keys m = rangeSlotKeys (rm_person_ids m) (rm_start_date m) (rm_start_slot m) (rm_end_date m) (rm_end_slot m)"

definition add_activity :: "event \<Rightarrow> event list \<Rightarrow> event list" where
  "add_activity ev xs = (let ys = ev # xs in if 100 < length ys then butlast ys else ys)"

text \<open>Where the client has no visible week, reading its dates raises before the request.\<close>

definition onMessage :: "env \<Rightarrow> message \<Rightarrow> client \<Rightarrow> client \<times> followup" where
  "onMessage e msg c = (case msg of
     PersonAdded p \<Rightarrow> (if list_ex (\<lambda>q. p_id q = p_id p) (c_people c) then c
                       else c\<lparr>c_people := c_people c @ [p]\<rparr>, Render)
   | PersonUpdated p \<Rightarrow> (c\<lparr>c_people := update_first (\<lambda>q. p_id q = p_id p) (\<lambda>_. p) (c_people c)\<rparr>, Render)
   | PersonDeleted i \<Rightarrow> (c\<lparr>c_people := filter (\<lambda>q. p_id q \<noteq> i) (c_people c)\<rparr>, Render)
   | PersonArchived i \<Rightarrow> (c\<lparr>c_people := update_first (\<lambda>q. p_id q = i)
         (\<lambda>q. q\<lparr>p_status := js ''archived'', p_archived_date := fmtDate (env_today e)\<rparr>) (c_people c)\<rparr>, Render)
   | PersonUnarchived i \<Rightarrow> (c\<lparr>c_people := update_first (\<lambda>q. p_id q = i)
         (\<lambda>q. q\<lparr>p_status := js ''active'', p_archived_date := []\<rparr>) (c_people c)\<rparr>, Render)
   | PlanningUpdated r d \<Rightarrow>
       (if c_undoing c then (c, Render)
        else if isRecentSelf e [ref_key r] c then (c, NoFollow)
        else let c = queueFlash e [ref_cell r] (js ''remote'') c
             in (c\<lparr>c_planning := dict_set (ref_key r) d (c_planning c)\<rparr>, Render))
   | PlanningCleared r \<Rightarrow>
       (if c_undoing c then (c, Render)
        else if isRecentSelf e [ref_key r] c then (c, NoFollow)
        else let c = queueFlash e [ref_cell r] (js ''remote'') c
             in (c\<lparr>c_planning := dict_del (ref_key r) (c_planning c)\<rparr>, Render))
   | PlanningRange m \<Rightarrow>
       (let (keys, cells) = range_message_keys m
        in if isRecentSelf e keys c then (c, NoFollow) else (queueFlash e cells (js ''remote'') c, ReloadRender))
   | PlanningRangeCleared m \<Rightarrow>
       (let (keys, cells) = range_message_keys m
        in if isRecentSelf e keys c then (c, NoFollow) else (queueFlash e cells (js ''remote'') c, ReloadRender))
   | PlanningCopied \<Rightarrow> (c, ReloadRender)
   | PlanningPruned \<Rightarrow> (c, ReloadRender)
   | DataReset \<Rightarrow> (c, ReloadRender)
   | DataImported \<Rightarrow> (c, ReloadRender)
   | ProjectAdded p \<Rightarrow> (if list_ex (\<lambda>q. pr_id q = pr_id p) (c_projects c) then c
                        else c\<lparr>c_projects := c_projects c @ [p]\<rparr>, Render)
   | ProjectUpdated p \<Rightarrow> (c\<lparr>c_projects := update_first (\<lambda>q. pr_id q = pr_id p) (\<lambda>_. p) (c_projects c)\<rparr>, Render)
   | ProjectDeleted i \<Rightarrow> (c\<lparr>c_projects := filter (\<lambda>q. pr_id q \<noteq> i) (c_projects c)\<rparr>, Render)
   | OncallChanged \<Rightarrow> (c, FetchOncall)
   | RotationChanged \<Rightarrow> (c, FetchRotation)
   | SettingsUpdated kvs \<Rightarrow> (c\<lparr>c_settings := fold merge_setting kvs (c_settings c)\<rparr>, Render)
   | HolidaysImported \<Rightarrow> (c, FetchHolidays)
   | Presence us \<Rightarrow> (c\<lparr>c_presence := us\<rparr>, Render)
   | ActivityNew ev \<Rightarrow> (c\<lparr>c_activity := add_activity ev (c_activity c)\<rparr>,
                         if c_currentView c = js ''activity'' then Render else NoFollow)
   | OtherMessage \<Rightarrow> (c, Render))"

text \<open>
  Of a rendering only the queue of flashes matters here. A follow-up request that fails is an
  unhandled rejection: nothing is rendered.
\<close>

definition render_state :: "client \<Rightarrow> client" where
  "render_state c = snd (applyPendingFlash c)"

fun follow :: "env \<Rightarrow> followup \<Rightarrow> client \<times> server \<Rightarrow> client \<times> server" where
  "follow e NoFollow cs = cs"
| "follow e Render (c, s) = (render_state c, s)"
| "follow e ReloadRender cs =
     (case reloadPlanning e cs of (None, c, s) \<Rightarrow> (render_state c, s) | (Some _, cs) \<Rightarrow> cs)"
| "follow e FetchOncall (c, s) =
     (if client_weeks e c = [] then (c, s)
      else case call e (GetOnCallR (win_start e c) (win_end e c)) (c, s) of
             (Inr (ROnCall oc), c, s) \<Rightarrow>
               (render_state (c\<lparr>c_oncall := oc, c_oncallLoadedYear :=
                   (if c_currentView c = js ''oncall'' then None else c_oncallLoadedYear c)\<rparr>), s)
           | (_, cs) \<Rightarrow> cs)"
| "follow e FetchRotation (c, s) =
     (if client_weeks e c = [] then (c, s)
      else case call e (GetRotationR (win_start e c) (win_end e c)) (c, s) of
             (Inr (RRotation rt), c, s) \<Rightarrow> (render_state (c\<lparr>c_rotation := rt\<rparr>), s)
           | (_, cs) \<Rightarrow> cs)"
| "follow e FetchHolidays cs =
     (case call e GetHolidaysR cs of
        (Inr (RHolidays hs), c, s) \<Rightarrow> (render_state (c\<lparr>c_holidays := hs\<rparr>), s)
      | (_, cs) \<Rightarrow> cs)"

definition deliver :: "env \<Rightarrow> message \<Rightarrow> client \<times> server \<Rightarrow> client \<times> server" where
  "deliver e msg = (\<lambda>(c, s). let (c, f) = onMessage e msg c in follow e f (c, s))"

section \<open>The server's messages\<close>

text \<open>The message about the data that a successful write sends; the entry of the activity log
  that goes with it does not touch the data.\<close>

fun broadcasts :: "request \<Rightarrow> reply \<Rightarrow> message list" where
  "broadcasts (PutSlotR p d sl data) _ = [PlanningUpdated (SlotRef p d sl) data]"
| "broadcasts (DelSlotR p d sl) _ = [PlanningCleared (SlotRef p d sl)]"
| "broadcasts (PutOnCallR _ _ _) _ = [OncallChanged]"
| "broadcasts (DelOnCallR _ _) _ = [OncallChanged]"
| "broadcasts (PostPersonR _) (RPerson q) = [PersonAdded q]"
| "broadcasts (PutPersonR _ _) (RPerson q) = [PersonUpdated q]"
| "broadcasts (DelPersonR i) _ = [PersonDeleted i]"
| "broadcasts (ArchivePersonR i) _ = [PersonArchived i]"
| "broadcasts (UnarchivePersonR i) _ = [PersonUnarchived i]"
| "broadcasts (PostProjectR _) (RProject q) = [ProjectAdded q]"
| "broadcasts (PutProjectR _ _) (RProject q) = [ProjectUpdated q]"
| "broadcasts (DelProjectR i) _ = [ProjectDeleted i]"
| "broadcasts (PutSettingR k v) _ = [SettingsUpdated [(k, v)]]"
| "broadcasts (CopyWeekR _ _ _) _ = [PlanningCopied]"
| "broadcasts (AssignRunR _ _) _ = [RotationChanged]"
| "broadcasts (DelRotationR _ _) _ = [RotationChanged]"
| "broadcasts (ImportCsvR _) _ = [OtherMessage]"
| "broadcasts (ImportTomlR _ _) _ = [DataImported]"
| "broadcasts PruneR _ = [PlanningPruned]"
| "broadcasts ResetR _ = [DataReset]"
| "broadcasts _ _ = []"

text \<open>Another client's request, and what a listening client makes of its messages.\<close>

definition live :: "env \<Rightarrow> request \<Rightarrow> client \<times> server \<Rightarrow> client \<times> server" where
  "live e r = (\<lambda>(c, s). case handle r s of (status, body, s') \<Rightarrow>
     if status < 300 then fold (deliver e) (broadcasts r body) (c, s') else (c, s'))"

section \<open>Staying in step\<close>

definition view_synced :: "env \<Rightarrow> client \<Rightarrow> server \<Rightarrow> bool" where
  "view_synced e c s \<longleftrightarrow> directory_synced c s
     \<and> (\<forall>r. plain_ref r \<longrightarrow> in_window e c r \<longrightarrow> dict_get (c_planning c) (ref_key r) = read_slot (sv_planning s) r)"

text \<open>A client that listens: no replay in flight, no edit of its own in the last moments.\<close>

definition listening :: "env \<Rightarrow> client \<Rightarrow> server \<Rightarrow> bool" where
  "listening e c s \<longleftrightarrow> env_ok e \<and> sv_session s \<noteq> None \<and> env_today e = sv_today s
     \<and> \<not> c_undoing c \<and> list_all (\<lambda>(k, x). x \<le> env_now e) (c_recentSelf c)
     \<and> client_weeks e c \<noteq> [] \<and> plain_store (sv_planning s) \<and> rows_ok s"

definition live_ok :: "env \<Rightarrow> client \<times> server \<Rightarrow> bool" where
  "live_ok e = (\<lambda>(c, s). listening e c s \<and> view_synced e c s)"

text \<open>The same for slots that may differ: \<open>A r v w\<close> allows the client the value \<open>v\<close> of the slot \<open>r\<close> where the server has \<open>w\<close>.\<close>

definition live_upto :: "(slot_ref \<Rightarrow> slot_data option \<Rightarrow> slot_data option \<Rightarrow> bool) \<Rightarrow> env \<Rightarrow> client \<times> server \<Rightarrow> bool" where
  "live_upto A e = (\<lambda>(c, s). listening e c s \<and> directory_synced c s
     \<and> (\<forall>r. plain_ref r \<longrightarrow> in_window e c r \<longrightarrow> A r (dict_get (c_planning c) (ref_key r)) (read_slot (sv_planning s) r)))"

lemma live_ok_upto: "live_ok e = live_upto (\<lambda>r v w. v = w) e"
  by (simp add: live_ok_def live_upto_def view_synced_def fun_eq_iff)

text \<open>What the other clients send: any request about slots, people, projects, duties and settings, with
  identifiers of the usual form and new people without a token. Left out are a reset and the imports, after which the page
  reloads the planning alone or nothing, and a change of the number of visible weeks, after which it loads nothing
  (\<open>reset_keeps_people\<close>, \<open>FileTransfer\<close>, \<open>wider_window_shows_empty\<close>).\<close>

fun sound_request :: "request \<Rightarrow> bool" where
  "sound_request (PutSlotR p d sl data) = plain_ref (SlotRef p d sl)"
| "sound_request (DelSlotR p d sl) = plain_ref (SlotRef p d sl)"
| "sound_request (PostPersonR p) = (p_ics_token p = [])"
| "sound_request (PutSettingR k v) = (k \<noteq> js ''window_weeks'')"
| "sound_request (CopyWeekR p a b) = plain_part p"
| "sound_request (AssignRunR p ws) = plain_part p"
| "sound_request ResetR = False"
| "sound_request (ImportCsvR body) = False"
| "sound_request (ImportTomlR mode body) = False"
| "sound_request r = True"

text \<open>Requests that change a slot without a message that says so (see \<open>Rotation\<close>).\<close>

fun unannounced :: "slot_ref \<Rightarrow> request \<Rightarrow> bool" where
  "unannounced q (DelPersonR i) = (ref_person q = i)"
| "unannounced q (AssignRunR p ws) = (case parseDate ws of None \<Rightarrow> False | Some d \<Rightarrow> q \<in> set (week_refs p d))"
| "unannounced q r = False"

text \<open>The message about a written slot carries the data as it was sent, not as the table keeps it.\<close>

fun sent_for :: "slot_ref \<Rightarrow> request \<Rightarrow> slot_data option" where
  "sent_for q (PutSlotR p d sl data) = (if q = SlotRef p d sl then Some data else None)"
| "sent_for q r = None"

definition as_sent :: "slot_ref \<Rightarrow> slot_data option \<Rightarrow> slot_data option \<Rightarrow> request \<Rightarrow> bool" where
  "as_sent q v w r = (case sent_for q r of None \<Rightarrow> False | Some data \<Rightarrow> v = Some data \<and> w = kept_slot data)"

definition explained :: "request list \<Rightarrow> slot_ref \<Rightarrow> slot_data option \<Rightarrow> slot_data option \<Rightarrow> bool" where
  "explained rs q v w \<longleftrightarrow> v = w \<or> list_ex (unannounced q) rs \<or> list_ex (as_sent q v w) rs"

lemma render_fields [simp]:
  "c_people (render_state c) = c_people c" "c_projects (render_state c) = c_projects c"
  "c_planning (render_state c) = c_planning c" "c_settings (render_state c) = c_settings c"
  "c_undoing (render_state c) = c_undoing c" "c_recentSelf (render_state c) = c_recentSelf c"
  "c_scrollOffset (render_state c) = c_scrollOffset c" "c_oncall (render_state c) = c_oncall c"
  "c_activity (render_state c) = c_activity c"
  by (simp_all add: render_state_def applyPendingFlash_def)

lemma window_frame:
  assumes "window_weeks (c_settings c') = window_weeks (c_settings c)" "c_scrollOffset c' = c_scrollOffset c"
  shows "client_weeks e c' = client_weeks e c" "in_window e c' = in_window e c"
  using assms by (simp_all add: client_weeks_def in_window_def win_start_def win_end_def fun_eq_iff)

lemma not_recent: "list_all (\<lambda>(k, x). x \<le> env_now e) (c_recentSelf c) \<Longrightarrow> \<not> isRecentSelf e ks c"
  unfolding isRecentSelf_def list_ex_iff
  by (auto simp: list_all_iff dict_get_def split: option.splits dest!: map_of_SomeD)

lemma remote_flash:
  "c_recentSelf (queueFlash e cs (js ''remote'') c) = c_recentSelf c"
  "c_people (queueFlash e cs (js ''remote'') c) = c_people c"
  "c_projects (queueFlash e cs (js ''remote'') c) = c_projects c"
  "c_activity (queueFlash e cs (js ''remote'') c) = c_activity c"
proof -
  have 1: "c_recentSelf (queueFlash1 e (js ''remote'') x c) = c_recentSelf c \<and> c_people (queueFlash1 e (js ''remote'') x c) = c_people c
     \<and> c_projects (queueFlash1 e (js ''remote'') x c) = c_projects c \<and> c_activity (queueFlash1 e (js ''remote'') x c) = c_activity c" for x c
    by (simp add: queueFlash1_def Let_def)
  have "c_recentSelf (queueFlash e cs (js ''remote'') c) = c_recentSelf c \<and> c_people (queueFlash e cs (js ''remote'') c) = c_people c
     \<and> c_projects (queueFlash e cs (js ''remote'') c) = c_projects c \<and> c_activity (queueFlash e cs (js ''remote'') c) = c_activity c"
    unfolding queueFlash_def by (induction cs arbitrary: c) (simp_all add: 1)
  then show "c_recentSelf (queueFlash e cs (js ''remote'') c) = c_recentSelf c"
    "c_people (queueFlash e cs (js ''remote'') c) = c_people c"
    "c_projects (queueFlash e cs (js ''remote'') c) = c_projects c"
    "c_activity (queueFlash e cs (js ''remote'') c) = c_activity c" by auto
qed

lemma remote_flash_frame:
  "c_planning (queueFlash e cs origin c) = c_planning c" "c_settings (queueFlash e cs origin c) = c_settings c"
  "c_scrollOffset (queueFlash e cs origin c) = c_scrollOffset c" "c_undoing (queueFlash e cs origin c) = c_undoing c"
  using flash_only_fields [OF queueFlash_frame [of c e cs origin]] by (auto simp: same_edit_state_def)

text \<open>Only these fields matter for being in step.\<close>

lemma live_upto_frame:
  assumes "live_upto A e (c, s)" "c_people c' = c_people c" "c_projects c' = c_projects c" "c_planning c' = c_planning c"
    "window_weeks (c_settings c') = window_weeks (c_settings c)" "c_scrollOffset c' = c_scrollOffset c" "c_undoing c' = c_undoing c"
    "c_recentSelf c' = c_recentSelf c"
    "sv_session s' = sv_session s" "sv_today s' = sv_today s" "sv_planning s' = sv_planning s"
    "sv_people s' = sv_people s" "sv_projects s' = sv_projects s"
  shows "live_upto A e (c', s')"
  using assms window_frame [of c' c e]
  by (simp add: live_upto_def listening_def directory_synced_def rows_ok_def)

text \<open>A change of the directory on both sides.\<close>

lemma live_upto_directory:
  assumes ok: "live_upto A e (c, s)" and rows: "rows_ok s'" and sync: "directory_synced c' s'"
    and same: "c_planning c' = c_planning c" "window_weeks (c_settings c') = window_weeks (c_settings c)" "c_scrollOffset c' = c_scrollOffset c"
    "c_undoing c' = c_undoing c" "c_recentSelf c' = c_recentSelf c"
    "sv_session s' = sv_session s" "sv_today s' = sv_today s" "sv_planning s' = sv_planning s"
  shows "live_upto A e (c', s')"
  using ok rows sync same window_frame [of c' c e]
  by (simp add: live_upto_def listening_def)

lemma live_upto_render: "live_upto A e (c, s) \<Longrightarrow> live_upto A e (render_state c, s)"
  by (rule live_upto_frame) simp_all

lemma AddPerson_Some:
  "AddPerson u p t = Some (q, t') \<Longrightarrow> p_ics_token p = [] \<Longrightarrow> t' = t @ [q] \<and> p_id q \<notin> p_id ` set t"
  by (auto simp: AddPerson_def Let_def split: if_splits)

lemma AddProject_Some:
  "AddProject u p t = Some (q, t') \<Longrightarrow> t' = t @ [q] \<and> pr_id q \<notin> pr_id ` set t \<and> pr_name q \<notin> pr_name ` set t"
  by (auto simp: AddProject_def Let_def split: if_splits)

lemma live_person_post:
  assumes ok: "live_upto A e (c, s)" and p: "p_ics_token p = []"
  shows "live_upto A e (live e (PostPersonR p) (c, s))"
proof (cases "p_name p = [] \<or> AddPerson (sv_uuid s (sv_uuids_used s)) p (sv_people s) = None")
  case True
  with ok show ?thesis by (auto simp: live_def)
next
  case False
  then obtain q t where add: "AddPerson (sv_uuid s (sv_uuids_used s)) p (sv_people s) = Some (q, t)" and n: "p_name p \<noteq> []"
    by force
  have t: "t = sv_people s @ [q]" and fresh: "p_id q \<notin> p_id ` set (sv_people s)"
    using AddPerson_Some [OF add p] by auto
  have sync: "directory_synced c s" and rows: "rows_ok s"
    using ok by (auto simp: live_upto_def listening_def)
  have "getPerson (c_people c) (p_id q) = None"
    using sync fresh by (simp add: directory_synced_def getPerson_None)
  then have new: "\<not> list_ex (\<lambda>x. p_id x = p_id q) (c_people c)"
    using person_absent by blast
  have "live e (PostPersonR p) (c, s) = (render_state (c\<lparr>c_people := c_people c @ [q]\<rparr>),
      s\<lparr>sv_people := t, sv_uuids_used := Suc (sv_uuids_used s)\<rparr>)"
    using n add new by (simp add: live_def deliver_def onMessage_def)
  moreover have "live_upto A e (c\<lparr>c_people := c_people c @ [q]\<rparr>, s\<lparr>sv_people := t, sv_uuids_used := Suc (sv_uuids_used s)\<rparr>)"
    using sync rows fresh by (intro live_upto_directory [OF ok])
      (simp_all add: t rows_ok_def directory_synced_def getPerson_append)
  ultimately show ?thesis by (simp add: live_upto_render)
qed

lemma live_project_post:
  assumes ok: "live_upto A e (c, s)"
  shows "live_upto A e (live e (PostProjectR p) (c, s))"
proof (cases "pr_name p = [] \<or> pr_name p \<in> pr_name ` set (sv_projects s)
    \<or> AddProject (sv_uuid s (sv_uuids_used s)) p (sv_projects s) = None")
  case True
  with ok show ?thesis by (auto simp: live_def)
next
  case False
  then obtain q t where add: "AddProject (sv_uuid s (sv_uuids_used s)) p (sv_projects s) = Some (q, t)"
    and n: "pr_name p \<noteq> []" "pr_name p \<notin> pr_name ` set (sv_projects s)"
    by force
  have t: "t = sv_projects s @ [q]" and fresh: "pr_id q \<notin> pr_id ` set (sv_projects s)"
      "pr_name q \<notin> pr_name ` set (sv_projects s)"
    using AddProject_Some [OF add] by auto
  have sync: "directory_synced c s" and rows: "rows_ok s"
    using ok by (auto simp: live_upto_def listening_def)
  have "getProject (c_projects c) (pr_id q) = None"
    using sync fresh by (simp add: directory_synced_def getProject_None)
  then have new: "\<not> list_ex (\<lambda>x. pr_id x = pr_id q) (c_projects c)"
    using project_absent by blast
  have "live e (PostProjectR p) (c, s) = (render_state (c\<lparr>c_projects := c_projects c @ [q]\<rparr>),
      s\<lparr>sv_projects := t, sv_uuids_used := Suc (sv_uuids_used s)\<rparr>)"
    using n add new by (simp add: live_def deliver_def onMessage_def)
  moreover have "live_upto A e (c\<lparr>c_projects := c_projects c @ [q]\<rparr>, s\<lparr>sv_projects := t, sv_uuids_used := Suc (sv_uuids_used s)\<rparr>)"
    using sync rows fresh by (intro live_upto_directory [OF ok])
      (simp_all add: t rows_ok_def directory_synced_def getProject_append)
  ultimately show ?thesis by (simp add: live_upto_render)
qed

lemma live_put:
  assumes ok: "live_upto A e (c, s)"
  shows "live_upto A e (live e (PutPersonR i p) (c, s))" "live_upto A e (live e (PutProjectR j q) (c, s))"
proof -
  have sync: "directory_synced c s" and rows: "rows_ok s"
    using ok by (auto simp: live_upto_def listening_def)
  show "live_upto A e (live e (PutPersonR i p) (c, s))"
  proof (cases "getPerson (UpdatePerson i p (sv_people s)) i")
    case None
    with ok show ?thesis by (simp add: live_def)
  next
    case (Some v)
    have v: "p_id v = i" using getPerson_id [OF Some] by simp
    have "live_upto A e (c\<lparr>c_people := update_first (\<lambda>x. p_id x = i) (\<lambda>_. v) (c_people c)\<rparr>,
        s\<lparr>sv_people := UpdatePerson i p (sv_people s)\<rparr>)"
      using sync rows Some v by (intro live_upto_directory [OF ok])
        (auto simp: rows_ok_update directory_synced_def directory_gets)
    then show ?thesis
      using Some v by (simp add: live_def deliver_def onMessage_def live_upto_render)
  qed
  show "live_upto A e (live e (PutProjectR j q) (c, s))"
  proof (cases "UpdateProject j q (sv_projects s) = None \<or> getProject (project_row j q (sv_projects s)) j = None")
    case True
    with ok show ?thesis by (auto simp: live_def UpdateProject_eq)
  next
    case False
    then obtain v where upd: "UpdateProject j q (sv_projects s) = Some (project_row j q (sv_projects s))"
        and Some: "getProject (project_row j q (sv_projects s)) j = Some v"
      by (auto simp: UpdateProject_eq split: if_splits)
    have v: "pr_id v = j" using Some by (auto simp: getProject_def dest: find_Some_iff2)
    have "live_upto A e (c\<lparr>c_projects := update_first (\<lambda>x. pr_id x = j) (\<lambda>_. v) (c_projects c)\<rparr>,
        s\<lparr>sv_projects := project_row j q (sv_projects s)\<rparr>)"
      using sync rows_ok_update(4) [OF rows upd] Some v by (intro live_upto_directory [OF ok])
        (auto simp: directory_synced_def directory_gets)
    then show ?thesis
      using Some v by (simp add: live_def deliver_def onMessage_def upd live_upto_render)
  qed
qed

lemma live_status:
  assumes ok: "live_upto A e (c, s)"
  shows "live_upto A e (live e (ArchivePersonR i) (c, s))" "live_upto A e (live e (UnarchivePersonR i) (c, s))"
    "live_upto A e (live e (DelProjectR i) (c, s))"
proof -
  have sync: "directory_synced c s" and rows: "rows_ok s" and today: "env_today e = sv_today s"
    using ok by (auto simp: live_upto_def listening_def)
  show "live_upto A e (live e (DelProjectR i) (c, s))"
    using sync rows by (auto simp: live_def deliver_def onMessage_def directory_synced_def directory_gets
        intro!: live_upto_render live_upto_directory [OF ok] rows_ok_delete)
  show "live_upto A e (live e (ArchivePersonR i) (c, s))" "live_upto A e (live e (UnarchivePersonR i) (c, s))"
    using sync rows today by (auto simp: live_def deliver_def onMessage_def directory_synced_def directory_gets
        intro!: live_upto_render live_upto_directory [OF ok] rows_ok_update)
qed

lemma plain_store_ops:
  assumes "plain_store t"
  shows "plain_ref r \<Longrightarrow> plain_store (SetSlot r d t)" "plain_store (ClearSlot r t)"
proof -
  have 1: "list_all (\<lambda>(k, r). plain_ref k) (dict_del r t)"
    using assms set_dict_del by (fastforce simp: plain_store_def list_all_iff)
  then show "plain_store (ClearSlot r t)"
    using assms by (simp add: plain_store_def ClearSlot_def store_ok_ClearSlot [unfolded ClearSlot_def])
  show "plain_store (SetSlot r d t)" if "plain_ref r"
    using assms 1 that store_ok_SetSlot [of t r d] by (simp add: plain_store_def SetSlot_def ClearSlot_def)
qed

lemma live_slot:
  assumes ok: "live_upto A e (c, s)" and r: "plain_ref r"
    and new: "plain_store t" "\<And>q. read_slot t q = (if q = r then w else read_slot (sv_planning s) q)"
    and pl: "\<And>k. dict_get pl k = (if k = ref_key r then v else dict_get (c_planning c) k)" and A: "A r v w"
  shows "live_upto A e ((queueFlash e cells (js ''remote'') c)\<lparr>c_planning := pl\<rparr>, s\<lparr>sv_planning := t\<rparr>)"
  using ok r new pl A window_frame [of "(queueFlash e cells (js ''remote'') c)\<lparr>c_planning := pl\<rparr>" c e]
  by (simp add: live_upto_def listening_def directory_synced_def rows_ok_def remote_flash
      remote_flash_frame ref_key_inj)

lemma live_slots:
  assumes ok: "live_upto A e (c, s)" and r: "plain_ref (SlotRef p d sl)"
  shows "A (SlotRef p d sl) (Some data) (kept_slot data) \<Longrightarrow> live_upto A e (live e (PutSlotR p d sl data) (c, s))"
    "A (SlotRef p d sl) None None \<Longrightarrow> live_upto A e (live e (DelSlotR p d sl) (c, s))"
proof -
  let ?r = "SlotRef p d sl"
  have c: "\<not> c_undoing c" "plain_store (sv_planning s)" "\<not> isRecentSelf e ks c" for ks
    using ok by (auto simp: live_upto_def listening_def not_recent)
  have pl: "plain_store (SetSlot ?r data (sv_planning s))" "plain_store (ClearSlot ?r (sv_planning s))"
    using plain_store_ops [OF c(2)] r by auto
  show "live_upto A e (live e (PutSlotR p d sl data) (c, s))" if k: "A ?r (Some data) (kept_slot data)"
  proof (cases "p = [] \<or> d = [] \<or> sl = []")
    case True
    with ok show ?thesis by (auto simp: live_def)
  next
    case False
    have "live_upto A e ((queueFlash e [ref_cell ?r] (js ''remote'') c)\<lparr>c_planning := dict_set (ref_key ?r) data (c_planning c)\<rparr>,
        s\<lparr>sv_planning := SetSlot ?r data (sv_planning s)\<rparr>)"
      by (rule live_slot [OF ok r pl(1), where w = "kept_slot data" and v = "Some data"]) (simp_all add: read_SetSlot k)
    with False show ?thesis
      by (auto simp: live_def deliver_def onMessage_def c Let_def remote_flash_frame intro: live_upto_render)
  qed
  show "live_upto A e (live e (DelSlotR p d sl) (c, s))" if k: "A ?r None None"
  proof -
    have "live_upto A e ((queueFlash e [ref_cell ?r] (js ''remote'') c)\<lparr>c_planning := dict_del (ref_key ?r) (c_planning c)\<rparr>,
        s\<lparr>sv_planning := ClearSlot ?r (sv_planning s)\<rparr>)"
      by (rule live_slot [OF ok r pl(2), where w = None and v = None]) (simp_all add: read_ClearSlot k)
    then show ?thesis
    by (simp add: live_def deliver_def onMessage_def c Let_def remote_flash_frame live_upto_render)
  qed
qed

lemma live_upto_reload:
  assumes ok: "live_upto A e (c, s)" and t: "plain_store t" and A: "\<And>r v. A r v v"
  shows "live_upto A e (follow e ReloadRender (c, s\<lparr>sv_planning := t\<rparr>))"
proof -
  let ?s = "s\<lparr>sv_planning := t\<rparr>"
  have l: "env_ok e" "sv_session ?s \<noteq> None" "client_weeks e c \<noteq> []"
    and rest: "directory_synced c s" "rows_ok s" "env_today e = sv_today s" "\<not> c_undoing c"
      "list_all (\<lambda>(k, x). x \<le> env_now e) (c_recentSelf c)"
    using ok by (auto simp: live_upto_def listening_def)
  have w: "win_start e c \<noteq> []" "win_end e c \<noteq> []"
    using window_dates_nonempty [OF l(3)] by auto
  let ?c = "c\<lparr>c_planning := load_entries (GetPlanning (win_start e c) (win_end e c) t),
      c_oncall := GetOnCall (win_start e c) (win_end e c) (sv_oncall s),
      c_rotation := GetRotation (win_start e c) (win_end e c) (sv_rotation s)\<rparr>"
  have win: "client_weeks e ?c = client_weeks e c" "in_window e ?c = in_window e c"
    by (rule window_frame, simp_all)+
  have "\<forall>r. plain_ref r \<longrightarrow> in_window e ?c r \<longrightarrow> A r (dict_get (c_planning ?c) (ref_key r)) (read_slot (sv_planning ?s) r)"
    unfolding win by (simp add: get_load_GetPlanning [OF t] in_window_def A)
  moreover have "directory_synced ?c ?s" using rest(1) by (simp add: directory_synced_def)
  moreover have "listening e ?c ?s"
    unfolding listening_def win using l rest t by (simp add: rows_ok_def)
  ultimately have "live_upto A e (?c, ?s)"
    by (simp add: live_upto_def)
  then show ?thesis
    using reload_ok [OF l w] by (simp add: live_upto_render)
qed

lemma live_copy_prune:
  assumes ok: "live_upto A e (c, s)" and A: "\<And>r v. A r v v"
  shows "plain_part p \<Longrightarrow> live_upto A e (live e (CopyWeekR p a b) (c, s))" "live_upto A e (live e PruneR (c, s))"
proof -
  have t: "plain_store (sv_planning s)"
    using ok by (simp add: live_upto_def listening_def)
  show "live_upto A e (live e (CopyWeekR p a b) (c, s))" if p: "plain_part p"
  proof (cases "CopyWeek p a b (sv_planning s)")
    case None
    with ok show ?thesis by (simp add: live_def)
  next
    case (Some nt)
    obtain n t' where nt: "nt = (n, t')" by force
    with Some live_upto_reload [OF ok plain_CopyWeek [OF t p, of a b n t'] A] show ?thesis
      by (simp add: live_def deliver_def onMessage_def del: follow.simps)
  qed
  have "plain_store (filter P (sv_planning s))" for P
    using t by (auto simp: plain_store_def store_ok_def dict_ok_def distinct_map_filter list_all_iff)
  then show "live_upto A e (live e PruneR (c, s))"
    using live_upto_reload [OF ok _ A] by (simp add: live_def deliver_def onMessage_def PruneOldData_def Let_def)
qed

lemma live_oncall:
  assumes ok: "live_upto A e (c, s)"
  shows "live_upto A e (live e (PutOnCallR p w cm) (c, s))" "live_upto A e (live e (DelOnCallR p w) (c, s))"
    "live_upto A e (live e (DelRotationR p w) (c, s))"
proof -
  have l: "env_ok e" "sv_session s \<noteq> None" "client_weeks e c \<noteq> []"
    using ok by (auto simp: live_upto_def listening_def)
  have fetch: "live_upto A e (follow e FetchOncall (c, s\<lparr>sv_oncall := t\<rparr>))" for t
    using l by (auto simp: call_read intro!: live_upto_render live_upto_frame [OF ok])
  have "live_upto A e (follow e FetchRotation (c, s\<lparr>sv_rotation := t\<rparr>))" for t
    using l by (auto simp: call_read intro!: live_upto_render live_upto_frame [OF ok])
  then show "live_upto A e (live e (PutOnCallR p w cm) (c, s))" "live_upto A e (live e (DelOnCallR p w) (c, s))"
    "live_upto A e (live e (DelRotationR p w) (c, s))"
    using fetch by (simp_all add: live_def deliver_def onMessage_def del: follow.simps)
qed

lemma live_export: "live_upto A e (c, s) \<Longrightarrow> live_upto A e (live e ExportR (c, s))"
  by (simp add: live_def exportTOML_def Let_def) (rule live_upto_frame, simp_all)

lemma live_setting:
  assumes ok: "live_upto A e (c, s)" and k: "k \<noteq> js ''window_weeks''"
  shows "live_upto A e (live e (PutSettingR k v) (c, s))"
proof -
  have "window_weeks (merge_setting (k, v) st) = window_weeks st" for st
    using k by (simp add: merge_setting_def)
  then have "live_upto A e (render_state (c\<lparr>c_settings := merge_setting (k, v) (c_settings c)\<rparr>), s\<lparr>sv_settings := t\<rparr>)"
      "live_upto A e (c, s\<lparr>sv_settings := t\<rparr>)" for t
    by (auto intro!: live_upto_render live_upto_frame [OF ok])
  then show ?thesis
    by (simp add: live_def deliver_def onMessage_def Let_def split_def)
qed

text \<open>The two that change slots without telling.\<close>

lemma read_without_person:
  "read_slot (filter (\<lambda>(k, _). ref_person k \<noteq> i) t) r = (if ref_person r = i then None else read_slot t r)"
  by (induction t) (auto simp: read_slot_def dict_get_def split: option.splits)

lemma live_person_delete:
  assumes ok: "live_upto A e (c, s)" and A: "\<And>r v. ref_person r = i \<Longrightarrow> A r v None"
  shows "live_upto A e (live e (DelPersonR i) (c, s))"
proof -
  have "plain_store (filter P (sv_planning s))" for P
    using ok by (auto simp: live_upto_def listening_def plain_store_def store_ok_def dict_ok_def distinct_map_filter list_all_iff)
  moreover have "directory_synced (c\<lparr>c_people := filter (\<lambda>q. p_id q \<noteq> i) (c_people c)\<rparr>) (cascade_person i s)"
    using ok by (simp add: live_upto_def directory_synced_def directory_gets)
  ultimately have "live_upto A e (c\<lparr>c_people := filter (\<lambda>q. p_id q \<noteq> i) (c_people c)\<rparr>, cascade_person i s)"
    using ok A window_frame [of "c\<lparr>c_people := filter (\<lambda>q. p_id q \<noteq> i) (c_people c)\<rparr>" c e]
    by (simp add: live_upto_def listening_def rows_ok_delete read_without_person)
  then show ?thesis
    by (simp add: live_def deliver_def onMessage_def live_upto_render)
qed

lemma plain_week_refs: "plain_part pid \<Longrightarrow> list_all plain_ref (week_refs pid d)"
  by (auto simp: week_refs_def list_all_iff plain_ref_def fmtDate_plain)

lemma fill_refs:
  assumes "plain_store t" "list_all plain_ref refs"
  shows "plain_store (fold (\<lambda>r. SetSlot r x) refs t)"
    "q \<notin> set refs \<Longrightarrow> read_slot (fold (\<lambda>r. SetSlot r x) refs t) q = read_slot t q"
  using assms by (induction refs arbitrary: t) (simp_all add: plain_store_ops read_SetSlot)

lemma live_assign:
  assumes ok: "live_upto A e (c, s)" and p: "plain_part p"
    and A: "\<And>d r v w. parseDate ws = Some d \<Longrightarrow> r \<in> set (week_refs p d) \<Longrightarrow> A r v w"
  shows "live_upto A e (live e (AssignRunR p ws) (c, s))"
proof (cases "parseDate ws")
  case None
  with ok show ?thesis by (simp add: live_def AssignRunPerson_def)
next
  case (Some d)
  let ?t = "snd (fill_run_week p d (sv_planning s))"
  let ?s = "s\<lparr>sv_rotation := SetRotation p ws True (sv_rotation s), sv_planning := ?t\<rparr>"
  have l: "env_ok e" "sv_session s \<noteq> None" "client_weeks e c \<noteq> []" "plain_store (sv_planning s)"
    using ok by (auto simp: live_upto_def listening_def)
  have t: "plain_store ?t" "r \<notin> set (week_refs p d) \<Longrightarrow> read_slot ?t r = read_slot (sv_planning s) r" for r
    using fill_refs [OF l(4) plain_week_refs [OF p, of d]] by (simp_all add: fill_run_week_def)
  have "A r (dict_get (c_planning c) (ref_key r)) (read_slot ?t r)" if "plain_ref r" "in_window e c r" for r
    using ok that t(2) [of r] A [OF Some, of r] by (cases "r \<in> set (week_refs p d)") (simp_all add: live_upto_def)
  then have s: "live_upto A e (c, ?s)"
    using ok t(1) by (simp add: live_upto_def listening_def directory_synced_def rows_ok_def)
  have "live_upto A e (follow e FetchRotation (c, ?s))"
    using l window_dates_nonempty [OF l(3)] by (auto simp: call_read intro!: live_upto_render live_upto_frame [OF s])
  then show ?thesis
    by (simp add: live_def AssignRunPerson_def Some split_def Let_def deliver_def onMessage_def del: follow.simps)
qed

lemma explained_same [simp]: "explained rs q v v"
  by (simp add: explained_def)

lemma live_step:
  assumes "live_upto (explained rs) e cs" "sound_request r" "r \<in> set rs"
  shows "live_upto (explained rs) e (live e r cs)"
proof -
  obtain c s where cs: "cs = (c, s)" by force
  note ok = assms(1) [unfolded cs]
  have sent: "explained rs (SlotRef p d sl) (Some data) (kept_slot data)" if "r = PutSlotR p d sl data" for p d sl data
  proof -
    have "as_sent (SlotRef p d sl) (Some data) (kept_slot data) r" by (simp add: as_sent_def that)
    then show ?thesis using assms(3) by (auto simp: explained_def list_ex_iff)
  qed
  have silent: "unannounced q r \<Longrightarrow> explained rs q v w" for q v w
    using assms(3) by (auto simp: explained_def list_ex_iff)
  show ?thesis
  proof (cases r)
    case (PutSlotR p d sl data)
    then show ?thesis using live_slots(1) [OF ok] sent [OF PutSlotR] assms(2) by (simp add: cs)
  next
    case (DelPersonR i)
    then show ?thesis using live_person_delete [OF ok] silent by (simp add: cs)
  next
    case (AssignRunR p ws)
    then show ?thesis using live_assign [OF ok] silent assms(2) by (simp add: cs)
  qed (use assms(2) ok in \<open>simp_all add: cs live_person_post live_project_post live_put live_status live_slots live_copy_prune
      live_setting live_oncall live_export\<close>, simp_all add: live_def)
qed

lemma live_steps:
  "live_upto (explained rs) e cs \<Longrightarrow> list_all sound_request rs' \<Longrightarrow> set rs' \<subseteq> set rs \<Longrightarrow> live_upto (explained rs) e (fold (live e) rs' cs)"
  by (induction rs' arbitrary: cs) (simp_all add: live_step)

text \<open>The client in step is the case of equal slots.\<close>

lemmas live_ok_frame = live_upto_frame [where A = "\<lambda>r v w. v = w", folded live_ok_upto]

lemma live_reload: "live_ok e (c, s) \<Longrightarrow> plain_store t \<Longrightarrow> live_ok e (follow e ReloadRender (c, s\<lparr>sv_planning := t\<rparr>))"
  unfolding live_ok_upto by (rule live_upto_reload) simp_all

section \<open>Invariants of the message handler\<close>

definition tab_ok :: "client \<Rightarrow> bool" where
  "tab_ok c \<longleftrightarrow> distinct (map p_id (c_people c)) \<and> distinct (map pr_id (c_projects c)) \<and> dict_ok (c_planning c)
     \<and> length (c_activity c) \<le> 100"

lemma update_first_ids:
  "distinct (map p_id t) \<Longrightarrow> (\<And>q. p_id q = i \<Longrightarrow> p_id (f q) = i) \<Longrightarrow> distinct (map p_id (update_first (\<lambda>q. p_id q = i) f t))"
  "distinct (map pr_id u) \<Longrightarrow> (\<And>q. pr_id q = i \<Longrightarrow> pr_id (g q) = i) \<Longrightarrow> distinct (map pr_id (update_first (\<lambda>q. pr_id q = i) g u))"
  by (simp_all add: map_update_first)

lemma tab_ok_frame:
  "tab_ok c \<Longrightarrow> c_people c' = c_people c \<Longrightarrow> c_projects c' = c_projects c \<Longrightarrow> dict_ok (c_planning c') \<Longrightarrow>
   c_activity c' = c_activity c \<Longrightarrow> tab_ok c'"
  by (simp add: tab_ok_def)

lemma tab_ok_flash: "tab_ok c \<Longrightarrow> tab_ok (queueFlash e cs (js ''remote'') c)"
  by (simp add: tab_ok_def remote_flash remote_flash_frame)

lemma add_activity_length: "length xs \<le> 100 \<Longrightarrow> length (add_activity ev xs) \<le> 100 \<and> hd (add_activity ev xs) = ev"
  by (cases xs) (auto simp: add_activity_def Let_def)

lemma tab_ok_message: "tab_ok c \<Longrightarrow> tab_ok (fst (onMessage e msg c))"
proof (cases msg)
  case (ActivityNew ev)
  assume "tab_ok c"
  then show ?thesis
    using add_activity_length [of "c_activity c" ev] by (simp add: ActivityNew onMessage_def tab_ok_def)
qed (auto simp: onMessage_def tab_ok_flash Let_def split_def tab_ok_def update_first_ids distinct_map_filter
      list_ex_iff remote_flash remote_flash_frame)

lemma tab_ok_loaded: "tab_ok c \<Longrightarrow> loaded_from c c' \<Longrightarrow> tab_ok c'"
  by (cases c; cases c') (auto simp: tab_ok_def loaded_from_def)

lemma tab_ok_call: "tab_ok c \<Longrightarrow> call e r (c, s) = (x, c', s') \<Longrightarrow> tab_ok c'"
  using tab_ok_loaded loaded_from_call loaded_from_intros(1) by blast

lemma tab_ok_render: "tab_ok c \<Longrightarrow> tab_ok (render_state c)"
  by (simp add: tab_ok_def)

lemma tab_ok_follow: "tab_ok (fst cs) \<Longrightarrow> tab_ok (fst (follow e f cs))"
proof (cases f)
  case ReloadRender
  assume ok: "tab_ok (fst cs)"
  obtain c s where cs: "cs = (c, s)" by force
  obtain err c' s' where run: "reloadPlanning e (c, s) = (err, c', s')" by (metis prod.exhaust)
  have "tab_ok c'"
    using tab_ok_loaded [of c c'] reload_loaded [of c e s] ok run cs by simp
  then show ?thesis
    by (simp add: ReloadRender cs run tab_ok_render split: option.splits)
next
  case FetchOncall
  assume ok: "tab_ok (fst cs)"
  obtain c s where cs: "cs = (c, s)" by force
  obtain r c' s' where run: "call e (GetOnCallR (win_start e c) (win_end e c)) (c, s) = (r, c', s')"
    by (metis prod.exhaust)
  have "tab_ok c'" using tab_ok_call ok run cs by simp
  then have "tab_ok (render_state (c'\<lparr>c_oncall := oc, c_oncallLoadedYear := y\<rparr>))" for oc y
    by (simp add: tab_ok_def)
  with \<open>tab_ok c'\<close> ok show ?thesis
    by (simp add: FetchOncall cs run split: sum.splits reply.splits)
next
  case FetchRotation
  assume ok: "tab_ok (fst cs)"
  obtain c s where cs: "cs = (c, s)" by force
  obtain r c' s' where run: "call e (GetRotationR (win_start e c) (win_end e c)) (c, s) = (r, c', s')"
    by (metis prod.exhaust)
  have "tab_ok c'" using tab_ok_call ok run cs by simp
  then have "tab_ok (render_state (c'\<lparr>c_rotation := rt\<rparr>))" for rt
    by (simp add: tab_ok_def)
  with \<open>tab_ok c'\<close> ok show ?thesis
    by (simp add: FetchRotation cs run split: sum.splits reply.splits)
next
  case FetchHolidays
  assume ok: "tab_ok (fst cs)"
  obtain c s where cs: "cs = (c, s)" by force
  obtain r c' s' where run: "call e GetHolidaysR (c, s) = (r, c', s')" by (metis prod.exhaust)
  have "tab_ok c'" using tab_ok_call ok run cs by simp
  then have "tab_ok (render_state (c'\<lparr>c_holidays := hs\<rparr>))" for hs
    by (simp add: tab_ok_def)
  with \<open>tab_ok c'\<close> show ?thesis
    by (simp add: FetchHolidays cs run split: sum.splits reply.splits)
qed (cases cs; simp add: tab_ok_render)+

lemma tab_ok_deliver: "tab_ok (fst cs) \<Longrightarrow> tab_ok (fst (deliver e msg cs))"
  using tab_ok_message [of "fst cs" e msg] by (simp add: deliver_def split_def Let_def tab_ok_follow)

lemma tab_ok_deliveries: "tab_ok (fst cs) \<Longrightarrow> tab_ok (fst (fold (deliver e) msgs cs))"
  by (induction msgs arbitrary: cs) (simp_all add: tab_ok_deliver)

section \<open>Properties\<close>

lemma demo_live_ok: "listening demo_env demo_client demo_server" "view_synced demo_env demo_client demo_server"
proof -
  show "listening demo_env demo_client demo_server"
    unfolding listening_def
    by (intro conjI demo_env_ok demo_weeks demo_plain)
      (simp_all add: demo_server_def demo_env_def demo_client_def rows_ok_def)
  show "view_synced demo_env demo_client demo_server"
    using synced_get [OF demo_synced demo_plain]
    by (simp add: view_synced_def directory_synced_def demo_client_def demo_server_def)
qed


text \<open>A write with an empty list of projects, as the editor sends it for a run, a changed setting and a deleted person among others.\<close>

definition demo_requests :: "request list" where
  "demo_requests = [PutSlotR (js ''p1'') (fmtDate 20501) (js ''pm'') (demo_slot\<lparr>sd_projects := Some []\<rparr>),
     PostPersonR (form_person demo_person_form no_person), CopyWeekR (js ''p1'') (fmtDate 20493) (fmtDate 20500),
     PutSettingR (js ''run_mode'') (js ''ratio''), DelPersonR (js ''p9''),
     DelSlotR (ref_person demo_ref) (ref_date demo_ref) (ref_slot demo_ref), PruneR]"

lemma demo_requests_sound: "list_all sound_request demo_requests"
  using demo_proper
  by (simp add: demo_requests_def proper_ref_def plain_ref_def fmtDate_plain no_person_def js_eq_iff)
    (simp add: plain_part_def js_def)


text \<open>No sequence of messages breaks the shape of the client's state: people and projects
  keep distinct identifiers, slots distinct keys, and the activity log holds at most a hundred
  events, whatever the follow-up requests answer.\<close>

theorem messages_keep_invariants:
  assumes "tab_ok c"
  shows "case fold (deliver e) msgs (c, s) of (c', s') \<Rightarrow>
     distinct (map p_id (c_people c')) \<and> distinct (map pr_id (c_projects c')) \<and> distinct (map fst (c_planning c'))
     \<and> length (c_activity c') \<le> 100"
  using tab_ok_deliveries [of "(c, s)" e msgs] assms by (auto simp: tab_ok_def dict_ok_def split: prod.splits)

theorem messages_keep_invariants_witness:
  "case fold (deliver demo_env) [PersonAdded no_person, PersonAdded no_person, PlanningCopied] (demo_client, demo_server) of (c', s') \<Rightarrow>
     distinct (map p_id (c_people c')) \<and> distinct (map pr_id (c_projects c')) \<and> distinct (map fst (c_planning c'))
     \<and> length (c_activity c') \<le> 100"
  by (rule messages_keep_invariants) (simp add: tab_ok_def demo_client_def dict_ok_def)

text \<open>For two and a half seconds after an edit of its own, a client ignores every message
  about the same slot, not only the echo of its edit: what another client writes in that time
  reaches the server and not this client.\<close>

theorem own_edit_hides_others:
  assumes "ref_person r \<noteq> [] \<and> ref_date r \<noteq> [] \<and> ref_slot r \<noteq> []" and "0 \<le> env_now e"
    and "env_now e' < env_now e + FLASH_SELF_SUPPRESS_MS"
  shows "case live e' (PutSlotR (ref_person r) (ref_date r) (ref_slot r) d) (queueFlash e [ref_cell r] (js ''self'') c, s) of (c', s') \<Rightarrow>
     c_planning c' = c_planning c \<and> read_slot (sv_planning s') r = kept_slot d"
proof -
  have key: "cell_key (ref_cell r) = ref_key r"
    by (simp add: cell_key_def ref_cell_def ref_key_def)
  have recent: "isRecentSelf e' [ref_key r] (queueFlash e [ref_cell r] (js ''self'') c)"
    using assms by (simp add: isRecentSelf_def queueFlash_def queueFlash1_def ref_cell_def [of r] Let_def
        key [unfolded ref_cell_def] FLASH_SELF_SUPPRESS_MS_def)
  have "SlotRef (ref_person r) (ref_date r) (ref_slot r) = r" by (cases r) simp
  with assms recent show ?thesis
    by (simp add: live_def deliver_def onMessage_def remote_flash_frame read_SetSlot)
qed

theorem own_edit_hides_others_witness:
  "case live (demo_env\<lparr>env_now := 3000\<rparr>) (PutSlotR (ref_person demo_ref) (ref_date demo_ref) (ref_slot demo_ref) demo_slot)
      (queueFlash demo_env [ref_cell demo_ref] (js ''self'') demo_client, demo_server) of (c', s') \<Rightarrow>
     c_planning c' = c_planning demo_client \<and> read_slot (sv_planning s') demo_ref = kept_slot demo_slot"
  using demo_proper by (intro own_edit_hides_others) (simp_all add: proper_ref_def demo_env_def FLASH_SELF_SUPPRESS_MS_def)

text \<open>A reset reaches the other clients as a reload of the planning only: they keep showing
  every person and project although the server has none left.\<close>

theorem reset_keeps_people:
  assumes "env_ok e" and "sv_session s \<noteq> None" and "client_weeks e c \<noteq> []" and "plain_ref r"
  shows "case live e ResetR (c, s) of (c', s') \<Rightarrow> sv_people s' = [] \<and> sv_projects s' = []
     \<and> c_people c' = c_people c \<and> c_projects c' = c_projects c \<and> dict_get (c_planning c') (ref_key r) = None"
proof -
  let ?s = "snd (snd (handle ResetR s))"
  have w: "win_start e c \<noteq> []" "win_end e c \<noteq> []"
    using window_dates_nonempty [OF assms(3)] by auto
  have "sv_session ?s \<noteq> None" "plain_store (sv_planning ?s)"
    using assms(2) by (simp_all add: plain_store_def store_ok_def dict_ok_def)
  then show ?thesis
    using reload_ok [OF assms(1) _ assms(3) w, of ?s] get_load_GetPlanning [OF _ assms(4), of "[]"]
    by (simp add: live_def deliver_def onMessage_def read_slot_def split: if_splits)
qed

theorem reset_keeps_people_witness:
  "case live demo_env ResetR (demo_client\<lparr>c_people := [no_person]\<rparr>, demo_server) of (c', s') \<Rightarrow>
     sv_people s' = [] \<and> sv_projects s' = []
     \<and> c_people c' = c_people (demo_client\<lparr>c_people := [no_person]\<rparr>)
     \<and> c_projects c' = c_projects (demo_client\<lparr>c_people := [no_person]\<rparr>)
     \<and> dict_get (c_planning c') (ref_key demo_ref) = None"
proof (rule reset_keeps_people [OF demo_env_ok])
  show "sv_session demo_server \<noteq> None" by (simp add: demo_server_def)
  show "client_weeks demo_env (demo_client\<lparr>c_people := [no_person]\<rparr>) \<noteq> []"
    using demo_weeks by (simp add: client_weeks_def)
  show "plain_ref demo_ref" using demo_proper by (simp add: proper_ref_def)
qed

text \<open>A run target of zero means three things at once: three for the client that set it and
  for every client that loads it, zero for the clients that hear of it, because the message
  carries the text \<open>'0'\<close>, which \<open>||\<close> does not replace.\<close>

theorem zero_target_differs:
  assumes "env_ok e" and "sv_session s \<noteq> None"
  shows "case setRunTarget e 0 (c, s) of (err, c', s') \<Rightarrow> err = None
     \<and> runTarget (c_settings c') = Some 3 \<and> runTarget (settingsFromMap (sv_settings s')) = Some 3
     \<and> runTarget (c_settings (fst (onMessage e (SettingsUpdated [(js ''run_target_persons'', str_of_int 0)]) other))) = Some 0"
proof -
  have z: "str_of_int 0 = [48]" by (simp add: str_of_int_def str_of_nat.simps)
  have a: "atoiOr [48] 3 = 3"
    by (simp add: atoiOr_def leading_int_def is_space_def is_digit_def digits_val_def)
  have n: "text_number [48] = Some 0"
    by (simp add: text_number_def js_trim_def is_space_def is_digit_def digits_val_def)
  have k: "js ''run_target_persons'' \<in> set all_role_keys" "js ''run_target_persons'' \<notin> set admin_keys"
    by (simp_all add: all_role_keys_def admin_keys_def)
  have call: "call e (PutSettingR (js ''run_target_persons'') [48]) (c, s) =
      (Inr RDone, c, s\<lparr>sv_settings := dict_set (js ''run_target_persons'') [48] (sv_settings s)\<rparr>)"
    using assms k by (cases "sv_session s") (simp_all add: call_def serve_def env_ok_def updateSettings_def)
  show ?thesis
    by (simp add: setRunTarget_def put_setting_def z call runTarget_def settingsFromMap_def Let_def dict_get_or_def a n
        onMessage_def merge_setting_def)
qed

theorem zero_target_differs_witness:
  "case setRunTarget demo_env 0 (demo_client, demo_server) of (err, c', s') \<Rightarrow> err = None
     \<and> runTarget (c_settings c') = Some 3 \<and> runTarget (settingsFromMap (sv_settings s')) = Some 3
     \<and> runTarget (c_settings (fst (onMessage demo_env (SettingsUpdated [(js ''run_target_persons'', str_of_int 0)]) demo_client))) = Some 0"
  by (rule zero_target_differs [OF demo_env_ok]) (simp add: demo_server_def)

end
