(* ===== verification/JsSort.thy ===== *)
theory JsSort
  imports AppState "HOL-Library.Multiset"
begin

text \<open>
  \<open>xs.sort(cmp)\<close>: the language sorts stably by a comparison function and leaves the result open
  for an inconsistent one, so that the stable insertion sort below stands for every
  implementation where the comparison is consistent. The locale \<open>js_comparator\<close> says what
  consistent means, and its interpretations show it for the comparison functions of \<open>app.js\<close>.
  \<open>localeCompare\<close> compares collation keys; the keys, which the locale of the browser determines,
  are the parameter \<open>ckey\<close>.
\<close>

fun insert_by :: "('a \<Rightarrow> 'a \<Rightarrow> int) \<Rightarrow> 'a \<Rightarrow> 'a list \<Rightarrow> 'a list" where
  "insert_by cmp x [] = [x]"
| "insert_by cmp x (y # ys) = (if cmp x y \<le> 0 then x # y # ys else y # insert_by cmp x ys)"

definition js_sort :: "('a \<Rightarrow> 'a \<Rightarrow> int) \<Rightarrow> 'a list \<Rightarrow> 'a list" where
  "js_sort cmp xs = foldr (insert_by cmp) xs []"

lemma mset_insert_by: "mset (insert_by cmp x xs) = add_mset x (mset xs)"
  by (induction xs) auto

lemma mset_js_sort [simp]: "mset (js_sort cmp xs) = mset xs"
  by (induction xs) (simp_all add: js_sort_def mset_insert_by)

lemma set_js_sort [simp]: "set (js_sort cmp xs) = set xs"
  by (metis mset_js_sort set_mset_mset)

lemma length_js_sort [simp]: "length (js_sort cmp xs) = length xs"
  by (metis mset_js_sort size_mset)

locale js_comparator =
  fixes cmp :: "'a \<Rightarrow> 'a \<Rightarrow> int" and A :: "'a set"
  assumes flip: "x \<in> A \<Longrightarrow> y \<in> A \<Longrightarrow> 0 < cmp x y \<longleftrightarrow> cmp y x < 0"
    and trans: "x \<in> A \<Longrightarrow> y \<in> A \<Longrightarrow> z \<in> A \<Longrightarrow> cmp x y \<le> 0 \<Longrightarrow> cmp y z \<le> 0 \<Longrightarrow> cmp x z \<le> 0"
begin

lemma set_insert_by: "set (insert_by cmp x xs) = insert x (set xs)"
  by (metis mset_insert_by set_mset_add_mset_insert set_mset_mset)

lemma sorted_insert_by:
  "x \<in> A \<Longrightarrow> set xs \<subseteq> A \<Longrightarrow> sorted_wrt (\<lambda>a b. cmp a b \<le> 0) xs \<Longrightarrow> sorted_wrt (\<lambda>a b. cmp a b \<le> 0) (insert_by cmp x xs)"
proof (induction xs)
  case Nil
  then show ?case by simp
next
  case (Cons y ys)
  show ?case
  proof (cases "cmp x y \<le> 0")
    case True
    have "cmp x z \<le> 0" if "z \<in> set ys" for z
      using trans [of x y z] True that Cons.prems by auto
    with True Cons.prems show ?thesis by simp
  next
    case False
    then have "cmp y x \<le> 0" using flip [of x y] Cons.prems by simp
    with False Cons show ?thesis by (simp add: set_insert_by)
  qed
qed

lemma sorted_js_sort: "set xs \<subseteq> A \<Longrightarrow> sorted_wrt (\<lambda>a b. cmp a b \<le> 0) (js_sort cmp xs)"
proof (induction xs)
  case Nil
  then show ?case by (simp add: js_sort_def)
next
  case (Cons x xs)
  then have "sorted_wrt (\<lambda>a b. cmp a b \<le> 0) (js_sort cmp xs)" "set (js_sort cmp xs) \<subseteq> A" by simp_all
  then show ?case
    using sorted_insert_by [of x "js_sort cmp xs"] Cons.prems by (simp add: js_sort_def)
qed

text \<open>Equal elements keep their order.\<close>

lemma filter_insert_by:
  "x \<in> A \<Longrightarrow> z \<in> A \<Longrightarrow> set xs \<subseteq> A \<Longrightarrow>
   filter (\<lambda>a. cmp z a = 0) (insert_by cmp x xs) = filter (\<lambda>a. cmp z a = 0) (x # xs)"
proof (induction xs)
  case Nil
  then show ?case by simp
next
  case (Cons y ys)
  show ?case
  proof (cases "cmp x y \<le> 0 \<or> cmp z x \<noteq> 0 \<or> cmp z y \<noteq> 0")
    case True
    with Cons show ?thesis by auto
  next
    case False
    then have "cmp x z = 0"
      using flip [of x z] flip [of z x] Cons.prems by auto
    then have "cmp x y \<le> 0"
      using trans [of x z y] False Cons.prems by auto
    with False show ?thesis by simp
  qed
qed

lemma stable_js_sort: "set xs \<subseteq> A \<Longrightarrow> z \<in> A \<Longrightarrow> filter (\<lambda>a. cmp z a = 0) (js_sort cmp xs) = filter (\<lambda>a. cmp z a = 0) xs"
proof (induction xs)
  case Nil
  then show ?case by (simp add: js_sort_def)
next
  case (Cons x xs)
  then have "set (js_sort cmp xs) \<subseteq> A" by simp
  with Cons show ?case
    using filter_insert_by [of x z "js_sort cmp xs"] by (simp add: js_sort_def)
qed

end

text \<open>A sorted list whose equal labels stand together has each label in one run.\<close>

lemma distinct_groups:
  assumes "sorted_wrt R xs"
    and "\<And>a b d. a \<in> set xs \<Longrightarrow> b \<in> set xs \<Longrightarrow> d \<in> set xs \<Longrightarrow> R a b \<Longrightarrow> R b d \<Longrightarrow> f a = f d \<Longrightarrow> f b = f a"
  shows "distinct (remdups_adj (map f xs))"
  using assms
proof (induction xs rule: induct_list012)
  case (3 x y ys)
  then have ih: "distinct (remdups_adj (map f (y # ys)))" 
    by (intro "3.IH"(2)) (simp, blast intro: "3.prems"(2) list.set_intros(2))
  have "f x \<notin> f ` set (y # ys)" if "f x \<noteq> f y"
  proof
    assume "f x \<in> f ` set (y # ys)"
    then obtain z where z: "f x = f z" "z \<in> set (y # ys)" by (rule imageE)
    then have "z \<in> set ys" using that by (metis set_ConsD)
    then show False using "3.prems"(1) "3.prems"(2) [of x y z] z that by auto
  qed
  with ih show ?case by (auto simp: image_iff)
qed auto

section \<open>The comparison functions\<close>

definition localeCompare :: "(jsstring \<Rightarrow> jsstring) \<Rightarrow> jsstring \<Rightarrow> jsstring \<Rightarrow> int" where
  "localeCompare ckey a b = (if ckey a < ckey b then - 1 else if ckey a = ckey b then 0 else 1)"

text \<open>The team grid by name: guests last.\<close>

definition cmp_name :: "(jsstring \<Rightarrow> jsstring) \<Rightarrow> person \<Rightarrow> person \<Rightarrow> int" where
  "cmp_name ckey a b =
     (let g = (if p_is_guest a then 1 else 0) - (if p_is_guest b then 1 else 0)
      in if g \<noteq> 0 then g else localeCompare ckey (p_name a) (p_name b))"

definition team_name :: "(jsstring \<Rightarrow> jsstring) \<Rightarrow> person \<Rightarrow> jsstring" where
  "team_name lower a = lower (if p_is_guest a then js ''guests'' else or_else (p_sub_team a) (js ''other''))"

definition cmp_sub_team :: "(jsstring \<Rightarrow> jsstring) \<Rightarrow> (jsstring \<Rightarrow> jsstring) \<Rightarrow> person \<Rightarrow> person \<Rightarrow> int" where
  "cmp_sub_team lower ckey a b =
     (if p_is_guest a \<noteq> p_is_guest b then (if p_is_guest a then 1 else - 1)
      else if team_name lower a \<noteq> team_name lower b then localeCompare ckey (team_name lower a) (team_name lower b)
      else localeCompare ckey (p_name a) (p_name b))"

text \<open>Projects by name, and the Gantt view's orders by date, where a missing date is last.\<close>

definition cmp_project :: "(jsstring \<Rightarrow> jsstring) \<Rightarrow> project \<Rightarrow> project \<Rightarrow> int" where
  "cmp_project ckey a b = localeCompare ckey (pr_name a) (pr_name b)"

definition cmp_start :: "(jsstring \<Rightarrow> jsstring) \<Rightarrow> project \<Rightarrow> project \<Rightarrow> int" where
  "cmp_start ckey a b = localeCompare ckey (or_else (pr_start_date a) (js ''9999'')) (or_else (pr_start_date b) (js ''9999''))"

definition cmp_end :: "(jsstring \<Rightarrow> jsstring) \<Rightarrow> project \<Rightarrow> project \<Rightarrow> int" where
  "cmp_end ckey a b = localeCompare ckey (or_else (pr_end_date a) (js ''9999'')) (or_else (pr_end_date b) (js ''9999''))"

lemma localeCompare_signs:
  "localeCompare ckey a b \<le> 0 \<longleftrightarrow> ckey a \<le> ckey b" "0 < localeCompare ckey a b \<longleftrightarrow> ckey b < ckey a"
  "localeCompare ckey a b < 0 \<longleftrightarrow> ckey a < ckey b" "localeCompare ckey a b = 0 \<longleftrightarrow> ckey a = ckey b"
  by (auto simp: localeCompare_def)

interpretation names: js_comparator "cmp_name ckey" UNIV for ckey
  by unfold_locales (auto simp: cmp_name_def Let_def localeCompare_signs split: if_splits)

interpretation projects: js_comparator "cmp_project ckey" UNIV for ckey
  by unfold_locales (auto simp: cmp_project_def localeCompare_signs)

interpretation starts: js_comparator "cmp_start ckey" UNIV for ckey
  by unfold_locales (auto simp: cmp_start_def localeCompare_signs)

interpretation ends: js_comparator "cmp_end ckey" UNIV for ckey
  by unfold_locales (auto simp: cmp_end_def localeCompare_signs)

text \<open>By sub-team the comparison is consistent among people whose different team names have
  different collation keys.\<close>

lemma sub_team_comparator:
  assumes "inj_on ckey (team_name lower ` A)"
  shows "js_comparator (cmp_sub_team lower ckey) A"
proof
  have k: "ckey (team_name lower x) = ckey (team_name lower y) \<longleftrightarrow> team_name lower x = team_name lower y"
    if "x \<in> A" "y \<in> A" for x y
    using assms that by (auto dest: inj_onD)
  show "0 < cmp_sub_team lower ckey x y \<longleftrightarrow> cmp_sub_team lower ckey y x < 0" if "x \<in> A" "y \<in> A" for x y
    by (auto simp: cmp_sub_team_def localeCompare_signs)
  show "cmp_sub_team lower ckey x z \<le> 0"
    if "x \<in> A" "y \<in> A" "z \<in> A" "cmp_sub_team lower ckey x y \<le> 0" "cmp_sub_team lower ckey y z \<le> 0" for x y z
    using that(4,5) k [OF that(1,2)] k [OF that(2,3)] k [OF that(1,3)]
    by (auto simp: cmp_sub_team_def localeCompare_signs split: if_splits)
qed

end
