(* ===== verification/TeamGrid.thy ===== *)
theory TeamGrid
  imports JsSort Coverage MergeKey Color
begin

text \<open>
  The team grid (\<open>renderTeamGrid\<close>, and the same cells in \<open>renderGuests\<close>): which people it shows
  and in which order, its day headers and columns, the cells with their merging, the warning of
  a conflict and the summary row. The grid is a value here; its HTML is not modelled.
\<close>

record grid_view =
  gv_group_by :: jsstring
  gv_show_weekend :: bool
  gv_show_guests :: bool
  gv_filter :: jsstring

record grid_slot =
  gs_date :: jsstring
  gs_slot :: jsstring
  gs_week :: nat
  gs_day :: nat

record day_header =
  dh_col :: nat
  dh_name :: jsstring
  dh_day :: int
  dh_sep :: bool
  dh_holiday :: "jsstring option"

record grid_cell =
  gc_slot :: grid_slot
  gc_class :: jsstring
  gc_sep :: bool
  gc_merged :: bool
  gc_on_call :: bool
  gc_background :: "jsstring option"
  gc_label :: "jsstring option"

datatype grid_row =
    TeamRow jsstring
  | PersonRow nat person "int option" "grid_cell list"

record grid_sum =
  sm_away :: nat
  sm_run :: nat
  sm_avail_pct :: int
  sm_warn :: bool

section \<open>Columns\<close>

definition allSlots :: "bool \<Rightarrow> date list \<Rightarrow> grid_slot list" where
  "allSlots showWeekend weeks =
     concat (map (\<lambda>(wi, w). concat (map (\<lambda>(di, d).
        if 5 \<le> di \<and> \<not> showWeekend then []
        else map (\<lambda>slot. \<lparr>gs_date = fmtDate d, gs_slot = slot, gs_week = wi, gs_day = di\<rparr>) slots2)
       (zip [0..<7] (getWeekDays w)))) (zip [0..<length weeks] weeks))"

text \<open>The headers of the weeks (label, width, separator), and of the days; \<open>hdrCol\<close> counts half-day columns.\<close>

definition slotsPerWeek :: "bool \<Rightarrow> nat" where
  "slotsPerWeek showWeekend = (if showWeekend then 14 else 10)"

definition weekHeaders :: "(date \<Rightarrow> int) \<Rightarrow> bool \<Rightarrow> date list \<Rightarrow> (jsstring \<times> nat \<times> bool) list" where
  "weekHeaders tz showWeekend weeks =
     map (\<lambda>(wi, w). (js ''W'' @ str_of_int (getWeekNumber tz w) @ js '' '' @ drop 5 (formatWeekStart w), slotsPerWeek showWeekend, 0 < wi))
       (zip [0..<length weeks] weeks)"

definition header_step :: "bool \<Rightarrow> settings \<Rightarrow> holiday list \<Rightarrow> nat \<Rightarrow> nat \<times> date \<Rightarrow> nat \<times> day_header list \<Rightarrow> nat \<times> day_header list" where
  "header_step showWeekend st hs wi = (\<lambda>(di, d) (hdrCol, acc).
     if 5 \<le> di \<and> \<not> showWeekend then (hdrCol, acc)
     else (hdrCol + 2, acc @ [\<lparr>dh_col = hdrCol, dh_name = dayNames7 ! di, dh_day = getDate d, dh_sep = (di = 0 \<and> 0 < wi),
             dh_holiday = isHoliday st hs (fmtDate d)\<rparr>]))"

definition dayHeaders :: "bool \<Rightarrow> settings \<Rightarrow> holiday list \<Rightarrow> date list \<Rightarrow> day_header list" where
  "dayHeaders showWeekend st hs weeks =
     snd (fold (\<lambda>(wi, w). fold (header_step showWeekend st hs wi) (zip [0..<7] (getWeekDays w)))
            (zip [0..<length weeks] weeks) (0, []))"

section \<open>People\<close>

definition gridPeople :: "grid_view \<Rightarrow> client \<Rightarrow> person list" where
  "gridPeople v c = getActivePeople (c_people c) @ (if gv_show_guests v then getActiveGuests (c_people c) else [])"

definition personMatches :: "(jsstring \<Rightarrow> jsstring) \<Rightarrow> jsstring \<Rightarrow> planning \<Rightarrow> date list \<Rightarrow> person \<Rightarrow> bool" where
  "personMatches lower f pl weeks p \<longleftrightarrow>
     js_includes (lower (p_name p)) f \<or> js_includes (lower (p_sub_team p)) f
     \<or> list_ex (\<lambda>w. list_ex (\<lambda>d. list_ex (\<lambda>slot.
          case getSlot pl (p_id p) (fmtDate d) slot of None \<Rightarrow> False
          | Some sd \<Rightarrow> list_ex (\<lambda>pr. js_includes (lower (pa_name pr)) f) (projects_list sd)) slots2) (getWeekDays w)) weeks"

definition gridFilter :: "(jsstring \<Rightarrow> jsstring) \<Rightarrow> grid_view \<Rightarrow> planning \<Rightarrow> date list \<Rightarrow> person list \<Rightarrow> person list" where
  "gridFilter lower v pl weeks people =
     (if gv_filter v = [] then people
      else filter (personMatches lower (lower (gv_filter v)) pl weeks) people)"

definition gridSort :: "(jsstring \<Rightarrow> jsstring) \<Rightarrow> (jsstring \<Rightarrow> jsstring) \<Rightarrow> grid_view \<Rightarrow> person list \<Rightarrow> person list" where
  "gridSort lower ckey v people =
     (if gv_group_by v = js ''sub_team'' then js_sort (cmp_sub_team lower ckey) people
      else js_sort (cmp_name ckey) people)"

text \<open>
  The warning of a conflict. The inner \<open>break\<close> tests \<open>conflictWarn\<close> itself, so once a week has set it
  only the first day of each later week is looked at.
\<close>

definition away_on :: "client \<Rightarrow> jsstring \<Rightarrow> date \<Rightarrow> bool" where
  "away_on c pid d = list_ex (\<lambda>slot. case getSlot (c_planning c) pid (fmtDate d) slot of
      None \<Rightarrow> False | Some sd \<Rightarrow> sd_away sd \<noteq> None) slots2"

fun scan_days :: "(date \<Rightarrow> bool) \<Rightarrow> int \<Rightarrow> int option \<Rightarrow> date list \<Rightarrow> int option" where
  "scan_days away wn warn [] = warn"
| "scan_days away wn warn (d # ds) =
     (let warn' = if away d then Some wn else warn
      in if warn' \<noteq> None then warn' else scan_days away wn warn' ds)"

definition assigned :: "client \<Rightarrow> jsstring \<Rightarrow> date \<Rightarrow> bool" where
  "assigned c pid w \<longleftrightarrow>
     isOnCall (c_oncall c) pid (formatWeekStart w) \<or> isRunPerson (c_rotation c) pid (formatWeekStart w)"

definition conflictWarn :: "(date \<Rightarrow> int) \<Rightarrow> client \<Rightarrow> date list \<Rightarrow> jsstring \<Rightarrow> int option" where
  "conflictWarn tz c weeks pid =
     fold (\<lambda>w warn. if assigned c pid w then scan_days (away_on c pid) (getWeekNumber tz w) warn (getWeekDays w) else warn)
       weeks None"

section \<open>Cells\<close>

definition gridCell :: "client \<Rightarrow> date list \<Rightarrow> jsstring \<Rightarrow> jsstring option \<Rightarrow> grid_slot \<Rightarrow> grid_cell" where
  "gridCell c weeks pid prevMergeKey sl =
     (let sd = getSlot (c_planning c) pid (gs_date sl) (gs_slot sl); cls = getSlotClass sd;
          merged = (prevMergeKey = Some (getMergeKey sd (gs_week sl)))
      in \<lparr>gc_slot = sl, gc_class = cls, gc_sep = (gs_day sl = 0 \<and> gs_slot sl = js ''am'' \<and> 0 < gs_week sl),
          gc_merged = merged, gc_on_call = isOnCall (c_oncall c) pid (formatWeekStart (weeks ! gs_week sl)),
          gc_background = (if js_includes cls (js ''project'') then projectColorBg sd else None),
          gc_label = (if \<not> merged \<or> js_includes cls (js ''not-filled'') then Some (getCellLabel sd) else None)\<rparr>)"

fun personCells :: "client \<Rightarrow> date list \<Rightarrow> jsstring \<Rightarrow> jsstring option \<Rightarrow> grid_slot list \<Rightarrow> grid_cell list" where
  "personCells c weeks pid prevMergeKey [] = []"
| "personCells c weeks pid prevMergeKey (sl # sls) =
     gridCell c weeks pid prevMergeKey sl
       # personCells c weeks pid (Some (getMergeKey (getSlot (c_planning c) pid (gs_date sl) (gs_slot sl)) (gs_week sl))) sls"

definition subteam_label :: "person \<Rightarrow> jsstring" where
  "subteam_label p = (if p_is_guest p then js ''Guests'' else or_else (p_sub_team p) (js ''Other''))"

fun gridRows :: "(person \<Rightarrow> int option) \<Rightarrow> (person \<Rightarrow> grid_cell list) \<Rightarrow> bool \<Rightarrow> jsstring option \<Rightarrow> nat \<Rightarrow> person list \<Rightarrow> grid_row list" where
  "gridRows warn cells grouped lastSubTeam rowIdx [] = []"
| "gridRows warn cells grouped lastSubTeam rowIdx (p # ps) =
     (if grouped \<and> lastSubTeam \<noteq> Some (subteam_label p)
      then TeamRow (subteam_label p) # PersonRow rowIdx p (warn p) (cells p) # gridRows warn cells grouped (Some (subteam_label p)) (rowIdx + 1) ps
      else PersonRow rowIdx p (warn p) (cells p) # gridRows warn cells grouped lastSubTeam (rowIdx + 1) ps)"

text \<open>\<open>pct n m\<close> is the rounded percentage \<open>Math.round(n/m*100)\<close>.\<close>

definition summaryCell :: "(nat \<Rightarrow> nat \<Rightarrow> int) \<Rightarrow> client \<Rightarrow> person list \<Rightarrow> grid_slot \<Rightarrow> grid_sum" where
  "summaryCell pct c people sl =
     (let slot = \<lambda>p. getSlot (c_planning c) (p_id p) (gs_date sl) (gs_slot sl);
          away = length (filter (\<lambda>p. case slot p of None \<Rightarrow> False | Some sd \<Rightarrow> sd_away sd \<noteq> None) people);
          run = length (filter (\<lambda>p. case slot p of None \<Rightarrow> False | Some sd \<Rightarrow> sd_run sd) people)
      in \<lparr>sm_away = away, sm_run = run,
          sm_avail_pct = (if 0 < length people then pct (length people - away) (length people) else 0),
          sm_warn = below_num (int run) (runTarget (c_settings c))\<rparr>)"

text \<open>The whole grid: headers, rows and summary; \<open>None\<close> is the welcome page.\<close>

definition renderTeamGrid :: "(date \<Rightarrow> int) \<Rightarrow> (nat \<Rightarrow> nat \<Rightarrow> int) \<Rightarrow> (jsstring \<Rightarrow> jsstring) \<Rightarrow> (jsstring \<Rightarrow> jsstring)
    \<Rightarrow> env \<Rightarrow> grid_view \<Rightarrow> client \<Rightarrow> ((jsstring \<times> nat \<times> bool) list \<times> day_header list \<times> grid_row list \<times> grid_sum list) option" where
  "renderTeamGrid tz pct lower ckey e v c =
     (let people = gridPeople v c; weeks = client_weeks e c; slots = allSlots (gv_show_weekend v) weeks
      in if people = [] then None
         else Some (weekHeaders tz (gv_show_weekend v) weeks,
                    dayHeaders (gv_show_weekend v) (c_settings c) (c_holidays c) weeks,
                    gridRows (\<lambda>p. conflictWarn tz c weeks (p_id p)) (\<lambda>p. personCells c weeks (p_id p) None slots)
                      (gv_group_by v = js ''sub_team'') None 0
                      (gridSort lower ckey v (gridFilter lower v (c_planning c) weeks people)),
                    map (summaryCell pct c people) slots))"

section \<open>The crosshair\<close>

text \<open>
  An element under the pointer is a name (a row), a day header (a column and the next) or a cell (both).
  \<open>cur\<close> is the key of what is highlighted; the classes on the elements are the two lists.
\<close>

record hover_target =
  ht_row :: "nat option"
  ht_col :: "nat option"
  ht_day_header :: bool

record crosshair =
  ch_cur :: "jsstring option"
  ch_rows :: "nat list"
  ch_cols :: "nat list"

definition dataset_text :: "nat option \<Rightarrow> jsstring \<Rightarrow> jsstring" where
  "dataset_text v missing = (case v of None \<Rightarrow> missing | Some n \<Rightarrow> str_of_nat n)"

definition second_col :: "hover_target \<Rightarrow> nat option" where
  "second_col t = (case ht_col t of Some c \<Rightarrow> if ht_day_header t then Some (c + 1) else None | None \<Rightarrow> None)"

definition hover_key :: "hover_target \<Rightarrow> jsstring" where
  "hover_key t = dataset_text (ht_row t) (js ''undefined'') @ js ''|'' @ dataset_text (ht_col t) (js ''undefined'')
     @ js ''|'' @ dataset_text (second_col t) (js ''null'')"

definition ch_clear :: "crosshair \<Rightarrow> crosshair" where
  "ch_clear h = (if ch_cur h = None then h else \<lparr>ch_cur = None, ch_rows = [], ch_cols = []\<rparr>)"

definition mouseover :: "hover_target \<Rightarrow> crosshair \<Rightarrow> crosshair" where
  "mouseover t h =
     (if ch_cur h = Some (hover_key t) then h
      else let h = ch_clear h;
               rows = (case ht_row t of None \<Rightarrow> ch_rows h | Some r \<Rightarrow> ch_rows h @ [r]);
               cols = (case ht_col t of None \<Rightarrow> ch_cols h
                 | Some c \<Rightarrow> ch_cols h @ [c] @ (case second_col t of None \<Rightarrow> [] | Some c2 \<Rightarrow> [c2]))
           in \<lparr>ch_cur = Some (hover_key t), ch_rows = rows, ch_cols = cols\<rparr>)"

datatype pointer = Over hover_target | Leave

fun point :: "pointer \<Rightarrow> crosshair \<Rightarrow> crosshair" where
  "point (Over t) h = mouseover t h"
| "point Leave h = ch_clear h"

section \<open>The columns by day\<close>

definition shown_days :: "bool \<Rightarrow> date list \<Rightarrow> (nat \<times> nat \<times> date) list" where
  "shown_days showWeekend weeks =
     concat (map (\<lambda>(wi, w). map (\<lambda>(di, d). (wi, di, d)) (filter (\<lambda>(di, d). di < 5 \<or> showWeekend) (zip [0..<7] (getWeekDays w))))
       (zip [0..<length weeks] weeks))"

definition grid_slot_of :: "nat \<times> nat \<times> date \<Rightarrow> jsstring \<Rightarrow> grid_slot" where
  "grid_slot_of x slot = (case x of (wi, di, d) \<Rightarrow> \<lparr>gs_date = fmtDate d, gs_slot = slot, gs_week = wi, gs_day = di\<rparr>)"

definition header_of :: "settings \<Rightarrow> holiday list \<Rightarrow> nat \<Rightarrow> nat \<times> nat \<times> date \<Rightarrow> day_header" where
  "header_of st hs col x = (case x of (wi, di, d) \<Rightarrow>
     \<lparr>dh_col = col, dh_name = dayNames7 ! di, dh_day = getDate d, dh_sep = (di = 0 \<and> 0 < wi), dh_holiday = isHoliday st hs (fmtDate d)\<rparr>)"

fun headers_from :: "settings \<Rightarrow> holiday list \<Rightarrow> nat \<Rightarrow> (nat \<times> nat \<times> date) list \<Rightarrow> day_header list" where
  "headers_from st hs col [] = []"
| "headers_from st hs col (x # xs) = header_of st hs col x # headers_from st hs (col + 2) xs"

lemma allSlots_days:
  "allSlots wk weeks = concat (map (\<lambda>x. [grid_slot_of x (js ''am''), grid_slot_of x (js ''pm'')]) (shown_days wk weeks))"
proof -
  let ?pair = "\<lambda>x. [grid_slot_of x (js ''am''), grid_slot_of x (js ''pm'')]"
  have day: "concat (map (\<lambda>(di, d). if 5 \<le> di \<and> \<not> wk then []
        else map (\<lambda>slot. \<lparr>gs_date = fmtDate d, gs_slot = slot, gs_week = wi, gs_day = di\<rparr>) slots2) xs)
      = concat (map ?pair (map (\<lambda>(di, d). (wi, di, d)) (filter (\<lambda>(di, d). di < 5 \<or> wk) xs)))" for wi and xs :: "(nat \<times> date) list"
    by (induction xs) (auto simp: slots2_def grid_slot_of_def split: if_splits)
  have "concat (map (\<lambda>(wi, w). concat (map (\<lambda>(di, d). if 5 \<le> di \<and> \<not> wk then []
        else map (\<lambda>slot. \<lparr>gs_date = fmtDate d, gs_slot = slot, gs_week = wi, gs_day = di\<rparr>) slots2)
       (zip [0..<7] (getWeekDays w)))) ws)
    = concat (map ?pair (concat (map (\<lambda>(wi, w). map (\<lambda>(di, d). (wi, di, d)) (filter (\<lambda>(di, d). di < 5 \<or> wk) (zip [0..<7] (getWeekDays w)))) ws)))"
    for ws :: "(nat \<times> date) list"
    by (induction ws) (auto simp: day)
  then show ?thesis by (simp add: allSlots_def shown_days_def)
qed

lemma headers_from_append:
  "headers_from st hs col (xs @ ys) = headers_from st hs col xs @ headers_from st hs (col + 2 * length xs) ys"
  by (induction xs arbitrary: col) simp_all

lemma dayHeaders_days: "dayHeaders wk st hs weeks = headers_from st hs 0 (shown_days wk weeks)"
proof -
  let ?days = "\<lambda>wi xs. map (\<lambda>(di, d). (wi, di, d)) (filter (\<lambda>(di, d). di < 5 \<or> wk) xs)"
  have day: "fold (header_step wk st hs wi) xs (col, acc) = (col + 2 * length (?days wi xs), acc @ headers_from st hs col (?days wi xs))"
    for wi col acc and xs :: "(nat \<times> date) list"
    by (induction xs arbitrary: col acc) (auto simp: header_step_def header_of_def split: if_splits)
  have "fold (\<lambda>(wi, w). fold (header_step wk st hs wi) (zip [0..<7] (getWeekDays w))) ws (col, acc)
      = (col + 2 * length (concat (map (\<lambda>(wi, w). ?days wi (zip [0..<7] (getWeekDays w))) ws)),
         acc @ headers_from st hs col (concat (map (\<lambda>(wi, w). ?days wi (zip [0..<7] (getWeekDays w))) ws)))" for col acc and ws :: "(nat \<times> date) list"
    by (induction ws arbitrary: col acc) (auto simp: day headers_from_append algebra_simps)
  then show ?thesis by (simp add: dayHeaders_def shown_days_def)
qed

lemma headers_from_nth: "k < length xs \<Longrightarrow> headers_from st hs col xs ! k = header_of st hs (col + 2 * k) (xs ! k)"
  by (induction xs arbitrary: col k) (auto simp: nth_Cons split: nat.splits)

lemma length_headers_from [simp]: "length (headers_from st hs col xs) = length xs"
  by (induction xs arbitrary: col) simp_all

lemma pairs_nth:
  "k < length xs \<Longrightarrow> concat (map (\<lambda>x. [f x, g x]) xs) ! (2 * k) = f (xs ! k) \<and> concat (map (\<lambda>x. [f x, g x]) xs) ! (2 * k + 1) = g (xs ! k)"
  by (induction xs arbitrary: k) (auto simp: nth_Cons split: nat.splits)

lemma length_pairs: "length (concat (map (\<lambda>x. [f x, g x]) xs)) = 2 * length xs"
  by (induction xs) simp_all

lemma length_shown_days: "2 * length (shown_days wk weeks) = slotsPerWeek wk * length weeks"
proof -
  have "length (filter (\<lambda>(di, d). di < 5 \<or> wk) (zip [0..<7] (getWeekDays w))) = (if wk then 7 else 5)" for w
    by (simp add: getWeekDays_def upt_rec)
  then have "length (concat (map (\<lambda>(wi, w). map (\<lambda>(di, d). (wi, di, d)) (filter (\<lambda>(di, d). di < 5 \<or> wk) (zip [0..<7] (getWeekDays w)))) ws))
      = (if wk then 7 else 5) * length ws" for ws :: "(nat \<times> date) list"
    by (induction ws) auto
  then show ?thesis by (simp add: shown_days_def slotsPerWeek_def)
qed

section \<open>Where a label is shown\<close>

definition shown_slot :: "client \<Rightarrow> jsstring \<Rightarrow> grid_slot \<Rightarrow> slot_data option" where
  "shown_slot c pid sl = getSlot (c_planning c) pid (gs_date sl) (gs_slot sl)"

definition shown_key :: "client \<Rightarrow> jsstring \<Rightarrow> grid_slot \<Rightarrow> jsstring" where
  "shown_key c pid sl = getMergeKey (shown_slot c pid sl) (gs_week sl)"

lemma length_personCells [simp]: "length (personCells c weeks pid prev sls) = length sls"
  by (induction sls arbitrary: prev) simp_all

lemma personCells_nth:
  "i < length sls \<Longrightarrow> personCells c weeks pid prev sls ! i =
     gridCell c weeks pid (if i = 0 then prev else Some (shown_key c pid (sls ! (i - 1)))) (sls ! i)"
proof (induction sls arbitrary: prev i)
  case (Cons sl sls)
  then show ?case
    by (cases i) (auto simp: shown_key_def shown_slot_def nth_Cons split: nat.splits)
qed simp

lemma no_label_merged: "gc_label (gridCell c weeks pid prev sl) = None \<Longrightarrow> prev = Some (shown_key c pid sl)"
  by (auto simp: gridCell_def Let_def shown_key_def shown_slot_def split: if_splits)

lemma some_label: "gc_label (gridCell c weeks pid prev sl) = Some l \<Longrightarrow> l = getCellLabel (shown_slot c pid sl)"
  by (auto simp: gridCell_def Let_def shown_slot_def split: if_splits)

definition same_show :: "client \<Rightarrow> jsstring \<Rightarrow> grid_slot \<Rightarrow> grid_slot \<Rightarrow> bool" where
  "same_show c pid a b \<longleftrightarrow> gs_week a = gs_week b \<and> getCellLabel (shown_slot c pid a) = getCellLabel (shown_slot c pid b)"

lemma same_key_shows:
  assumes "shown_key c pid a = shown_key c pid b"
    and "view_no_colon (view_of (shown_slot c pid a))" "view_no_colon (view_of (shown_slot c pid b))"
  shows "same_show c pid a b"
  using merge_key_view [OF assms(2,3)] assms(1) by (simp add: shown_key_def same_show_def getCellLabel_view)

definition label_source :: "client \<Rightarrow> jsstring \<Rightarrow> grid_slot list \<Rightarrow> grid_cell list \<Rightarrow> nat \<Rightarrow> bool" where
  "label_source c pid sls cells i =
     list_ex (\<lambda>j. gc_label (cells ! j) = Some (getCellLabel (shown_slot c pid (sls ! i)))
        \<and> list_all (\<lambda>k. same_show c pid (sls ! k) (sls ! i)) [j..<i]) [0..<i]"

lemma label_source_step:
  assumes "list_all (\<lambda>sl. view_no_colon (view_of (shown_slot c pid sl))) sls" and "i < length sls"
    and "gc_label (personCells c weeks pid None sls ! i) = None"
  shows "label_source c pid sls (personCells c weeks pid None sls) i"
  using assms(2,3)
proof (induction i)
  case 0
  then have "gc_label (gridCell c weeks pid None (sls ! 0)) = None" by (simp add: personCells_nth)
  then show ?case by (auto dest: no_label_merged)
next
  case (Suc i)
  let ?cells = "personCells c weeks pid None sls"
  have eq: "same_show c pid (sls ! i) (sls ! Suc i)"
  proof (rule same_key_shows)
    have "gc_label (gridCell c weeks pid (Some (shown_key c pid (sls ! i))) (sls ! Suc i)) = None"
      using Suc.prems by (simp add: personCells_nth)
    then show "shown_key c pid (sls ! i) = shown_key c pid (sls ! Suc i)"
      by (auto dest: no_label_merged)
  qed (use assms(1) Suc.prems in \<open>simp_all add: list_all_length\<close>)
  show ?case
  proof (cases "gc_label (?cells ! i)")
    case None
    then have "label_source c pid sls ?cells i" using Suc by simp
    then obtain j where j: "j < i" "gc_label (?cells ! j) = Some (getCellLabel (shown_slot c pid (sls ! i)))"
      "list_all (\<lambda>k. same_show c pid (sls ! k) (sls ! i)) [j..<i]"
      by (auto simp: label_source_def list_ex_iff)
    have "list_all (\<lambda>k. same_show c pid (sls ! k) (sls ! Suc i)) [j..<Suc i]"
      using j(1,3) eq by (auto simp: list_all_iff same_show_def)
    then show ?thesis using j(1,2) eq by (auto simp: label_source_def list_ex_iff same_show_def intro!: exI [of _ j])
  next
    case (Some l)
    then have "l = getCellLabel (shown_slot c pid (sls ! i))"
      using some_label Suc.prems(1) by (simp add: personCells_nth)
    then show ?thesis using Some eq by (auto simp: label_source_def list_ex_iff same_show_def intro!: exI [of _ i])
  qed
qed


section \<open>Groups\<close>

fun row_people :: "grid_row list \<Rightarrow> person list" where
  "row_people [] = []"
| "row_people (TeamRow t # rows) = row_people rows"
| "row_people (PersonRow i p w cs # rows) = p # row_people rows"

fun row_teams :: "grid_row list \<Rightarrow> jsstring list" where
  "row_teams [] = []"
| "row_teams (TeamRow t # rows) = t # row_teams rows"
| "row_teams (PersonRow i p w cs # rows) = row_teams rows"

text \<open>Every person stands under the header of the person's team, and the rows are numbered from \<open>i\<close>.\<close>

fun under_headers :: "jsstring option \<Rightarrow> nat \<Rightarrow> grid_row list \<Rightarrow> bool" where
  "under_headers cur i [] = True"
| "under_headers cur i (TeamRow t # rows) = under_headers (Some t) i rows"
| "under_headers cur i (PersonRow k p w cs # rows) \<longleftrightarrow> k = i \<and> cur = Some (subteam_label p) \<and> under_headers cur (i + 1) rows"

lemma row_people_rows [simp]: "row_people (gridRows warn cells g l0 i ps) = ps"
  by (induction ps arbitrary: l0 i) auto

lemma under_headers_rows: "under_headers l0 i (gridRows warn cells True l0 i ps)"
  by (induction ps arbitrary: l0 i) auto

lemma row_teams_some: "l # row_teams (gridRows warn cells True (Some l) i ps) = remdups_adj (l # map subteam_label ps)"
  by (induction ps arbitrary: l i) simp_all

lemma row_teams_rows: "row_teams (gridRows warn cells True None i ps) = remdups_adj (map subteam_label ps)"
  by (cases ps) (simp_all add: row_teams_some)

definition labels_faithful :: "(jsstring \<Rightarrow> jsstring) \<Rightarrow> person list \<Rightarrow> bool" where
  "labels_faithful lower ps = list_all (\<lambda>a. list_all (\<lambda>b. subteam_label a = subteam_label b
     \<longleftrightarrow> p_is_guest a = p_is_guest b \<and> team_name lower a = team_name lower b) ps) ps"

lemma labels_faithfulD:
  "labels_faithful lower ps \<Longrightarrow> a \<in> set ps \<Longrightarrow> b \<in> set ps \<Longrightarrow>
   subteam_label a = subteam_label b \<longleftrightarrow> p_is_guest a = p_is_guest b \<and> team_name lower a = team_name lower b"
  by (simp add: labels_faithful_def list_all_iff)

lemma team_convex:
  assumes "cmp_sub_team lower ckey a b \<le> 0" "cmp_sub_team lower ckey b d \<le> 0"
    and "p_is_guest a = p_is_guest d" "team_name lower a = team_name lower d"
    and "ckey (team_name lower a) = ckey (team_name lower b) \<Longrightarrow> team_name lower a = team_name lower b"
  shows "p_is_guest b = p_is_guest a \<and> team_name lower b = team_name lower a"
  using assms by (auto simp: cmp_sub_team_def localeCompare_signs split: if_splits)

lemma team_by_name:
  "cmp_sub_team lower ckey a b \<le> 0 \<Longrightarrow> p_is_guest a = p_is_guest b \<Longrightarrow> team_name lower a = team_name lower b
   \<Longrightarrow> ckey (p_name a) \<le> ckey (p_name b)"
  by (simp add: cmp_sub_team_def localeCompare_signs)


section \<open>Warnings\<close>

lemma scan_days_Some: "scan_days away wn (Some n) ds = (case ds of [] \<Rightarrow> Some n | d # _ \<Rightarrow> Some (if away d then wn else n))"
  by (cases ds) auto

lemma scan_days_None: "scan_days away wn None ds = (if list_ex away ds then Some wn else None)"
  by (induction ds) auto

definition conflict_in :: "client \<Rightarrow> jsstring \<Rightarrow> date \<Rightarrow> bool" where
  "conflict_in c pid w \<longleftrightarrow> assigned c pid w \<and> list_ex (away_on c pid) (getWeekDays w)"

lemma conflict_step:
  "(if assigned c pid w then scan_days (away_on c pid) n warn (getWeekDays w) else warn)
     = (case warn of None \<Rightarrow> if conflict_in c pid w then Some n else None
        | Some m \<Rightarrow> Some (if assigned c pid w \<and> away_on c pid (hd (getWeekDays w)) then n else m))"
  by (cases warn) (auto simp: scan_days_None scan_days_Some conflict_in_def getWeekDays_def upt_rec split: list.splits)

lemma conflictWarn_weeks:
  "case conflictWarn tz c weeks pid of
     None \<Rightarrow> \<not> list_ex (conflict_in c pid) weeks
   | Some n \<Rightarrow> list_ex (\<lambda>w. conflict_in c pid w \<and> n = getWeekNumber tz w) weeks"
proof (induction weeks rule: rev_induct)
  case Nil
  then show ?case by (simp add: conflictWarn_def)
next
  case (snoc w weeks)
  have "conflictWarn tz c (weeks @ [w]) pid =
    (case conflictWarn tz c weeks pid of None \<Rightarrow> if conflict_in c pid w then Some (getWeekNumber tz w) else None
        | Some m \<Rightarrow> Some (if assigned c pid w \<and> away_on c pid (hd (getWeekDays w)) then getWeekNumber tz w else m))"
    by (simp add: conflictWarn_def conflict_step)
  moreover have "assigned c pid w \<and> away_on c pid (hd (getWeekDays w)) \<Longrightarrow> conflict_in c pid w"
    by (auto simp: conflict_in_def list_ex_iff getWeekDays_def upt_rec)
  ultimately show ?case
    using snoc.IH by (auto split: option.splits if_splits)
qed


section \<open>Summary\<close>

text \<open>A slot whose state does not contradict its fields.\<close>

definition coherent_slot :: "slot_data option \<Rightarrow> bool" where
  "coherent_slot sd = (case sd of None \<Rightarrow> True | Some d \<Rightarrow>
     (if sd_state d = js ''not_filled'' \<or> sd_state d = js ''undetermined'' then sd_away d = None \<and> \<not> sd_run d
      else sd_away d = None \<or> \<not> sd_run d))"

lemma coherent_counts:
  "coherent_slot sd \<Longrightarrow> is_away sd = (case sd of None \<Rightarrow> False | Some d \<Rightarrow> sd_away d \<noteq> None)"
  "coherent_slot sd \<Longrightarrow> on_run sd = (case sd of None \<Rightarrow> False | Some d \<Rightarrow> sd_run d)"
  by (auto simp: coherent_slot_def is_away_def on_run_def split: option.splits if_splits)

lemma length_filter_of_bool: "length (filter P xs) = sum_list (map (\<lambda>x. of_bool (P x)) xs)"
  by (induction xs) simp_all


section \<open>What is highlighted\<close>

definition marked :: "hover_target \<Rightarrow> crosshair" where
  "marked t = \<lparr>ch_cur = Some (hover_key t), ch_rows = (case ht_row t of None \<Rightarrow> [] | Some r \<Rightarrow> [r]),
     ch_cols = (case ht_col t of None \<Rightarrow> [] | Some k \<Rightarrow> k # (case second_col t of None \<Rightarrow> [] | Some k2 \<Rightarrow> [k2]))\<rparr>"

definition unmarked :: crosshair where
  "unmarked = \<lparr>ch_cur = None, ch_rows = [], ch_cols = []\<rparr>"

lemma split_at_bar:
  fixes xs :: jsstring
  shows "124 \<notin> set xs \<Longrightarrow> 124 \<notin> set ys \<Longrightarrow> xs @ 124 # r = ys @ 124 # r' \<Longrightarrow> xs = ys \<and> r = r'"
proof (induction xs arbitrary: ys)
  case Nil
  then show ?case by (cases ys) auto
next
  case (Cons x xs)
  then show ?case by (cases ys) auto
qed

lemma dataset_text_no_bar: "124 \<notin> set m \<Longrightarrow> 124 \<notin> set (dataset_text v m)"
  by (auto simp: dataset_text_def is_digit_def dest: str_of_nat_are_digits split: option.splits)

lemma str_of_nat_not_word: "str_of_nat n \<noteq> js ''undefined''" "str_of_nat n \<noteq> js ''null''"
  using str_of_nat_are_digits [of "hd (str_of_nat n)" n] by (auto simp: js_def is_digit_def)

lemma dataset_text_inj:
  "m = js ''undefined'' \<or> m = js ''null'' \<Longrightarrow> dataset_text v m = dataset_text w m \<Longrightarrow> v = w"
  using str_of_nat_not_word str_of_nat_inj by (cases v; cases w) (auto simp: dataset_text_def dest: sym)

lemma hover_key_inj:
  assumes "hover_key t = hover_key u"
  shows "ht_row t = ht_row u \<and> ht_col t = ht_col u \<and> second_col t = second_col u"
proof -
  have bar: "124 \<notin> set (js ''undefined'')" "124 \<notin> set (js ''null'')" "js ''|'' = [124]" by (simp_all add: js_def)
  let ?row = "\<lambda>t. dataset_text (ht_row t) (js ''undefined'')" and ?col = "\<lambda>t. dataset_text (ht_col t) (js ''undefined'')"
    and ?col2 = "\<lambda>t. dataset_text (second_col t) (js ''null'')"
  have "?row t @ 124 # (?col t @ 124 # ?col2 t) = ?row u @ 124 # (?col u @ 124 # ?col2 u)"
    using assms by (simp add: hover_key_def bar(3))
  from split_at_bar [OF _ _ this] have 1: "?row t = ?row u" and "?col t @ 124 # ?col2 t = ?col u @ 124 # ?col2 u"
    by (simp_all add: dataset_text_no_bar bar)
  from split_at_bar [OF _ _ this(2)] have "?col t = ?col u" "?col2 t = ?col2 u"
    by (simp_all add: dataset_text_no_bar bar)
  with 1 show ?thesis by (auto dest: dataset_text_inj [rotated])
qed

lemma marked_key: "hover_key t = hover_key u \<Longrightarrow> marked t = marked u"
  using hover_key_inj [of t u] by (simp add: marked_def cong: option.case_cong)

lemma point_marks: "h = unmarked \<or> (\<exists>t. h = marked t) \<Longrightarrow> point p h = (case p of Over t \<Rightarrow> marked t | Leave \<Rightarrow> unmarked)"
proof (cases p)
  case (Over t)
  assume h: "h = unmarked \<or> (\<exists>t. h = marked t)"
  show ?thesis
  proof (cases "ch_cur h = Some (hover_key t)")
    case True
    then obtain u where "h = marked u" "hover_key u = hover_key t"
      using h by (auto simp: unmarked_def marked_def)
    then show ?thesis using Over True marked_key [of u t] by (simp add: mouseover_def)
  next
    case False
    have "ch_clear h = unmarked" using h by (auto simp: ch_clear_def unmarked_def marked_def)
    then show ?thesis using Over False
      by (auto simp: mouseover_def Let_def unmarked_def marked_def split: option.splits)
  qed
qed (auto simp: ch_clear_def unmarked_def marked_def)

lemma points_mark: "fold point (ps @ [p]) unmarked = (case p of Over t \<Rightarrow> marked t | Leave \<Rightarrow> unmarked)"
proof -
  have "fold point ps unmarked = unmarked \<or> (\<exists>t. fold point ps unmarked = marked t)"
    by (induction ps rule: rev_induct) (auto simp: point_marks split: pointer.splits)
  then show ?thesis by (simp add: point_marks)
qed

section \<open>Properties\<close>

text \<open>The header of the grid lines up with its columns: there is one header for two half-day columns,
  its column number is that of the morning of its day and the next is the afternoon of the same day, so that the crosshair on
  a header covers its two columns; the holiday and the week separator of the header are those of the
  day; and the weeks' headers are as wide as their days.\<close>

theorem headers_match_columns:
  "2 * length (dayHeaders wk st hs weeks) = length (allSlots wk weeks)
   \<and> sum_list (map (\<lambda>(label, width, sep). width) (weekHeaders tz wk weeks)) = length (allSlots wk weeks)
   \<and> list_all (\<lambda>k. case (dayHeaders wk st hs weeks ! k, allSlots wk weeks ! (2 * k), allSlots wk weeks ! (2 * k + 1)) of (h, am, pm) \<Rightarrow>
        dh_col h = 2 * k \<and> gs_slot am = js ''am'' \<and> gs_slot pm = js ''pm'' \<and> gs_date am = gs_date pm
        \<and> gs_week am = gs_week pm \<and> gs_day am = gs_day pm
        \<and> dh_holiday h = isHoliday st hs (gs_date am) \<and> dh_sep h = (gs_day am = 0 \<and> 0 < gs_week am)
        \<and> dh_name h = dayNames7 ! gs_day am)
      [0..<length (dayHeaders wk st hs weeks)]"
proof -
  have "sum_list (map (\<lambda>(label, width, sep). width) (weekHeaders tz wk weeks)) = slotsPerWeek wk * length weeks"
    by (simp add: weekHeaders_def comp_def case_prod_beta sum_list_triv)
  then show ?thesis
    by (auto simp: dayHeaders_days allSlots_days length_pairs length_shown_days [symmetric] list_all_iff pairs_nth headers_from_nth
        header_of_def grid_slot_of_def case_prod_beta simp del: One_nat_def mult_Suc_right)
qed

text \<open>C16: no label is lost by merging: where a cell of a person's row shows no label, an earlier cell
  of the same week shows the label this cell would have, and so do all the cells between the two,
  provided away types and project names hold no colon.\<close>

theorem merged_label_shown:
  assumes "list_all (\<lambda>sl. view_no_colon (view_of (shown_slot c pid sl))) sls" and "i < length sls"
    and "gc_label (personCells c weeks pid None sls ! i) = None"
  shows "list_ex (\<lambda>j. gc_label (personCells c weeks pid None sls ! j) = Some (getCellLabel (shown_slot c pid (sls ! i)))
        \<and> list_all (\<lambda>k. gs_week (sls ! k) = gs_week (sls ! i)
             \<and> getCellLabel (shown_slot c pid (sls ! k)) = getCellLabel (shown_slot c pid (sls ! i))) [j..<i]) [0..<i]"
  using label_source_step [OF assms] by (simp add: label_source_def same_show_def)

definition demo_pair :: client where
  "demo_pair = demo_client\<lparr>c_planning := [(getSlotKey (js ''p1'') [] (js ''am''), demo_slot), (getSlotKey (js ''p1'') [] (js ''pm''), demo_slot)]\<rparr>"

definition demo_cols :: "grid_slot list" where
  "demo_cols = [\<lparr>gs_date = [], gs_slot = js ''am'', gs_week = 0, gs_day = 0\<rparr>, \<lparr>gs_date = [], gs_slot = js ''pm'', gs_week = 0, gs_day = 0\<rparr>]"

theorem merged_label_shown_witness:
  "list_ex (\<lambda>j. gc_label (personCells demo_pair [20500] (js ''p1'') None demo_cols ! j) = Some (getCellLabel (shown_slot demo_pair (js ''p1'') (demo_cols ! 1)))
        \<and> list_all (\<lambda>k. gs_week (demo_cols ! k) = gs_week (demo_cols ! 1)
             \<and> getCellLabel (shown_slot demo_pair (js ''p1'') (demo_cols ! k)) = getCellLabel (shown_slot demo_pair (js ''p1'') (demo_cols ! 1))) [j..<1]) [0..<1]"
proof (rule merged_label_shown)
  have s: "shown_slot demo_pair (js ''p1'') (demo_cols ! 0) = Some demo_slot" "shown_slot demo_pair (js ''p1'') (demo_cols ! 1) = Some demo_slot"
    by (simp_all add: shown_slot_def demo_pair_def demo_cols_def getSlot_def getSlotKey_def js_eq_iff)
  then have "list_all (\<lambda>i. view_no_colon (view_of (shown_slot demo_pair (js ''p1'') (demo_cols ! i)))) [0, 1]"
    by (simp add: view_of_def demo_slot_def projects_list_def js_eq_iff)
  then show "list_all (\<lambda>sl. view_no_colon (view_of (shown_slot demo_pair (js ''p1'') sl))) demo_cols"
    by (simp add: demo_cols_def)
  show "1 < length demo_cols" by (simp add: demo_cols_def)
  have "getSlotClass (Some demo_slot) = js ''run has-run-note''"
    by (simp add: getSlotClass_def demo_slot_def Let_def flag_class_def has_projects_def js_def)
  then show "gc_label (personCells demo_pair [20500] (js ''p1'') None demo_cols ! 1) = None"
    using s by (simp add: demo_cols_def shown_slot_def gridCell_def Let_def) (simp add: js_def)
qed

text \<open>C17: grouped by sub-team, the grid shows each team once, with everyone of the team under its
  header and in the order of their names, and loses and repeats nobody; provided that two people
  have the same label exactly when the sort puts them in the same team (no two sub-teams that differ
  in case only, nobody of the team in a sub-team called like the guests' one), and that
  different teams have different collation keys.\<close>

theorem team_rows_grouped:
  assumes "labels_faithful lower ps" and "inj_on ckey (team_name lower ` set ps)"
    and "gv_group_by v = js ''sub_team''"
  shows "case gridRows warn cells (gv_group_by v = js ''sub_team'') None 0 (gridSort lower ckey v ps) of rows \<Rightarrow>
     distinct (row_teams rows) \<and> under_headers None 0 rows \<and> mset (row_people rows) = mset ps
     \<and> sorted_wrt (\<lambda>a b. subteam_label a \<noteq> subteam_label b \<or> ckey (p_name a) \<le> ckey (p_name b)) (row_people rows)"
proof -
  let ?xs = "js_sort (cmp_sub_team lower ckey) ps"
  have sorted: "sorted_wrt (\<lambda>a b. cmp_sub_team lower ckey a b \<le> 0) ?xs"
    using js_comparator.sorted_js_sort [OF sub_team_comparator [OF assms(2)]] by simp
  have "distinct (remdups_adj (map subteam_label ?xs))"
  proof (rule distinct_groups [OF sorted])
    fix a b d
    assume *: "a \<in> set ?xs" "b \<in> set ?xs" "d \<in> set ?xs" "cmp_sub_team lower ckey a b \<le> 0" "cmp_sub_team lower ckey b d \<le> 0"
      and "subteam_label a = subteam_label d"
    then have same: "p_is_guest a = p_is_guest d" "team_name lower a = team_name lower d"
      using labels_faithfulD [OF assms(1), of a d] by simp_all
    have "ckey (team_name lower a) = ckey (team_name lower b) \<Longrightarrow> team_name lower a = team_name lower b"
      by (rule inj_onD [OF assms(2)]) (use *(1-3) in \<open>simp_all\<close>)
    from team_convex [OF *(4,5) same this]
    have "p_is_guest b = p_is_guest a \<and> team_name lower b = team_name lower a" .
    then show "subteam_label b = subteam_label a"
      using labels_faithfulD [OF assms(1), of b a] * by simp
  qed
  moreover have "sorted_wrt (\<lambda>a b. subteam_label a \<noteq> subteam_label b \<or> ckey (p_name a) \<le> ckey (p_name b)) ?xs"
  proof (rule sorted_wrt_mono_rel [OF _ sorted])
    fix a b
    assume *: "a \<in> set ?xs" "b \<in> set ?xs" "cmp_sub_team lower ckey a b \<le> 0"
    show "subteam_label a \<noteq> subteam_label b \<or> ckey (p_name a) \<le> ckey (p_name b)"
      using labels_faithfulD [OF assms(1), of a b] team_by_name [OF *(3)] *(1,2)
      by (cases "subteam_label a = subteam_label b") simp_all
  qed
  ultimately show ?thesis
    using assms(3) by (simp add: gridSort_def row_teams_rows under_headers_rows)
qed

definition demo_person :: "jsstring \<Rightarrow> jsstring \<Rightarrow> person" where
  "demo_person name team = \<lparr>p_id = name, p_name = name, p_role = [], p_sub_team = team, p_avatar_emoji = [], p_avatar_color = [],
     p_start_date = [], p_default_projects = [], p_status = js ''active'', p_archived_date = [], p_is_guest = False, p_ics_token = []\<rparr>"

definition demo_view :: grid_view where
  "demo_view = \<lparr>gv_group_by = js ''sub_team'', gv_show_weekend = False, gv_show_guests = False, gv_filter = []\<rparr>"

theorem team_rows_grouped_witness:
  "case gridRows (\<lambda>_. None) (\<lambda>_. []) (gv_group_by demo_view = js ''sub_team'') None 0
     (gridSort (\<lambda>s. s) (\<lambda>s. s) demo_view [demo_person (js ''ann'') (js ''core''), demo_person (js ''bob'') [], demo_person (js ''al'') (js ''core'')]) of rows \<Rightarrow>
     distinct (row_teams rows) \<and> under_headers None 0 rows
     \<and> mset (row_people rows) = mset [demo_person (js ''ann'') (js ''core''), demo_person (js ''bob'') [], demo_person (js ''al'') (js ''core'')]
     \<and> sorted_wrt (\<lambda>a b. subteam_label a \<noteq> subteam_label b \<or> p_name a \<le> p_name b) (row_people rows)"
  by (rule team_rows_grouped [where ckey = "\<lambda>s. s" and lower = "\<lambda>s. s"])
    (simp_all add: labels_faithful_def demo_person_def subteam_label_def team_name_def or_else_def demo_view_def js_eq_iff inj_on_def)

text \<open>Two sub-teams that differ in case only are one team to the sort and two to the headers: their
  people come in the order of their names, and a header is repeated.\<close>

lemma case_splits_team:
  "row_teams (gridRows (\<lambda>_. None) (\<lambda>_. []) True None 0
     (gridSort (map (\<lambda>x. if x = 67 then 99 else x)) (\<lambda>s. s) demo_view
       [demo_person (js ''al'') (js ''core''), demo_person (js ''bob'') (js ''Core''), demo_person (js ''cy'') (js ''core'')]))
   = [js ''core'', js ''Core'', js ''core'']"
  by (simp add: gridSort_def demo_view_def js_sort_def cmp_sub_team_def team_name_def demo_person_def localeCompare_def or_else_def
      subteam_label_def js_def)

text \<open>A person's row warns exactly when, in some visible week, the person is on call or in the run
  rotation and away on some day of that week; the week that the warning names is such a week.\<close>

theorem conflict_warning_exact:
  "case conflictWarn tz c weeks pid of
     None \<Rightarrow> \<not> list_ex (\<lambda>w. (isOnCall (c_oncall c) pid (formatWeekStart w) \<or> isRunPerson (c_rotation c) pid (formatWeekStart w))
         \<and> list_ex (away_on c pid) (getWeekDays w)) weeks
   | Some n \<Rightarrow> list_ex (\<lambda>w. (isOnCall (c_oncall c) pid (formatWeekStart w) \<or> isRunPerson (c_rotation c) pid (formatWeekStart w))
         \<and> list_ex (away_on c pid) (getWeekDays w) \<and> n = getWeekNumber tz w) weeks"
  using conflictWarn_weeks [where tz = tz and c = c and weeks = weeks and pid = pid]
  by (simp add: conflict_in_def assigned_def list_ex_iff cong: option.case_cong)

text \<open>Without guests, the summary row of the grid and the run coverage view agree: the same number
  of people away and on run in each half-day, hence the same warning, when no slot there is both
  away and on run or has fields its state excludes.\<close>

theorem summary_agrees_with_coverage:
  assumes "\<not> gv_show_guests v"
    and "list_all (\<lambda>p. coherent_slot (shown_slot c (p_id p) sl)) (getActivePeople (c_people c))"
  shows "case (summaryCell pct c (gridPeople v c) sl,
      cover_slot (getActivePeople (c_people c)) (c_planning c) (gs_date sl) (gs_slot sl)) of (s, cov) \<Rightarrow>
      sm_away s = sc_away cov \<and> sm_run s = sc_onRun cov
      \<and> sm_warn s = below_num (int (sc_onRun cov)) (runTarget (c_settings c))"
proof -
  let ?people = "getActivePeople (c_people c)"
  have "gridPeople v c = ?people" using assms(1) by (simp add: gridPeople_def)
  moreover have "sum_list (map (\<lambda>p. of_bool (is_away (shown_slot c (p_id p) sl)) :: nat) ?people)
      = sum_list (map (\<lambda>p. of_bool (case shown_slot c (p_id p) sl of None \<Rightarrow> False | Some d \<Rightarrow> sd_away d \<noteq> None)) ?people)"
    "sum_list (map (\<lambda>p. of_bool (on_run (shown_slot c (p_id p) sl)) :: nat) ?people)
      = sum_list (map (\<lambda>p. of_bool (case shown_slot c (p_id p) sl of None \<Rightarrow> False | Some d \<Rightarrow> sd_run d)) ?people)"
    using assms(2) by (auto simp: list_all_iff coherent_counts intro!: arg_cong [where f = sum_list])
  ultimately show ?thesis
    by (simp add: summaryCell_def cover_slot_counts length_filter_of_bool shown_slot_def Let_def)
qed

lemma demo_coherent: "coherent_slot (shown_slot demo_client p sl)"
  by (simp add: shown_slot_def demo_client_def getSlot_def dict_get_def coherent_slot_def demo_slot_def js_eq_iff)

theorem summary_agrees_with_coverage_witness:
  "case (summaryCell (\<lambda>_ _. 50) demo_client (gridPeople demo_view demo_client) (hd demo_cols),
      cover_slot (getActivePeople (c_people demo_client)) (c_planning demo_client) (gs_date (hd demo_cols)) (gs_slot (hd demo_cols))) of (s, cov) \<Rightarrow>
      sm_away s = sc_away cov \<and> sm_run s = sc_onRun cov
      \<and> sm_warn s = below_num (int (sc_onRun cov)) (runTarget (c_settings demo_client))"
  by (rule summary_agrees_with_coverage) (simp_all add: demo_view_def demo_coherent list_all_iff)

text \<open>With the guests shown, a guest on run counts towards the target of the summary row, which then does
  not warn where the run coverage of the team falls short.\<close>

lemma guest_run_hides_shortfall:
  assumes "c_people c = [demo_person (js ''p1'') [] \<lparr>p_is_guest := True\<rparr>]" and "c_planning c = [(getSlotKey (js ''p1'') [] (js ''am''), demo_slot)]"
    and "runTarget (c_settings c) = Some 1"
  shows "\<not> sm_warn (summaryCell pct c (gridPeople (demo_view\<lparr>gv_show_guests := True\<rparr>) c) (hd demo_cols))
    \<and> below_num (int (sc_onRun (cover_slot (getActivePeople (c_people c)) (c_planning c) [] (js ''am'')))) (runTarget (c_settings c))"
  using assms
  by (simp add: gridPeople_def demo_view_def getActivePeople_def getActiveGuests_def demo_person_def summaryCell_def
      demo_cols_def getSlot_def demo_slot_def cover_slot_def js_eq_iff)

text \<open>After any movement of the pointer over the grid, exactly the row and the column of the element
  last entered are highlighted (both columns of its day for a header), and nothing once the pointer
  has left: no highlight of an earlier element stays.\<close>

theorem crosshair_follows_pointer:
  "case fold point (moves @ [Over t]) \<lparr>ch_cur = None, ch_rows = [], ch_cols = []\<rparr> of h \<Rightarrow>
      ch_rows h = (case ht_row t of None \<Rightarrow> [] | Some r \<Rightarrow> [r])
      \<and> ch_cols h = (case ht_col t of None \<Rightarrow> [] | Some k \<Rightarrow> if ht_day_header t then [k, k + 1] else [k])
   \<and> fold point (moves @ [Leave]) \<lparr>ch_cur = None, ch_rows = [], ch_cols = []\<rparr> = \<lparr>ch_cur = None, ch_rows = [], ch_cols = []\<rparr>"
  using points_mark [of moves "Over t"] points_mark [of moves Leave]
  by (simp add: unmarked_def marked_def second_col_def split: option.splits)

end
