(* ===== verification/Projects.thy ===== *)
theory Projects
  imports JsSort UndoRedo SlotView Escape
begin

text \<open>
  The projects views: the cards of \<open>renderGeneralProjectView\<close> and the chart of \<open>renderGanttView\<close>.
  Both find the people of a project in the loaded planning. The chart is a table with a column for
  each week from a week before the first date to a week after the last; the bar of a project is a
  cell that spans its weeks. Proved here: who is listed on a project, that every row of the chart
  fills its columns, and which weeks a bar covers.
\<close>

section \<open>People of a project\<close>

definition project_step :: "(jsstring \<Rightarrow> jsstring) \<Rightarrow> person list \<Rightarrow> jsstring \<Rightarrow> jsstring \<times> slot_data \<Rightarrow> person list \<Rightarrow> person list" where
  "project_step lower people name = (\<lambda>(key, sd) found.
     if list_ex (\<lambda>a. lower (pa_name a) = lower name) (projects_list sd)
     then case getPerson people (hd (js_split 124 key)) of
            None \<Rightarrow> found
          | Some person \<Rightarrow> if list_ex (\<lambda>p. p_id p = p_id person) found then found else found @ [person]
     else found)"

definition peopleOn :: "(jsstring \<Rightarrow> jsstring) \<Rightarrow> client \<Rightarrow> jsstring \<Rightarrow> person list" where
  "peopleOn lower c name = fold (project_step lower (c_people c) name) (c_planning c) []"

section \<open>Cards\<close>

definition STATUS_COLORS :: "(jsstring, jsstring) dict" where
  "STATUS_COLORS = [(js ''unstarted'', js ''#6c757d''), (js ''in_progress'', js ''#4caf50''), (js ''paused'', js ''#ff9800''),
     (js ''done'', js ''#9e9e9e'')]"

definition STATUS_LABELS :: "(jsstring, jsstring) dict" where
  "STATUS_LABELS = [(js ''unstarted'', js ''Unstarted''), (js ''in_progress'', js ''In Progress''), (js ''paused'', js ''Paused''),
     (js ''done'', js ''Done'')]"

definition statusColor :: "project \<Rightarrow> jsstring" where
  "statusColor p = dict_get_or (js ''#6c757d'') STATUS_COLORS (pr_status p)"

definition statusLabel :: "project \<Rightarrow> jsstring" where
  "statusLabel p = dict_get_or (pr_status p) STATUS_LABELS (pr_status p)"

text \<open>The regular expression \<open>/^https?:\/\/|^mailto:/i\<close>.\<close>

definition ascii_lower :: "nat \<Rightarrow> nat" where
  "ascii_lower x = (if 65 \<le> x \<and> x \<le> 90 then x + 32 else x)"

definition starts_with :: "jsstring \<Rightarrow> jsstring \<Rightarrow> bool" where
  "starts_with p s \<longleftrightarrow> take (length p) (map ascii_lower s) = p"

definition urlOk :: "jsstring \<Rightarrow> bool" where
  "urlOk url \<longleftrightarrow> url \<noteq> [] \<and> (starts_with (js ''http://'') url \<or> starts_with (js ''https://'') url \<or> starts_with (js ''mailto:'') url)"

text \<open>The link of a card, as markup.\<close>

datatype card_link = NoLink | Anchor jsstring | PlainUrl jsstring

definition cardLink :: "project \<Rightarrow> card_link" where
  "cardLink p = (if urlOk (pr_url p) then Anchor (escapeHtml (pr_url p))
     else if pr_url p \<noteq> [] then PlainUrl (escapeHtml (pr_url p)) else NoLink)"

record project_card =
  pc_project :: project
  pc_color :: jsstring
  pc_label :: jsstring
  pc_people :: jsstring
  pc_link :: card_link
  pc_lead :: "person option"

definition projectCard :: "(jsstring \<Rightarrow> jsstring) \<Rightarrow> client \<Rightarrow> project \<Rightarrow> project_card" where
  "projectCard lower c p = \<lparr>pc_project = p, pc_color = statusColor p, pc_label = statusLabel p,
     pc_people = escapeHtml (or_else (js_join (js '', '') (map (\<lambda>q. p_avatar_emoji q @ js '' '' @ p_name q) (peopleOn lower c (pr_name p))))
                   (js ''No one assigned yet'')),
     pc_link = cardLink p,
     pc_lead = (if pr_team_lead p = [] then None else getPerson (c_people c) (pr_team_lead p))\<rparr>"

text \<open>The page: without a project to show, the message replaces the box that hides the completed ones too.\<close>

datatype general_page = AllHidden | CardPage "project_card list"

definition shown_projects :: "(jsstring \<Rightarrow> jsstring) \<Rightarrow> bool \<Rightarrow> project list \<Rightarrow> project list" where
  "shown_projects ckey hideDone ps =
     (let ps = js_sort (cmp_project ckey) ps in if hideDone then filter (\<lambda>p. pr_status p \<noteq> js ''done'') ps else ps)"

definition renderGeneralProjectView :: "(jsstring \<Rightarrow> jsstring) \<Rightarrow> (jsstring \<Rightarrow> jsstring) \<Rightarrow> bool \<Rightarrow> client \<Rightarrow> general_page" where
  "renderGeneralProjectView lower ckey hideDone c =
     (let ps = shown_projects ckey hideDone (c_projects c)
      in if ps = [] then AllHidden else CardPage (map (projectCard lower c) ps))"

section \<open>The chart\<close>

definition ganttOrder :: "(jsstring \<Rightarrow> jsstring) \<Rightarrow> jsstring \<Rightarrow> project list \<Rightarrow> project list" where
  "ganttOrder ckey sortBy ps =
     (let withDates = filter (\<lambda>p. pr_start_date p \<noteq> [] \<or> pr_end_date p \<noteq> []) ps;
          noDates = filter (\<lambda>p. pr_start_date p = [] \<and> pr_end_date p = []) ps;
          cmp = (if sortBy = js ''start'' then cmp_start ckey else if sortBy = js ''end'' then cmp_end ckey else cmp_project ckey)
      in js_sort cmp withDates @ js_sort (cmp_project ckey) noDates)"

definition widen :: "project \<Rightarrow> jsstring \<times> jsstring \<Rightarrow> jsstring \<times> jsstring" where
  "widen p = (\<lambda>(minDate, maxDate).
     (if pr_start_date p \<noteq> [] \<and> pr_start_date p < minDate then pr_start_date p else minDate,
      if pr_end_date p \<noteq> [] \<and> maxDate < pr_end_date p then pr_end_date p else maxDate))"

text \<open>
  The first and last day and the current day. \<open>parseDate(minDate) || now\<close> may be \<open>now\<close> itself, which
  the shifts by a week then move.
\<close>

definition chart_days :: "date \<Rightarrow> jsstring \<times> jsstring \<Rightarrow> date \<times> date \<times> date" where
  "chart_days now = (\<lambda>(minDate, maxDate).
     case (parseDate minDate, parseDate maxDate) of
       (Some a, Some b) \<Rightarrow> (setDate a (getDate a - 7), setDate b (getDate b + 7), now)
     | (None, Some b) \<Rightarrow> (setDate now (getDate now - 7), setDate b (getDate b + 7), setDate now (getDate now - 7))
     | (Some a, None) \<Rightarrow> (setDate a (getDate a - 7), setDate now (getDate now + 7), setDate now (getDate now + 7))
     | (None, None) \<Rightarrow> (now, now, now))"

function chart_weeks :: "date \<Rightarrow> date \<Rightarrow> date list" where
  "chart_weeks w maxD = (if w \<le> maxD then w # chart_weeks (setDate w (getDate w + 7)) maxD else [])"
  by pat_completeness auto
termination
  by (relation "measure (\<lambda>(w, maxD). nat (maxD + 1 - w))") (auto simp: setDate_plus)

declare chart_weeks.simps [simp del]

definition ganttWeeks :: "date \<Rightarrow> project list \<Rightarrow> date list \<times> date" where
  "ganttWeeks today ps =
     (let (minD, maxD, now) = chart_days today (fold widen ps (fmtDate today, fmtDate today))
      in (chart_weeks (setDate minD (getDate minD - (getDay minD + 6) mod 7)) maxD, now))"

text \<open>The columns of a bar: \<open>dayDiff\<close> is the rounded number of days from the first Monday.\<close>

definition dayDiff :: "(date \<Rightarrow> int) \<Rightarrow> date \<Rightarrow> date \<Rightarrow> int" where
  "dayDiff tz d w0 = round_quot (time_value tz d - time_value tz w0) 86400000"

definition opt_date :: "jsstring \<Rightarrow> date option" where
  "opt_date s = (if s = [] then None else parseDate s)"

definition barCols :: "(date \<Rightarrow> int) \<Rightarrow> date list \<Rightarrow> project \<Rightarrow> int \<times> int" where
  "barCols tz weeks p =
     (let n = int (length weeks);
          startCol = (case opt_date (pr_start_date p) of None \<Rightarrow> 0 | Some d \<Rightarrow> max 0 (dayDiff tz d (hd weeks) div 7));
          endCol = (case opt_date (pr_end_date p) of None \<Rightarrow> n - 1 | Some d \<Rightarrow> min (n - 1) (ceil_quot (dayDiff tz d (hd weeks)) 7))
      in (startCol, if endCol < startCol then startCol else endCol))"

datatype gantt_cell = NoBar | Bar int

text \<open>The loop over the columns, which a bar advances by its span.\<close>

function gantt_cells :: "int \<Rightarrow> int \<Rightarrow> int \<Rightarrow> int \<Rightarrow> gantt_cell list" where
  "gantt_cells colCount startCol span c =
     (if colCount \<le> c then []
      else if c = startCol then Bar span # gantt_cells colCount startCol span (c + max 0 (span - 1) + 1)
      else NoBar # gantt_cells colCount startCol span (c + 1))"
  by pat_completeness auto
termination
  by (relation "measure (\<lambda>(colCount, startCol, span, c). nat (colCount - c))") auto

declare gantt_cells.simps [simp del]

record gantt_row =
  gr_project :: project
  gr_color :: jsstring
  gr_cells :: "gantt_cell list"
  gr_no_people :: bool
  gr_now_line :: bool
  gr_tooltip :: jsstring

text \<open>\<open>sinceMidnight\<close> is what the clock adds to the current day, in milliseconds.\<close>

definition ganttRow :: "(date \<Rightarrow> int) \<Rightarrow> int \<Rightarrow> (jsstring \<Rightarrow> jsstring) \<Rightarrow> client \<Rightarrow> date list \<Rightarrow> date \<Rightarrow> project \<Rightarrow> gantt_row" where
  "ganttRow tz sinceMidnight lower c weeks now p =
     (let (startCol, endCol) = barCols tz weeks p; people = peopleOn lower c (pr_name p);
          nowDayDiff = round_quot (time_value tz now + sinceMidnight - time_value tz (hd weeks)) 86400000
      in \<lparr>gr_project = p, gr_color = statusColor p,
          gr_cells = gantt_cells (int (length weeks)) startCol (endCol - startCol + 1) 0,
          gr_no_people = (pr_status p = js ''in_progress'' \<and> people = []),
          gr_now_line = (7 * startCol \<le> nowDayDiff \<and> nowDayDiff \<le> 7 * (endCol + 1)),
          gr_tooltip = escapeHtml (pr_name p) @ js '' '' @ [8212] @ js '' '' @ statusLabel p @ [10] @ js ''People now: ''
            @ escapeHtml (or_else (js_join (js '', '') (map (\<lambda>q. escapeHtml (p_name q)) people)) (js ''No one currently assigned''))\<rparr>)"

definition renderGanttView :: "(date \<Rightarrow> int) \<Rightarrow> int \<Rightarrow> (jsstring \<Rightarrow> jsstring) \<Rightarrow> (jsstring \<Rightarrow> jsstring) \<Rightarrow> jsstring \<Rightarrow> date \<Rightarrow> client
    \<Rightarrow> (jsstring list \<times> gantt_row list) option" where
  "renderGanttView tz sinceMidnight lower ckey sortBy today c =
     (let ps = ganttOrder ckey sortBy (c_projects c); (weeks, now) = ganttWeeks today ps
      in if ps = [] then None
         else Some (map (\<lambda>w. js ''W'' @ str_of_int (getWeekNumber tz w) @ js '' '' @ drop 5 (fmtDate w)) weeks,
                    map (ganttRow tz sinceMidnight lower c weeks now) ps))"

section \<open>Who is on a project\<close>

definition on_project :: "(jsstring \<Rightarrow> jsstring) \<Rightarrow> jsstring \<Rightarrow> slot_data \<Rightarrow> bool" where
  "on_project lower name sd = list_ex (\<lambda>a. lower (pa_name a) = lower name) (projects_list sd)"

lemma getPerson_own_id: "getPerson people i = Some p \<Longrightarrow> getPerson people (p_id p) = Some p"
  using getPerson_id by fastforce

lemma peopleOn_from:
  assumes "distinct (map p_id found)" "\<And>p. p \<in> set found \<Longrightarrow> getPerson people (p_id p) = Some p"
  shows "distinct (map p_id (fold (project_step lower people name) pl found))
    \<and> (p \<in> set (fold (project_step lower people name) pl found) \<longleftrightarrow>
        p \<in> set found \<or> getPerson people (p_id p) = Some p
          \<and> list_ex (\<lambda>(k, sd). hd (js_split 124 k) = p_id p \<and> on_project lower name sd) pl)"
  using assms
proof (induction pl arbitrary: found)
  case Nil
  then show ?case by simp
next
  case (Cons e pl)
  obtain k sd where e: "e = (k, sd)" by force
  let ?found = "project_step lower people name e found"
  have step: "?found = (if on_project lower name sd then
      (case getPerson people (hd (js_split 124 k)) of None \<Rightarrow> found
       | Some q \<Rightarrow> if list_ex (\<lambda>x. p_id x = p_id q) found then found else found @ [q]) else found)"
    by (simp add: project_step_def e on_project_def)
  have ok: "distinct (map p_id ?found)" "\<And>p. p \<in> set ?found \<Longrightarrow> getPerson people (p_id p) = Some p"
    using Cons.prems by (auto simp: step list_ex_iff dest: getPerson_own_id split: option.splits if_splits)
  have new: "p \<in> set ?found \<longleftrightarrow> p \<in> set found \<or> getPerson people (p_id p) = Some p \<and> hd (js_split 124 k) = p_id p \<and> on_project lower name sd"
  proof (cases "on_project lower name sd")
    case True
    show ?thesis
    proof (cases "getPerson people (hd (js_split 124 k))")
      case None
      with True show ?thesis by (auto simp: step)
    next
      case (Some q)
      have q: "p_id q = hd (js_split 124 k)" using getPerson_id [OF Some] by simp
      have "q \<in> set found" if "x \<in> set found" "p_id x = p_id q" for x
        using Cons.prems(2) [OF that(1)] that(2) getPerson_own_id [OF Some] that(1) by simp
      then show ?thesis using True Some q by (auto simp: step list_ex_iff)
    qed
  qed (simp add: step)
  show ?case
    using Cons.IH [OF ok] new by (auto simp: e)
qed

section \<open>The weeks of the chart\<close>

lemma chart_weeks_eq: "chart_weeks w e = map (\<lambda>i. w + 7 * int i) [0..<nat ((e - w) div 7 + 1)]"
proof (induction w e rule: chart_weeks.induct)
  case (1 w e)
  show ?case
  proof (cases "w \<le> e")
    case True
    have div: "(e - w) div 7 = (e - (w + 7)) div 7 + 1"
      using div_add_self2 [of 7 "e - (w + 7)"] by simp
    have "0 \<le> (e - w) div 7" using True by simp
    then have n: "nat ((e - w) div 7 + 1) = Suc (nat ((e - (w + 7)) div 7 + 1))"
      by (simp only: div)
    have "chart_weeks w e = w # map (\<lambda>i. w + 7 + 7 * int i) [0..<nat ((e - (w + 7)) div 7 + 1)]"
      using 1 True by (subst chart_weeks.simps) (simp add: setDate_plus)
    then show ?thesis unfolding n map_upt_Suc by (simp add: algebra_simps)
  next
    case False
    then have "(e - w) div 7 < 0" by simp
    with False show ?thesis by (subst chart_weeks.simps) simp
  qed
qed

lemma dayDiff_days:
  assumes "\<And>a b. \<bar>tz a - tz b\<bar> < 43200000"
  shows "dayDiff tz d w = d - w"
proof -
  have "time_value tz d - time_value tz w = 86400000 * (d - w) + (tz w - tz d)"
    by (simp add: time_value_def algebra_simps)
  moreover have "\<bar>tz w - tz d\<bar> < 43200000" by (rule assms)
  ultimately show ?thesis
    unfolding dayDiff_def round_quot_def by (intro int_div_pos_eq [where r = "86400000 + 2 * (tz w - tz d)"]) auto
qed

text \<open>Dates as the interface writes them.\<close>

definition written_date :: "jsstring \<Rightarrow> bool" where
  "written_date t \<longleftrightarrow> t = [] \<or> (case parseDate t of None \<Rightarrow> False | Some d \<Rightarrow> four_digit_year d \<and> fmtDate d = t)"

lemma written_dateE:
  assumes "written_date t" obtains "t = []" | d where "four_digit_year d" "t = fmtDate d" "t \<noteq> []"
  using assms by (cases "t = []") (auto simp: written_date_def split: option.splits)

lemma fmt_date_not_empty: "fmtDate d \<noteq> []" "[] \<noteq> fmtDate d"
  by (simp_all add: fmtDate_def js_def)

lemma fmtDate_less_iff:
  "four_digit_year a \<Longrightarrow> four_digit_year b \<Longrightarrow> fmtDate a < fmtDate b \<longleftrightarrow> a < b"
  using fmtDate_le_iff [of b a] by (simp add: linorder_not_le [symmetric])

definition span_of :: "date \<Rightarrow> date \<Rightarrow> project list \<Rightarrow> date \<Rightarrow> date \<Rightarrow> bool" where
  "span_of lo hi ps lo' hi' \<longleftrightarrow> four_digit_year lo' \<and> four_digit_year hi' \<and> lo' \<le> lo \<and> hi \<le> hi'
     \<and> (\<forall>p \<in> set ps. \<forall>d. four_digit_year d \<longrightarrow> (pr_start_date p = fmtDate d \<longrightarrow> lo' \<le> d) \<and> (pr_end_date p = fmtDate d \<longrightarrow> d \<le> hi'))"

lemma widen_step:
  assumes "written_date (pr_start_date p)" "written_date (pr_end_date p)" "four_digit_year lo" "four_digit_year hi"
  obtains lo' hi' where "widen p (fmtDate lo, fmtDate hi) = (fmtDate lo', fmtDate hi')" "span_of lo hi [p] lo' hi'"
proof -
  let ?lo = "case opt_date (pr_start_date p) of None \<Rightarrow> lo | Some d \<Rightarrow> min d lo"
  let ?hi = "case opt_date (pr_end_date p) of None \<Rightarrow> hi | Some d \<Rightarrow> max d hi"
  have "(if pr_start_date p \<noteq> [] \<and> pr_start_date p < fmtDate lo then pr_start_date p else fmtDate lo) = fmtDate ?lo
      \<and> four_digit_year ?lo \<and> ?lo \<le> lo \<and> (\<forall>d. four_digit_year d \<longrightarrow> pr_start_date p = fmtDate d \<longrightarrow> ?lo \<le> d)"
    using assms(1) by (rule written_dateE)
      (auto simp: opt_date_def parse_fmt fmtDate_less_iff fmtDate_inj fmt_date_not_empty assms(3) min_def)
  moreover have "(if pr_end_date p \<noteq> [] \<and> fmtDate hi < pr_end_date p then pr_end_date p else fmtDate hi) = fmtDate ?hi
      \<and> four_digit_year ?hi \<and> hi \<le> ?hi \<and> (\<forall>d. four_digit_year d \<longrightarrow> pr_end_date p = fmtDate d \<longrightarrow> d \<le> ?hi)"
    using assms(2) by (rule written_dateE)
      (auto simp: opt_date_def parse_fmt fmtDate_less_iff fmtDate_inj fmt_date_not_empty assms(4) max_def)
  ultimately show thesis
    using that [of ?lo ?hi] by (auto simp: widen_def span_of_def)
qed

lemma widen_all:
  assumes "\<And>p. p \<in> set ps \<Longrightarrow> written_date (pr_start_date p) \<and> written_date (pr_end_date p)" "four_digit_year lo" "four_digit_year hi"
  shows "\<exists>lo' hi'. fold widen ps (fmtDate lo, fmtDate hi) = (fmtDate lo', fmtDate hi') \<and> span_of lo hi ps lo' hi'"
  using assms
proof (induction ps arbitrary: lo hi)
  case Nil
  then show ?case by (auto simp: span_of_def)
next
  case (Cons p ps)
  obtain l h where 1: "widen p (fmtDate lo, fmtDate hi) = (fmtDate l, fmtDate h)" and sp: "span_of lo hi [p] l h"
    using widen_step [of p lo hi] Cons.prems by auto
  obtain l' h' where 2: "fold widen ps (fmtDate l, fmtDate h) = (fmtDate l', fmtDate h')" and sq: "span_of l h ps l' h'"
    using Cons.IH [of l h] Cons.prems(1) sp by (auto simp: span_of_def)
  have "span_of lo hi (p # ps) l' h'" using sp sq by (fastforce simp: span_of_def)
  with 1 2 show ?case by (intro exI [of _ l'] exI [of _ h']) simp
qed

lemma ganttWeeks_span:
  assumes "\<And>p. p \<in> set ps \<Longrightarrow> written_date (pr_start_date p) \<and> written_date (pr_end_date p)" "four_digit_year today"
  obtains lo hi where "span_of today today ps lo hi" "ganttWeeks today ps = (chart_weeks (getWeekStart (lo - 7)) (hi + 7), today)"
proof -
  obtain lo hi where f: "fold widen ps (fmtDate today, fmtDate today) = (fmtDate lo, fmtDate hi)" and sp: "span_of today today ps lo hi"
    using widen_all [of ps today today] assms by blast
  have "parseDate (fmtDate lo) = Some lo" "parseDate (fmtDate hi) = Some hi"
    using sp by (auto simp: span_of_def parse_fmt)
  then have "ganttWeeks today ps = (chart_weeks (getWeekStart (lo - 7)) (hi + 7), today)"
    by (simp add: ganttWeeks_def f chart_days_def setDate_plus setDate_minus getWeekStart_eq)
  with sp show thesis by (rule that)
qed

section \<open>Rows\<close>

lemma gantt_cells_after: "startCol < c \<Longrightarrow> gantt_cells n startCol span c = replicate (nat (n - c)) NoBar"
proof (induction n startCol span c rule: gantt_cells.induct)
  case (1 n startCol span c)
  show ?case
  proof (cases "n \<le> c")
    case True
    then show ?thesis by (subst gantt_cells.simps) simp
  next
    case False
    then have "nat (n - c) = Suc (nat (n - (c + 1)))" by simp
    with False 1 show ?thesis by (subst gantt_cells.simps) simp
  qed
qed

lemma gantt_cells_from:
  assumes "c \<le> startCol" "1 \<le> span"
  shows "gantt_cells n startCol span c =
    (if startCol < n then replicate (nat (startCol - c)) NoBar @ Bar span # replicate (nat (n - (startCol + span))) NoBar
     else replicate (nat (n - c)) NoBar)"
  using assms
proof (induction n startCol span c rule: gantt_cells.induct)
  case (1 n startCol span c)
  consider "n \<le> c" | "c < n" "c = startCol" | "c < n" "c < startCol" using "1.prems" by linarith
  then show ?case
  proof cases
    case 1
    with "1.prems" show ?thesis by (subst gantt_cells.simps) simp
  next
    case 2
    with "1.prems" show ?thesis
      by (subst gantt_cells.simps) (simp add: gantt_cells_after max_def algebra_simps)
  next
    case 3
    then have "nat (startCol - c) = Suc (nat (startCol - (c + 1)))" "nat (n - c) = Suc (nat (n - (c + 1)))" by simp_all
    with 3 "1.IH"(2) "1.prems" show ?thesis by (subst gantt_cells.simps) simp
  qed
qed

lemma barCols_order: "0 \<le> fst (barCols tz weeks p)" "fst (barCols tz weeks p) \<le> snd (barCols tz weeks p)"
  by (auto simp: barCols_def Let_def split: option.splits)

lemma barCols_end: "fst (barCols tz weeks p) < int (length weeks) \<Longrightarrow> snd (barCols tz weeks p) < int (length weeks)"
  by (auto simp: barCols_def Let_def split: option.splits)

fun cell_width :: "gantt_cell \<Rightarrow> int" where
  "cell_width NoBar = 1"
| "cell_width (Bar span) = span"

section \<open>Properties\<close>

text \<open>The people of a project are the people, each once, with some half-day of the loaded planning
  on that project.\<close>

theorem people_on_project_exact:
  "distinct (map p_id (peopleOn lower c name))
   \<and> (p \<in> set (peopleOn lower c name) \<longleftrightarrow> getPerson (c_people c) (p_id p) = Some p
        \<and> list_ex (\<lambda>(k, sd). hd (js_split 124 k) = p_id p \<and> list_ex (\<lambda>a. lower (pa_name a) = lower name) (projects_list sd)) (c_planning c))"
  using peopleOn_from [of "[]" "c_people c" lower name "c_planning c" p] by (simp add: peopleOn_def on_project_def)

text \<open>C21: every row of the chart fills the table's columns exactly: empty cells up to the first week of
  the bar, the bar, and empty cells after it; or only empty cells where the bar would begin after
  the last column.\<close>

theorem gantt_row_fills_table:
  "case (barCols tz weeks p, ganttRow tz sinceMidnight lower c weeks now p) of ((startCol, endCol), r) \<Rightarrow>
     sum_list (map cell_width (gr_cells r)) = int (length weeks)
     \<and> gr_cells r = (if startCol < int (length weeks)
         then replicate (nat startCol) NoBar @ Bar (endCol - startCol + 1) # replicate (nat (int (length weeks) - 1 - endCol)) NoBar
         else replicate (length weeks) NoBar)"
proof -
  obtain a b where ab: "barCols tz weeks p = (a, b)" by force
  then have *: "0 \<le> a" "a \<le> b" "a < int (length weeks) \<Longrightarrow> b < int (length weeks)"
    using barCols_order [of tz weeks p] barCols_end [of tz weeks p] by simp_all
  have "gr_cells (ganttRow tz sinceMidnight lower c weeks now p) = (if a < int (length weeks)
         then replicate (nat a) NoBar @ Bar (b - a + 1) # replicate (nat (int (length weeks) - 1 - b)) NoBar
         else replicate (length weeks) NoBar)"
    using * by (simp add: ganttRow_def ab Let_def gantt_cells_from algebra_simps)
  then show ?thesis
    using * by (simp add: ab sum_list_replicate)
qed

text \<open>With dates as the interface writes them, the bar of a project begins in the week of its start and
  ends, for an end on a Monday, in the week of its end; for every other end it goes on for one more week.\<close>

theorem gantt_bar_weeks:
  assumes "list_all (\<lambda>q. written_date (pr_start_date q) \<and> written_date (pr_end_date q)) ps" and "p \<in> set ps"
    and "pr_start_date p = fmtDate a" and "pr_end_date p = fmtDate b" and "a \<le> b"
    and "four_digit_year a" and "four_digit_year b" and "four_digit_year today"
    and "\<And>x y. \<bar>tz x - tz y\<bar> < 43200000"
  shows "case ganttWeeks today ps of (weeks, now) \<Rightarrow> case barCols tz weeks p of (startCol, endCol) \<Rightarrow>
     0 \<le> startCol \<and> startCol \<le> endCol \<and> endCol < int (length weeks)
     \<and> weeks ! nat startCol = getWeekStart a
     \<and> weeks ! nat endCol = (if getDay b = 1 then b else getWeekStart b + 7)"
proof -
  have "q \<in> set ps \<Longrightarrow> written_date (pr_start_date q) \<and> written_date (pr_end_date q)" for q
    using assms(1) by (simp add: list_all_iff)
  then obtain lo hi where sp: "span_of today today ps lo hi" and w: "ganttWeeks today ps = (chart_weeks (getWeekStart (lo - 7)) (hi + 7), today)"
    using assms(8) by (rule ganttWeeks_span)
  define m where "m = getWeekStart (lo - 7)"
  define n where "n = (hi + 7 - m) div 7 + 1"
  let ?weeks = "chart_weeks m (hi + 7)"
  have bounds: "m \<le> lo - 7" "lo \<le> a" "b \<le> hi" "getDay m = 1"
    using sp assms(2-4,6,7) getWeekStart_le [of "lo - 7"] by (auto simp: span_of_def m_def)
  have n: "0 < n" using bounds assms(5) by (simp add: n_def)
  have weeks: "length ?weeks = nat n" "hd ?weeks = m" "\<And>i. 0 \<le> i \<Longrightarrow> i < n \<Longrightarrow> ?weeks ! nat i = m + 7 * i"
    using n by (simp_all add: chart_weeks_eq n_def [symmetric] hd_map hd_upt)
  have days: "dayDiff tz d m = d - m" for d
    using assms(9) by (rule dayDiff_days)
  have in_week: "m + 7 * ((d - m) div 7) \<le> d" "d < m + 7 * ((d - m) div 7) + 7" for d by presburger+
  have mon: "getWeekStart d = m + 7 * ((d - m) div 7)" "getDay d = 1 \<longleftrightarrow> (d - m) mod 7 = 0" for d
  proof -
    show "getDay d = 1 \<longleftrightarrow> (d - m) mod 7 = 0"
      using getDay_diff [of d m] bounds(4) getDay_bounds [of d] by (auto simp: mod_pos_pos_trivial) presburger+
    show "getWeekStart d = m + 7 * ((d - m) div 7)"
      using in_week [of d] bounds(4) by (intro monday_unique) (simp_all add: getDay_weeks)
  qed
  have end_col: "ceil_quot (b - m) 7 = (if getDay b = 1 then (b - m) div 7 else (b - m) div 7 + 1)"
  proof -
    have "(b - m) mod 7 \<noteq> 0 \<Longrightarrow> 7 * ((b - m) div 7) < b - m" by presburger
    then show ?thesis unfolding mon(2) by (intro ceil_quot_unique) auto
  qed
  have cols: "barCols tz ?weeks p = ((a - m) div 7, if getDay b = 1 then (b - m) div 7 else (b - m) div 7 + 1)"
  proof -
    have "opt_date (fmtDate a) = Some a" "opt_date (fmtDate b) = Some b"
      using assms(6,7) by (simp_all add: opt_date_def parse_fmt fmt_date_not_empty)
    moreover have "(a - m) div 7 \<le> (b - m) div 7" "(b - m) div 7 + 1 \<le> n - 1"
      using assms(5) bounds by (simp_all add: n_def zdiv_mono1)
    ultimately show ?thesis
      using bounds n by (auto simp: barCols_def Let_def assms(3,4) weeks days end_col)
  qed
  have "0 \<le> (a - m) div 7" "(a - m) div 7 \<le> (b - m) div 7" "(b - m) div 7 + 1 < n"
    using assms(5) bounds by (simp_all add: n_def zdiv_mono1)
  moreover have "getDay b = 1 \<Longrightarrow> b = m + 7 * ((b - m) div 7)"
    using mon(2) [of b] by presburger
  ultimately show ?thesis
    using n weeks(1) weeks(3) by (simp add: w m_def [symmetric] cols mon(1) [of a] mon(1) [of b])
qed

definition demo_project :: "jsstring \<Rightarrow> jsstring \<Rightarrow> project" where
  "demo_project a b = \<lparr>pr_id = js ''j1'', pr_name = js ''Atlas'', pr_emoji = [], pr_description = [], pr_url = [], pr_start_date = a,
     pr_end_date = b, pr_status = js ''in_progress'', pr_team_lead = []\<rparr>"

theorem gantt_bar_weeks_witness:
  "case ganttWeeks 20500 [demo_project (fmtDate 20480) (fmtDate 20510)] of (weeks, now) \<Rightarrow>
   case barCols (\<lambda>_. 0) weeks (demo_project (fmtDate 20480) (fmtDate 20510)) of (startCol, endCol) \<Rightarrow>
     0 \<le> startCol \<and> startCol \<le> endCol \<and> endCol < int (length weeks)
     \<and> weeks ! nat startCol = getWeekStart 20480
     \<and> weeks ! nat endCol = (if getDay 20510 = 1 then 20510 else getWeekStart 20510 + 7)"
proof (rule gantt_bar_weeks)
  have y: "four_digit_year 20480" "four_digit_year 20510" "four_digit_year 20500" by code_simp+
  then show "four_digit_year 20480" "four_digit_year 20510" "four_digit_year 20500" .
  show "list_all (\<lambda>q. written_date (pr_start_date q) \<and> written_date (pr_end_date q)) [demo_project (fmtDate 20480) (fmtDate 20510)]"
    using y by (simp add: demo_project_def written_date_def parse_fmt)
qed (simp_all add: demo_project_def)

section \<open>Where the views fall short\<close>

text \<open>The chart ends a week after the last end, not after the last start: a project that starts later
  and has no end has no bar.\<close>

lemma late_start_has_no_bar:
  "case ganttWeeks 20500 [demo_project (fmtDate 20550) []] of (weeks, now) \<Rightarrow>
     gr_cells (ganttRow (\<lambda>_. 0) 0 (\<lambda>s. s) demo_client weeks now (demo_project (fmtDate 20550) [])) = [NoBar, NoBar, NoBar]"
proof -
  have y: "four_digit_year 20500" "four_digit_year 20550" by code_simp+
  have "fold widen [demo_project (fmtDate 20550) []] (fmtDate 20500, fmtDate 20500) = (fmtDate 20500, fmtDate 20500)"
    using y by (simp add: widen_def demo_project_def fmtDate_less_iff)
  moreover have "setDate 20493 (getDate 20493 - (getDay 20493 + 6) mod 7) = 20493" by code_simp
  moreover have "chart_weeks 20493 20507 = [20493, 20500, 20507]"
    by (simp add: chart_weeks_eq upt_rec)
  ultimately have w: "ganttWeeks 20500 [demo_project (fmtDate 20550) []] = ([20493, 20500, 20507], 20500)"
    using y by (simp add: ganttWeeks_def chart_days_def parse_fmt setDate_plus setDate_minus)
  have "barCols (\<lambda>_. 0) [20493, 20500, 20507] (demo_project (fmtDate 20550) []) = (8, 8)"
    using y by (simp add: barCols_def demo_project_def opt_date_def parse_fmt fmt_date_not_empty dayDiff_days)
  then show ?thesis
    by (simp add: w ganttRow_def gantt_cells_from Let_def numeral_3_eq_3)
qed

text \<open>When every project is completed, the page that hides them has no box to show them again.\<close>

lemma all_done_hidden:
  "list_all (\<lambda>p. pr_status p = js ''done'') (c_projects c) \<Longrightarrow> renderGeneralProjectView lower ckey True c = AllHidden"
  by (auto simp: renderGeneralProjectView_def shown_projects_def Let_def list_all_iff)

text \<open>The names in the tooltip of a bar are escaped twice.\<close>

lemma tooltip_escapes_twice:
  assumes "peopleOn lower c (pr_name p) = [q]" and "p_name q = js ''A&B''"
  shows "js_includes (gr_tooltip (ganttRow tz sinceMidnight lower c weeks now p)) (js ''A&amp;amp;B'')"
proof -
  have "escapeHtml (escapeHtml (p_name q)) = js ''A&amp;amp;B''"
    by (simp add: assms(2) escapeHtml_pass html_entity_def js_def)
  moreover have "escapeHtml (p_name q) \<noteq> []"
    by (simp add: assms(2) escapeHtml_pass html_entity_def js_def)
  ultimately show ?thesis
    unfolding js_includes_iff
    by (intro exI [of _ "escapeHtml (pr_name p) @ js '' '' @ [8212] @ js '' '' @ statusLabel p @ [10] @ js ''People now: ''"] exI [of _ "[]"])
      (simp add: ganttRow_def assms(1) Let_def split_def)
qed

end
