(* ===== verification/Connection.thy ===== *)
theory Connection
  imports Sync
begin

text \<open>
  The WebSocket connection (\<open>WS.connect\<close>): the socket, the timer that reconnects after a close and
  the indicator beside it, as a step relation that runs together with messages, edits and other
  clients. Proved by rule induction: at most one of socket and timer is live, the indicator tells
  the truth, and a client that is logged in can always come back; but what it missed meanwhile it
  never asks for.
\<close>

datatype socket = NoSocket | Connecting | Opened | Closed

text \<open>\<open>lk_timer\<close>: a timeout is running; \<open>lk_timer_id\<close>: \<open>reconnectTimer\<close> is not \<open>null\<close>.\<close>

record link =
  lk_socket :: socket
  lk_timer :: bool
  lk_timer_id :: bool
  lk_status :: jsstring

definition updateWSStatus :: "jsstring \<Rightarrow> jsstring \<times> jsstring" where
  "updateWSStatus status =
     dict_get_or (js ''ws-disconnected'', js ''Unknown'')
       [(js ''connected'', (js ''ws-connected'', js ''Connected'')), (js ''reconnecting'', (js ''ws-reconnecting'', js ''Reconnecting'' @ [8230])),
        (js ''disconnected'', (js ''ws-disconnected'', js ''Disconnected''))] status"

definition connect :: "client \<Rightarrow> link \<Rightarrow> link" where
  "connect c l = (if c_token c = None then l else l\<lparr>lk_socket := Connecting\<rparr>)"

definition on_open :: "link \<Rightarrow> link" where
  "on_open l = (let l = l\<lparr>lk_socket := Opened, lk_status := js ''connected''\<rparr>
     in if lk_timer_id l then l\<lparr>lk_timer := False, lk_timer_id := False\<rparr> else l)"

definition on_close :: "link \<Rightarrow> link" where
  "on_close l = l\<lparr>lk_socket := Closed, lk_status := js ''reconnecting'', lk_timer := True, lk_timer_id := True\<rparr>"

definition timer_fires :: "client \<Rightarrow> link \<Rightarrow> link" where
  "timer_fires c l = connect c (l\<lparr>lk_timer := False\<rparr>)"

text \<open>The end of \<open>init\<close>.\<close>

definition first_link :: "client \<Rightarrow> link" where
  "first_link c = connect c \<lparr>lk_socket = NoSocket, lk_timer = False, lk_timer_id = False, lk_status = js ''reconnecting''\<rparr>"

type_synonym live_tab = "link \<times> client \<times> server"

inductive link_step :: "env \<Rightarrow> live_tab \<Rightarrow> live_tab \<Rightarrow> bool" for e where
  opened: "lk_socket l = Connecting \<Longrightarrow> link_step e (l, c, s) (on_open l, c, s)"
| closed: "lk_socket l = Connecting \<or> lk_socket l = Opened \<Longrightarrow> link_step e (l, c, s) (on_close l, c, s)"
| timer: "lk_timer l \<Longrightarrow> link_step e (l, c, s) (timer_fires c l, c, s)"
| received: "lk_socket l = Opened \<Longrightarrow> deliver e msg (c, s) = (c', s') \<Longrightarrow> link_step e (l, c, s) (l, c', s')"
| here: "c_token c' = c_token c \<or> c_token c' = None \<Longrightarrow> link_step e (l, c, s) (l, c', s')"
| elsewhere: "handle r s = (status, body, s') \<Longrightarrow> link_step e (l, c, s) (l, c, s')"

inductive_cases link_stepE: "link_step e (l, c, s) st"

inductive link_reach :: "env \<Rightarrow> live_tab \<Rightarrow> bool" for e where
  start: "link_reach e (first_link c, c, s)"
| step: "link_reach e st \<Longrightarrow> link_step e st st' \<Longrightarrow> link_reach e st'"

definition link_ok :: "link \<Rightarrow> client \<Rightarrow> bool" where
  "link_ok l c \<longleftrightarrow> (lk_timer l \<longrightarrow> lk_socket l = Closed \<and> lk_timer_id l)
     \<and> (lk_status l = js ''connected'' \<longleftrightarrow> lk_socket l = Opened)
     \<and> lk_status l \<in> {js ''connected'', js ''reconnecting''}
     \<and> (c_token c \<noteq> None \<longrightarrow> lk_timer l \<or> lk_socket l = Connecting \<or> lk_socket l = Opened)"

section \<open>The token\<close>

lemma call_token: "call e r (c, s) = (res, c', s') \<Longrightarrow> c_token c' = c_token c \<or> c_token c' = None"
  by (auto simp: call_def Let_def split: net.splits prod.splits if_splits)

lemma reload_token: "reloadPlanning e (c, s) = (err, c', s') \<Longrightarrow> c_token c' = c_token c \<or> c_token c' = None"
  by (auto simp: reloadPlanning_def Let_def split: if_splits prod.splits sum.splits reply.splits dest!: call_token)

lemma queueFlash_token: "c_token (queueFlash e cs origin c) = c_token c"
proof -
  have "c_token (queueFlash1 e origin x c) = c_token c" for x c by (simp add: queueFlash1_def Let_def)
  then show ?thesis unfolding queueFlash_def by (induction cs arbitrary: c) simp_all
qed

lemma render_token [simp]: "c_token (render_state c) = c_token c"
  by (simp add: render_state_def applyPendingFlash_def)

lemma onMessage_token: "c_token (fst (onMessage e msg c)) = c_token c"
  by (cases msg) (auto simp: onMessage_def Let_def queueFlash_token split: prod.splits)

lemma follow_token: "follow e f (c, s) = (c', s') \<Longrightarrow> c_token c' = c_token c \<or> c_token c' = None"
  by (cases f) (auto split: if_splits prod.splits option.splits sum.splits reply.splits dest!: call_token reload_token)

lemma deliver_token: "deliver e msg (c, s) = (c', s') \<Longrightarrow> c_token c' = c_token c \<or> c_token c' = None"
  using follow_token [of e "snd (onMessage e msg c)" "fst (onMessage e msg c)" s c' s']
  by (simp add: deliver_def onMessage_token split: prod.splits)

section \<open>The connection\<close>

lemma link_ok_token: "link_ok l c \<Longrightarrow> c_token c' = c_token c \<or> c_token c' = None \<Longrightarrow> link_ok l c'"
  by (auto simp: link_ok_def)

lemma link_ok_step: "link_step e (l, c, s) (l', c', s') \<Longrightarrow> link_ok l c \<Longrightarrow> link_ok l' c'"
proof (erule link_stepE)
  assume "link_ok l c" "(l', c', s') = (on_open l, c, s)"
  then show "link_ok l' c'" by (auto simp: link_ok_def on_open_def Let_def)
next
  assume "link_ok l c" "(l', c', s') = (on_close l, c, s)"
  then show "link_ok l' c'" by (auto simp: link_ok_def on_close_def js_eq_iff)
next
  assume "link_ok l c" "(l', c', s') = (timer_fires c l, c, s)" "lk_timer l"
  then show "link_ok l' c'" by (auto simp: link_ok_def timer_fires_def connect_def js_eq_iff)
qed (auto intro: link_ok_token dest: deliver_token)

lemma link_reach_ok: "link_reach e st \<Longrightarrow> (case st of (l, c, s) \<Rightarrow> link_ok l c)"
proof (induction rule: link_reach.induct)
  case (start c s)
  then show ?case by (auto simp: link_ok_def first_link_def connect_def js_eq_iff)
next
  case (step st st')
  then show ?case by (cases st; cases st') (auto dest: link_ok_step)
qed

text \<open>The timer that is running fires, and the server accepts the socket.\<close>

definition come_back :: "client \<Rightarrow> link \<Rightarrow> link" where
  "come_back c l = (let l = (if lk_timer l then timer_fires c l else l) in if lk_socket l = Connecting then on_open l else l)"

lemma come_back_steps: "(link_step e)\<^sup>*\<^sup>* (l, c, s) (come_back c l, c, s)"
proof -
  let ?l = "if lk_timer l then timer_fires c l else l"
  have "(link_step e)\<^sup>*\<^sup>* (l, c, s) (?l, c, s)" by (auto intro: link_step.timer)
  moreover have "(link_step e)\<^sup>*\<^sup>* (?l, c, s) (come_back c l, c, s)"
    by (auto simp: come_back_def Let_def intro: link_step.opened)
  ultimately show ?thesis by (rule rtranclp_trans)
qed

lemma come_back_open: "link_ok l c \<Longrightarrow> c_token c \<noteq> None \<Longrightarrow>
    lk_socket (come_back c l) = Opened \<and> \<not> lk_timer (come_back c l)"
  by (auto simp: link_ok_def come_back_def Let_def timer_fires_def connect_def on_open_def)

section \<open>Properties\<close>

text \<open>C19: the indicator tells the truth: whatever happens to the connection, it says connected exactly
  while the socket is open, and never a fourth thing; and a reconnection is only scheduled while the socket is closed, so
  that there are never two.\<close>

theorem indicator_truthful:
  assumes "link_reach e (l, c, s)"
  shows "(updateWSStatus (lk_status l) = (js ''ws-connected'', js ''Connected'')) = (lk_socket l = Opened)
    \<and> (lk_status l = js ''connected'' \<or> lk_status l = js ''reconnecting'')
    \<and> \<not> (lk_timer l \<and> (lk_socket l = Connecting \<or> lk_socket l = Opened))"
  using link_reach_ok [OF assms] by (auto simp: link_ok_def updateWSStatus_def dict_get_or_def dict_get_def js_eq_iff)

theorem indicator_truthful_witness:
  "(updateWSStatus (lk_status (first_link demo_client)) = (js ''ws-connected'', js ''Connected'')) = (lk_socket (first_link demo_client) = Opened)
    \<and> (lk_status (first_link demo_client) = js ''connected'' \<or> lk_status (first_link demo_client) = js ''reconnecting'')
    \<and> \<not> (lk_timer (first_link demo_client) \<and> (lk_socket (first_link demo_client) = Connecting \<or> lk_socket (first_link demo_client) = Opened))"
  by (rule indicator_truthful [OF link_reach.start [of demo_env demo_client demo_server]])

text \<open>C20: a client that is logged in is never stuck without a connection: from every reachable state, the
  timer and the server's accepting the socket, which need nothing else, lead to an open socket,
  the indicator on connected and no timer left.\<close>

theorem always_reconnects:
  assumes "link_reach e (l, c, s)" and "c_token c \<noteq> None"
  shows "(link_step e)\<^sup>*\<^sup>* (l, c, s) (come_back c l, c, s) \<and> lk_socket (come_back c l) = Opened
    \<and> lk_status (come_back c l) = js ''connected'' \<and> \<not> lk_timer (come_back c l)"
proof -
  have ok: "link_ok l c" using link_reach_ok [OF assms(1)] by simp
  have "link_reach e (come_back c l, c, s)"
    using come_back_steps [of e l c s] assms(1)
    by (induction rule: rtranclp_induct) (auto intro: link_reach.step)
  then have "link_ok (come_back c l) c" using link_reach_ok by fastforce
  then show ?thesis
    using come_back_steps come_back_open [OF ok assms(2)] by (simp add: link_ok_def)
qed

theorem always_reconnects_witness:
  "(link_step demo_env)\<^sup>*\<^sup>* (on_close (first_link demo_client), demo_client, demo_server)
     (come_back demo_client (on_close (first_link demo_client)), demo_client, demo_server)
   \<and> lk_socket (come_back demo_client (on_close (first_link demo_client))) = Opened
   \<and> lk_status (come_back demo_client (on_close (first_link demo_client))) = js ''connected''
   \<and> \<not> lk_timer (come_back demo_client (on_close (first_link demo_client)))"
proof (rule always_reconnects)
  have "lk_socket (first_link demo_client) = Connecting" by (simp add: first_link_def connect_def demo_client_def)
  then show "link_reach demo_env (on_close (first_link demo_client), demo_client, demo_server)"
    by (intro link_reach.step [OF link_reach.start [of demo_env demo_client demo_server]] link_step.closed) simp
  show "c_token demo_client \<noteq> None" by (simp add: demo_client_def)
qed

text \<open>Coming back does not catch up: after a slot changed while the socket was closed, the client
  reconnects, says connected and still shows the old slot, until something else makes it reload.\<close>

theorem missed_update_stays:
  assumes "live_ok e (c, s)" and "c_token c \<noteq> None" and "lk_socket l = Opened"
    and "plain_ref r" and "in_window e c r" and "ref_person r \<noteq> [] \<and> ref_date r \<noteq> [] \<and> ref_slot r \<noteq> []"
    and "kept_slot d \<noteq> read_slot (sv_planning s) r"
  shows "case handle (PutSlotR (ref_person r) (ref_date r) (ref_slot r) d) s of (status, body, s') \<Rightarrow>
     case come_back c (on_close l) of l' \<Rightarrow>
       (link_step e)\<^sup>*\<^sup>* (l, c, s) (l', c, s') \<and> lk_status l' = js ''connected'' \<and> lk_socket l' = Opened
       \<and> read_slot (sv_planning s') r = kept_slot d \<and> dict_get (c_planning c) (ref_key r) \<noteq> read_slot (sv_planning s') r"
proof -
  obtain status body s' where h: "handle (PutSlotR (ref_person r) (ref_date r) (ref_slot r) d) s = (status, body, s')" by (metis prod.exhaust)
  have "SlotRef (ref_person r) (ref_date r) (ref_slot r) = r" by (cases r) simp
  then have s': "read_slot (sv_planning s') r = kept_slot d"
    using h assms(6) by (auto simp: read_SetSlot)
  have old: "dict_get (c_planning c) (ref_key r) = read_slot (sv_planning s) r"
    using assms(1,4,5) by (simp add: live_ok_def view_synced_def)
  have "(link_step e)\<^sup>*\<^sup>* (l, c, s) (on_close l, c, s)" using assms(3) by (auto intro: link_step.closed)
  also have "(link_step e)\<^sup>*\<^sup>* (on_close l, c, s) (on_close l, c, s')" using link_step.elsewhere [OF h] by (rule r_into_rtranclp)
  also have "(link_step e)\<^sup>*\<^sup>* (on_close l, c, s') (come_back c (on_close l), c, s')" by (rule come_back_steps)
  finally have steps: "(link_step e)\<^sup>*\<^sup>* (l, c, s) (come_back c (on_close l), c, s')" .
  have "lk_status (come_back c (on_close l)) = js ''connected'' \<and> lk_socket (come_back c (on_close l)) = Opened"
    using assms(2) by (simp add: come_back_def on_close_def timer_fires_def connect_def on_open_def Let_def)
  then show ?thesis
    using steps s' old assms(7) unfolding h by simp
qed

theorem missed_update_stays_witness:
  "case handle (PutSlotR (ref_person demo_ref) (ref_date demo_ref) (ref_slot demo_ref) (demo_slot\<lparr>sd_run_note := []\<rparr>)) demo_server of (status, body, s') \<Rightarrow>
     case come_back demo_client (on_close (on_open (first_link demo_client))) of l' \<Rightarrow>
       (link_step demo_env)\<^sup>*\<^sup>* (on_open (first_link demo_client), demo_client, demo_server) (l', demo_client, s')
       \<and> lk_status l' = js ''connected'' \<and> lk_socket l' = Opened
       \<and> read_slot (sv_planning s') demo_ref = kept_slot (demo_slot\<lparr>sd_run_note := []\<rparr>)
       \<and> dict_get (c_planning demo_client) (ref_key demo_ref) \<noteq> read_slot (sv_planning s') demo_ref"
proof (rule missed_update_stays)
  show "live_ok demo_env (demo_client, demo_server)" by (simp add: live_ok_def demo_live_ok)
  show "c_token demo_client \<noteq> None" by (simp add: demo_client_def)
  show "lk_socket (on_open (first_link demo_client)) = Opened" by (simp add: on_open_def Let_def)
  show "plain_ref demo_ref" using demo_proper by (simp add: proper_ref_def)
  show "ref_person demo_ref \<noteq> [] \<and> ref_date demo_ref \<noteq> [] \<and> ref_slot demo_ref \<noteq> []"
    using demo_proper by (simp add: proper_ref_def)
  show "in_window demo_env demo_client demo_ref" by (rule demo_window)
  have "kept_slot (demo_slot\<lparr>sd_run_note := []\<rparr>) = Some (demo_slot\<lparr>sd_run_note := []\<rparr>)"
    by (rule clean_kept) (simp add: clean_slot_def slot_is_empty_def demo_slot_def)
  moreover have "read_slot (sv_planning demo_server) demo_ref = Some demo_slot"
    using demo_plain by (simp add: plain_store_def store_ok_def read_slot_def demo_server_def demo_row)
  ultimately show "kept_slot (demo_slot\<lparr>sd_run_note := []\<rparr>) \<noteq> read_slot (sv_planning demo_server) demo_ref"
    by (simp add: demo_slot_def)
qed

end
