(* ===== verification/Activity.thy ===== *)
theory Activity
  imports JsSort UndoRedo SlotView Escape
begin

text \<open>
  The activity and incidents views: the filters over the events, the grouping by day, and the texts
  of a row. The texts are those that go into the page: where the code escapes a value, so does the
  model. Formatting a date or a time for the locale of the browser is a parameter.
\<close>

section \<open>Labels\<close>

record act_info =
  ai_label :: jsstring
  ai_cat :: jsstring

definition ACT_LABELS :: "(jsstring, act_info) dict" where
  "ACT_LABELS = map (\<lambda>(a, l, k). (js a, \<lparr>ai_label = js l, ai_cat = js k\<rparr>))
    [(''planning_set'', ''Set slot'', ''planning''),
     (''planning_clear'', ''Clear slot'', ''planning''),
     (''planning_range'', ''Set range'', ''planning''),
     (''planning_range_clear'', ''Clear range'', ''planning''),
     (''planning_copy'', ''Copy week'', ''planning''),
     (''oncall_set'', ''On-call set'', ''oncall''),
     (''oncall_remove'', ''On-call removed'', ''oncall''),
     (''project_add'', ''Project added'', ''projects''),
     (''project_update'', ''Project updated'', ''projects''),
     (''project_delete'', ''Project deleted'', ''projects''),
     (''project_import_csv'', ''Projects imported'', ''projects''),
     (''person_add'', ''Person added'', ''people''),
     (''person_update'', ''Person updated'', ''people''),
     (''person_delete'', ''Person deleted'', ''people''),
     (''person_archive'', ''Person archived'', ''people''),
     (''person_unarchive'', ''Person restored'', ''people''),
     (''prune'', ''Pruned old data'', ''system''),
     (''reset'', ''Reset all data'', ''system''),
     (''settings_update'', ''Settings updated'', ''system'')]"

definition ACT_CAT_LABELS :: "(jsstring, jsstring) dict" where
  "ACT_CAT_LABELS = map (\<lambda>(k, l). (js k, js l))
    [(''all'', ''All actions''), (''planning'', ''Planning''), (''oncall'', ''On-call''), (''projects'', ''Projects''),
     (''people'', ''People''), (''system'', ''System'')]"

section \<open>Filters\<close>

record activity_filter =
  af_type :: jsstring
  af_person :: jsstring
  af_actor :: jsstring
  af_search :: jsstring

definition no_meta :: event_meta where
  "no_meta = \<lparr>m_person_ids = None, m_person_id = [], m_person_name = [], m_date = [], m_slot = [], m_week_start = [],
     m_from_week = [], m_to_week = [], m_start_date = [], m_start_slot = [], m_end_date = [], m_end_slot = [], m_state = [],
     m_away_type = [], m_away_note = [], m_incident_text = [], m_projects = None, m_project_name = [], m_run = False,
     m_run_note = [], m_remote = False, m_offsite = False, m_weeks_old = None, m_deleted = None, m_created = None,
     m_updated = None, m_people_count = None, m_keys = None\<rparr>"

definition ev_fields :: "event \<Rightarrow> event_meta" where
  "ev_fields e = (case ev_meta e of None \<Rightarrow> no_meta | Some m \<Rightarrow> m)"

definition meta_ids :: "event_meta \<Rightarrow> jsstring list" where
  "meta_ids m = (case m_person_ids m of Some ids \<Rightarrow> ids
     | None \<Rightarrow> if m_person_id m \<noteq> [] then [m_person_id m] else [])"

definition opt_list :: "'a list option \<Rightarrow> 'a list" where
  "opt_list v = (case v of None \<Rightarrow> [] | Some xs \<Rightarrow> xs)"

text \<open>The text that the search box searches.\<close>

definition act_hay :: "(jsstring \<Rightarrow> jsstring) \<Rightarrow> person list \<Rightarrow> event \<Rightarrow> jsstring" where
  "act_hay lower people e =
     (let m = ev_fields e
      in lower (js_join (js '' '')
        [ev_action e, case dict_get ACT_LABELS (ev_action e) of None \<Rightarrow> [] | Some i \<Rightarrow> ai_label i, ev_target e, ev_detail e, ev_actor e,
         m_person_name m, m_project_name m, m_away_type m, m_incident_text m,
         js_join (js '' '') (opt_list (m_projects m)),
         js_join (js '' '') (map (\<lambda>i. case getPerson people i of None \<Rightarrow> i | Some p \<Rightarrow> p_name p) (opt_list (m_person_ids m)))]))"

definition event_shown :: "(jsstring \<Rightarrow> jsstring) \<Rightarrow> person list \<Rightarrow> activity_filter \<Rightarrow> event \<Rightarrow> bool" where
  "event_shown lower people f e =
     (let q = lower (js_trim (af_search f))
      in if af_type f \<noteq> js ''all'' \<and> (case dict_get ACT_LABELS (ev_action e) of None \<Rightarrow> True | Some i \<Rightarrow> ai_cat i \<noteq> af_type f) then False
         else if af_actor f \<noteq> js ''all'' \<and> ev_actor e \<noteq> af_actor f then False
         else if af_person f \<noteq> js ''all'' \<and> af_person f \<notin> set (meta_ids (ev_fields e)) then False
         else if q \<noteq> [] \<and> \<not> js_includes (act_hay lower people e) q then False
         else True)"

text \<open>The options of the actor filter: \<open>actors[e.actor] = true\<close>.\<close>

definition act_actors :: "event list \<Rightarrow> jsstring list" where
  "act_actors events = dict_keys (fold (\<lambda>e d. if ev_actor e \<noteq> [] then dict_set (ev_actor e) True d else d) events [])"

definition filter_active :: "(jsstring \<Rightarrow> jsstring) \<Rightarrow> activity_filter \<Rightarrow> bool" where
  "filter_active lower f \<longleftrightarrow> af_type f \<noteq> js ''all'' \<or> af_person f \<noteq> js ''all'' \<or> af_actor f \<noteq> js ''all''
     \<or> lower (js_trim (af_search f)) \<noteq> []"

section \<open>The list\<close>

datatype act_line = DayHead jsstring | EventLine event

fun act_lines :: "(jsstring \<Rightarrow> jsstring) \<Rightarrow> jsstring \<Rightarrow> event list \<Rightarrow> act_line list" where
  "act_lines day_label lastDay [] = []"
| "act_lines day_label lastDay (e # es) =
     (let day = js_slice 0 10 (ev_ts e)
      in if day \<noteq> lastDay then DayHead (day_label day) # EventLine e # act_lines day_label day es
         else EventLine e # act_lines day_label lastDay es)"

text \<open>\<open>iso_day\<close>: the local midnight of a day, \<open>None\<close> for an invalid date; \<open>nice\<close>: the date in words.\<close>

definition actDayLabel :: "(date \<Rightarrow> int) \<Rightarrow> (jsstring \<Rightarrow> date option) \<Rightarrow> (date \<Rightarrow> jsstring) \<Rightarrow> date \<Rightarrow> jsstring \<Rightarrow> jsstring" where
  "actDayLabel tz iso_day nice today dayStr =
     (if dayStr = [] then js ''Unknown date''
      else case iso_day dayStr of
             None \<Rightarrow> dayStr
           | Some d \<Rightarrow>
               let diff = round_quot (time_value tz today - time_value tz d) 86400000
               in if diff = 0 then js ''Today'' @ mid_dot @ nice d
                  else if diff = 1 then js ''Yesterday'' @ mid_dot @ nice d
                  else nice d)"

text \<open>What a container shows. A change of a filter renders into the list of the page it is on.\<close>

datatype act_page = ActPage "jsstring list" nat act_body
and act_body = ActLines "act_line list" | ActInner act_page

definition renderActivityList :: "(jsstring \<Rightarrow> jsstring) \<Rightarrow> (jsstring \<Rightarrow> jsstring) \<Rightarrow> activity_filter \<Rightarrow> client \<Rightarrow> act_page" where
  "renderActivityList lower day_label f c =
     (let filtered = filter (event_shown lower (c_people c) f) (c_activity c)
      in ActPage (act_actors (c_activity c)) (length filtered) (ActLines (act_lines day_label [] filtered)))"

fun change_filter :: "(jsstring \<Rightarrow> jsstring) \<Rightarrow> (jsstring \<Rightarrow> jsstring) \<Rightarrow> activity_filter \<Rightarrow> client \<Rightarrow> act_page \<Rightarrow> act_page" where
  "change_filter lower day_label f c (ActPage actors n body) = ActPage actors n (ActInner (renderActivityList lower day_label f c))"

section \<open>The texts of a row\<close>

definition act_label :: "event \<Rightarrow> jsstring" where
  "act_label e = escapeHtml (case dict_get ACT_LABELS (ev_action e) of None \<Rightarrow> ev_action e | Some i \<Rightarrow> ai_label i)"

datatype person_chip =
    NameChip jsstring
  | PersonChip jsstring jsstring
  | UnknownChip jsstring

definition actPersonChips :: "person list \<Rightarrow> event_meta \<Rightarrow> person_chip list" where
  "actPersonChips people m =
     (if meta_ids m = [] then (if m_person_name m \<noteq> [] then [NameChip (escapeHtml (m_person_name m))] else [])
      else map (\<lambda>i. case getPerson people i of
          Some p \<Rightarrow> PersonChip (escapeHtml (p_role p) @ (if p_sub_team p \<noteq> [] then mid_dot @ escapeHtml (p_sub_team p) else []))
                      (escapeHtml (or_else (p_avatar_emoji p) emoji_person) @ js '' '' @ escapeHtml (p_name p))
        | None \<Rightarrow> UnknownChip (escapeHtml i)) (meta_ids m))"

definition day_text :: "(date \<Rightarrow> jsstring) \<Rightarrow> jsstring \<Rightarrow> jsstring" where
  "day_text nice s = (case parseDate s of None \<Rightarrow> s | Some d \<Rightarrow> nice d)"

definition actShortDate :: "(date \<Rightarrow> jsstring) \<Rightarrow> jsstring \<Rightarrow> jsstring" where
  "actShortDate nice s = (if s = [] then js ''?'' else day_text nice s)"

definition half_text :: "jsstring \<Rightarrow> jsstring" where
  "half_text slot = (if slot = js ''am'' then js ''AM'' else js ''PM'')"

definition icon_calendar :: jsstring where "icon_calendar = [55357, 56517, 32]"

definition arrow :: jsstring where "arrow = [32, 8594, 32]"

definition actDateLabel :: "(date \<Rightarrow> jsstring) \<Rightarrow> event_meta \<Rightarrow> jsstring" where
  "actDateLabel nice m =
     (if m_date m \<noteq> [] then
        let slot = (if m_slot m \<noteq> [] then half_text (m_slot m) else [])
        in icon_calendar @ escapeHtml (day_text nice (m_date m)) @ (if slot \<noteq> [] then mid_dot @ escapeHtml slot else [])
      else if m_week_start m \<noteq> [] then icon_calendar @ js ''Week of '' @ escapeHtml (day_text nice (m_week_start m))
      else if m_from_week m \<noteq> [] \<or> m_to_week m \<noteq> [] then
        icon_calendar @ escapeHtml (actShortDate nice (m_from_week m)) @ arrow @ escapeHtml (actShortDate nice (m_to_week m))
      else if m_start_date m \<noteq> [] \<or> m_end_date m \<noteq> [] then
        icon_calendar
        @ escapeHtml (actShortDate nice (m_start_date m) @ (if m_start_slot m \<noteq> [] then js '' '' @ half_text (m_start_slot m) else []))
        @ arrow @ escapeHtml (actShortDate nice (m_end_date m) @ (if m_end_slot m \<noteq> [] then js '' '' @ half_text (m_end_slot m) else []))
      else [])"

definition badge_states :: "jsstring list" where
  "badge_states = [js ''away'', js ''incident'', js ''project'', js ''run'', js ''undetermined'']"

text \<open>\<open>None\<close>: no badge. The first letter of a state with a badge is an ASCII letter.\<close>

definition actStateBadge :: "event_meta \<Rightarrow> jsstring option" where
  "actStateBadge m =
     (if m_state m \<notin> set badge_states then None
      else Some (escapeHtml (map (\<lambda>x. x - 32) (take 1 (m_state m)) @ drop 1 (m_state m)
             @ (if m_state m = js ''away'' \<and> m_away_type m \<noteq> [] then js '': '' @ m_away_type m else []))))"

definition num_bit :: "jsstring \<Rightarrow> int option \<Rightarrow> jsstring \<Rightarrow> jsstring list" where
  "num_bit before v after = (case v of None \<Rightarrow> [] | Some n \<Rightarrow> [before @ str_of_int n @ after])"

definition text_bit :: "jsstring \<Rightarrow> jsstring \<Rightarrow> jsstring list" where
  "text_bit icon t = (if t \<noteq> [] then [icon @ t] else [])"

definition icon_runner :: jsstring where "icon_runner = [55356, 57283, 32]"

definition extra_bits :: "event_meta \<Rightarrow> jsstring list" where
  "extra_bits m =
     (if m_remote m then [[55356, 57104, 32] @ js ''remote''] else [])
     @ (if m_offsite m then [[55356, 57314, 32] @ js ''offsite''] else [])
     @ (if m_run m \<and> m_state m = js ''project'' then [icon_runner @ js ''+run''] else [])
     @ text_bit icon_runner (m_run_note m)
     @ (if opt_list (m_projects m) \<noteq> [] then [emoji_folder @ js '' '' @ js_join (js '', '') (opt_list (m_projects m))] else [])
     @ text_bit [55357, 56541, 32] (m_away_note m)
     @ text_bit [9888, 32] (m_incident_text m)
     @ text_bit (emoji_folder @ js '' '') (m_project_name m)
     @ num_bit (js ''older than '') (m_weeks_old m) (js '' weeks'')
     @ num_bit (js ''deleted '') (m_deleted m) (js '' slots'')
     @ num_bit (js ''created '') (m_created m) []
     @ num_bit (js ''updated '') (m_updated m) []
     @ (if opt_list (m_person_ids m) \<noteq> [] then [] else num_bit [] (m_people_count m) (js '' people''))
     @ (if opt_list (m_keys m) \<noteq> [] then [js ''keys: '' @ js_join (js '', '') (opt_list (m_keys m))] else [])"

definition actExtra :: "event \<Rightarrow> jsstring" where
  "actExtra e =
     (let bits = extra_bits (ev_fields e);
          t = js_join ([32, 8212, 32]) (filter (\<lambda>x. x \<noteq> []) [ev_target e, ev_detail e])
      in js_join mid_dot (if bits \<noteq> [] then bits else if t \<noteq> [] then [escapeHtml t] else []))"

section \<open>Incidents\<close>

record incident_entry =
  in_date :: jsstring
  in_slot :: jsstring
  in_person_name :: jsstring
  in_avatar_emoji :: jsstring
  in_text :: jsstring

text \<open>When, who, and what, where \<open>None\<close> stands for \<open>(no description)\<close>.\<close>

definition incidentRow :: "incident_entry \<Rightarrow> jsstring \<times> jsstring \<times> jsstring option" where
  "incidentRow i = (in_date i @ js '' '' @ half_text (in_slot i),
     escapeHtml (or_else (in_avatar_emoji i) emoji_person) @ js '' '' @ escapeHtml (in_person_name i),
     if in_text i \<noteq> [] then Some (escapeHtml (in_text i)) else None)"

definition renderIncidentsList :: "incident_entry list \<Rightarrow> jsstring option \<times> (jsstring \<times> jsstring \<times> jsstring option) list" where
  "renderIncidentsList is =
     (if is = [] then None else Some (str_of_nat (length is) @ js '' incident'' @ (if 1 < length is then js ''s'' else []) @ js '' recorded''),
      map incidentRow is)"

section \<open>What the server logs of a slot\<close>

text \<open>\<open>applySlotDataMeta\<close> and \<open>slotMeta\<close> of \<open>internal/api/writes.go\<close>: the fields of the entry about a written slot.\<close>

definition applySlotDataMeta :: "slot_data \<Rightarrow> event_meta \<Rightarrow> event_meta" where
  "applySlotDataMeta d m =
     (let m = (case sd_away d of
          Some a \<Rightarrow> m\<lparr>m_state := js ''away'', m_away_type := away_type a, m_away_note := away_note a\<rparr>
        | None \<Rightarrow> (case sd_incident d of
            Some i \<Rightarrow> m\<lparr>m_state := js ''incident'', m_incident_text := incident_text i\<rparr>
          | None \<Rightarrow>
              if has_projects d then m\<lparr>m_state := js ''project'', m_projects := Some (map pa_name (projects_list d)), m_run := sd_run d\<rparr>
              else if sd_run d then m\<lparr>m_state := js ''run''\<rparr>
              else m\<lparr>m_state := sd_state d\<rparr>))
      in m\<lparr>m_run_note := sd_run_note d, m_remote := sd_remote d, m_offsite := sd_offsite d\<rparr>)"

definition slotMeta :: "jsstring \<Rightarrow> jsstring \<Rightarrow> jsstring \<Rightarrow> slot_data \<Rightarrow> event_meta" where
  "slotMeta personID date slot d =
     applySlotDataMeta d (no_meta\<lparr>m_person_ids := Some [personID], m_date := date, m_slot := slot\<rparr>)"

text \<open>The badge that the category of the editor calls for.\<close>

definition category_badge :: "slot_data \<Rightarrow> jsstring option" where
  "category_badge d = (case uniCategorise (Some d) of
     None \<Rightarrow> None
   | Some k \<Rightarrow>
       if k = js ''away'' then Some (js ''Away'' @ escapeHtml (case sd_away d of None \<Rightarrow> [] | Some a \<Rightarrow> if away_type a = [] then [] else js '': '' @ away_type a))
       else if k = js ''incident'' then Some (js ''Incident'')
       else if k = js ''project'' \<or> k = js ''project+run'' then Some (js ''Project'')
       else if k = js ''run'' then Some (js ''Run'')
       else if k = js ''undetermined'' then Some (js ''Undetermined'')
       else None)"

text \<open>A slot in one of the three states, with nothing else in the two empty ones.\<close>

definition plain_state :: "slot_data \<Rightarrow> bool" where
  "plain_state d \<longleftrightarrow> sd_state d = js ''filled''
     \<or> (sd_state d = js ''undetermined'' \<or> sd_state d = js ''not_filled'')
        \<and> sd_away d = None \<and> sd_incident d = None \<and> \<not> has_projects d \<and> \<not> sd_run d"

lemma state_badge_fields:
  "m_state m = m_state m' \<Longrightarrow> m_away_type m = m_away_type m' \<Longrightarrow> actStateBadge m = actStateBadge m'"
  by (simp add: actStateBadge_def)

lemma badge_texts:
  "m_state m = js ''incident'' \<Longrightarrow> actStateBadge m = Some (js ''Incident'')"
  "m_state m = js ''project'' \<Longrightarrow> actStateBadge m = Some (js ''Project'')"
  "m_state m = js ''run'' \<Longrightarrow> actStateBadge m = Some (js ''Run'')"
  "m_state m = js ''undetermined'' \<Longrightarrow> actStateBadge m = Some (js ''Undetermined'')"
  "m_state m = js ''filled'' \<Longrightarrow> actStateBadge m = None"
  "m_state m = js ''not_filled'' \<Longrightarrow> actStateBadge m = None"
  "m_state m = js ''away'' \<Longrightarrow> actStateBadge m = Some (js ''Away'' @ escapeHtml (if m_away_type m = [] then [] else js '': '' @ m_away_type m))"
  by (auto simp: actStateBadge_def badge_states_def js_def html_entity_def)

section \<open>Days\<close>

definition event_day :: "event \<Rightarrow> jsstring" where
  "event_day e = js_slice 0 10 (ev_ts e)"

fun line_events :: "act_line list \<Rightarrow> event list" where
  "line_events [] = []"
| "line_events (DayHead d # ls) = line_events ls"
| "line_events (EventLine e # ls) = e # line_events ls"

text \<open>The header of a day and the events of that day.\<close>

definition day_block :: "(jsstring \<Rightarrow> jsstring) \<Rightarrow> event list \<Rightarrow> jsstring \<Rightarrow> act_line list" where
  "day_block label es d = DayHead (label d) # map EventLine (filter (\<lambda>e. event_day e = d) es)"

definition event_days :: "event list \<Rightarrow> jsstring list" where
  "event_days es = remdups_adj (map event_day es)"

definition from_latest :: "event list \<Rightarrow> bool" where
  "from_latest es \<longleftrightarrow> sorted_wrt (\<lambda>a b. event_day b \<le> event_day a) es"

lemma line_events_act [simp]: "line_events (act_lines label last_day es) = es"
  by (induction es arbitrary: last_day) (simp_all add: Let_def)

lemma sorted_wrt_runs: "sorted_wrt P xs \<Longrightarrow> sorted_wrt P (remdups_adj xs)"
  by (induction xs rule: remdups_adj.induct) auto

lemma distinct_days: "from_latest es \<Longrightarrow> distinct (event_days es)"
  unfolding from_latest_def event_days_def by (rule distinct_groups [where R = "\<lambda>a b. event_day b \<le> event_day a"]) auto

lemma act_lines_same_day:
  "list_all (\<lambda>e. event_day e = d) es \<Longrightarrow> act_lines label d (es @ es') = map EventLine es @ act_lines label d es'"
  by (induction es) (simp_all add: Let_def event_day_def)

text \<open>The first day of sorted events, and the rest, which is of other days.\<close>

lemma first_day_split:
  assumes "from_latest (e # es)"
  defines "rest \<equiv> dropWhile (\<lambda>x. event_day x = event_day e) es"
  shows "filter (\<lambda>x. event_day x = event_day e) (e # es) = e # takeWhile (\<lambda>x. event_day x = event_day e) es"
    and "event_day e \<notin> event_day ` set rest" and "from_latest rest" and "event_days (e # es) = event_day e # event_days rest"
proof -
  let ?P = "\<lambda>x. event_day x = event_day e"
  have es: "es = takeWhile ?P es @ rest" by (simp add: rest_def)
  have "sorted_wrt (\<lambda>a b. event_day b \<le> event_day a) (takeWhile ?P es @ rest)" "\<forall>x \<in> set es. event_day x \<le> event_day e"
    using assms(1) es by (simp_all add: from_latest_def)
  then show r: "from_latest rest" by (simp add: from_latest_def sorted_wrt_append)
  show other: "event_day e \<notin> event_day ` set rest"
  proof (cases rest)
    case (Cons y ys)
    then have "\<not> ?P y" using hd_dropWhile [of ?P es] by (simp add: rest_def)
    moreover have "event_day y \<le> event_day e"
      using \<open>\<forall>x \<in> set es. event_day x \<le> event_day e\<close> es Cons by (metis in_set_conv_decomp)
    ultimately have "event_day y < event_day e" by (metis order_le_less)
    then show ?thesis using r Cons by (fastforce simp: from_latest_def)
  qed simp
  have "filter ?P es = filter ?P (takeWhile ?P es @ rest)" using es by metis
  also have "\<dots> = filter ?P (takeWhile ?P es)"
  proof -
    have "filter ?P rest = []" using other unfolding filter_empty_conv by (metis imageI)
    then show ?thesis by simp
  qed
  also have "\<dots> = takeWhile ?P es"
    by (rule filter_True) (blast dest: set_takeWhileD)
  finally show "filter ?P (e # es) = e # takeWhile ?P es" by simp
  show "event_days (e # es) = event_day e # event_days rest"
    by (simp add: event_days_def remdups_adj_Cons' dropWhile_map comp_def rest_def)
qed

lemma act_lines_blocks:
  "from_latest es \<Longrightarrow> es = [] \<or> event_day (List.hd es) \<noteq> last_day
     \<Longrightarrow> act_lines label last_day es = concat (map (day_block label es) (event_days es))"
proof (induction "length es" arbitrary: es last_day rule: less_induct)
  case less
  show ?case
  proof (cases es)
    case Nil
    then show ?thesis by (simp add: event_days_def)
  next
    case (Cons e es')
    let ?P = "\<lambda>x. event_day x = event_day e"
    define rest where "rest = dropWhile ?P es'"
    note split = first_day_split [OF less.prems(1) [unfolded Cons], folded rest_def]
    have "length rest < length es" by (simp only: rest_def Cons length_Cons less_Suc_eq_le length_dropWhile_le)
    moreover have "rest = [] \<or> event_day (List.hd rest) \<noteq> event_day e"
      unfolding rest_def using hd_dropWhile [of ?P es'] by auto
    ultimately have ih: "act_lines label (event_day e) rest = concat (map (day_block label rest) (event_days rest))"
      using less.hyps split(3) by blast
    have es': "es' = takeWhile ?P es' @ rest" by (simp add: rest_def)
    have "act_lines label last_day es = DayHead (label (event_day e)) # EventLine e # act_lines label (event_day e) es'"
      using less.prems(2) by (simp add: Cons Let_def event_day_def)
    also have "act_lines label (event_day e) es' = map EventLine (takeWhile ?P es') @ act_lines label (event_day e) rest"
    proof -
      have "list_all ?P (takeWhile ?P es')" unfolding list_all_iff by (blast dest: set_takeWhileD)
      from act_lines_same_day [OF this, of label rest] show ?thesis by (simp only: es' [symmetric])
    qed
    also have "DayHead (label (event_day e)) # EventLine e # map EventLine (takeWhile ?P es') @ act_lines label (event_day e) rest
        = day_block label es (event_day e) @ concat (map (day_block label rest) (event_days rest))"
      unfolding ih day_block_def Cons split(1) by simp
    also have "map (day_block label rest) (event_days rest) = map (day_block label es) (event_days rest)"
    proof (rule map_cong [OF refl])
      fix d assume "d \<in> set (event_days rest)"
      then have "d \<in> event_day ` set rest" by (simp add: event_days_def)
      then have "d \<noteq> event_day e" using split(2) by blast
      then have "filter (\<lambda>x. event_day x = d) (takeWhile ?P es') = []"
        by (auto simp: filter_empty_conv dest: set_takeWhileD)
      moreover have "filter (\<lambda>x. event_day x = d) es
          = (if event_day e = d then [e] else []) @ filter (\<lambda>x. event_day x = d) (takeWhile ?P es') @ filter (\<lambda>x. event_day x = d) rest"
        unfolding Cons filter_append [symmetric] using es' by simp
      ultimately show "day_block label rest d = day_block label es d"
        using \<open>d \<noteq> event_day e\<close> by (simp add: day_block_def)
    qed
    finally show ?thesis unfolding Cons split(4) by simp
  qed
qed

lemma act_lines_days:
  assumes "from_latest es"
  shows "act_lines label [] es = drop (if event_days es = [[]] then 1 else 0) (concat (map (day_block label es) (event_days es)))"
proof (cases es)
  case Nil
  then show ?thesis by (simp add: event_days_def)
next
  case (Cons e es')
  show ?thesis
  proof (cases "event_day e = []")
    case True
    then have all: "\<forall>x \<in> set es. event_day x = []"
      using assms by (simp add: Cons from_latest_def)
    then have "act_lines label [] es = map EventLine es" "filter (\<lambda>x. event_day x = []) es = es"
      using act_lines_same_day [of "[]" es label "[]"] by (simp_all add: list_all_iff)
    moreover have "event_days es = [[]]"
    proof -
      have "map event_day es = replicate (length es) []" using all by (induction es) simp_all
      then show ?thesis by (simp add: event_days_def remdups_adj_replicate Cons del: replicate.simps length_Cons list.map)
    qed
    ultimately show ?thesis by (simp add: day_block_def)
  next
    case False
    then have "event_days es \<noteq> [[]]"
      by (simp add: Cons event_days_def remdups_adj_Cons')
    then show ?thesis using act_lines_blocks [OF assms, of "[]" label] False by (simp add: Cons)
  qed
qed

section \<open>Properties\<close>

text \<open>C22: the rendered list of the activity is made of one block for each day of the filtered events: the
  header of the day and below it exactly the events of that day, in their order; the days are distinct and
  come in the order of the events, from the latest as the server sends them. Only events without any time,
  when there are no others, have no header.\<close>

theorem activity_grouped_by_day:
  assumes "sorted_wrt (\<lambda>a b. event_day b \<le> event_day a) (c_activity c)"
  shows "case renderActivityList lower label f c of ActPage actors n (ActLines ls) \<Rightarrow>
       (case filter (event_shown lower (c_people c) f) (c_activity c) of es \<Rightarrow>
         n = length es \<and> line_events ls = es \<and> distinct (event_days es) \<and> set (event_days es) = event_day ` set es
         \<and> sorted_wrt (\<lambda>a b. b \<le> a) (event_days es)
         \<and> ls = drop (if event_days es = [[]] then 1 else 0)
             (concat (map (\<lambda>d. DayHead (label d) # map EventLine (filter (\<lambda>e. event_day e = d) es)) (event_days es))))
     | _ \<Rightarrow> False"
proof -
  define es where "es = filter (event_shown lower (c_people c) f) (c_activity c)"
  have es: "from_latest es"
    unfolding from_latest_def es_def using assms by (rule sorted_wrt_filter)
  have "sorted_wrt (\<lambda>a b. b \<le> a) (map event_day es)"
    using es by (simp add: from_latest_def sorted_wrt_map)
  then have "sorted_wrt (\<lambda>a b. b \<le> a) (event_days es)"
    unfolding event_days_def by (rule sorted_wrt_runs)
  then show ?thesis
    using act_lines_days [OF es, of label, symmetric] distinct_days [OF es]
    unfolding renderActivityList_def es_def [symmetric] day_block_def [abs_def] Let_def
    by (simp add: event_days_def)
qed

text \<open>Three edits of two days by two users, one of them filtered out.\<close>

definition demo_event :: "string \<Rightarrow> string \<Rightarrow> event" where
  "demo_event ts actor = \<lparr>ev_ts = js ts, ev_actor = js actor, ev_action = js ''EDIT_SLOT'', ev_target = [], ev_detail = [], ev_meta = None\<rparr>"

definition demo_log :: client where
  "demo_log = demo_client\<lparr>c_activity := [demo_event ''2026-02-17T10'' ''ann'', demo_event ''2026-02-17T09'' ''bob'',
     demo_event ''2026-02-16T18'' ''ann'', demo_event ''2026-02-16T17'' ''ann'']\<rparr>"

definition demo_filter :: activity_filter where
  "demo_filter = \<lparr>af_type = js ''all'', af_person = js ''all'', af_actor = js ''ann'', af_search = []\<rparr>"

lemma demo_shown:
  "filter (event_shown (\<lambda>s. s) (c_people demo_log) demo_filter) (c_activity demo_log)
     = [demo_event ''2026-02-17T10'' ''ann'', demo_event ''2026-02-16T18'' ''ann'', demo_event ''2026-02-16T17'' ''ann'']"
  by (simp add: demo_log_def demo_filter_def event_shown_def Let_def demo_event_def js_eq_iff js_trim_def)

lemma demo_event_day [simp]: "event_day (demo_event ts actor) = js (take 10 ts)"
  by (simp add: event_day_def demo_event_def js_slice_def js_def take_map)

theorem activity_grouped_by_day_witness:
  "renderActivityList (\<lambda>s. s) (\<lambda>s. s) demo_filter demo_log = ActPage [js ''ann'', js ''bob''] 3 (ActLines
     [DayHead (js ''2026-02-17''), EventLine (demo_event ''2026-02-17T10'' ''ann''),
      DayHead (js ''2026-02-16''), EventLine (demo_event ''2026-02-16T18'' ''ann''), EventLine (demo_event ''2026-02-16T17'' ''ann'')])"
proof -
  let ?xs = "[demo_event ''2026-02-17T10'' ''ann'', demo_event ''2026-02-16T18'' ''ann'', demo_event ''2026-02-16T17'' ''ann'']"
  have sorted: "sorted_wrt (\<lambda>a b. event_day b \<le> event_day a) (c_activity demo_log)"
    by (simp add: demo_log_def js_def)
  have "act_actors (c_activity demo_log) = [js ''ann'', js ''bob'']"
    by (simp add: act_actors_def demo_log_def demo_event_def js_eq_iff dict_keys_def)
  then have page: "renderActivityList (\<lambda>s. s) (\<lambda>s. s) demo_filter demo_log
      = ActPage [js ''ann'', js ''bob''] (length ?xs) (ActLines (act_lines (\<lambda>s. s) [] ?xs))"
    by (simp only: renderActivityList_def demo_shown Let_def)
  have days: "event_days ?xs = [js ''2026-02-17'', js ''2026-02-16'']"
    by (simp add: event_days_def js_eq_iff)
  note blocks = activity_grouped_by_day [OF sorted, where lower = "\<lambda>s. s" and label = "\<lambda>s. s" and f = demo_filter,
      unfolded page demo_shown act_page.case act_body.case days]
  show ?thesis
    unfolding page using blocks by (simp add: js_eq_iff del: act_lines.simps)
qed

text \<open>C23: the badge of a logged edit names what the grid shows: the state that the server logs for a written
  slot and the category by which the client draws the slot lead to the same badge, whatever the slot
  combines.\<close>

theorem logged_badge_matches_slot:
  assumes "plain_state d"
  shows "actStateBadge (slotMeta personId date slot d) = category_badge d"
proof -
  consider "sd_state d = js ''filled''"
    | "sd_state d = js ''undetermined''" "sd_away d = None" "sd_incident d = None" "\<not> has_projects d" "\<not> sd_run d"
    | "sd_state d = js ''not_filled''" "sd_away d = None" "sd_incident d = None" "\<not> has_projects d" "\<not> sd_run d"
    using assms by (auto simp: plain_state_def)
  then show ?thesis
  proof cases
    case 1
    show ?thesis
    proof (cases "sd_away d")
      case (Some a)
      with 1 show ?thesis
        by (simp add: slotMeta_def applySlotDataMeta_def badge_texts category_badge_def uniCategorise_def js_eq_iff)
    next
      case None
      show ?thesis
      proof (cases "sd_incident d")
        case (Some i)
        with 1 None show ?thesis
          by (simp add: slotMeta_def applySlotDataMeta_def badge_texts category_badge_def uniCategorise_def js_eq_iff)
      next
        assume "sd_incident d = None"
        with 1 None show ?thesis
          by (cases "has_projects d"; cases "sd_run d")
            (simp_all add: slotMeta_def applySlotDataMeta_def badge_texts category_badge_def uniCategorise_def js_eq_iff)
      qed
    qed
  next
    case 2
    then show ?thesis
      by (simp add: slotMeta_def applySlotDataMeta_def badge_texts category_badge_def uniCategorise_def js_eq_iff)
  next
    case 3
    then show ?thesis
      by (simp add: slotMeta_def applySlotDataMeta_def badge_texts category_badge_def uniCategorise_def js_eq_iff)
  qed
qed

theorem logged_badge_matches_slot_witness:
  "actStateBadge (slotMeta (js ''p1'') (fmtDate 20500) (js ''am'') demo_slot) = category_badge demo_slot"
  by (rule logged_badge_matches_slot) (simp add: plain_state_def demo_slot_def)

section \<open>Where the views fall short\<close>

text \<open>The details of an event go into the page as they are: a run note that is markup is markup there.\<close>

lemma run_note_not_escaped:
  assumes "m_run_note (ev_fields e) = note" and "note \<noteq> []"
  shows "js_includes (actExtra e) note"
proof -
  have join: "\<exists>us vs. js_join sep (xs @ (a @ x) # ys) = us @ x @ vs" for sep xs a x ys
  proof (induction xs)
    case Nil
    then show ?case by (cases ys) (auto intro: exI [of _ a])
  next
    case (Cons y xs)
    then obtain us vs where "js_join sep (xs @ (a @ x) # ys) = us @ x @ vs" by auto
    then have "js_join sep ((y # xs) @ (a @ x) # ys) = (y @ sep @ us) @ x @ vs" by (cases xs) simp_all
    then show ?case by blast
  qed
  define m where "m = ev_fields e"
  have "text_bit icon_runner (m_run_note m) = [icon_runner @ note]"
    using assms by (simp add: text_bit_def m_def)
  then obtain xs ys where bits: "extra_bits m = xs @ (icon_runner @ note) # ys"
    unfolding extra_bits_def by (metis append.assoc append_Cons append_Nil)
  obtain us vs where "js_join mid_dot (xs @ (icon_runner @ note) # ys) = us @ note @ vs"
    using join by blast
  then have "actExtra e = us @ note @ vs"
    by (simp add: actExtra_def m_def [symmetric] bits)
  then show ?thesis by (auto simp: js_includes_iff)
qed

text \<open>A change of a filter leaves the old toolbar and puts a second one inside the list.\<close>

lemma filter_nests_page:
  "change_filter lower label f c (renderActivityList lower label f0 c)
    = (case renderActivityList lower label f0 c of ActPage actors n _ \<Rightarrow> ActPage actors n (ActInner (renderActivityList lower label f c)))"
  by (simp add: renderActivityList_def Let_def)

end
