(* ===== verification/Selection.thy ===== *)
theory Selection
  imports TeamGrid Editor
begin

text \<open>
  Selecting half-days with the mouse: \<open>startDrag\<close>, \<open>extendDrag\<close> and \<open>endDrag\<close> over the cells of a
  grid, and what the editor makes of the selection. The page is the list of its half-day cells in
  document order. Proved here: a drag opens the editor on the rectangle between its first and last
  cell, which is what was highlighted, and the editor, which only keeps the first and the last
  half-day and the people, is back at exactly these cells when it writes.
\<close>

record dom_cell =
  dt_row :: nat
  dt_col :: nat
  dt_cell :: cell

record drag =
  dg_startRow :: nat
  dg_startCol :: nat
  dg_endRow :: nat
  dg_endCol :: nat
  dg_isDragging :: bool

definition startDrag :: "nat \<Rightarrow> nat \<Rightarrow> drag" where
  "startDrag row col = \<lparr>dg_startRow = row, dg_startCol = col, dg_endRow = row, dg_endCol = col, dg_isDragging = False\<rparr>"

definition in_rect :: "drag \<Rightarrow> dom_cell \<Rightarrow> bool" where
  "in_rect g t \<longleftrightarrow> min (dg_startRow g) (dg_endRow g) \<le> dt_row t \<and> dt_row t \<le> max (dg_startRow g) (dg_endRow g)
     \<and> min (dg_startCol g) (dg_endCol g) \<le> dt_col t \<and> dt_col t \<le> max (dg_startCol g) (dg_endCol g)"

text \<open>The pointer is over a half-day cell or, \<open>None\<close>, elsewhere; the second component is what is highlighted.\<close>

definition extendDrag :: "dom_cell list \<Rightarrow> (nat \<times> nat) option \<Rightarrow> drag \<times> dom_cell list \<Rightarrow> drag \<times> dom_cell list" where
  "extendDrag page target = (\<lambda>(g, hl).
     case target of
       None \<Rightarrow> (g, hl)
     | Some (r, c) \<Rightarrow>
         if r = dg_endRow g \<and> c = dg_endCol g then (g, hl)
         else let g = g\<lparr>dg_endRow := r, dg_endCol := c, dg_isDragging := True\<rparr> in (g, filter (in_rect g) page))"

text \<open>The cells that the editor is opened with.\<close>

definition endDrag :: "dom_cell list \<Rightarrow> drag \<Rightarrow> cell list option" where
  "endDrag page g =
     (if \<not> dg_isDragging g then
        map_option (\<lambda>t. [dt_cell t])
          (find (\<lambda>t. dt_row t = min (dg_startRow g) (dg_endRow g) \<and> dt_col t = min (dg_startCol g) (dg_endCol g)) page)
      else let cells = map dt_cell (filter (in_rect g) page) in if cells \<noteq> [] then Some cells else None)"

text \<open>The half-day cells of the rows of a grid.\<close>

definition row_dom :: "nat \<Rightarrow> person \<Rightarrow> grid_cell list \<Rightarrow> dom_cell list" where
  "row_dom r p cells = map (\<lambda>(c, x). \<lparr>dt_row = r, dt_col = c,
      dt_cell = \<lparr>cl_person = p_id p, cl_date = gs_date (gc_slot x), cl_slot = gs_slot (gc_slot x)\<rparr>\<rparr>) (zip [0..<length cells] cells)"

fun grid_dom :: "grid_row list \<Rightarrow> dom_cell list" where
  "grid_dom [] = []"
| "grid_dom (TeamRow t # rows) = grid_dom rows"
| "grid_dom (PersonRow r p w cells # rows) = row_dom r p cells @ grid_dom rows"

section \<open>The drag\<close>

lemma find_unique: "x \<in> set xs \<Longrightarrow> P x \<Longrightarrow> \<forall>y \<in> set xs. y \<noteq> x \<longrightarrow> \<not> P y \<Longrightarrow> find P xs = Some x"
  by (induction xs) auto

lemma filter_unique: "distinct xs \<Longrightarrow> x \<in> set xs \<Longrightarrow> P x \<Longrightarrow> \<forall>y \<in> set xs. y \<noteq> x \<longrightarrow> \<not> P y \<Longrightarrow> filter P xs = [x]"
proof (induction xs)
  case (Cons y ys)
  show ?case
  proof (cases "x = y")
    case True
    then have "filter P ys = []" using Cons.prems by (auto simp: filter_empty_conv)
    with True Cons.prems show ?thesis by simp
  next
    case False
    then show ?thesis using Cons by simp
  qed
qed simp

definition dom_ok :: "dom_cell list \<Rightarrow> bool" where
  "dom_ok page \<longleftrightarrow> distinct (map (\<lambda>t. (dt_row t, dt_col t)) page)"

lemma dom_ok_unique:
  "dom_ok page \<Longrightarrow> x \<in> set page \<Longrightarrow> y \<in> set page \<Longrightarrow> dt_row x = dt_row y \<Longrightarrow> dt_col x = dt_col y \<Longrightarrow> x = y"
  by (auto simp: dom_ok_def distinct_map inj_on_def)

text \<open>After any movement: the rectangle, the highlight, and whether the drag is one.\<close>

fun last_cell :: "(nat \<times> nat) option list \<Rightarrow> nat \<times> nat \<Rightarrow> nat \<times> nat" where
  "last_cell [] rc = rc"
| "last_cell (None # ts) rc = last_cell ts rc"
| "last_cell (Some rc' # ts) rc = last_cell ts rc'"

definition drag_to :: "nat \<Rightarrow> nat \<Rightarrow> nat \<times> nat \<Rightarrow> bool \<Rightarrow> drag" where
  "drag_to r c = (\<lambda>(r', c') b. \<lparr>dg_startRow = r, dg_startCol = c, dg_endRow = r', dg_endCol = c', dg_isDragging = b\<rparr>)"

definition drag_state :: "dom_cell list \<Rightarrow> nat \<Rightarrow> nat \<Rightarrow> nat \<times> nat \<Rightarrow> bool \<Rightarrow> drag \<times> dom_cell list" where
  "drag_state page r c rc b = (drag_to r c rc b, if b then filter (in_rect (drag_to r c rc True)) page else [])"

lemma in_rect_moved: "in_rect (drag_to r c rc b) = in_rect (drag_to r c rc True)"
  by (cases rc) (simp add: in_rect_def drag_to_def fun_eq_iff)

lemma drag_step:
  "extendDrag page m (drag_state page r c rc b) =
     (case m of None \<Rightarrow> drag_state page r c rc b
      | Some rc' \<Rightarrow> drag_state page r c rc' (b \<or> rc' \<noteq> rc))"
  by (cases rc) (auto simp: extendDrag_def drag_state_def drag_to_def Let_def split: option.splits prod.splits)

text \<open>The pointer was over another half-day than the one the button went down on.\<close>

definition left_start :: "nat \<times> nat \<Rightarrow> (nat \<times> nat) option list \<Rightarrow> bool" where
  "left_start rc moves = list_ex (\<lambda>m. m \<noteq> None \<and> m \<noteq> Some rc) moves"

lemma drag_moves:
  "b \<or> rc = (r, c) \<Longrightarrow> fold (extendDrag page) moves (drag_state page r c rc b)
     = drag_state page r c (last_cell moves rc) (b \<or> left_start (r, c) moves)"
proof (induction moves arbitrary: rc b)
  case Nil
  then show ?case by (simp add: left_start_def)
next
  case (Cons m moves)
  show ?case
  proof (cases m)
    case None
    with Cons.IH [OF Cons.prems] show ?thesis by (simp add: drag_step left_start_def)
  next
    case (Some rc')
    have "(b \<or> rc' \<noteq> rc) \<or> rc' = (r, c)" using Cons.prems by auto
    from Cons.IH [OF this] Cons.prems show ?thesis by (cases b) (auto simp: drag_step Some left_start_def)
  qed
qed

lemma last_cell_left: "last_cell moves rc = rc' \<Longrightarrow> left_start rc0 moves \<or> rc = rc' \<or> rc' = rc0"
  by (induction moves rc rule: last_cell.induct) (auto simp: left_start_def)

lemma startDrag_to: "(startDrag r c, []) = drag_state page r c (r, c) False"
  by (simp add: startDrag_def drag_to_def drag_state_def)

section \<open>The half-days of the columns\<close>

definition week_shown :: "bool \<Rightarrow> date \<Rightarrow> bool" where
  "week_shown wk d \<longleftrightarrow> wk \<or> getDay d \<notin> {0, 6}"

lemma shown_week:
  assumes "getDay w = 1"
  shows "map snd (filter (\<lambda>(di, d). di < 5 \<or> wk) (zip [0..<7] (getWeekDays w))) = filter (week_shown wk) (getWeekDays w)"
  using assms by (simp add: getWeekDays_eq upt_rec week_shown_def getDay_add)

lemma shown_days_filter:
  assumes "\<And>w. w \<in> set weeks \<Longrightarrow> getDay w = 1"
  shows "map (snd \<circ> snd) (shown_days wk weeks) = filter (week_shown wk) (concat (map getWeekDays weeks))"
proof -
  have gen: "map (snd \<circ> snd) (concat (map (\<lambda>(wi, w). map (\<lambda>(di, d). (wi, di, d)) (filter (\<lambda>(di, d). di < 5 \<or> wk) (zip [0..<7] (getWeekDays w)))) ws))
      = filter (week_shown wk) (concat (map getWeekDays (map snd ws)))"
    if "\<And>w. w \<in> snd ` set ws \<Longrightarrow> getDay w = 1" for ws :: "(nat \<times> date) list"
    using that
  proof (induction ws)
    case (Cons x ws)
    obtain wi w where x: "x = (wi, w)" by force
    have "map (snd \<circ> snd) (map (\<lambda>(di, d). (wi, di, d)) xs) = map snd xs" for xs :: "(nat \<times> date) list"
      by (induction xs) auto
    then show ?case using Cons shown_week [of w wk] by (simp add: x comp_def)
  qed simp
  have zs: "map snd (zip [0..<length weeks] weeks) = weeks" by simp
  then have "getDay w = 1" if "w \<in> snd ` set (zip [0..<length weeks] weeks)" for w
    using assms that by (metis list.set_map)
  with gen [of "zip [0..<length weeks] weeks"] show ?thesis unfolding shown_days_def zs by blast
qed

definition half_shown :: "bool \<Rightarrow> int \<Rightarrow> bool" where
  "half_shown wk h = week_shown wk (h div 2)"

lemma halves_of_days:
  "concat (map (\<lambda>i. [2 * (a + int i), 2 * (a + int i) + 1]) [0..<n]) = [2 * a..2 * (a + int n) - 1]"
proof (induction n)
  case (Suc n)
  have "[2 * a..2 * (a + int n) + 1] = [2 * a..2 * (a + int n) - 1] @ [2 * (a + int n)..2 * (a + int n) + 1]"
    by (rule upto_split1) simp_all
  moreover have "[2 * (a + int n)..2 * (a + int n) + 1] = [2 * (a + int n), 2 * (a + int n) + 1]"
    by (simp add: upto_rec1)
  ultimately show ?case using Suc by (simp add: algebra_simps)
qed simp

lemma filter_halves:
  "concat (map (\<lambda>d. [2 * d, 2 * d + 1]) (filter (week_shown wk) ds)) = filter (half_shown wk) (concat (map (\<lambda>d. [2 * d, 2 * d + 1]) ds))"
  by (induction ds) (simp_all add: half_shown_def)

definition half_cell :: "jsstring \<Rightarrow> int \<Rightarrow> cell" where
  "half_cell pid h = \<lparr>cl_person = pid, cl_date = fmtDate (h div 2), cl_slot = half_slot (odd h)\<rparr>"

definition slot_cell :: "jsstring \<Rightarrow> grid_slot \<Rightarrow> cell" where
  "slot_cell pid sl = \<lparr>cl_person = pid, cl_date = gs_date sl, cl_slot = gs_slot sl\<rparr>"

lemma columns_are_halves:
  assumes "weeks = map (\<lambda>i. w0 + 7 * int i) [0..<n]" "getDay w0 = 1"
  shows "map (slot_cell pid) (allSlots wk weeks) = map (half_cell pid) (filter (half_shown wk) [2 * w0..2 * (w0 + 7 * int n) - 1])"
proof -
  have "map (slot_cell pid) (concat (map (\<lambda>x. [grid_slot_of x (js ''am''), grid_slot_of x (js ''pm'')]) xs))
      = map (half_cell pid) (concat (map (\<lambda>d. [2 * d, 2 * d + 1]) (map (snd \<circ> snd) xs)))" for xs :: "(nat \<times> nat \<times> date) list"
    by (induction xs) (auto simp: slot_cell_def half_cell_def grid_slot_of_def half_slot_def)
  then have "map (slot_cell pid) (allSlots wk weeks) =
      map (half_cell pid) (concat (map (\<lambda>d. [2 * d, 2 * d + 1]) (map (snd \<circ> snd) (shown_days wk weeks))))"
    by (simp add: allSlots_days)
  also have "map (snd \<circ> snd) (shown_days wk weeks) = filter (week_shown wk) (map (\<lambda>i. w0 + int i) [0..<7 * n])"
    using assms getDay_weeks by (subst shown_days_filter) (auto simp: concat_weeks [symmetric] comp_def)
  also have "concat (map (\<lambda>d. [2 * d, 2 * d + 1]) (filter (week_shown wk) (map (\<lambda>i. w0 + int i) [0..<7 * n])))
      = filter (half_shown wk) [2 * w0..2 * (w0 + 7 * int n) - 1]"
    unfolding filter_halves using halves_of_days [of w0 "7 * n"] by (simp add: comp_def)
  finally show ?thesis .
qed

text \<open>The columns from one index to another are the half-days from one to the other.\<close>

lemma segment_of_filter:
  assumes "i \<le> j" "j < length (filter P [a..b])"
  shows "take (Suc j - i) (drop i (filter P [a..b])) = filter P [filter P [a..b] ! i..filter P [a..b] ! j]"
proof (rule sorted_distinct_set_unique)
  let ?xs = "filter P [a..b]"
  have s: "sorted ?xs" "distinct ?xs" by (simp_all add: sorted_wrt_filter)
  show "sorted (take (Suc j - i) (drop i ?xs))" "distinct (take (Suc j - i) (drop i ?xs))"
    using s by (simp_all add: sorted_wrt_take sorted_wrt_drop)
  show "sorted (filter P [?xs ! i..?xs ! j])" "distinct (filter P [?xs ! i..?xs ! j])"
    by (simp_all add: sorted_wrt_filter)
  have mono: "k \<le> l \<longleftrightarrow> ?xs ! k \<le> ?xs ! l" if "k < length ?xs" "l < length ?xs" for k l
    using s that sorted_nth_mono [OF s(1), of k l] sorted_nth_mono [OF s(1), of l k] nth_eq_iff_index_eq [OF s(2), of k l] by linarith
  have nths: "set (take (Suc j - i) (drop i ?xs)) = {?xs ! k |k. i \<le> k \<and> k \<le> j}"
  proof -
    have "x \<in> set (take (Suc j - i) (drop i ?xs)) \<longleftrightarrow> (\<exists>k. k < Suc j - i \<and> x = ?xs ! (i + k))" for x
      using assms by (auto simp: in_set_conv_nth)
    then show ?thesis using assms(1)
      by (auto simp: set_eq_iff) (metis Suc_leI add_diff_inverse_nat diff_less_mono le_add1 less_Suc_eq_le not_le nat_add_left_cancel_less Suc_diff_le)+
  qed
  have "?xs ! k \<in> set ?xs" if "k \<le> j" for k
    using assms(2) that by (intro nth_mem) simp
  then have el: "P (?xs ! k) \<and> a \<le> ?xs ! k \<and> ?xs ! k \<le> b" if "k \<le> j" for k
    using that by fastforce
  show "set (take (Suc j - i) (drop i ?xs)) = set (filter P [?xs ! i..?xs ! j])"
  proof (rule set_eqI)
    fix x
    show "x \<in> set (take (Suc j - i) (drop i ?xs)) \<longleftrightarrow> x \<in> set (filter P [?xs ! i..?xs ! j])"
    proof
      assume "x \<in> set (take (Suc j - i) (drop i ?xs))"
      then obtain k where "x = ?xs ! k" "i \<le> k" "k \<le> j" by (auto simp: nths)
      then show "x \<in> set (filter P [?xs ! i..?xs ! j])"
        using el [of k] mono [of i k] mono [of k j] assms by simp
    next
      assume x: "x \<in> set (filter P [?xs ! i..?xs ! j])"
      then have "x \<in> set ?xs" using el [of i] el [of j] assms(1) by auto
      then obtain k where k: "k < length ?xs" "?xs ! k = x" unfolding in_set_conv_nth by blast
      then have "i \<le> k" "k \<le> j" using x mono [of i k] mono [of k j] assms k by auto
      then show "x \<in> set (take (Suc j - i) (drop i ?xs))" using k(2) by (auto simp: nths)
    qed
  qed
qed

section \<open>The rectangle\<close>

lemma zip_upt_Cons: "zip [i..<i + length (x # xs)] (x # xs) = (i, x) # zip [Suc i..<Suc i + length xs] xs"
  by (simp add: upt_conv_Cons del: upt_Suc)

lemma zip_segment:
  "map snd (filter (\<lambda>(k, x). lo \<le> k \<and> k \<le> hi) (zip [i..<i + length xs] xs)) = take (Suc hi - max lo i) (drop (lo - i) xs)"
proof (induction xs arbitrary: i)
  case (Cons x xs)
  have eq: "map snd (filter (\<lambda>(k, x). lo \<le> k \<and> k \<le> hi) (zip [i..<i + length (x # xs)] (x # xs)))
      = (if lo \<le> i \<and> i \<le> hi then [x] else []) @ take (Suc hi - max lo (Suc i)) (drop (lo - Suc i) xs)"
    unfolding zip_upt_Cons using Cons [of "Suc i"] by simp
  show ?case
  proof (cases "lo \<le> i")
    case True
    then show ?thesis unfolding eq by (cases "i \<le> hi") (auto simp: max_def Suc_diff_le)
  next
    case False
    then have "lo - i = Suc (lo - Suc i)" by simp
    with False show ?thesis unfolding eq by (auto simp: max_def le_Suc_eq)
  qed
qed simp

lemma concat_if_segment:
  "concat (map (\<lambda>(k, x). if Q k then f x else []) zs) = concat (map f (map snd (filter (\<lambda>(k, x). Q k) zs)))"
  by (induction zs) auto

lemma grid_dom_rows:
  "grid_dom (gridRows warn cells g l0 i ps) = concat (map (\<lambda>(r, p). row_dom r p (cells p)) (zip [i..<i + length ps] ps))"
proof (induction ps arbitrary: l0 i)
  case (Cons p ps)
  show ?case unfolding zip_upt_Cons using Cons [of _ "Suc i"] by auto
qed simp

lemma personCells_slots: "map gc_slot (personCells c weeks pid prev sls) = sls"
  by (induction sls arbitrary: prev) (simp_all add: gridCell_def Let_def)

lemma row_dom_cells:
  "map gc_slot xs = sls \<Longrightarrow> row_dom r p xs = map (\<lambda>(k, sl). \<lparr>dt_row = r, dt_col = k, dt_cell = slot_cell (p_id p) sl\<rparr>) (zip [0..<length sls] sls)"
  by (auto simp: row_dom_def slot_cell_def zip_map2)

definition team_page :: "client \<Rightarrow> date list \<Rightarrow> bool \<Rightarrow> bool \<Rightarrow> (person \<Rightarrow> int option) \<Rightarrow> person list \<Rightarrow> dom_cell list" where
  "team_page c weeks wk grouped warn ps =
     grid_dom (gridRows warn (\<lambda>p. personCells c weeks (p_id p) None (allSlots wk weeks)) grouped None 0 ps)"

definition page_rows :: "grid_slot list \<Rightarrow> (nat \<times> person) list \<Rightarrow> dom_cell list" where
  "page_rows sls rps = concat (map (\<lambda>(r, p). map (\<lambda>(k, sl). \<lparr>dt_row = r, dt_col = k, dt_cell = slot_cell (p_id p) sl\<rparr>)
      (zip [0..<length sls] sls)) rps)"

lemma team_page_eq: "team_page c weeks wk grouped warn ps = page_rows (allSlots wk weeks) (zip [0..<length ps] ps)"
  using row_dom_cells [OF personCells_slots] grid_dom_rows [of warn _ grouped None 0 ps]
  by (simp add: team_page_def page_rows_def)

definition rect_cells :: "grid_slot list \<Rightarrow> person list \<Rightarrow> nat \<times> nat \<Rightarrow> nat \<times> nat \<Rightarrow> cell list" where
  "rect_cells sls ps = (\<lambda>(r, c) (r', c').
     concat (map (\<lambda>p. map (slot_cell (p_id p)) (take (Suc (max c c') - min c c') (drop (min c c') sls)))
       (take (Suc (max r r') - min r r') (drop (min r r') ps))))"

lemma page_rows_Cons:
  "page_rows sls ((i, q) # rps) =
     map (\<lambda>(k, sl). \<lparr>dt_row = i, dt_col = k, dt_cell = slot_cell (p_id q) sl\<rparr>) (zip [0..<length sls] sls) @ page_rows sls rps"
  by (simp add: page_rows_def)

lemma zip_segment_0:
  "map snd (filter (\<lambda>(k, x). lo \<le> k \<and> k \<le> hi) (zip [0..<length xs] xs)) = take (Suc hi - lo) (drop lo xs)"
  using zip_segment [of lo hi 0 xs] by simp

lemma filter_page:
  "map dt_cell (filter (in_rect (drag_to r c (r', c') b)) (page_rows sls (zip [0..<length ps] ps))) = rect_cells sls ps (r, c) (r', c')"
proof -
  define Q where "Q i \<longleftrightarrow> min r r' \<le> i \<and> i \<le> max r r'" for i
  define R where "R k \<longleftrightarrow> min c c' \<le> k \<and> k \<le> max c c'" for k
  have rect: "in_rect (drag_to r c (r', c') b) \<lparr>dt_row = i, dt_col = k, dt_cell = x\<rparr> \<longleftrightarrow> Q i \<and> R k" for i k x
    by (simp only: in_rect_def drag_to_def Q_def R_def drag.simps dom_cell.simps prod.case conj_assoc)
  have row: "map dt_cell (filter (in_rect (drag_to r c (r', c') b)) (map (\<lambda>(k, sl). \<lparr>dt_row = i, dt_col = k, dt_cell = slot_cell (p_id p) sl\<rparr>) zs))
      = (if Q i then map (slot_cell (p_id p)) (map snd (filter (\<lambda>(k, x). R k) zs)) else [])" for i p zs
    by (induction zs) (auto simp: rect)
  have "map dt_cell (filter (in_rect (drag_to r c (r', c') b)) (page_rows sls rps))
      = concat (map (\<lambda>(i, p). if Q i
         then map (slot_cell (p_id p)) (map snd (filter (\<lambda>(k, x). R k) (zip [0..<length sls] sls))) else []) rps)" for rps
  proof (induction rps)
    case (Cons x rps)
    obtain i q where x: "x = (i, q)" by force
    show ?case unfolding x page_rows_Cons filter_append map_append row Cons by simp
  qed (simp add: page_rows_def)
  also have "concat (map (\<lambda>(i, p). if Q i
         then map (slot_cell (p_id p)) (map snd (filter (\<lambda>(k, x). R k) (zip [0..<length sls] sls))) else []) (zip [0..<length ps] ps))
      = concat (map (\<lambda>p. map (slot_cell (p_id p)) (map snd (filter (\<lambda>(k, x). R k) (zip [0..<length sls] sls))))
      (map snd (filter (\<lambda>(i, p). Q i) (zip [0..<length ps] ps))))"
    by (rule concat_if_segment)
  also have "\<dots> = rect_cells sls ps (r, c) (r', c')"
    unfolding Q_def R_def zip_segment_0 by (simp only: rect_cells_def prod.case)
  finally show ?thesis .
qed

lemma page_positions: "map (\<lambda>t. (dt_row t, dt_col t)) (page_rows sls rps) = List.product (map fst rps) [0..<length sls]"
proof (induction rps)
  case (Cons x rps)
  obtain i q where x: "x = (i, q)" by force
  have "map (\<lambda>t. (dt_row t, dt_col t)) (map (\<lambda>(k, sl). \<lparr>dt_row = i, dt_col = k, dt_cell = slot_cell (p_id q) sl\<rparr>) zs) = map (Pair i) (map fst zs)" for zs
    by (induction zs) auto
  from this [of "zip [0..<length sls] sls"] show ?case
    unfolding x page_rows_Cons map_append Cons by simp
qed (simp add: page_rows_def)

lemma page_ok: "dom_ok (page_rows sls (zip [0..<length ps] ps))"
  by (simp add: dom_ok_def page_positions distinct_product)

section \<open>What the editor makes of it\<close>

lemma remdups_blocks:
  "distinct xs \<Longrightarrow> 0 < n \<Longrightarrow> remdups (concat (map (replicate n) xs)) = xs"
proof (induction xs)
  case (Cons x xs)
  have "x \<notin> set ys \<Longrightarrow> remdups (replicate (Suc m) x @ ys) = x # remdups ys" for m ys
    by (induction m) auto
  moreover obtain m where "n = Suc m" using Cons.prems(2) by (cases n) auto
  moreover have "x \<notin> set (concat (map (replicate n) xs))" using Cons.prems(1) by auto
  ultimately show ?case using Cons by simp
qed simp

lemma last_occurrences_blocks:
  assumes "distinct xs" "0 < n"
  shows "rev (remdups (rev (concat (map (replicate n) xs)))) = xs"
proof -
  have "rev (concat (map (replicate n) xs)) = concat (map (replicate n) (rev xs))"
    by (induction xs) simp_all
  then show ?thesis using remdups_blocks [of "rev xs" n] assms by simp
qed

lemma editor_cells_halves:
  assumes "four_digit_year (a div 2)" "four_digit_year (b div 2)"
  shows "getRangeEditorCells wk pids (fmtDate (a div 2)) (half_slot (odd a)) (fmtDate (b div 2)) (half_slot (odd b))
    = concat (map (\<lambda>pid. map (half_cell pid) (filter (half_shown wk) [a..b])) pids)"
proof -
  have half: "half_day (h div 2) (odd h) = h" for h by (auto simp: half_day_def)
  have "concat (map (\<lambda>h. if wk \<or> getDay (h div 2) \<notin> {0, 6}
            then [\<lparr>cl_person = pid, cl_date = fmtDate (h div 2), cl_slot = half_slot (odd h)\<rparr>] else []) hs)
      = map (half_cell pid) (filter (half_shown wk) hs)" for pid hs
    by (induction hs) (auto simp: half_shown_def week_shown_def half_cell_def)
  then show ?thesis
    using editor_cells_eq [OF assms, of wk pids "odd a" "odd b"] by (simp only: half)
qed

lemma editor_range:
  "openUnifiedEditor pl cells = Some f \<Longrightarrow> fm_pids f = rev (remdups (rev (map cl_person cells)))
     \<and> fm_start_date f = cl_date (hd cells) \<and> fm_start_slot f = cl_slot (hd cells)
     \<and> fm_end_date f = cl_date (last cells) \<and> fm_end_slot f = cl_slot (last cells)"
  by (auto simp: openUnifiedEditor_def Let_def split: if_splits)

text \<open>The editor opened on the cells of some people and some half-days in a row.\<close>

lemma editor_of_rectangle:
  assumes "pids \<noteq> []" "distinct pids" "hs = filter (half_shown wk) [a..b]" "hs \<noteq> []" "hd hs = a" "last hs = b"
    and "four_digit_year (a div 2)" "four_digit_year (b div 2)"
    and cells: "cells = concat (map (\<lambda>pid. map (half_cell pid) hs) pids)"
  shows "case openUnifiedEditor pl cells of None \<Rightarrow> False | Some f \<Rightarrow> form_cells wk f = cells"
proof -
  have ne: "cells \<noteq> []" using assms(1,4) by (cases pids) (simp_all add: cells)
  have "map cl_person cells = concat (map (replicate (length hs)) pids)"
    unfolding cells by (induction pids) (auto simp: half_cell_def map_replicate_const [symmetric] comp_def)
  then have pids: "rev (remdups (rev (map cl_person cells))) = pids"
    using last_occurrences_blocks [OF assms(2), of "length hs"] assms(4) by simp
  have hd: "hd cells = half_cell (hd pids) a"
    using assms(1,4,5) by (cases pids; cases hs) (auto simp: cells)
  have last: "last cells = half_cell (last pids) b"
  proof -
    have "concat (map (\<lambda>pid. map (half_cell pid) hs) (butlast pids @ [last pids]))
        = concat (map (\<lambda>pid. map (half_cell pid) hs) (butlast pids)) @ map (half_cell (last pids)) hs" by simp
    then have "cells = concat (map (\<lambda>pid. map (half_cell pid) hs) (butlast pids)) @ map (half_cell (last pids)) hs"
      by (simp only: cells append_butlast_last_id [OF assms(1)])
    then show ?thesis using assms(4,6) by (simp add: last_map)
  qed
  obtain f where f: "openUnifiedEditor pl cells = Some f"
    using ne by (simp add: openUnifiedEditor_def Let_def)
  note range = editor_range [OF f, unfolded pids hd last half_cell_def cell.simps]
  have "form_cells wk f = cells"
    unfolding form_cells_def using assms(3) by (simp add: range editor_cells_halves [OF assms(7,8)] cells)
  then show ?thesis by (simp only: f option.case)
qed

lemma page_rows_mem:
  assumes "r < length ps" "c < length sls"
  shows "\<lparr>dt_row = r, dt_col = c, dt_cell = slot_cell (p_id (ps ! r)) (sls ! c)\<rparr> \<in> set (page_rows sls (zip [0..<length ps] ps))"
proof -
  have "(r, ps ! r) \<in> set (zip [0..<length ps] ps)" "(c, sls ! c) \<in> set (zip [0..<length sls] sls)"
    using nth_mem [of r "zip [0..<length ps] ps"] nth_mem [of c "zip [0..<length sls] sls"] assms by simp_all
  then show ?thesis unfolding page_rows_def by force
qed

lemma rect_single:
  "r < length ps \<Longrightarrow> c < length sls \<Longrightarrow> rect_cells sls ps (r, c) (r, c) = [slot_cell (p_id (ps ! r)) (sls ! c)]"
proof -
  assume "r < length ps" "c < length sls"
  then have "take (Suc r - r) (drop r ps) = [ps ! r]" "take (Suc c - c) (drop c sls) = [sls ! c]"
    by (simp_all add: Cons_nth_drop_Suc [symmetric])
  then show ?thesis by (simp add: rect_cells_def)
qed

lemma endDrag_rectangle:
  assumes page: "page = page_rows sls (zip [0..<length ps] ps)"
    and "r < length ps" "c < length sls" "r' < length ps" "c' < length sls" "b \<or> (r', c') = (r, c)"
  shows "endDrag page (drag_to r c (r', c') b) = Some (rect_cells sls ps (r, c) (r', c'))"
proof (cases b)
  case True
  obtain q qs where q: "take (Suc (max r r') - min r r') (drop (min r r') ps) = q # qs"
    using assms(2,4) by (cases "take (Suc (max r r') - min r r') (drop (min r r') ps)") auto
  obtain sl sls' where sl: "take (Suc (max c c') - min c c') (drop (min c c') sls) = sl # sls'"
    using assms(3,5) by (cases "take (Suc (max c c') - min c c') (drop (min c c') sls)") auto
  have "rect_cells sls ps (r, c) (r', c') \<noteq> []"
    unfolding rect_cells_def prod.case q sl by simp
  with True show ?thesis
    using filter_page [of r c r' c' b sls ps] by (simp add: endDrag_def page Let_def) (simp add: drag_to_def)
next
  case False
  let ?x = "\<lparr>dt_row = r, dt_col = c, dt_cell = slot_cell (p_id (ps ! r)) (sls ! c)\<rparr>"
  have eq: "r' = r" "c' = c" using False assms(6) by auto
  have mem: "?x \<in> set page" unfolding page by (rule page_rows_mem [OF assms(2,3)])
  have "find (\<lambda>t. dt_row t = r \<and> dt_col t = c) page = Some ?x"
    using mem dom_ok_unique [OF page_ok [of sls ps]] by (intro find_unique) (auto simp: page)
  then show ?thesis using False by (simp add: endDrag_def drag_to_def eq rect_single assms(2,3))
qed

text \<open>The rectangle as people and half-days.\<close>

lemma rect_cells_halves:
  assumes "weeks = map (\<lambda>i. w0 + 7 * int i) [0..<n]" "getDay w0 = 1"
    and "H = filter (half_shown wk) [2 * w0..2 * (w0 + 7 * int n) - 1]"
  shows "rect_cells (allSlots wk weeks) ps (r, c) (r', c') =
     concat (map (\<lambda>pid. map (half_cell pid) (take (Suc (max c c') - min c c') (drop (min c c') H)))
       (map p_id (take (Suc (max r r') - min r r') (drop (min r r') ps))))"
proof -
  have "map (slot_cell pid) (take k (drop l (allSlots wk weeks))) = map (half_cell pid) (take k (drop l H))" for pid k l
    unfolding take_map [symmetric] drop_map [symmetric] columns_are_halves [OF assms(1,2)] assms(3) ..
  then show ?thesis by (simp add: rect_cells_def comp_def)
qed

lemma columns_length:
  assumes "weeks = map (\<lambda>i. w0 + 7 * int i) [0..<n]" "getDay w0 = 1"
  shows "length (allSlots wk weeks) = length (filter (half_shown wk) [2 * w0..2 * (w0 + 7 * int n) - 1])"
  using arg_cong [OF columns_are_halves [OF assms, of "[]" wk], of length] by simp

lemma rectangle_to_form:
  assumes weeks: "weeks = map (\<lambda>i. w0 + 7 * int i) [0..<n]" "getDay w0 = 1"
    and year: "four_digit_year w0" "four_digit_year (w0 + 7 * int n - 1)" and people: "distinct (map p_id ps)"
    and pos: "r < length ps" "c < length (allSlots wk weeks)" "r' < length ps" "c' < length (allSlots wk weeks)"
  shows "case openUnifiedEditor pl (rect_cells (allSlots wk weeks) ps (r, c) (r', c')) of None \<Rightarrow> False
    | Some f \<Rightarrow> form_cells wk f = rect_cells (allSlots wk weeks) ps (r, c) (r', c')"
proof -
  define H where "H = filter (half_shown wk) [2 * w0..2 * (w0 + 7 * int n) - 1]"
  define i where "i = min c c'"
  define j where "j = max c c'"
  define hs where "hs = take (Suc j - i) (drop i H)"
  define pids where "pids = map p_id (take (Suc (max r r') - min r r') (drop (min r r') ps))"
  have ij: "i \<le> j" "j < length H"
    using pos(2,4) columns_length [OF weeks, of wk] by (simp_all add: i_def j_def H_def)
  have seg: "hs = filter (half_shown wk) [H ! i..H ! j]"
    using segment_of_filter [OF ij(1) ij(2) [unfolded H_def]] by (simp only: hs_def H_def)
  have ne: "hs \<noteq> []" "hd hs = H ! i" "last hs = H ! j"
    using ij by (simp_all add: hs_def hd_drop_conv_nth hd_take last_conv_nth)
  have "k < length H \<Longrightarrow> H ! k \<in> set [2 * w0..2 * (w0 + 7 * int n) - 1]" for k
    using nth_mem [of k H] unfolding H_def by (metis filter_is_subset subsetD)
  then have four: "four_digit_year (H ! k div 2)" if "k < length H" for k
    using that by (intro four_digit_convex [OF year]) force+
  have "distinct pids" unfolding pids_def using people by (simp add: take_map [symmetric] drop_map [symmetric])
  moreover have "pids \<noteq> []" using pos by (auto simp: pids_def)
  moreover have "rect_cells (allSlots wk weeks) ps (r, c) (r', c') = concat (map (\<lambda>pid. map (half_cell pid) hs) pids)"
    by (simp only: rect_cells_halves [OF weeks H_def] hs_def i_def j_def pids_def)
  ultimately show ?thesis
    using editor_of_rectangle [OF _ _ seg ne(1,2,3)] four [OF ij(2)] four [of i] ij by simp
qed

text \<open>C18: a drag from one half-day of the team grid to another, whatever the pointer crossed on
  the way (nothing at all for a click), opens the editor on the rectangle between the two; that
  rectangle is highlighted as soon as the pointer was over another half-day, and nothing is highlighted
  for a click; and the editor, which keeps only its first and last half-day and
  the people, is back at exactly these cells when its form is written.\<close>

theorem drag_edits_rectangle:
  assumes "weeks = getVisibleWeeks (Number n) today off" "0 < n"
    and "four_digit_year (hd weeks)" "four_digit_year (last weeks + 6)" and "distinct (map p_id ps)"
    and "page = team_page cl weeks wk grouped warn ps"
    and "r < length ps" "c < length (allSlots wk weeks)"
    and "last_cell moves (r, c) = (r', c')" "r' < length ps" "c' < length (allSlots wk weeks)"
    and "fold (extendDrag page) moves (startDrag r c, []) = (g, hl)"
  shows "endDrag page g = Some (rect_cells (allSlots wk weeks) ps (r, c) (r', c'))
    \<and> map dt_cell hl = (if list_ex (\<lambda>m. m \<notin> {None, Some (r, c)}) moves then rect_cells (allSlots wk weeks) ps (r, c) (r', c') else [])
    \<and> set hl \<subseteq> set page \<and> dg_isDragging g = list_ex (\<lambda>m. m \<notin> {None, Some (r, c)}) moves
    \<and> (case openUnifiedEditor pl (rect_cells (allSlots wk weeks) ps (r, c) (r', c')) of None \<Rightarrow> False
       | Some f \<Rightarrow> form_cells wk f = rect_cells (allSlots wk weeks) ps (r, c) (r', c'))"
proof -
  let ?w0 = "getWeekStart today + 7 * off"
  have weeks: "weeks = map (\<lambda>i. ?w0 + 7 * int i) [0..<nat n]"
    using assms(1,2) by (simp add: getVisibleWeeks_def algebra_simps)
  have monday: "getDay ?w0 = 1" by (simp add: getDay_weeks)
  have year: "four_digit_year ?w0" "four_digit_year (?w0 + 7 * int (nat n) - 1)"
    using assms(2-4) by (simp_all add: assms(1) hd_visible_weeks last_visible_weeks algebra_simps)
  have page: "page = page_rows (allSlots wk weeks) (zip [0..<length ps] ps)"
    unfolding assms(6) by (rule team_page_eq)
  let ?b = "left_start (r, c) moves"
  have b: "fold (extendDrag page) moves (startDrag r c, []) = drag_state page r c (r', c') ?b" "?b \<or> (r', c') = (r, c)"
    using drag_moves [of False "(r, c)" r c page moves] last_cell_left [OF assms(9), of "(r, c)"]
    unfolding assms(9) startDrag_to [of r c page] by auto
  have ex: "list_ex (\<lambda>m. m \<notin> {None, Some (r, c)}) moves = ?b"
    by (simp add: left_start_def)
  have g: "g = drag_to r c (r', c') ?b" "hl = (if ?b then filter (in_rect g) page else [])"
    using assms(12) in_rect_moved [of r c "(r', c')" ?b] by (auto simp: b(1) drag_state_def)
  have cells: "map dt_cell (filter (in_rect g) page) = rect_cells (allSlots wk weeks) ps (r, c) (r', c')"
    unfolding page g(1) by (rule filter_page)
  have "map dt_cell hl = (if ?b then rect_cells (allSlots wk weeks) ps (r, c) (r', c') else [])" "set hl \<subseteq> set page"
    using cells by (auto simp: g(2))
  moreover have "dg_isDragging g = ?b" by (simp add: g(1) drag_to_def)
  moreover have "endDrag page g = Some (rect_cells (allSlots wk weeks) ps (r, c) (r', c'))"
    unfolding g(1) by (rule endDrag_rectangle [OF page assms(7,8,10,11) b(2)])
  ultimately show ?thesis
    unfolding ex using rectangle_to_form [OF weeks monday year assms(5,7,8,10,11)] by blast
qed

lemma drag_edits_rectangle_witness:
  "(let page = team_page demo_client (getVisibleWeeks (Number 1) 20500 0) False False (\<lambda>_. None) [demo_person (js ''a'') [], demo_person (js ''b'') []];
        res = fold (extendDrag page) [Some (1, 3), None, Some (0, 2)] (startDrag 1 1, []);
        cells = rect_cells (allSlots False (getVisibleWeeks (Number 1) 20500 0)) [demo_person (js ''a'') [], demo_person (js ''b'') []] (1, 1) (0, 2)
    in endDrag page (fst res) = Some cells \<and> map dt_cell (snd res) = cells
      \<and> set (snd res) \<subseteq> set page \<and> dg_isDragging (fst res)
      \<and> (case openUnifiedEditor [] cells of None \<Rightarrow> False | Some f \<Rightarrow> form_cells False f = cells))"
proof -
  let ?ws = "getVisibleWeeks (Number 1) 20500 0"
  have ws: "?ws = map (\<lambda>i. getWeekStart 20500 + 7 * int i) [0..<1]" by (simp add: getVisibleWeeks_def)
  have "length (filter (half_shown False) [2 * getWeekStart 20500..2 * (getWeekStart 20500 + 7 * int 1) - 1]) = 10" by code_simp
  then have w: "length (allSlots False ?ws) = 10" using columns_length [OF ws, of False] by simp
  have year: "four_digit_year (hd ?ws)" "four_digit_year (last ?ws + 6)" by code_simp+
  have d: "distinct (map p_id [demo_person (js ''a'') [], demo_person (js ''b'') []])"
    by (simp add: demo_person_def js_eq_iff)
  have p: "(1::nat) < length (allSlots False ?ws)" "(2::nat) < length (allSlots False ?ws)" unfolding w by simp_all
  have l: "last_cell [Some (1, 3), None, Some (0, 2)] (1, 1) = (0, 2)" by simp
  have n: "(1::nat) < length [demo_person (js ''a'') [], demo_person (js ''b'') []]" "(0::nat) < length [demo_person (js ''a'') [], demo_person (js ''b'') []]"
    by simp_all
  have e: "list_ex (\<lambda>m. m \<notin> {None, Some (1, 1)}) [Some (1, 3), None, Some (0::nat, 2::nat)]" by simp
  show ?thesis
    using drag_edits_rectangle [where n = 1 and today = 20500 and off = 0 and pl = "[]" and cl = demo_client and wk = False
        and grouped = False and warn = "\<lambda>_. None", OF refl zero_less_one year d refl n(1) p(1) l n(2) p(2) prod.collapse [symmetric]]
    unfolding Let_def if_P [OF e] by (simp only: e)
qed

end
