(* ===== verification/IcsExport.thy ===== *)
theory IcsExport
  imports UndoRedo SlotView Escape
begin

text \<open>
  The calendar export \<open>downloadICS\<close>: the text of the file, line by line, for the visible weeks of a
  person. The identifiers and the time stamp, which are random and the clock's, are parameters. A
  calendar reader by RFC 5545 is the reference: it reads the days and hours of the events as numbers
  and undoes the escapes, and finds in the file the events of the filled half-days, nine to one and two
  to six, with their texts as they were. The function \<open>icsEscape\<close>, which the code calls for the
  note of a run slot, does not exist, and its \<open>ReferenceError\<close> loses the export: the result is \<open>None\<close>.
\<close>

section \<open>The file\<close>

definition fmtICS :: "date \<Rightarrow> int \<Rightarrow> int \<Rightarrow> jsstring" where
  "fmtICS d hours minutes = str_of_int (getFullYear d) @ pad2 (getMonth d + 1) @ pad2 (getDate d) @ js ''T''
     @ pad2 hours @ pad2 minutes @ js ''00''"

text \<open>The marks of the place, a house and an office building.\<close>

definition ics_place :: "slot_data \<Rightarrow> jsstring" where
  "ics_place d = (if sd_remote d then [32, 55356, 57312] else if sd_offsite d then [32, 55356, 57314] else [])"

text \<open>The lines of the events of a slot that differ from slot to slot.\<close>

definition project_lines :: "slot_data \<Rightarrow> proj_assign \<Rightarrow> jsstring list" where
  "project_lines d pr =
     [js ''SUMMARY:'' @ icsEsc (js ''Project: '' @ pa_name pr @ ics_place d),
      js ''DESCRIPTION:'' @ icsEsc (pa_name pr @ js '' ('' @ str_of_int (pa_pct pr) @ js ''%)''
        @ (if sd_run d then js '' + Run'' else [])
        @ (if sd_remote d then js '' + Remote'' else if sd_offsite d then js '' + Off-site'' else [])),
      js ''CATEGORIES:project'']"

definition slot_events :: "slot_data option \<Rightarrow> jsstring list list option" where
  "slot_events sd = (case sd of None \<Rightarrow> Some [] | Some d \<Rightarrow>
     if sd_state d = js ''not_filled'' then Some []
     else if sd_state d = js ''undetermined'' then Some [[js ''SUMMARY:'' @ icsEsc (js ''Project: undetermined'')]]
     else case sd_away d of
       Some a \<Rightarrow> Some [[js ''SUMMARY:'' @ icsEsc (js ''Away: '' @ away_type a), js ''DESCRIPTION:'' @ icsEsc (away_note a),
                       js ''CATEGORIES:'' @ icsEsc (away_type a)]]
     | None \<Rightarrow> (case sd_incident d of
         Some i \<Rightarrow> Some [[js ''SUMMARY:'' @ icsEsc (js ''Incident'' @ (if incident_text i \<noteq> [] then js '': '' @ incident_text i else []) @ ics_place d),
                         js ''CATEGORIES:incident'']]
       | None \<Rightarrow>
           if has_projects d then Some (map (project_lines d) (projects_list d))
           else if sd_run d then
             (if sd_run_note d \<noteq> [] then None
              else Some [[js ''SUMMARY:'' @ icsEsc (js ''Run duty'' @ ics_place d), js ''CATEGORIES:run'']])
           else Some []))"

definition vevent :: "jsstring \<Rightarrow> jsstring \<Rightarrow> date \<times> int \<times> jsstring list \<Rightarrow> jsstring list" where
  "vevent uid stamp = (\<lambda>(d, hs, fields).
     [js ''BEGIN:VEVENT'', js ''UID:'' @ uid @ js ''@teamviz'', js ''DTSTAMP:'' @ stamp @ js ''Z'',
      js ''DTSTART:'' @ fmtICS d hs 0, js ''DTEND:'' @ fmtICS d (hs + 4) 0] @ fields @ [js ''END:VEVENT''])"

text \<open>The loop over the days and halves; the first \<open>None\<close> ends it.\<close>

function ics_days :: "date \<Rightarrow> date \<Rightarrow> date list" where
  "ics_days d lst = (if d \<le> lst then d # ics_days (setDate d (getDate d + 1)) lst else [])"
  by pat_completeness auto
termination
  by (relation "measure (\<lambda>(d, lst). nat (lst + 1 - d))") (auto simp: setDate_plus)

declare ics_days.simps [simp del]

definition ics_halves :: "date list \<Rightarrow> (date \<times> jsstring \<times> int) list" where
  "ics_halves days = concat (map (\<lambda>d. [(d, js ''am'', 9), (d, js ''pm'', 14)]) days)"

fun ics_events :: "planning \<Rightarrow> jsstring \<Rightarrow> (date \<times> jsstring \<times> int) list \<Rightarrow> (date \<times> int \<times> jsstring list) list option" where
  "ics_events pl pid [] = Some []"
| "ics_events pl pid ((d, slot, hs) # halves) =
     (case slot_events (getSlot pl pid (fmtDate d) slot) of
        None \<Rightarrow> None
      | Some evs \<Rightarrow> map_option (\<lambda>rest. map (\<lambda>fields. (d, hs, fields)) evs @ rest) (ics_events pl pid halves))"

definition ics_file :: "(nat \<Rightarrow> jsstring) \<Rightarrow> (nat \<Rightarrow> jsstring) \<Rightarrow> (date \<times> int \<times> jsstring list) list \<Rightarrow> jsstring list" where
  "ics_file uid stamp events =
     [js ''BEGIN:VCALENDAR'', js ''VERSION:2.0'', js ''PRODID:-//TeamVisualizer//V1//EN'']
     @ concat (map (\<lambda>(k, e). vevent (uid k) (stamp k) e) (zip [0..<length events] events))
     @ [js ''END:VCALENDAR'']"

definition crlf_text :: "jsstring list \<Rightarrow> jsstring" where
  "crlf_text ls = concat (map (\<lambda>l. l @ [13, 10]) ls)"

text \<open>\<open>/[^a-zA-Z0-9]/g\<close>: every other code unit becomes an underscore.\<close>

definition name_unit :: "nat \<Rightarrow> nat" where
  "name_unit x = (if 97 \<le> x \<and> x \<le> 122 \<or> 65 \<le> x \<and> x \<le> 90 \<or> 48 \<le> x \<and> x \<le> 57 then x else 95)"

definition ics_name :: "client \<Rightarrow> jsstring \<Rightarrow> jsstring" where
  "ics_name c pid = (case getPerson (c_people c) pid of None \<Rightarrow> pid | Some p \<Rightarrow> map name_unit (p_name p)) @ js ''_planning.ics''"

text \<open>The dates that \<open>formatWeekStart\<close> prints are read back, so both are dates in a year of four digits.\<close>

definition downloadICS :: "(nat \<Rightarrow> jsstring) \<Rightarrow> (nat \<Rightarrow> jsstring) \<Rightarrow> date list \<Rightarrow> client \<Rightarrow> jsstring \<Rightarrow> (jsstring \<times> jsstring) option" where
  "downloadICS uid stamp weeks c pid =
     (case (parseDate (formatWeekStart (hd weeks)), parseDate (formatWeekStart (last weeks))) of
        (Some a, Some b) \<Rightarrow>
          map_option (\<lambda>events. (ics_name c pid, crlf_text (ics_file uid stamp events)))
            (ics_events (c_planning c) pid (ics_halves (ics_days a b)))
      | _ \<Rightarrow> None)"

section \<open>A calendar reader\<close>

text \<open>Lines end with CR LF; an event is between its two lines; a field is read after its name. A local
  time is \<open>YYYYMMDDTHHMMSS\<close>: the day, the hour and the minute of a whole minute.\<close>

definition read_time :: "jsstring \<Rightarrow> (date \<times> nat \<times> nat) option" where
  "read_time s =
     (case s of
        [y1, y2, y3, y4, m1, m2, d1, d2, t, h1, h2, i1, i2, s1, s2] \<Rightarrow>
          if list_all is_digit [y1, y2, y3, y4, m1, m2, d1, d2, h1, h2, i1, i2] \<and> t = 84 \<and> [s1, s2] = [48, 48]
            \<and> digits_val [m1, m2] \<in> {1..12}
          then Some (make_day (int (digits_val [y1, y2, y3, y4])) (int (digits_val [m1, m2]) - 1) (int (digits_val [d1, d2])),
                     digits_val [h1, h2], digits_val [i1, i2])
          else None
      | _ \<Rightarrow> None)"

fun read_lines :: "jsstring \<Rightarrow> jsstring \<Rightarrow> jsstring list" where
  "read_lines acc [] = (if acc = [] then [] else [acc])"
| "read_lines acc (x # s) =
     (if x = 13 \<and> take 1 s = [10] then acc # read_lines [] (drop 1 s) else read_lines (acc @ [x]) s)"

record cal_event =
  ce_start :: "(date \<times> nat \<times> nat) option"
  ce_end :: "(date \<times> nat \<times> nat) option"
  ce_summary :: jsstring
  ce_description :: "jsstring option"
  ce_category :: "jsstring option"

definition field :: "jsstring \<Rightarrow> jsstring \<Rightarrow> jsstring option" where
  "field name l = (if take (length name) l = name then Some (drop (length name) l) else None)"

definition read_field :: "jsstring \<Rightarrow> cal_event \<Rightarrow> cal_event" where
  "read_field l e = (case field (js ''DTSTART:'') l of Some v \<Rightarrow> e\<lparr>ce_start := read_time v\<rparr>
     | None \<Rightarrow> (case field (js ''DTEND:'') l of Some v \<Rightarrow> e\<lparr>ce_end := read_time v\<rparr>
     | None \<Rightarrow> (case field (js ''SUMMARY:'') l of Some v \<Rightarrow> e\<lparr>ce_summary := read_ics v\<rparr>
     | None \<Rightarrow> (case field (js ''DESCRIPTION:'') l of Some v \<Rightarrow> e\<lparr>ce_description := Some (read_ics v)\<rparr>
     | None \<Rightarrow> (case field (js ''CATEGORIES:'') l of Some v \<Rightarrow> e\<lparr>ce_category := Some (read_ics v)\<rparr>
     | None \<Rightarrow> e)))))"

definition new_event :: cal_event where
  "new_event = \<lparr>ce_start = None, ce_end = None, ce_summary = [], ce_description = None, ce_category = None\<rparr>"

fun read_events :: "cal_event \<Rightarrow> jsstring list \<Rightarrow> cal_event list" where
  "read_events e [] = []"
| "read_events e (l # ls) =
     (if l = js ''BEGIN:VEVENT'' then read_events new_event ls
      else if l = js ''END:VEVENT'' then e # read_events e ls
      else read_events (read_field l e) ls)"

definition read_calendar :: "jsstring \<Rightarrow> cal_event list" where
  "read_calendar s = read_events new_event (read_lines [] s)"

text \<open>What is to be in the calendar: an event of a day from one full hour to another, and the events of
  the two half-days of a day, by the working hours of the specification.\<close>

definition cal_event_at :: "date \<Rightarrow> nat \<Rightarrow> nat \<Rightarrow> jsstring \<times> jsstring option \<times> jsstring option \<Rightarrow> cal_event" where
  "cal_event_at d from to = (\<lambda>(summary, desc, cat). \<lparr>ce_start = Some (d, from, 0), ce_end = Some (d, to, 0),
     ce_summary = summary, ce_description = desc, ce_category = cat\<rparr>)"

definition slot_entries :: "slot_data option \<Rightarrow> (jsstring \<times> jsstring option \<times> jsstring option) list" where
  "slot_entries sd = (case sd of None \<Rightarrow> [] | Some d \<Rightarrow>
     if sd_state d = js ''not_filled'' then []
     else if sd_state d = js ''undetermined'' then [(js ''Project: undetermined'', None, None)]
     else case (sd_away d, sd_incident d) of
       (Some a, _) \<Rightarrow> [(js ''Away: '' @ away_type a, Some (away_note a), Some (away_type a))]
     | (None, Some i) \<Rightarrow> [(js ''Incident'' @ (if incident_text i \<noteq> [] then js '': '' @ incident_text i else []) @ ics_place d, None, Some (js ''incident''))]
     | (None, None) \<Rightarrow>
         if has_projects d then map (\<lambda>pr. (js ''Project: '' @ pa_name pr @ ics_place d,
             Some (pa_name pr @ js '' ('' @ str_of_int (pa_pct pr) @ js ''%)'' @ (if sd_run d then js '' + Run'' else [])
               @ (if sd_remote d then js '' + Remote'' else if sd_offsite d then js '' + Off-site'' else [])),
             Some (js ''project''))) (projects_list d)
         else if sd_run d then [(js ''Run duty'' @ ics_place d, None, Some (js ''run''))] else [])"

definition cal_day :: "planning \<Rightarrow> jsstring \<Rightarrow> date \<Rightarrow> cal_event list" where
  "cal_day pl pid d =
     map (cal_event_at d 9 13) (slot_entries (getSlot pl pid (fmtDate d) (js ''am'')))
     @ map (cal_event_at d 14 18) (slot_entries (getSlot pl pid (fmtDate d) (js ''pm'')))"

definition run_with_note :: "slot_data option \<Rightarrow> bool" where
  "run_with_note sd = (case sd of None \<Rightarrow> False | Some d \<Rightarrow>
     sd_state d \<noteq> js ''not_filled'' \<and> sd_state d \<noteq> js ''undetermined'' \<and> sd_away d = None \<and> sd_incident d = None
     \<and> \<not> has_projects d \<and> sd_run d \<and> sd_run_note d \<noteq> [])"

definition no_cr :: "jsstring \<Rightarrow> bool" where
  "no_cr s \<longleftrightarrow> 13 \<notin> set s"

definition slot_texts :: "slot_data \<Rightarrow> jsstring list" where
  "slot_texts d = (case sd_away d of None \<Rightarrow> [] | Some a \<Rightarrow> [away_type a, away_note a])
     @ (case sd_incident d of None \<Rightarrow> [] | Some i \<Rightarrow> [incident_text i]) @ map pa_name (projects_list d)"

section \<open>Lines\<close>

lemma no_cr_simps [simp]:
  "no_cr []" "no_cr (x # s) \<longleftrightarrow> x \<noteq> 13 \<and> no_cr s" "no_cr (s @ t) \<longleftrightarrow> no_cr s \<and> no_cr t"
  by (auto simp: no_cr_def)

lemma digits_no_cr: "(\<And>c. c \<in> set s \<Longrightarrow> is_digit c) \<Longrightarrow> no_cr s"
  unfolding no_cr_def is_digit_def by fastforce

lemma no_cr_number [simp]: "no_cr (str_of_int n)"
  using digits_no_cr [OF str_of_nat_are_digits] by (auto simp: no_cr_def str_of_int_def)

lemma no_cr_pad2 [simp]: "no_cr (pad2 n)"
  using no_cr_number [of n] by (auto simp: no_cr_def pad2_def pad_start2_def)

lemma no_cr_fmtICS [simp]: "no_cr (fmtICS d h m)"
  by (simp add: fmtICS_def js_def)

lemma no_cr_icsEsc [simp]: "no_cr (icsEsc s) \<longleftrightarrow> no_cr s"
  by (induction s) (simp_all add: icsEsc_pass ics_unit_def)

lemma no_cr_place [simp]: "no_cr (ics_place d)"
  by (simp add: ics_place_def)

lemma read_lines_line: "no_cr l \<Longrightarrow> read_lines acc (l @ 13 # 10 # s) = (acc @ l) # read_lines [] s"
  by (induction l arbitrary: acc) simp_all

lemma read_crlf_text: "list_all no_cr ls \<Longrightarrow> read_lines [] (crlf_text ls) = ls"
  by (induction ls) (simp_all add: crlf_text_def read_lines_line)

section \<open>Events\<close>

lemma read_fmtICS:
  assumes "four_digit_year d" "0 \<le> h" "h < 24"
  shows "read_time (fmtICS d h 0) = Some (d, nat h, 0)"
proof -
  have y: "str_of_int (getFullYear d) = digs 4 (nat (getFullYear d))"
    using assms four_digit_nat [OF assms(1)] str_of_nat_digs [of 3 "nat (getFullYear d)"]
    by (simp add: four_digit_year_def str_of_int_def)
  have m: "pad2 (getMonth d + 1) = digs 2 (nat (getMonth d + 1))"
    using getMonth_bounds [of d] by (simp add: pad2_digs)
  have dd: "pad2 (getDate d) = digs 2 (nat (getDate d))"
    using getDate_bounds(1) [of d] getDate_le_31 [of d] by (simp add: pad2_digs)
  have h: "pad2 h = digs 2 (nat h)" "pad2 0 = digs 2 0"
    using assms(2,3) by (simp_all add: pad2_digs)
  have two: "\<exists>a b. digs 2 k = [a, b]" for k
    using length_digs [of 2 k] by (auto simp: length_Suc_conv eval_nat_numeral simp del: length_digs digs.simps)
  have four: "\<exists>a b c d. digs 4 k = [a, b, c, d]" for k
    using length_digs [of 4 k] by (auto simp: length_Suc_conv eval_nat_numeral simp del: length_digs digs.simps)
  obtain y1 y2 y3 y4 where ys: "digs 4 (nat (getFullYear d)) = [y1, y2, y3, y4]"
    using four by blast
  obtain m1 m2 where ms: "digs 2 (nat (getMonth d + 1)) = [m1, m2]"
    using two by blast
  obtain d1 d2 where ds: "digs 2 (nat (getDate d)) = [d1, d2]"
    using two by blast
  obtain h1 h2 where hs: "digs 2 (nat h) = [h1, h2]"
    using two by blast
  have zero: "digs 2 0 = [48, 48]" by (simp add: numeral_2_eq_2)
  have val: "int (digits_val [y1, y2, y3, y4]) = getFullYear d" "digits_val [m1, m2] = nat (getMonth d + 1)"
    "int (digits_val [d1, d2]) = getDate d" "digits_val [h1, h2] = nat h"
    using assms four_digit_nat [OF assms(1)] getMonth_bounds [of d] getDate_bounds(1) [of d] getDate_le_31 [of d]
    by (simp_all add: ys [symmetric] ms [symmetric] ds [symmetric] hs [symmetric] digits_val_digs four_digit_year_def)
  have "list_all is_digit (digs k n)" for k n
    using digs_are_digits by (auto simp: list_all_iff)
  from this [of 4 "nat (getFullYear d)"] this [of 2 "nat (getMonth d + 1)"] this [of 2 "nat (getDate d)"] this [of 2 "nat h"]
  have digit: "list_all is_digit [y1, y2, y3, y4]" "list_all is_digit [m1, m2]" "list_all is_digit [d1, d2]" "list_all is_digit [h1, h2]"
    by (simp_all add: ys ms ds hs)
  have stamped: "fmtICS d h 0 = [y1, y2, y3, y4, m1, m2, d1, d2, 84, h1, h2, 48, 48, 48, 48]"
    unfolding fmtICS_def y m dd h ys ms ds hs zero by (simp add: js_def)
  have "digits_val [m1, m2] \<in> {1..12}" "int (digits_val [m1, m2]) - 1 = getMonth d"
    using getMonth_bounds [of d] by (auto simp: val(2))
  then show ?thesis
    unfolding stamped read_time_def using digit
    by (simp add: val make_day_parts is_digit_def del: One_nat_def atLeastAtMost_iff) (simp add: digits_val_def)
qed

definition entry_lines :: "jsstring \<times> jsstring option \<times> jsstring option \<Rightarrow> jsstring list" where
  "entry_lines = (\<lambda>(summary, desc, cat). (js ''SUMMARY:'' @ icsEsc summary)
     # (case desc of None \<Rightarrow> [] | Some t \<Rightarrow> [js ''DESCRIPTION:'' @ icsEsc t])
     @ (case cat of None \<Rightarrow> [] | Some t \<Rightarrow> [js ''CATEGORIES:'' @ icsEsc t]))"

lemma icsEsc_word: "icsEsc (js ''incident'') = js ''incident''" "icsEsc (js ''project'') = js ''project''" "icsEsc (js ''run'') = js ''run''"
  by (simp_all add: icsEsc_pass ics_unit_def js_def)

lemma category_lines: "js ''CATEGORIES:incident'' = js ''CATEGORIES:'' @ js ''incident''"
  "js ''CATEGORIES:project'' = js ''CATEGORIES:'' @ js ''project''" "js ''CATEGORIES:run'' = js ''CATEGORIES:'' @ js ''run''"
  by (simp_all add: js_def)

lemma slot_events_entries: "slot_events sd = (if run_with_note sd then None else Some (map entry_lines (slot_entries sd)))"
  by (auto simp: slot_events_def slot_entries_def run_with_note_def project_lines_def entry_lines_def category_lines icsEsc_word js_eq_iff
      split: option.splits)

lemma field_simps:
  "field (js ''DTSTART:'') (js ''DTSTART:'' @ v) = Some v" "field (js ''DTEND:'') (js ''DTEND:'' @ v) = Some v"
  "field (js ''SUMMARY:'') (js ''SUMMARY:'' @ v) = Some v" "field (js ''DESCRIPTION:'') (js ''DESCRIPTION:'' @ v) = Some v"
  "field (js ''CATEGORIES:'') (js ''CATEGORIES:'' @ v) = Some v"
  by (simp_all add: field_def)

lemma read_field_simps:
  "read_field (js ''UID:'' @ v) e = e" "read_field (js ''DTSTAMP:'' @ v) e = e"
  "read_field (js ''DTSTART:'' @ v) e = e\<lparr>ce_start := read_time v\<rparr>" "read_field (js ''DTEND:'' @ v) e = e\<lparr>ce_end := read_time v\<rparr>"
  "read_field (js ''SUMMARY:'' @ v) e = e\<lparr>ce_summary := read_ics v\<rparr>"
  "read_field (js ''DESCRIPTION:'' @ v) e = e\<lparr>ce_description := Some (read_ics v)\<rparr>"
  "read_field (js ''CATEGORIES:'' @ v) e = e\<lparr>ce_category := Some (read_ics v)\<rparr>"
  by (simp_all add: read_field_def field_def js_def)

lemma no_bracket:
  "js ''UID:'' @ v \<noteq> js ''BEGIN:VEVENT''" "js ''UID:'' @ v \<noteq> js ''END:VEVENT''"
  "js ''DTSTAMP:'' @ v \<noteq> js ''BEGIN:VEVENT''" "js ''DTSTAMP:'' @ v \<noteq> js ''END:VEVENT''"
  "js ''DTSTART:'' @ v \<noteq> js ''BEGIN:VEVENT''" "js ''DTSTART:'' @ v \<noteq> js ''END:VEVENT''"
  "js ''DTEND:'' @ v \<noteq> js ''BEGIN:VEVENT''" "js ''DTEND:'' @ v \<noteq> js ''END:VEVENT''"
  "js ''SUMMARY:'' @ v \<noteq> js ''BEGIN:VEVENT''" "js ''SUMMARY:'' @ v \<noteq> js ''END:VEVENT''"
  "js ''DESCRIPTION:'' @ v \<noteq> js ''BEGIN:VEVENT''" "js ''DESCRIPTION:'' @ v \<noteq> js ''END:VEVENT''"
  "js ''CATEGORIES:'' @ v \<noteq> js ''BEGIN:VEVENT''" "js ''CATEGORIES:'' @ v \<noteq> js ''END:VEVENT''"
  by (simp_all add: js_def)

definition event_of :: "date \<times> int \<times> jsstring \<times> jsstring option \<times> jsstring option \<Rightarrow> cal_event" where
  "event_of = (\<lambda>(d, hs, x). cal_event_at d (nat hs) (nat hs + 4) x)"

definition plain_time :: "date \<times> int \<times> 'a \<Rightarrow> bool" where
  "plain_time = (\<lambda>(d, hs, x). four_digit_year d \<and> hs \<in> {9, 14})"

lemma read_vevent:
  "plain_time (d, hs, x) \<Longrightarrow> read_events e0 (vevent u t (d, hs, entry_lines x) @ ls)
     = event_of (d, hs, x) # read_events (event_of (d, hs, x)) ls"
proof -
  assume "plain_time (d, hs, x)"
  then have time: "read_time (fmtICS d hs 0) = Some (d, nat hs, 0)" "read_time (fmtICS d (hs + 4) 0) = Some (d, nat hs + 4, 0)"
    by (auto simp: plain_time_def read_fmtICS)
  obtain summary desc cat where x: "x = (summary, desc, cat)" by (cases x) auto
  have "js ''BEGIN:VEVENT'' \<noteq> js ''END:VEVENT''" by (simp add: js_def)
  then show ?thesis
    by (cases desc; cases cat)
      (simp_all add: x vevent_def entry_lines_def event_of_def cal_event_at_def read_field_simps time no_bracket read_icsEsc new_event_def)
qed

lemma read_skip: "l \<notin> {js ''BEGIN:VEVENT'', js ''END:VEVENT''} \<Longrightarrow> read_field l e = e \<Longrightarrow> read_events e (l # ls) = read_events e ls"
  by simp

definition with_lines :: "date \<times> int \<times> jsstring \<times> jsstring option \<times> jsstring option \<Rightarrow> date \<times> int \<times> jsstring list" where
  "with_lines = (\<lambda>(d, hs, x). (d, hs, entry_lines x))"

definition half_entries :: "planning \<Rightarrow> jsstring \<Rightarrow> (date \<times> jsstring \<times> int) list \<Rightarrow> (date \<times> int \<times> jsstring \<times> jsstring option \<times> jsstring option) list" where
  "half_entries pl pid halves = concat (map (\<lambda>(d, slot, hs). map (\<lambda>x. (d, hs, x)) (slot_entries (getSlot pl pid (fmtDate d) slot))) halves)"

lemma ics_events_entries:
  "ics_events pl pid halves =
     (if list_ex (\<lambda>(d, slot, hs). run_with_note (getSlot pl pid (fmtDate d) slot)) halves then None
      else Some (map with_lines (half_entries pl pid halves)))"
  by (induction halves) (auto simp: slot_events_entries half_entries_def with_lines_def)

lemma read_file_events:
  assumes "\<And>e. read_events e ls = []" and "list_all plain_time xs"
  shows "read_events e0 (concat (map (\<lambda>(k, e). vevent (uid k) (stamp k) e) (zip [i..<i + length xs] (map with_lines xs))) @ ls)
    = map event_of xs"
  using assms(2)
proof (induction xs arbitrary: i e0)
  case Nil
  show ?case by (simp add: assms(1))
next
  case (Cons x xs)
  obtain d hs y where x: "x = (d, hs, y)" by (cases x) auto
  have w: "with_lines (d, hs, y) = (d, hs, entry_lines y)" by (simp add: with_lines_def)
  have "[i..<i + length (x # xs)] = i # [Suc i..<Suc i + length xs]" by (simp add: upt_conv_Cons del: upt_Suc)
  then show ?case using Cons.IH [of "event_of (d, hs, y)" "Suc i"] Cons.prems
    by (simp add: x w read_vevent del: upt_Suc)
qed

lemma read_ics_file:
  "list_all plain_time xs \<Longrightarrow> read_events e0 (ics_file uid stamp (map with_lines xs)) = map event_of xs"
proof -
  assume xs: "list_all plain_time xs"
  have "read_events e [js ''END:VCALENDAR''] = []" for e by (simp add: js_def)
  note events = read_file_events [where ls = "[js ''END:VCALENDAR'']" and i = 0 and xs = xs, OF this xs]
  have head: "read_events e (js ''BEGIN:VCALENDAR'' # ls) = read_events e ls" "read_events e (js ''VERSION:2.0'' # ls) = read_events e ls"
    "read_events e (js ''PRODID:-//TeamVisualizer//V1//EN'' # ls) = read_events e ls" for e ls
    by (rule read_skip; simp add: js_def read_field_def field_def)+
  show ?thesis
    using events [of e0 uid stamp] by (simp add: ics_file_def head del: read_events.simps)
qed

text \<open>No line of the file is broken.\<close>

lemma entry_no_cr:
  assumes "x \<in> set (slot_entries (Some d))" and "list_all no_cr (slot_texts d)"
  shows "list_all no_cr (entry_lines x)"
proof -
  have names: "no_cr (pa_name pr)" if "pr \<in> set (projects_list d)" for pr
    using assms(2) that by (auto simp: slot_texts_def list_all_iff)
  have "list_all no_cr (case sd_away d of None \<Rightarrow> [] | Some a \<Rightarrow> [away_type a, away_note a])"
    "list_all no_cr (case sd_incident d of None \<Rightarrow> [] | Some i \<Rightarrow> [incident_text i])"
    using assms(2) by (auto simp: slot_texts_def)
  then show ?thesis
    using assms(1) names
    by (auto simp: slot_entries_def entry_lines_def js_def split: if_splits option.splits)
qed

lemma file_no_cr:
  assumes "list_all (\<lambda>(d, hs, fs). list_all no_cr fs) events" and "\<And>k. no_cr (uid k)" and "\<And>k. no_cr (stamp k)"
  shows "list_all no_cr (ics_file uid stamp events)"
proof -
  have "list_all no_cr (concat (map (\<lambda>(k, e). vevent (uid k) (stamp k) e) (zip ks events)))" for ks
    using assms(1)
  proof (induction events arbitrary: ks)
    case (Cons e events)
    then show ?case using assms(2,3) by (cases ks; cases e) (auto simp: vevent_def js_def)
  qed simp
  then show ?thesis by (simp add: ics_file_def js_def)
qed

lemma ics_days_eq: "ics_days d lst = [d..lst]"
  by (induction d lst rule: ics_days.induct) (subst ics_days.simps, simp add: setDate_plus upto_rec1)

section \<open>Properties\<close>

lemma cal_day_entries:
  "concat (map (cal_day pl pid) ds) = map event_of (half_entries pl pid (ics_halves ds))"
  by (induction ds) (simp_all add: cal_day_def half_entries_def ics_halves_def event_of_def comp_def)

lemma entries_plain:
  "list_all four_digit_year ds \<Longrightarrow> list_all plain_time (half_entries pl pid (ics_halves ds))"
  by (induction ds) (auto simp: half_entries_def ics_halves_def plain_time_def list_all_iff)

text \<open>C24: a calendar that reads the exported file finds the events of the filled half-days of every day
  from the first visible Monday to the Monday of the last visible week, in their order, each on its day from
  9 to 13 or from 14 to 18 o'clock, with every text as it is in the planning, escapes undone. The export
  fails instead exactly when one of these half-days is a run without a project that has a note. This is what
  the code does and less than section 9 and criterion 10 of \<open>PROMPT.md\<close> ask for: there, the whole visible
  window is exported, from Tuesday to Sunday of the last week too, and a run with a note is an event like
  the others (\<open>last_week_cut_off\<close> and \<open>run_note_loses_export\<close> below).\<close>

theorem calendar_reads_back:
  assumes "four_digit_year (hd weeks)" and "four_digit_year (last weeks)"
    and "list_all (\<lambda>(k, d). list_all no_cr (slot_texts d)) (c_planning c)"
    and "\<And>k. no_cr (uid k)" and "\<And>k. no_cr (stamp k)"
  shows "case downloadICS uid stamp weeks c pid of
      None \<Rightarrow> list_ex (\<lambda>d. run_with_note (getSlot (c_planning c) pid (fmtDate d) (js ''am''))
                 \<or> run_with_note (getSlot (c_planning c) pid (fmtDate d) (js ''pm''))) [hd weeks..last weeks]
    | Some (name, text) \<Rightarrow>
        \<not> list_ex (\<lambda>d. run_with_note (getSlot (c_planning c) pid (fmtDate d) (js ''am''))
                 \<or> run_with_note (getSlot (c_planning c) pid (fmtDate d) (js ''pm''))) [hd weeks..last weeks]
        \<and> read_calendar text = concat (map (cal_day (c_planning c) pid) [hd weeks..last weeks])"
proof -
  let ?ds = "[hd weeks..last weeks]"
  let ?E = "half_entries (c_planning c) pid (ics_halves ?ds)"
  have texts: "list_all no_cr (entry_lines x)" if "x \<in> set (slot_entries (getSlot (c_planning c) pid ds slot))" for x ds slot
  proof (cases "getSlot (c_planning c) pid ds slot")
    case None
    with that show ?thesis by (simp add: slot_entries_def)
  next
    case (Some d)
    then have "(getSlotKey pid ds slot, d) \<in> set (c_planning c)" by (auto simp: getSlot_def dict_get_def dest: map_of_SomeD)
    then have "list_all no_cr (slot_texts d)" using assms(3) by (auto simp: list_all_iff)
    then show ?thesis using that Some by (intro entry_no_cr) simp_all
  qed
  then have "list_all (\<lambda>(d, hs, fs). list_all no_cr fs) (map with_lines ?E)"
    unfolding half_entries_def with_lines_def list_all_iff by auto
  moreover have "list_all plain_time ?E"
    by (rule entries_plain) (use four_digit_convex [OF assms(1,2)] in \<open>auto simp: list_all_iff\<close>)
  ultimately have "read_calendar (crlf_text (ics_file uid stamp (map with_lines ?E))) = concat (map (cal_day (c_planning c) pid) ?ds)"
    using read_crlf_text [OF file_no_cr [OF _ assms(4,5)]] by (simp add: read_calendar_def read_ics_file cal_day_entries)
  moreover have "list_ex (\<lambda>(d, slot, hs). run_with_note (getSlot (c_planning c) pid (fmtDate d) slot)) (ics_halves ds)
      = list_ex (\<lambda>d. run_with_note (getSlot (c_planning c) pid (fmtDate d) (js ''am''))
                 \<or> run_with_note (getSlot (c_planning c) pid (fmtDate d) (js ''pm''))) ds" for ds
    by (induction ds) (simp_all add: ics_halves_def)
  ultimately show ?thesis
    using assms(1,2) by (simp add: downloadICS_def formatWeekStart_def parse_fmt ics_days_eq ics_events_entries)
qed

text \<open>Two projects with a run on a Tuesday morning, away in its afternoon.\<close>

definition demo_week :: client where
  "demo_week = demo_client\<lparr>c_planning :=
     [(getSlotKey (js ''p1'') (js ''2026/02/17'') (js ''am''), demo_slot\<lparr>sd_run := True, sd_remote := True,
         sd_projects := Some [\<lparr>pa_name = js ''a,b'', pa_pct = 60\<rparr>, \<lparr>pa_name = js ''c'', pa_pct = 40\<rparr>]\<rparr>),
      (getSlotKey (js ''p1'') (js ''2026/02/17'') (js ''pm''), demo_slot\<lparr>sd_away := Some \<lparr>away_type = js ''leave'', away_note = js ''x;y'', away_tentative = False\<rparr>\<rparr>)]\<rparr>"

definition demo_calendar :: "cal_event list" where
  "demo_calendar =
     [\<lparr>ce_start = Some (20501, 9, 0), ce_end = Some (20501, 13, 0), ce_summary = js ''Project: a,b'' @ [32, 55356, 57312],
        ce_description = Some (js ''a,b (60%) + Run + Remote''), ce_category = Some (js ''project'')\<rparr>,
      \<lparr>ce_start = Some (20501, 9, 0), ce_end = Some (20501, 13, 0), ce_summary = js ''Project: c'' @ [32, 55356, 57312],
        ce_description = Some (js ''c (40%) + Run + Remote''), ce_category = Some (js ''project'')\<rparr>,
      \<lparr>ce_start = Some (20501, 14, 0), ce_end = Some (20501, 18, 0), ce_summary = js ''Away: leave'',
        ce_description = Some (js ''x;y''), ce_category = Some (js ''leave'')\<rparr>]"

lemma demo_week_days: "concat (map (cal_day (c_planning demo_week) (js ''p1'')) [20500..20507]) = demo_calendar"
proof -
  have dates: "fmtDate 20500 = js ''2026/02/16''" "fmtDate 20501 = js ''2026/02/17''" "fmtDate 20502 = js ''2026/02/18''"
    "fmtDate 20503 = js ''2026/02/19''" "fmtDate 20504 = js ''2026/02/20''" "fmtDate 20505 = js ''2026/02/21''"
    "fmtDate 20506 = js ''2026/02/22''" "fmtDate 20507 = js ''2026/02/23''"
    by code_simp+
  have ds: "[20500..20507] = [20500, 20501, 20502, 20503, 20504, 20505, 20506, 20507 :: int]" by (simp add: upto_rec1)
  have pct: "str_of_int 60 = js ''60''" "str_of_int 40 = js ''40''" by code_simp+
  have empty: "cal_day (c_planning demo_week) (js ''p1'') d = []"
    if "fmtDate d = js ds" "ds \<noteq> ''2026/02/17''" "length ds = 10" for d ds
    using that by (simp add: cal_day_def demo_week_def getSlot_def getSlotKey_def dict_get_def js_eq_iff slot_entries_def)
  have "cal_day (c_planning demo_week) (js ''p1'') 20501 = demo_calendar"
    by (simp add: cal_day_def dates demo_week_def getSlot_def getSlotKey_def dict_get_def js_eq_iff slot_entries_def
      demo_slot_def has_projects_def projects_list_def cal_event_at_def ics_place_def pct demo_calendar_def) (simp add: js_def)
  then show ?thesis
    unfolding ds by (simp add: empty [OF dates(1)] empty [OF dates(3)] empty [OF dates(4)] empty [OF dates(5)]
      empty [OF dates(6)] empty [OF dates(7)] empty [OF dates(8)])
qed

theorem calendar_reads_back_witness:
  "\<exists>text. downloadICS (\<lambda>k. js ''u'') (\<lambda>k. js ''t'') [20500, 20507] demo_week (js ''p1'') = Some (js ''Ann_planning.ics'', text)
     \<and> read_calendar text = demo_calendar"
proof -
  have "four_digit_year 20500" "four_digit_year 20507" by code_simp+
  then have year: "four_digit_year (hd [20500, 20507])" "four_digit_year (last [20500, 20507])" by simp_all
  have texts: "list_all (\<lambda>(k, d). list_all no_cr (slot_texts d)) (c_planning demo_week)"
    by (simp add: demo_week_def demo_slot_def slot_texts_def projects_list_def js_def)
  have ids: "\<And>k. no_cr ((\<lambda>k. js ''u'') k)" "\<And>k. no_cr ((\<lambda>k. js ''t'') k)" by (simp_all add: js_def)
  have quiet: "\<not> run_with_note (getSlot (c_planning demo_week) (js ''p1'') ds slot)" for ds slot
    by (simp add: demo_week_def getSlot_def dict_get_def run_with_note_def demo_slot_def has_projects_def projects_list_def)
  have fname: "downloadICS uid stamp weeks demo_week pid = Some (f, str) \<Longrightarrow> f = ics_name demo_week pid" for uid stamp weeks pid f str
    by (auto simp: downloadICS_def split: option.splits)
  have called: "ics_name demo_week (js ''p1'') = js ''Ann_planning.ics''"
    by (simp add: ics_name_def getPerson_def demo_week_def demo_client_def demo_ann_def js_eq_iff) (simp add: js_def name_unit_def)
  show ?thesis
    using calendar_reads_back [where weeks = "[20500, 20507]" and c = demo_week and pid = "js ''p1''" and uid = "\<lambda>k. js ''u''"
        and stamp = "\<lambda>k. js ''t''", OF year texts ids] demo_week_days
    by (auto simp: quiet called list_ex_iff dest: fname split: option.splits prod.splits)
qed

text \<open>A run with a note anywhere in the exported days loses the whole export.\<close>

lemma run_note_loses_export:
  assumes "four_digit_year (hd weeks)" and "four_digit_year (last weeks)" and "hd weeks \<le> d" "d \<le> last weeks"
    and "slot = js ''am'' \<or> slot = js ''pm''" and "run_with_note (getSlot (c_planning c) pid (fmtDate d) slot)"
  shows "downloadICS uid stamp weeks c pid = None"
proof -
  have "list_ex (\<lambda>(d, slot, hs). run_with_note (getSlot (c_planning c) pid (fmtDate d) slot)) (ics_halves [hd weeks..last weeks])"
    using assms(3-6) by (auto simp: list_ex_iff ics_halves_def)
  then show ?thesis
    using assms(1,2) by (simp add: downloadICS_def formatWeekStart_def parse_fmt ics_days_eq ics_events_entries)
qed

text \<open>What a person has from Tuesday on in the last visible week is not exported.\<close>

lemma last_week_cut_off:
  assumes "four_digit_year (hd weeks)" and "four_digit_year (last weeks)"
    and "\<And>d. d \<le> last weeks \<Longrightarrow> d \<ge> hd weeks \<Longrightarrow> getSlot (c_planning c) pid (fmtDate d) (js ''am'') = getSlot (c_planning c') pid (fmtDate d) (js ''am'')
           \<and> getSlot (c_planning c) pid (fmtDate d) (js ''pm'') = getSlot (c_planning c') pid (fmtDate d) (js ''pm'')"
    and "c_people c = c_people c'"
  shows "downloadICS uid stamp weeks c pid = downloadICS uid stamp weeks c' pid"
proof -
  have "ics_events (c_planning c) pid (ics_halves ds) = ics_events (c_planning c') pid (ics_halves ds)"
    if "\<And>d. d \<in> set ds \<Longrightarrow> d \<le> last weeks \<and> d \<ge> hd weeks" for ds
    using that by (induction ds) (simp_all add: ics_halves_def assms(3) split: option.splits)
  from this [of "[hd weeks..last weeks]"] show ?thesis
    using assms(1,2,4) by (simp add: downloadICS_def formatWeekStart_def parse_fmt ics_days_eq ics_name_def)
qed

end
