(* ===== verification/Loops.thy ===== *)
theory Loops
  imports "HOL-Library.While_Combinator" Ranges Trimester Projects IcsExport
begin

text \<open>
  The \<open>while\<close> loops over dates in the shape of the code: a state that the body assigns, here for
  \<open>while_option\<close>, which has no result when a loop does not end. The other theories use these loops
  as recursive functions; proved here: every one of them ends, whatever dates and strings it
  starts from, with the list that the recursive function has.
\<close>

section \<open>The loops\<close>

definition range_loop :: "date \<Rightarrow> jsstring \<Rightarrow> date \<Rightarrow> jsstring \<Rightarrow> ((date \<times> jsstring) \<times> range_slot list) option" where
  "range_loop start startSlot lst endSlot =
     while_option (\<lambda>((cd, cs), result). cd < lst \<or> cd = lst \<and> cs \<le> endSlot)
       (\<lambda>((cd, cs), result).
          let result = result @ [\<lparr>rs_date = fmtDate cd, rs_slot = cs\<rparr>]
          in if cs = js ''am'' then ((cd, js ''pm''), result) else ((setDate cd (getDate cd + 1), js ''am''), result))
       ((start, startSlot), [])"

definition trimester_loop :: "date \<Rightarrow> date \<Rightarrow> (date \<times> jsstring list) option" where
  "trimester_loop mon triEnd =
     while_option (\<lambda>(cur, weeks). cur \<le> triEnd) (\<lambda>(cur, weeks). (setDate cur (getDate cur + 7), weeks @ [fmtDate cur])) (mon, [])"

definition gantt_loop :: "date \<Rightarrow> date \<Rightarrow> (date \<times> date list) option" where
  "gantt_loop w maxD = while_option (\<lambda>(w, weeks). w \<le> maxD) (\<lambda>(w, weeks). (setDate w (getDate w + 7), weeks @ [w])) (w, [])"

text \<open>The columns of a row of the chart: the body may also advance \<open>c\<close>.\<close>

definition gantt_row_loop :: "int \<Rightarrow> int \<Rightarrow> int \<Rightarrow> (int \<times> gantt_cell list) option" where
  "gantt_row_loop colCount startCol span =
     while_option (\<lambda>(c, cells). c < colCount)
       (\<lambda>(c, cells). if c = startCol then (c + (span - 1) + 1, cells @ [Bar span]) else (c + 1, cells @ [NoBar])) (0, [])"

definition export_loop :: "date \<Rightarrow> date \<Rightarrow> (date \<times> date list) option" where
  "export_loop d lst = while_option (\<lambda>(d, days). d \<le> lst) (\<lambda>(d, days). (setDate d (getDate d + 1), days @ [d])) (d, [])"

section \<open>They end\<close>

text \<open>A loop that collects: its list is that of a function with the same recursion.\<close>

lemma while_collect:
  fixes m :: "'a \<Rightarrow> nat"
  assumes "\<And>s. f s = (if P s then outp s # f (succ s) else [])" and "\<And>s. P s \<Longrightarrow> m (succ s) < m s"
    and guard: "\<And>s acc. b (s, acc) = P s" and body: "\<And>s acc. P s \<Longrightarrow> step (s, acc) = (succ s, acc @ [outp s])"
  shows "\<exists>t. while_option b step (s, acc) = Some (t, acc @ f s) \<and> \<not> P t"
proof (induction "m s" arbitrary: s acc rule: less_induct)
  case less
  show ?case
  proof (cases "P s")
    case True
    have "\<exists>t. while_option b step (succ s, acc @ [outp s]) = Some (t, (acc @ [outp s]) @ f (succ s)) \<and> \<not> P t"
      using less assms(2) [OF True] by blast
    with True show ?thesis
      by (simp add: while_option_unfold [of b step "(s, acc)"] guard body assms(1) [of s])
  next
    case False
    then show ?thesis
      by (simp add: while_option_unfold [of b step "(s, acc)"] guard assms(1) [of s])
  qed
qed

lemma range_loop_ends: "\<exists>t. range_loop d cs e es = Some (t, slots_loop d cs e es)"
proof -
  define f where "f = (\<lambda>(d, cs). slots_loop d cs e es)"
  define P where "P = (\<lambda>(d, cs). d < e \<or> d = e \<and> cs \<le> es)"
  define outp where "outp = (\<lambda>(d, cs). \<lparr>rs_date = fmtDate d, rs_slot = cs\<rparr>)"
  define succ where "succ = (\<lambda>(d, cs). if cs = js ''am'' then (d, js ''pm'') else (setDate d (getDate d + 1), js ''am''))"
  define m where "m = (\<lambda>(d, cs). 2 * nat (e + 1 - d) + (if cs = js ''am'' then 1 else 0))"
  note defs = f_def P_def outp_def succ_def m_def
  have "\<exists>t. range_loop d cs e es = Some (t, [] @ f (d, cs)) \<and> \<not> P t"
    unfolding range_loop_def
  proof (rule while_collect [of f P outp succ m])
    fix s show "f s = (if P s then outp s # f (succ s) else [])"
      using slots_loop.simps [of "fst s" "snd s" e es] by (cases s) (simp add: defs)
    show "P s \<Longrightarrow> m (succ s) < m s"
      by (cases s) (auto simp: defs js_eq_iff setDate_plus)
  qed (auto simp: defs Let_def split: if_splits)
  then show ?thesis by (auto simp: f_def)
qed

lemma trimester_loop_ends: "\<exists>t. trimester_loop mon e = Some (t, weeks_upto mon e)"
proof -
  have "\<exists>t. trimester_loop mon e = Some (t, [] @ weeks_upto mon e) \<and> \<not> t \<le> e"
    unfolding trimester_loop_def
    by (rule while_collect [where m = "\<lambda>d. nat (e + 1 - d)" and succ = "\<lambda>d. setDate d (getDate d + 7)" and outp = fmtDate])
      (auto simp: setDate_plus weeks_upto.simps [of _ e])
  then show ?thesis by auto
qed

lemma gantt_loop_ends: "\<exists>t. gantt_loop w e = Some (t, chart_weeks w e)"
proof -
  have "\<exists>t. gantt_loop w e = Some (t, [] @ chart_weeks w e) \<and> \<not> t \<le> e"
    unfolding gantt_loop_def
    by (rule while_collect [where m = "\<lambda>d. nat (e + 1 - d)" and succ = "\<lambda>d. setDate d (getDate d + 7)" and outp = "\<lambda>d. d"])
      (auto simp: setDate_plus chart_weeks.simps [of _ e])
  then show ?thesis by auto
qed

lemma export_loop_ends: "\<exists>t. export_loop d e = Some (t, ics_days d e)"
proof -
  have "\<exists>t. export_loop d e = Some (t, [] @ ics_days d e) \<and> \<not> t \<le> e"
    unfolding export_loop_def
    by (rule while_collect [where m = "\<lambda>d. nat (e + 1 - d)" and succ = "\<lambda>d. setDate d (getDate d + 1)" and outp = "\<lambda>d. d"])
      (auto simp: setDate_plus ics_days.simps [of _ e])
  then show ?thesis by auto
qed

lemma gantt_row_loop_ends:
  assumes "1 \<le> span"
  shows "\<exists>t. gantt_row_loop n a span = Some (t, gantt_cells n a span 0)"
proof -
  have "\<exists>t. gantt_row_loop n a span = Some (t, [] @ gantt_cells n a span 0) \<and> \<not> t < n"
    unfolding gantt_row_loop_def
    by (rule while_collect [where m = "\<lambda>c. nat (n - c)" and succ = "\<lambda>c. if c = a then c + (span - 1) + 1 else c + 1"
          and outp = "\<lambda>c. if c = a then Bar span else NoBar"])
      (use assms in \<open>auto simp: gantt_cells.simps [of n a span]\<close>)
  then show ?thesis by auto
qed

section \<open>Properties\<close>

text \<open>C25: the loops over dates end from whatever dates they start, also from slots that are neither
  \<open>am\<close> nor \<open>pm\<close>, and so does the loop over the columns of a row of the chart, which jumps over the
  columns of a bar: each has the list of the recursive function that stands for it elsewhere.\<close>

theorem date_loops_end:
  "map_option snd (range_loop d cs e es) = Some (slots_loop d cs e es)
   \<and> map_option snd (trimester_loop d e) = Some (weeks_upto d e)
   \<and> map_option snd (gantt_loop d e) = Some (chart_weeks d e)
   \<and> map_option snd (export_loop d e) = Some (ics_days d e)
   \<and> (case barCols tz weeks p of (startCol, endCol) \<Rightarrow>
        map_option snd (gantt_row_loop (int (length weeks)) startCol (endCol - startCol + 1))
          = Some (gr_cells (ganttRow tz sinceMidnight lower c weeks now p)))"
proof -
  obtain a b where ab: "barCols tz weeks p = (a, b)" by force
  then have "1 \<le> b - a + 1" using barCols_order [of tz weeks p] by simp
  from gantt_row_loop_ends [OF this, of "int (length weeks)" a]
  have "map_option snd (gantt_row_loop (int (length weeks)) a (b - a + 1)) = Some (gr_cells (ganttRow tz sinceMidnight lower c weeks now p))"
    by (auto simp: ganttRow_def ab Let_def)
  then show ?thesis
    using range_loop_ends [of d cs e es] trimester_loop_ends [of d e] gantt_loop_ends [of d e] export_loop_ends [of d e]
    by (auto simp: ab)
qed

end
