(* ===== verification/Pages.thy ===== *)
theory Pages
  imports TeamGrid Coverage
begin

text \<open>
  The pages around the numbers of \<open>Coverage\<close>: the run coverage page, the availability page and the
  workload table. A page is a value: what it lists, with which class, text and mark. Proved here:
  the status bar counts what the coverage page shows in red, the banner of a week is there when
  something in it is red, the table of the workload has a cell under each of its headers, and the
  summary of a day counts its cards.
\<close>

section \<open>Run coverage\<close>

text \<open>One line of \<open>runPeopleListHtml\<close>: the person, and the notes, a dash for \<open>None\<close>. \<open>[]\<close> is \<open>On run: None\<close>.\<close>

definition runPeopleListHtml :: "client \<Rightarrow> person list \<Rightarrow> jsstring \<Rightarrow> bool \<Rightarrow> (jsstring \<times> jsstring option) list" where
  "runPeopleListHtml c people ws withHours =
     map (\<lambda>p. let notes = collectRunNotes (c_planning c) (p_id p) ws;
                  hrs = (if withHours then js '' ('' @ str_of_nat (rr_run (calcRunRatio (c_planning c) (p_id p) ws)) @ js ''h)'' else [])
              in (escapeHtml (or_else (p_avatar_emoji p) emoji_person) @ js '' '' @ escapeHtml (p_name p) @ hrs,
                  if notes \<noteq> [] then Some (escapeHtml (replace_all 10 mid_dot notes)) else None)) people"

record coverage_row =
  cr_day :: jsstring
  cr_am :: "jsstring \<times> nat"
  cr_pm :: "jsstring \<times> nat"

record coverage_week =
  cw_title :: jsstring
  cw_rows :: "coverage_row list"
  cw_banner :: bool
  cw_run :: "(jsstring \<times> jsstring option) list option"
  cw_assign :: bool

definition cover_class :: "int option \<Rightarrow> nat \<Rightarrow> jsstring" where
  "cover_class target n = (if below_num (int n) target then js ''below'' else js ''met'')"

definition coverage_card :: "(date \<Rightarrow> int) \<Rightarrow> bool \<Rightarrow> client \<Rightarrow> date \<Rightarrow> coverage_week" where
  "coverage_card tz showWeekend c w =
     (let ws = formatWeekStart w; target = runTarget (c_settings c); rotation = (run_mode (c_settings c) = js ''rotation'');
          people = listedRunPeople c ws
      in \<lparr>cw_title = js ''Week '' @ str_of_int (getWeekNumber tz w) @ [32, 8212, 32] @ ws,
          cw_rows = map (\<lambda>d. \<lparr>cr_day = dc_name d, cr_am = (cover_class target (sc_onRun (dc_am d)), sc_onRun (dc_am d)),
                                cr_pm = (cover_class target (sc_onRun (dc_pm d)), sc_onRun (dc_pm d))\<rparr>)
                      (calcRunCoveragePerSlot showWeekend c ws),
          cw_banner = weekBelow showWeekend c ws,
          cw_run = (if rotation then Some (runPeopleListHtml c people ws False)
                    else if people \<noteq> [] then Some (runPeopleListHtml c people ws True) else None),
          cw_assign = (rotation \<and> canEdit (c_user c))\<rparr>)"

definition renderRunCoverage :: "(date \<Rightarrow> int) \<Rightarrow> env \<Rightarrow> bool \<Rightarrow> client \<Rightarrow> coverage_week list" where
  "renderRunCoverage tz e showWeekend c = map (coverage_card tz showWeekend c) (client_weeks e c)"

section \<open>Availability\<close>

text \<open>A half-day of a card: class, background, text, and whether it is the current one.\<close>

record avail_half =
  ah_class :: jsstring
  ah_background :: "jsstring option"
  ah_detail :: jsstring
  ah_now :: bool

record avail_page =
  ap_day :: jsstring
  ap_date :: jsstring
  ap_holiday :: "jsstring option"
  ap_cards :: "(person \<times> avail_half \<times> avail_half) list"
  ap_summary :: day_summary

definition availHalf :: "client \<Rightarrow> jsstring \<Rightarrow> bool \<Rightarrow> jsstring \<Rightarrow> jsstring \<Rightarrow> avail_half" where
  "availHalf c pid current selDate slot =
     (let sd = getSlot (c_planning c) pid selDate slot; cls = getSlotClass sd
      in \<lparr>ah_class = cls, ah_background = (if js_includes cls (js ''project'') then projectColorBg sd else None),
          ah_detail = escapeHtml (availabilityDetail sd), ah_now = current\<rparr>)"

definition renderAvailability :: "date \<Rightarrow> int \<Rightarrow> int \<Rightarrow> client \<Rightarrow> avail_page" where
  "renderAvailability today hour dayOffset c =
     (let people = getActivePeople (c_people c); selDay = setDate today (getDate today + dayOffset); selDate = fmtDate selDay;
          isToday = (dayOffset = 0); currentSlot = (if hour < 12 then js ''am'' else js ''pm'')
      in \<lparr>ap_day = dayNames7 ! nat ((getDay selDay + 6) mod 7), ap_date = selDate,
          ap_holiday = isHoliday (c_settings c) (c_holidays c) selDate,
          ap_cards = map (\<lambda>p. (p, availHalf c (p_id p) (isToday \<and> currentSlot = js ''am'') selDate (js ''am''),
                                  availHalf c (p_id p) (isToday \<and> currentSlot = js ''pm'') selDate (js ''pm''))) people,
          ap_summary = daySummary people (c_planning c) selDate\<rparr>)"

section \<open>Workload\<close>

record load_table =
  lt_weeks :: "(jsstring \<times> nat \<times> bool) list"
  lt_days :: "(jsstring \<times> int \<times> bool) list"
  lt_rows :: "(person \<times> (load_cell \<times> jsstring) list) list"
  lt_remote :: "(int \<times> bool) list"
  lt_offsite :: "(int \<times> bool) list"
  lt_presence :: "(int \<times> nat \<times> bool) list"

text \<open>The nested loops over weeks and days that the header and every row of the table repeat.\<close>

definition each_day :: "bool \<Rightarrow> date list \<Rightarrow> (nat \<Rightarrow> nat \<Rightarrow> date \<Rightarrow> 'a) \<Rightarrow> 'a list" where
  "each_day showWeekend weeks f =
     concat (map (\<lambda>(wi, w). concat (map (\<lambda>(di, d). if 5 \<le> di \<and> \<not> showWeekend then [] else [f wi di d])
       (zip [0..<7] (getWeekDays w)))) (zip [0..<length weeks] weeks))"

definition dayCount :: "bool \<Rightarrow> nat" where
  "dayCount showWeekend = (if showWeekend then 7 else 5)"

definition renderWorkload :: "(date \<Rightarrow> int) \<Rightarrow> (nat \<Rightarrow> nat \<Rightarrow> int) \<Rightarrow> env \<Rightarrow> bool \<Rightarrow> client \<Rightarrow> load_table" where
  "renderWorkload tz pct e showWeekend c =
     (let people = getActivePeople (c_people c); weeks = client_weeks e c; pl = c_planning c;
          sep = (\<lambda>wi di. di = 0 \<and> 0 < wi)
      in \<lparr>lt_weeks = map (\<lambda>(wi, w). (js ''W'' @ str_of_int (getWeekNumber tz w) @ js '' '' @ drop 5 (formatWeekStart w), dayCount showWeekend, 0 < wi))
                       (zip [0..<length weeks] weeks),
          lt_days = each_day showWeekend weeks (\<lambda>wi di d. (dayNames7 ! di, getDate d, sep wi di)),
          lt_rows = map (\<lambda>p. (p, each_day showWeekend weeks (\<lambda>wi di d.
                       (workloadCell pl (p_id p) (fmtDate d), escapeHtml (js_join (js '', '') (workloadTip pl (p_id p) (fmtDate d))))))) people,
          lt_remote = each_day showWeekend weeks (\<lambda>wi di d. (remotePct pct people pl (fmtDate d), sep wi di)),
          lt_offsite = each_day showWeekend weeks (\<lambda>wi di d. (offsitePct pct people pl (fmtDate d), sep wi di)),
          lt_presence = map (\<lambda>(wi, w). (presencePct showWeekend people pl w, dayCount showWeekend, 0 < wi)) (zip [0..<length weeks] weeks)\<rparr>)"

text \<open>The text of a cell, and whether it is red.\<close>

definition load_text :: "load_cell \<Rightarrow> jsstring \<times> bool" where
  "load_text x = (if 0 < lc_avg x then str_of_int (lc_avg x) @ js ''%'' else [8212], lc_over x)"

section \<open>Columns of the table\<close>

lemma each_day_shown: "each_day wk weeks f = map (\<lambda>(wi, di, d). f wi di d) (shown_days wk weeks)"
proof -
  have day: "concat (map (\<lambda>(di, d). if 5 \<le> di \<and> \<not> wk then [] else [f wi di d]) xs)
      = map (\<lambda>(wi, di, d). f wi di d) (map (\<lambda>(di, d). (wi, di, d)) (filter (\<lambda>(di, d). di < 5 \<or> wk) xs))" for wi and xs :: "(nat \<times> date) list"
    by (induction xs) (auto split: if_splits)
  have "concat (map (\<lambda>(wi, w). concat (map (\<lambda>(di, d). if 5 \<le> di \<and> \<not> wk then [] else [f wi di d]) (zip [0..<7] (getWeekDays w)))) ws)
    = map (\<lambda>(wi, di, d). f wi di d) (concat (map (\<lambda>(wi, w). map (\<lambda>(di, d). (wi, di, d)) (filter (\<lambda>(di, d). di < 5 \<or> wk) (zip [0..<7] (getWeekDays w)))) ws))"
    for ws :: "(nat \<times> date) list"
    by (induction ws) (auto simp: day)
  then show ?thesis by (simp add: each_day_def shown_days_def)
qed

lemma length_each_day: "length (each_day wk weeks f) = dayCount wk * length weeks"
  using length_shown_days [of wk weeks] by (simp add: each_day_shown dayCount_def slotsPerWeek_def split: if_splits)

lemma sum_widths: "sum_list (map (\<lambda>x. dayCount wk) zs) = dayCount wk * length zs"
  by (induction zs) auto

section \<open>The summary of a day\<close>

definition day_halves :: "person list \<Rightarrow> planning \<Rightarrow> jsstring \<Rightarrow> slot_data option list" where
  "day_halves people pl ds = concat (map (\<lambda>p. map (\<lambda>slot. getSlot pl (p_id p) ds slot) slots2) people)"

text \<open>How many half-days have one of some categories.\<close>

definition count_categories :: "jsstring option list \<Rightarrow> slot_data option list \<Rightarrow> nat" where
  "count_categories cats sds = length (filter (\<lambda>sd. uniCategorise sd \<in> set cats) sds)"

lemma daySummary_fold: "daySummary people pl ds = fold summary_step (day_halves people pl ds)
    \<lparr>ds_away = 0, ds_run = 0, ds_proj = 0, ds_nf = 0, ds_und = 0, ds_inc = 0\<rparr>"
proof -
  have "fold (\<lambda>p. fold (\<lambda>slot. summary_step (getSlot pl (p_id p) ds slot)) slots2) people s = fold summary_step (day_halves people pl ds) s" for s
    by (induction people arbitrary: s) (simp_all add: day_halves_def slots2_def)
  then show ?thesis by (simp add: daySummary_def)
qed

lemma summary_step_category:
  "summary_step sd s =
     (if uniCategorise sd = Some (js ''away'') then s\<lparr>ds_away := ds_away s + 1\<rparr>
      else if uniCategorise sd = Some (js ''incident'') then s\<lparr>ds_inc := ds_inc s + 1\<rparr>
      else if uniCategorise sd = Some (js ''undetermined'') then s\<lparr>ds_und := ds_und s + 1\<rparr>
      else if uniCategorise sd \<in> {Some (js ''run''), Some (js ''project+run'')} then s\<lparr>ds_run := ds_run s + 1\<rparr>
      else if uniCategorise sd \<in> {Some (js ''project''), Some (js ''other'')} then s\<lparr>ds_proj := ds_proj s + 1\<rparr>
      else s\<lparr>ds_nf := ds_nf s + 1\<rparr>)"
  by (auto simp: summary_step_def uniCategorise_def js_eq_iff split: option.splits)

lemma category_values:
  "uniCategorise sd \<in> {None, Some (js ''remote-only''), Some (js ''offsite-only''), Some (js ''away''), Some (js ''incident''),
     Some (js ''undetermined''), Some (js ''run''), Some (js ''project+run''), Some (js ''project''), Some (js ''other'')}"
  by (auto simp: uniCategorise_def split: option.splits)

lemma count_categories_Cons:
  "count_categories cats (sd # sds) = of_bool (uniCategorise sd \<in> set cats) + count_categories cats sds"
  by (simp add: count_categories_def)

lemma category_distinct:
  "distinct [None, Some (js ''remote-only''), Some (js ''offsite-only''), Some (js ''away''), Some (js ''incident''),
     Some (js ''undetermined''), Some (js ''run''), Some (js ''project+run''), Some (js ''project''), Some (js ''other'')]"
  by (simp add: js_eq_iff)

lemma summary_counts:
  "fold summary_step sds s =
     \<lparr>ds_away = ds_away s + count_categories [Some (js ''away'')] sds,
      ds_run = ds_run s + count_categories [Some (js ''run''), Some (js ''project+run'')] sds,
      ds_proj = ds_proj s + count_categories [Some (js ''project''), Some (js ''other'')] sds,
      ds_nf = ds_nf s + count_categories [None, Some (js ''remote-only''), Some (js ''offsite-only'')] sds,
      ds_und = ds_und s + count_categories [Some (js ''undetermined'')] sds,
      ds_inc = ds_inc s + count_categories [Some (js ''incident'')] sds\<rparr>"
proof (induction sds arbitrary: s)
  case Nil
  show ?case by (simp add: count_categories_def)
next
  case (Cons sd sds)
  show ?case
    using category_values [of sd] category_distinct
    by (elim insertE emptyE) (simp_all add: Cons.IH summary_step_category [of sd s] count_categories_Cons)
qed

section \<open>Red cells\<close>

definition red_cells :: "coverage_week \<Rightarrow> nat" where
  "red_cells wk = length (filter (\<lambda>(cls, n). cls = js ''below'') (concat (map (\<lambda>r. [cr_am r, cr_pm r]) (cw_rows wk))))"

lemma cover_class_below: "cover_class t n = js ''below'' \<longleftrightarrow> below_num (int n) t"
  by (simp add: cover_class_def js_eq_iff)

lemma red_cells_card:
  "red_cells (coverage_card tz showWeekend c w) =
     count_below (runTarget (c_settings c)) (calcRunCoveragePerSlot showWeekend c (formatWeekStart w))"
proof -
  have "length (filter (\<lambda>(cls, n). cls = js ''below'') (concat (map (\<lambda>d. [(cover_class t (sc_onRun (dc_am d)), sc_onRun (dc_am d)),
      (cover_class t (sc_onRun (dc_pm d)), sc_onRun (dc_pm d))]) ds))) = count_below t ds" for t ds
    by (induction ds) (simp_all add: count_below_def cover_class_below)
  then show ?thesis by (simp add: red_cells_def coverage_card_def Let_def comp_def)
qed

lemma banner_card: "cw_banner (coverage_card tz showWeekend c w) \<longleftrightarrow> 0 < red_cells (coverage_card tz showWeekend c w)"
proof -
  have "list_ex (\<lambda>d. below_num (int (sc_onRun (dc_am d))) t \<or> below_num (int (sc_onRun (dc_pm d))) t) ds \<longleftrightarrow> 0 < count_below t ds" for t ds
    by (induction ds) (auto simp: count_below_def)
  then show ?thesis by (simp add: red_cells_card) (simp add: coverage_card_def Let_def weekBelow_def)
qed

section \<open>Properties\<close>

text \<open>C30: the number of slots below target in the status bar is the number of cells that the run
  coverage page shows as below, over all its weeks, and the banner of a week is shown exactly when
  one of its cells is.\<close>

theorem status_bar_matches_page:
  "case renderRunCoverage tz e showWeekend c of page \<Rightarrow>
     case sum_list (map red_cells page) of n \<Rightarrow>
       snd (updateStatusBar tz e showWeekend c) = js ''Week '' @ str_of_int (getWeekNumber tz (env_today e)) @ mid_dot @ fmtDate (env_today e)
         @ (if 0 < n then [32, 9888, 32] @ str_of_nat n @ js '' slots below run target'' else [])
       \<and> map cw_banner page = map (\<lambda>wk. 0 < red_cells wk) page"
proof -
  have "map red_cells (renderRunCoverage tz e showWeekend c)
      = map (\<lambda>w. count_below (runTarget (c_settings c)) (calcRunCoveragePerSlot showWeekend c (formatWeekStart w))) (client_weeks e c)"
    by (simp add: renderRunCoverage_def red_cells_card)
  then show ?thesis
    by (simp only: updateStatusBar_def Let_def snd_conv) (simp add: renderRunCoverage_def banner_card)
qed

text \<open>The table of the workload is aligned: every row has a cell under each day header, that of
  the header's day, the summary rows too, and the week headers and the presence row are as wide as
  their days.\<close>

theorem workload_table_aligned:
  "case renderWorkload tz pct e wk c of t \<Rightarrow> case shown_days wk (client_weeks e c) of days \<Rightarrow>
     lt_days t = map (\<lambda>(wi, di, d). (dayNames7 ! di, getDate d, di = 0 \<and> 0 < wi)) days
     \<and> map fst (lt_rows t) = getActivePeople (c_people c)
     \<and> list_all (\<lambda>(p, cells). map fst cells = map (\<lambda>(wi, di, d). workloadCell (c_planning c) (p_id p) (fmtDate d)) days) (lt_rows t)
     \<and> map fst (lt_remote t) = map (\<lambda>(wi, di, d). remotePct pct (getActivePeople (c_people c)) (c_planning c) (fmtDate d)) days
     \<and> map fst (lt_offsite t) = map (\<lambda>(wi, di, d). offsitePct pct (getActivePeople (c_people c)) (c_planning c) (fmtDate d)) days
     \<and> sum_list (map (\<lambda>(label, width, sep). width) (lt_weeks t)) = length (lt_days t)
     \<and> sum_list (map (\<lambda>(pct, width, sep). width) (lt_presence t)) = length (lt_days t)"
proof -
  have len: "length (shown_days wk weeks) = dayCount wk * length weeks" for weeks
    using length_each_day [of wk weeks "\<lambda>_ _ _. ()"] by (simp add: each_day_shown)
  show ?thesis
    using sum_widths [of wk "zip [0..<length (client_weeks e c)] (client_weeks e c)"]
    by (simp add: renderWorkload_def Let_def each_day_shown len list_all_iff comp_def case_prod_beta)
qed

text \<open>The six numbers under the availability cards count the half-days of the cards by the
  category that the editor gives them, an otherwise empty slot with a place among the projects.\<close>

theorem summary_counts_categories:
  "case renderAvailability today hour off c of page \<Rightarrow>
     case day_halves (map fst (ap_cards page)) (c_planning c) (ap_date page) of sds \<Rightarrow>
       ap_summary page =
         \<lparr>ds_away = count_categories [Some (js ''away'')] sds,
          ds_run = count_categories [Some (js ''run''), Some (js ''project+run'')] sds,
          ds_proj = count_categories [Some (js ''project''), Some (js ''other'')] sds,
          ds_nf = count_categories [None, Some (js ''remote-only''), Some (js ''offsite-only'')] sds,
          ds_und = count_categories [Some (js ''undetermined'')] sds,
          ds_inc = count_categories [Some (js ''incident'')] sds\<rparr>
       \<and> concat (map (\<lambda>(p, am, pm). [ah_class am, ah_class pm]) (ap_cards page)) = map getSlotClass sds"
proof -
  have "concat (map (\<lambda>(p, am, pm). [ah_class am, ah_class pm]) (map (\<lambda>p. (p, availHalf c (p_id p) a ds (js ''am''), availHalf c (p_id p) b ds (js ''pm''))) ps))
      = map getSlotClass (day_halves ps (c_planning c) ds)" for a b ds ps
    by (induction ps) (simp_all add: day_halves_def slots2_def availHalf_def Let_def)
  then show ?thesis
    by (simp add: renderAvailability_def Let_def comp_def daySummary_fold summary_counts)
qed

text \<open>A half-day with nothing but a remote mark, which the card shows as not filled, is a project there.\<close>

lemma remote_only_counted_as_project:
  assumes "sd = Some \<lparr>sd_state = js ''filled'', sd_away = None, sd_incident = None, sd_projects = Some [], sd_run = False,
      sd_run_note = [], sd_remote = True, sd_offsite = False\<rparr>"
  shows "getSlotClass sd = js ''not-filled remote'' \<and> ds_proj (summary_step sd s) = ds_proj s + 1"
  by (simp add: assms getSlotClass_def summary_step_def has_projects_def js_eq_iff)

end
