(* ===== verification/OncallPage.thy ===== *)
theory OncallPage
  imports Oncall Trimester Escape ServerTables
begin

text \<open>
  The page of the on-call tab, \<open>renderOnCallBuild\<close>: the table of the weeks, whose cells span rows
  and columns and whose controls carry a person and a week, and the two blocks of statistics.
  Proved here: the rows of a week with assignments fill the four columns of the table, and every
  assignment has one row, whose list of people has that person selected and no one else.
\<close>

section \<open>The table\<close>

datatype oncall_cell =
    WeekCell nat "jsstring option"
  | NoOncall jsstring
  | PersonSelect jsstring jsstring "(jsstring \<times> jsstring \<times> bool) list"
  | CommentField jsstring jsstring jsstring
  | RemoveButton jsstring jsstring
  | AddPersonButton jsstring

text \<open>\<open>peopleOptions\<close>: the value, the text and whether it is selected.\<close>

definition peopleOptions :: "person list \<Rightarrow> jsstring \<Rightarrow> (jsstring \<times> jsstring \<times> bool) list" where
  "peopleOptions people selected =
     map (\<lambda>p. (p_id p, escapeHtml (or_else (p_avatar_emoji p) emoji_person) @ js '' '' @ escapeHtml (p_name p), p_id p = selected)) people"

definition entry_cells :: "person list \<Rightarrow> jsstring \<Rightarrow> oncall_entry \<Rightarrow> oncall_cell list" where
  "entry_cells people ws e =
     [PersonSelect (oe_person_id e) ws (peopleOptions people (oe_person_id e)),
      CommentField (oe_person_id e) ws (escapeHtml (oe_comment e)), RemoveButton (oe_person_id e) ws]"

definition week_block :: "(date \<Rightarrow> int) \<Rightarrow> client \<Rightarrow> jsstring \<Rightarrow> oncall_cell list list" where
  "week_block tz c ws =
     (let people = getActivePeople (c_people c); entries = shown_entries (c_people c) (c_oncall c) ws
      in (WeekCell (length entries + 1) (weekLabel tz ws)
            # (case entries of [] \<Rightarrow> [NoOncall ws] | e # _ \<Rightarrow> entry_cells people ws e))
         # map (entry_cells people ws) (drop 1 entries)
         @ [[AddPersonButton ws]])"

section \<open>Statistics\<close>

text \<open>\<open>None\<close> is \<open>No on-call assignments\<close>; \<open>share\<close> is \<open>(c / total * 100).toFixed(0)\<close>.\<close>

definition statsBlock :: "(nat \<Rightarrow> nat \<Rightarrow> int) \<Rightarrow> client \<Rightarrow> jsstring \<Rightarrow> jsstring \<Rightarrow> (jsstring \<times> nat \<times> int) list option" where
  "statsBlock share c startStr endStr =
     (case oncallCounts (c_oncall c) startStr endStr of (counts, n) \<Rightarrow>
        if n = 0 then None
        else Some (map (\<lambda>(p, k). (escapeHtml (or_else (p_avatar_emoji p) emoji_person) @ js '' '' @ escapeHtml (p_name p), k, share k n))
               (statsRows (c_people c) counts)))"

definition triNames :: "jsstring list" where
  "triNames = [js ''Jan'' @ [8211] @ js ''Mar'', js ''Apr'' @ [8211] @ js ''Jun'', js ''Jul'' @ [8211] @ js ''Sep'', js ''Oct'' @ [8211] @ js ''Dec'']"

record oncall_page =
  op_title :: jsstring
  op_years :: "(int \<times> bool) list"
  op_reset :: bool
  op_blocks :: "oncall_cell list list list"
  op_year_stats :: "(jsstring \<times> nat \<times> int) list option"
  op_tri_stats :: "(jsstring \<times> nat \<times> int) list option"

text \<open>\<open>None\<close> is the exception of \<open>trimesterWeeks\<close> on a week that does not parse.\<close>

definition renderOnCallBuild :: "(date \<Rightarrow> int) \<Rightarrow> (nat \<Rightarrow> nat \<Rightarrow> int) \<Rightarrow> oncall_view \<Rightarrow> client \<Rightarrow> oncall_page option" where
  "renderOnCallBuild tz share v c =
     (let year = ov_year v; tri = ov_tri v
      in map_option (\<lambda>weeks.
           \<lparr>op_title = triNames ! nat tri @ js '' '' @ str_of_int year,
            op_years = map (\<lambda>y. (y, y = year)) [year - 2, year - 1, year, year + 1, year + 2],
            op_reset = (0 < ov_before v \<or> 0 < ov_after v),
            op_blocks = map (week_block tz c) weeks,
            op_year_stats = statsBlock share c (str_of_int year @ js ''/01/01'') (str_of_int year @ js ''/12/31''),
            op_tri_stats = statsBlock share c (fmtDate (new_date year (tri * 3) 1)) (fmtDate (new_date year (tri * 3 + 3) 0))\<rparr>)
          (trimesterWeeks year tri (ov_before v) (ov_after v)))"

section \<open>Layout\<close>

fun col_span :: "oncall_cell \<Rightarrow> nat" where
  "col_span (NoOncall ws) = 3"
| "col_span (AddPersonButton ws) = 3"
| "col_span _ = 1"

fun row_span :: "oncall_cell list list \<Rightarrow> nat" where
  "row_span ((WeekCell n l # cells) # rows) = n"
| "row_span _ = 1"

text \<open>The columns of a row: its own cells and the week cell of the first row, as far down as it reaches.\<close>

definition row_columns :: "oncall_cell list list \<Rightarrow> nat \<Rightarrow> nat" where
  "row_columns block i = sum_list (map col_span (block ! i)) + (if 0 < i \<and> i < row_span block then 1 else 0)"

fun row_select :: "oncall_cell list \<Rightarrow> (jsstring \<times> jsstring list) list" where
  "row_select [] = []"
| "row_select (PersonSelect pid ws opts # cells) = (pid, map fst (filter (\<lambda>(v, l, s). s) opts)) # row_select cells"
| "row_select (_ # cells) = row_select cells"

lemma week_block_entries:
  assumes "shown_entries (c_people c) (c_oncall c) ws = e # es"
  shows "week_block tz c ws =
     (WeekCell (length es + 2) (weekLabel tz ws) # entry_cells (getActivePeople (c_people c)) ws e)
     # map (entry_cells (getActivePeople (c_people c)) ws) es @ [[AddPersonButton ws]]"
  by (simp add: week_block_def assms Let_def)

lemma week_block_none:
  "shown_entries (c_people c) (c_oncall c) ws = [] \<Longrightarrow>
     week_block tz c ws = [[WeekCell 1 (weekLabel tz ws), NoOncall ws], [AddPersonButton ws]]"
  by (simp add: week_block_def Let_def)

lemma selected_option:
  assumes "distinct (map p_id people)"
  shows "map fst (filter (\<lambda>(v, l, s). s) (peopleOptions people pid)) = (if pid \<in> p_id ` set people then [pid] else [])"
  using assms by (induction people) (auto simp: peopleOptions_def)

lemma row_select_entry:
  "row_select (entry_cells people ws e) = [(oe_person_id e, map fst (filter (\<lambda>(v, l, s). s) (peopleOptions people (oe_person_id e))))]"
  by (simp add: entry_cells_def)

lemma entry_span: "sum_list (map col_span (entry_cells people ws e)) = 3"
  by (simp add: entry_cells_def)

section \<open>Properties\<close>

text \<open>In the table of the on-call tab every assignment of a week that has some has a row, in
  order, whose list has its person selected and nobody else, and every row of the week fills the
  four columns of the table, the cell of the week reaching down to the last one.\<close>

theorem oncall_rows_rectangular:
  assumes "distinct (map p_id (getActivePeople (c_people c)))" and "shown_entries (c_people c) (c_oncall c) ws \<noteq> []"
  shows "case week_block tz c ws of block \<Rightarrow>
     row_span block = length block \<and> list_all (\<lambda>i. row_columns block i = 4) [0..<length block]
     \<and> concat (map row_select block) = map (\<lambda>e. (oe_person_id e, [oe_person_id e])) (shown_entries (c_people c) (c_oncall c) ws)"
proof -
  obtain e es where es: "shown_entries (c_people c) (c_oncall c) ws = e # es" using assms(2) by (cases "shown_entries (c_people c) (c_oncall c) ws") auto
  let ?people = "getActivePeople (c_people c)"
  let ?block = "week_block tz c ws"
  note block = week_block_entries [OF es, of tz]
  have len: "length ?block = length es + 2" by (simp add: block)
  have cols: "row_columns ?block i = 4" if "i < length ?block" for i
  proof (cases i)
    case 0
    then show ?thesis by (simp add: row_columns_def block entry_span)
  next
    case (Suc j)
    have "sum_list (map col_span (?block ! i)) = 3"
      using that by (cases "j < length es") (simp_all add: block Suc nth_append entry_span)
    with Suc that show ?thesis by (simp add: row_columns_def len) (simp add: block)
  qed
  have mem: "oe_person_id x \<in> p_id ` set ?people" if "x \<in> set (e # es)" for x
    using that unfolding es [symmetric] by (auto simp: shown_entries_def list_ex_iff intro: rev_image_eqI)
  have "concat (map row_select (map (entry_cells ?people ws) xs)) = map (\<lambda>e. (oe_person_id e, [oe_person_id e])) xs"
    if "set xs \<subseteq> set (e # es)" for xs
    using that by (induction xs) (use mem in \<open>auto simp: row_select_entry selected_option [OF assms(1)]\<close>)
  from this [of "e # es"] have "concat (map row_select ?block) = map (\<lambda>e. (oe_person_id e, [oe_person_id e])) (e # es)"
    by (simp add: block)
  then show ?thesis
    using cols len unfolding es by (simp add: list_all_iff) (simp add: block)
qed

definition demo_staff :: client where
  "demo_staff = demo_client\<lparr>
     c_people := [\<lparr>p_id = js ''p1'', p_name = js ''Ann'', p_role = [], p_sub_team = [], p_avatar_emoji = [], p_avatar_color = [],
       p_start_date = [], p_default_projects = [], p_status = js ''active'', p_archived_date = [], p_is_guest = False, p_ics_token = []\<rparr>],
     c_oncall := [(js ''2026/02/16'', [\<lparr>oe_person_id = js ''p1'', oe_comment = []\<rparr>])]\<rparr>"

theorem oncall_rows_rectangular_witness:
  "case week_block (\<lambda>_. 0) demo_staff (js ''2026/02/16'') of block \<Rightarrow>
     row_span block = length block \<and> list_all (\<lambda>i. row_columns block i = 4) [0..<length block]
     \<and> concat (map row_select block) = map (\<lambda>e. (oe_person_id e, [oe_person_id e]))
         (shown_entries (c_people demo_staff) (c_oncall demo_staff) (js ''2026/02/16''))"
  by (rule oncall_rows_rectangular)
    (simp_all add: demo_staff_def getActivePeople_def shown_entries_def week_entries_def dict_get_or_def dict_get_def)

text \<open>Without an assignment the cell of the week reaches over the first row only: the button of the second is in its column.\<close>

lemma empty_week_misaligned:
  assumes "shown_entries (c_people c) (c_oncall c) ws = []"
  shows "row_columns (week_block tz c ws) 0 = 4 \<and> row_columns (week_block tz c ws) 1 = 3"
  by (simp add: week_block_none [OF assms] row_columns_def)

end
