(* ===== verification/PersonViews.thy ===== *)
theory PersonViews
  imports TeamGrid Coverage Directory
begin

text \<open>
  The views that show people: the people page and its cards, the archived people, the guests, and
  the week of one person. Proved here: archiving moves a card from one page to the other and
  restoring moves it back, everyone has one card, and the week of a person shows the half-days of
  the team grid with the class the grid gives them, each opening the editor on itself.
\<close>

section \<open>Cards\<close>

text \<open>Avatar, name, details, and whether the buttons to edit, archive or delete are there.\<close>

record person_card =
  pcd_id :: jsstring
  pcd_avatar :: jsstring
  pcd_name :: jsstring
  pcd_meta :: jsstring
  pcd_edit :: bool

definition personCard :: "client \<Rightarrow> person \<Rightarrow> person_card" where
  "personCard c p = \<lparr>pcd_id = p_id p, pcd_avatar = escapeHtml (p_avatar_emoji p), pcd_name = escapeHtml (p_name p),
     pcd_meta = escapeHtml (or_else (p_role p) (js ''No role'')) @ (if p_sub_team p \<noteq> [] then mid_dot @ escapeHtml (p_sub_team p) else [])
       @ (if p_is_guest p then mid_dot @ js ''Guest'' else []),
     pcd_edit = canEdit (c_user c)\<rparr>"

text \<open>The team members, and the guests where there are any; whether a member can be added.\<close>

definition renderPeople :: "client \<Rightarrow> bool \<times> person_card list \<times> person_card list option" where
  "renderPeople c =
     (let active = getActivePeople (c_people c); guests = getActiveGuests (c_people c)
      in (canEdit (c_user c), map (personCard c) active, if guests \<noteq> [] then Some (map (personCard c) guests) else None))"

record archived_card =
  acd_id :: jsstring
  acd_avatar :: jsstring
  acd_name :: jsstring
  acd_meta :: jsstring
  acd_restore :: bool
  acd_delete :: bool

definition archived_card :: "client \<Rightarrow> person \<Rightarrow> archived_card" where
  "archived_card c p = \<lparr>acd_id = p_id p, acd_avatar = escapeHtml (p_avatar_emoji p), acd_name = escapeHtml (p_name p),
     acd_meta = escapeHtml (p_role p) @ mid_dot @ js ''Archived: '' @ or_else (p_archived_date p) (js ''unknown'')
       @ (if p_is_guest p then mid_dot @ js ''Guest'' else []),
     acd_restore = canEdit (c_user c), acd_delete = isAdmin (c_user c)\<rparr>"

definition renderArchived :: "client \<Rightarrow> archived_card list" where
  "renderArchived c = map (archived_card c) (getArchivedPeople (c_people c))"

section \<open>Guests\<close>

text \<open>The grid of the guests: no groups, no marks of on-call weeks and no summary. \<open>None\<close> is \<open>No guests\<close>.\<close>

definition renderGuests :: "(date \<Rightarrow> int) \<Rightarrow> env \<Rightarrow> bool \<Rightarrow> client
    \<Rightarrow> ((jsstring \<times> nat \<times> bool) list \<times> day_header list \<times> (person \<times> grid_cell list) list) option" where
  "renderGuests tz e showWeekend c =
     (let guests = getActiveGuests (c_people c); weeks = client_weeks e c; slots = allSlots showWeekend weeks
      in if guests = [] then None
         else Some (weekHeaders tz showWeekend weeks, dayHeaders showWeekend (c_settings c) (c_holidays c) weeks,
                    map (\<lambda>p. (p, map (\<lambda>x. x\<lparr>gc_on_call := False\<rparr>) (personCells c weeks (p_id p) None slots))) guests))"

section \<open>The week of a person\<close>

record half_tile =
  tl_date :: jsstring
  tl_slot :: jsstring
  tl_class :: jsstring
  tl_title :: jsstring
  tl_label :: jsstring
  tl_click :: bool

record my_page =
  mp_person :: person
  mp_meta :: jsstring
  mp_period :: "jsstring \<times> jsstring"
  mp_copy :: bool
  mp_back :: bool
  mp_subscribe :: "jsstring option"
  mp_token :: "(jsstring \<times> bool) option"
  mp_ratios :: "(jsstring \<times> nat \<times> nat) list"
  mp_weeks :: "(jsstring \<times> (jsstring \<times> half_tile list) list) list"

datatype my_week = AskWho "(jsstring \<times> jsstring) list" | PersonNotFound | MyWeek my_page

definition half_tile :: "client \<Rightarrow> jsstring \<Rightarrow> jsstring \<Rightarrow> jsstring \<Rightarrow> half_tile" where
  "half_tile c pid ds slot =
     (let sd = getSlot (c_planning c) pid ds slot
      in \<lparr>tl_date = ds, tl_slot = slot, tl_class = getSlotClass sd, tl_title = (if slot = js ''am'' then js ''AM'' else js ''PM''),
          tl_label = escapeHtml (getSlotLabel sd), tl_click = canEdit (c_user c)\<rparr>)"

definition my_week_days :: "client \<Rightarrow> bool \<Rightarrow> jsstring \<Rightarrow> date \<Rightarrow> (jsstring \<times> half_tile list) list" where
  "my_week_days c showWeekend pid w =
     concat (map (\<lambda>(di, d). if 5 \<le> di \<and> \<not> showWeekend then []
        else [(dayNames7 ! di @ js '' '' @ fmtDate d, map (half_tile c pid (fmtDate d)) slots2)]) (zip [0..<7] (getWeekDays w)))"

definition renderMyWeek :: "(date \<Rightarrow> int) \<Rightarrow> jsstring \<Rightarrow> env \<Rightarrow> bool \<Rightarrow> jsstring \<Rightarrow> jsstring \<Rightarrow> client \<Rightarrow> my_week" where
  "renderMyWeek tz origin e showWeekend currentPersonId myPersonId c =
     (let pid = or_else currentPersonId myPersonId
      in if pid = [] then AskWho (map (\<lambda>p. (p_id p, escapeHtml (p_name p))) (filter (\<lambda>p. p_status p = js ''active'') (c_people c)))
         else case getPerson (c_people c) pid of
           None \<Rightarrow> PersonNotFound
         | Some p \<Rightarrow>
             let weeks = client_weeks e c
             in MyWeek \<lparr>mp_person = p,
                  mp_meta = escapeHtml (p_role p) @ (if p_sub_team p \<noteq> [] then mid_dot @ escapeHtml (p_sub_team p) else [])
                    @ (if p_is_guest p then mid_dot @ js ''Guest'' else []),
                  mp_period = (formatWeekStart (hd weeks), formatWeekStart (last weeks)),
                  mp_copy = canEdit (c_user c), mp_back = (currentPersonId \<noteq> []),
                  mp_subscribe = (if p_ics_token p \<noteq> [] then Some (origin @ js ''/api/ics/public/'' @ p_ics_token p) else None),
                  mp_token = (if isAdmin (c_user c) then Some (if p_ics_token p \<noteq> [] then js ''Reset'' else js ''Generate'', p_ics_token p \<noteq> []) else None),
                  mp_ratios = map (\<lambda>w. let r = calcRunRatio (c_planning c) (p_id p) (formatWeekStart w)
                                in (js ''W'' @ str_of_int (getWeekNumber tz w), rr_run r, rr_working r)) weeks,
                  mp_weeks = map (\<lambda>w. (js ''Week '' @ str_of_int (getWeekNumber tz w) @ [32, 8212, 32] @ formatWeekStart w,
                                       my_week_days c showWeekend (p_id p) w)) weeks\<rparr>)"

definition page_tiles :: "my_page \<Rightarrow> half_tile list" where
  "page_tiles m = concat (map (\<lambda>(title, days). concat (map snd days)) (mp_weeks m))"

section \<open>The half-days of the page\<close>

lemma tiles_columns:
  "concat (map (\<lambda>w. concat (map snd (my_week_days c wk pid w))) weeks) = map (\<lambda>sl. half_tile c pid (gs_date sl) (gs_slot sl)) (allSlots wk weeks)"
proof -
  have day: "concat (map snd (concat (map (\<lambda>(di, d). if 5 \<le> di \<and> \<not> wk then []
        else [(dayNames7 ! di @ js '' '' @ fmtDate d, map (half_tile c pid (fmtDate d)) slots2)]) xs)))
      = map (\<lambda>sl. half_tile c pid (gs_date sl) (gs_slot sl)) (concat (map (\<lambda>(di, d). if 5 \<le> di \<and> \<not> wk then []
        else map (\<lambda>slot. \<lparr>gs_date = fmtDate d, gs_slot = slot, gs_week = wi, gs_day = di\<rparr>) slots2) xs))" for wi and xs :: "(nat \<times> date) list"
    by (induction xs) (auto simp: comp_def)
  have "concat (map (\<lambda>w. concat (map snd (my_week_days c wk pid w))) (map snd ws))
      = map (\<lambda>sl. half_tile c pid (gs_date sl) (gs_slot sl)) (concat (map (\<lambda>(wi, w). concat (map (\<lambda>(di, d). if 5 \<le> di \<and> \<not> wk then []
        else map (\<lambda>slot. \<lparr>gs_date = fmtDate d, gs_slot = slot, gs_week = wi, gs_day = di\<rparr>) slots2) (zip [0..<7] (getWeekDays w)))) ws))"
    for ws :: "(nat \<times> date) list"
    by (induction ws) (auto simp: my_week_days_def day)
  from this [of "zip [0..<length weeks] weeks"] show ?thesis by (simp add: allSlots_def)
qed

lemma cells_half_days:
  "map (\<lambda>x. (gs_date (gc_slot x), gs_slot (gc_slot x), gc_class x)) (personCells c weeks pid prev sls)
   = map (\<lambda>sl. (gs_date sl, gs_slot sl, getSlotClass (getSlot (c_planning c) pid (gs_date sl) (gs_slot sl)))) sls"
  by (induction sls arbitrary: prev) (simp_all add: gridCell_def Let_def)

section \<open>The pages of people\<close>

definition people_ids :: "client \<Rightarrow> jsstring list" where
  "people_ids c = (case renderPeople c of (add, team, guests) \<Rightarrow> map pcd_id (team @ (case guests of None \<Rightarrow> [] | Some cards \<Rightarrow> cards)))"

definition archived_ids :: "client \<Rightarrow> jsstring list" where
  "archived_ids c = map acd_id (renderArchived c)"

lemma people_ids_eq: "people_ids c = map p_id (getActivePeople (c_people c) @ getActiveGuests (c_people c))"
  by (simp add: people_ids_def renderPeople_def Let_def personCard_def comp_def)

lemma archived_ids_eq: "archived_ids c = map p_id (getArchivedPeople (c_people c))"
  by (simp add: archived_ids_def renderArchived_def archived_card_def comp_def)

lemma filter_update_first:
  assumes "distinct (map p_id ps)" "\<And>p. p_id (f p) = p_id p"
  shows "map p_id (filter P (update_first (\<lambda>x. p_id x = i) f ps))
    = map p_id (filter (\<lambda>p. if p_id p = i then P (f p) else P p) ps)"
  using assms(1)
proof (induction ps)
  case (Cons p ps)
  have "map p_id (filter P ps) = map p_id (filter (\<lambda>p. if p_id p = i then P (f p) else P p) ps)" if "i \<notin> p_id ` set ps"
    using that by (intro arg_cong [where f = "map p_id"] filter_cong) auto
  then show ?case using Cons by (auto simp: assms(2))
qed simp

definition archived_on :: "jsstring \<Rightarrow> person \<Rightarrow> person" where
  "archived_on d p = p\<lparr>p_status := js ''archived'', p_archived_date := d\<rparr>"

definition restored :: "person \<Rightarrow> person" where
  "restored p = p\<lparr>p_status := js ''active'', p_archived_date := []\<rparr>"

lemma archive_fields [simp]:
  "p_id (archived_on d p) = p_id p" "p_status (archived_on d p) = js ''archived''" "p_is_guest (archived_on d p) = p_is_guest p"
  "p_id (restored p) = p_id p" "p_status (restored p) = js ''active''" "p_is_guest (restored p) = p_is_guest p"
  "js ''archived'' \<noteq> js ''active''"
  by (simp_all add: archived_on_def restored_def js_eq_iff)

definition status_with :: "jsstring \<Rightarrow> jsstring \<Rightarrow> person \<Rightarrow> jsstring" where
  "status_with i st p = (if p_id p = i then st else p_status p)"

lemma ids_after_update:
  assumes "distinct (map p_id (c_people c))" "\<And>p. p_id (f p) = p_id p" "\<And>p. p_is_guest (f p) = p_is_guest p" "\<And>p. p_status (f p) = st"
    and "c_people c' = update_first (\<lambda>x. p_id x = i) f (c_people c)"
  shows "people_ids c' = map p_id (filter (\<lambda>p. status_with i st p = js ''active'' \<and> \<not> p_is_guest p) (c_people c)
      @ filter (\<lambda>p. status_with i st p = js ''active'' \<and> p_is_guest p) (c_people c))"
    and "archived_ids c' = map p_id (filter (\<lambda>p. status_with i st p = js ''archived'') (c_people c))"
proof -
  have upd: "map p_id (filter (\<lambda>p. p_status p = s \<and> Q (p_is_guest p)) (c_people c'))
      = map p_id (filter (\<lambda>p. status_with i st p = s \<and> Q (p_is_guest p)) (c_people c))" for s Q
    unfolding assms(5) filter_update_first [OF assms(1,2)]
    by (intro arg_cong [where f = "map p_id"] filter_cong) (auto simp: status_with_def assms(3,4))
  show "people_ids c' = map p_id (filter (\<lambda>p. status_with i st p = js ''active'' \<and> \<not> p_is_guest p) (c_people c)
      @ filter (\<lambda>p. status_with i st p = js ''active'' \<and> p_is_guest p) (c_people c))"
    using upd [of "js ''active''" Not] upd [of "js ''active''" "\<lambda>b. b"]
    by (simp add: people_ids_eq getActivePeople_def getActiveGuests_def)
  show "archived_ids c' = map p_id (filter (\<lambda>p. status_with i st p = js ''archived'') (c_people c))"
    using upd [of "js ''archived''" "\<lambda>b. True"] by (simp add: archived_ids_eq getArchivedPeople_def)
qed

text \<open>What an archived person and a status that stays mean for the filters of the pages.\<close>

lemma mset_filter_split:
  assumes "distinct (map f xs)" "x \<in> set xs" "P x"
  shows "mset (map f (filter P xs)) = add_mset (f x) (mset (map f (filter (\<lambda>y. f y \<noteq> f x \<and> P y) xs)))"
  using assms
proof (induction xs)
  case (Cons y ys)
  show ?case
  proof (cases "y = x")
    case True
    then have "f x \<notin> f ` set ys" using Cons.prems(1) by simp
    then have "f z \<noteq> f x" if "z \<in> set ys" for z using that by (metis imageI)
    then have "filter (\<lambda>z. f z \<noteq> f x \<and> P z) ys = filter P ys" by (intro filter_cong) auto
    with True Cons.prems(3) show ?thesis by simp
  next
    case False
    with Cons show ?thesis by auto
  qed
qed simp

lemma update_first_twice:
  "(\<And>p. p_id (f p) = p_id p) \<Longrightarrow> update_first (\<lambda>x. p_id x = i) g (update_first (\<lambda>x. p_id x = i) f ps) = update_first (\<lambda>x. p_id x = i) (g \<circ> f) ps"
  by (induction ps) auto

lemma only_person: "distinct (map p_id ps) \<Longrightarrow> getPerson ps i = Some p \<Longrightarrow> q \<in> set ps \<Longrightarrow> p_id q = i \<Longrightarrow> q = p"
  using getPerson_id [of ps i p] by (auto simp: distinct_map inj_on_def)

lemma status_call:
  assumes "dir_ready e c s" and "open_request r" and "is_write r" and "sv_session s' = sv_session s"
  shows "call e r (c', s') = (let (st, b, s'') = handle r s' in (Inr b, c', s''))"
  using assms by (intro call_ok) (auto simp: dir_ready_def may_write_def split: option.splits)

section \<open>Properties\<close>

text \<open>Archiving a member or guest takes the card off the people page, leaves the others in
  their order and puts a card on the archived page; restoring puts both pages back as they were.\<close>

theorem archive_moves_card:
  assumes ready: "dir_ready e c s" and ids: "distinct (map p_id (c_people c))"
    and p: "getPerson (c_people c) i = Some p" "p_status p = js ''active''"
  shows "case confirmArchivePerson e True i (c, s) of (err, c', s') \<Rightarrow> case restorePerson e i (c', s') of (err', c'', s'') \<Rightarrow>
     err = None \<and> err' = None
     \<and> i \<in> set (people_ids c) \<and> mset (people_ids c) = add_mset i (mset (people_ids c')) \<and> people_ids c' = filter (\<lambda>j. j \<noteq> i) (people_ids c)
     \<and> mset (archived_ids c') = add_mset i (mset (archived_ids c))
     \<and> people_ids c'' = people_ids c \<and> archived_ids c'' = archived_ids c"
proof -
  let ?ps = "c_people c" and ?f = "archived_on (fmtDate (env_today e))"
  let ?c1 = "c\<lparr>c_people := update_first (\<lambda>x. p_id x = i) ?f ?ps\<rparr>"
  let ?s1 = "s\<lparr>sv_people := ArchivePerson (sv_today s) i (sv_people s)\<rparr>"
  let ?c2 = "?c1\<lparr>c_people := update_first (\<lambda>x. p_id x = i) restored (c_people ?c1)\<rparr>"
  have run: "confirmArchivePerson e True i (c, s) = (None, ?c1, ?s1)"
    using p by (simp add: confirmArchivePerson_def status_call [OF ready, of _ s] archived_on_def [abs_def])
  have run': "restorePerson e i (?c1, ?s1) = (None, ?c2, ?s1\<lparr>sv_people := UnarchivePerson i (sv_people ?s1)\<rparr>)"
    using status_call [OF ready, of "UnarchivePersonR i" ?s1 ?c1] by (simp add: restorePerson_def restored_def [abs_def])
  have old: "p_status q = js ''active''" if "q \<in> set ?ps" "p_id q = i" for q
    using only_person [OF ids p(1) that] p(2) by simp
  have mem: "p \<in> set ?ps" "p_id p = i" using getPerson_id [OF p(1)] by auto
  have active: "filter (\<lambda>q. status_with i (js ''active'') q = st \<and> Q q) ?ps = filter (\<lambda>q. p_status q = st \<and> Q q) ?ps" for st Q
    by (rule filter_cong) (auto simp: status_with_def old)
  have gone: "filter (\<lambda>q. status_with i (js ''archived'') q = js ''active'' \<and> Q q) ?ps
      = filter (\<lambda>q. p_id q \<noteq> i) (filter (\<lambda>q. p_status q = js ''active'' \<and> Q q) ?ps)" for Q
    by (auto simp: status_with_def intro: filter_cong)
  have added: "filter (\<lambda>q. p_id q \<noteq> i \<and> status_with i (js ''archived'') q = js ''archived'') ?ps = filter (\<lambda>q. p_status q = js ''archived'') ?ps"
    by (rule filter_cong) (auto simp: status_with_def old)
  have "c_people ?c2 = update_first (\<lambda>x. p_id x = i) (restored \<circ> ?f) ?ps"
    using update_first_twice [of ?f i restored ?ps] by simp
  note two = ids_after_update [OF ids _ _ _ this, of "js ''active''", simplified]
  have again: "people_ids ?c2 = people_ids c" "archived_ids ?c2 = archived_ids c"
    using two active [of "js ''active''"] active [of "js ''archived''" "\<lambda>_. True"]
    by (simp_all add: people_ids_eq archived_ids_eq getActivePeople_def getActiveGuests_def getArchivedPeople_def)
  have one: "people_ids ?c1 = filter (\<lambda>j. j \<noteq> i) (people_ids c)"
    "mset (archived_ids ?c1) = add_mset i (mset (archived_ids c))"
  proof -
    have f: "p_id (?f q) = p_id q" "p_is_guest (?f q) = p_is_guest q" "p_status (?f q) = js ''archived''" for q by simp_all
    have "c_people ?c1 = update_first (\<lambda>x. p_id x = i) ?f ?ps" by simp
    note upd = ids_after_update [OF ids f this]
    show "people_ids ?c1 = filter (\<lambda>j. j \<noteq> i) (people_ids c)"
      unfolding upd(1) people_ids_eq [of c] gone by (simp add: getActivePeople_def getActiveGuests_def filter_map comp_def)
    have "status_with i (js ''archived'') p = js ''archived''" using mem by (simp add: status_with_def)
    from mset_filter_split [OF ids mem(1), of "\<lambda>q. status_with i (js ''archived'') q = js ''archived''", OF this]
    show "mset (archived_ids ?c1) = add_mset i (mset (archived_ids c))"
      unfolding upd(2) archived_ids_eq [of c] mem(2) added getArchivedPeople_def .
  qed
  have "i \<in> set (people_ids c)" "distinct (people_ids c)"
    using mem p(2) ids by (auto simp: people_ids_eq getActivePeople_def getActiveGuests_def distinct_map inj_on_def)
  then have "mset (people_ids c) = add_mset i (mset (filter (\<lambda>j. j \<noteq> i) (people_ids c)))"
    using mset_filter_split [of "\<lambda>j. j" "people_ids c" i "\<lambda>_. True"] by simp
  then show ?thesis
    using run run' again one \<open>i \<in> set (people_ids c)\<close> by simp
qed

definition demo_member :: person where
  "demo_member = \<lparr>p_id = js ''p1'', p_name = js ''Ann'', p_role = [], p_sub_team = [], p_avatar_emoji = [], p_avatar_color = [],
     p_start_date = [], p_default_projects = [], p_status = js ''active'', p_archived_date = [], p_is_guest = False, p_ics_token = []\<rparr>"

lemma demo_member_ready: "dir_ready demo_env (demo_client\<lparr>c_people := [demo_member]\<rparr>) (demo_server\<lparr>sv_people := [demo_member]\<rparr>)"
  using demo_dir_ready by (simp add: dir_ready_def may_write_def directory_synced_def rows_ok_def fresh_id_def demo_member_def)
    (simp add: demo_server_def js_def)

theorem archive_moves_card_witness:
  "case confirmArchivePerson demo_env True (js ''p1'') (demo_client\<lparr>c_people := [demo_member]\<rparr>, demo_server\<lparr>sv_people := [demo_member]\<rparr>) of (err, c', s') \<Rightarrow>
     case restorePerson demo_env (js ''p1'') (c', s') of (err', c'', s'') \<Rightarrow>
     err = None \<and> err' = None
     \<and> js ''p1'' \<in> set (people_ids (demo_client\<lparr>c_people := [demo_member]\<rparr>))
     \<and> mset (people_ids (demo_client\<lparr>c_people := [demo_member]\<rparr>)) = add_mset (js ''p1'') (mset (people_ids c'))
     \<and> people_ids c' = filter (\<lambda>j. j \<noteq> js ''p1'') (people_ids (demo_client\<lparr>c_people := [demo_member]\<rparr>))
     \<and> mset (archived_ids c') = add_mset (js ''p1'') (mset (archived_ids (demo_client\<lparr>c_people := [demo_member]\<rparr>)))
     \<and> people_ids c'' = people_ids (demo_client\<lparr>c_people := [demo_member]\<rparr>)
     \<and> archived_ids c'' = archived_ids (demo_client\<lparr>c_people := [demo_member]\<rparr>)"
  by (rule archive_moves_card [OF demo_member_ready, where p = demo_member]) (simp_all add: demo_member_def)

text \<open>C31: the week of a person shows, day by day, exactly the half-days that are the columns of the
  team grid, in their order, each with the class that the grid gives it, and the numbers on top
  are the run ratios of the same weeks; a person who is not known is reported as such.\<close>

theorem my_week_shows_columns:
  "case renderMyWeek tz origin e wk currentPersonId myPersonId c of
     AskWho options \<Rightarrow> currentPersonId = [] \<and> myPersonId = []
   | PersonNotFound \<Rightarrow> getPerson (c_people c) (or_else currentPersonId myPersonId) = None
   | MyWeek page \<Rightarrow>
       getPerson (c_people c) (or_else currentPersonId myPersonId) = Some (mp_person page)
       \<and> map (\<lambda>t. (tl_date t, tl_slot t, tl_class t)) (page_tiles page)
           = map (\<lambda>x. (gs_date (gc_slot x), gs_slot (gc_slot x), gc_class x))
               (personCells c (client_weeks e c) (p_id (mp_person page)) None (allSlots wk (client_weeks e c)))
       \<and> map snd (mp_ratios page) = map (\<lambda>w. let r = calcRunRatio (c_planning c) (p_id (mp_person page)) (formatWeekStart w) in (rr_run r, rr_working r)) (client_weeks e c)"
proof -
  have tiles: "map (\<lambda>t. (tl_date t, tl_slot t, tl_class t)) (concat (map (\<lambda>w. concat (map snd (my_week_days c wk pid w))) weeks))
      = map (\<lambda>sl. (gs_date sl, gs_slot sl, getSlotClass (getSlot (c_planning c) pid (gs_date sl) (gs_slot sl)))) (allSlots wk weeks)" for pid weeks
    by (simp add: tiles_columns half_tile_def Let_def)
  show ?thesis
    by (auto simp: renderMyWeek_def Let_def page_tiles_def comp_def tiles cells_half_days or_else_def split: option.splits)
qed

end
