(* ===== verification/EditorForm.thy ===== *)
theory EditorForm
  imports Editor
begin

text \<open>
  What happens inside the editor between opening and applying: the rows of projects, which are added
  and removed as elements of the page with numbered identifiers, the total under them, the tabs
  and the hints of the toggles. Proved here: whatever is clicked and typed, there is a row and no
  identifier occurs twice, and what \<open>Apply\<close> refuses for its total was marked as over 100 before, unless
  a row without a name hides the excess behind a negative percentage.
\<close>

section \<open>Rows of projects\<close>

text \<open>\<open>fr_button\<close>: the row has a button that removes it.\<close>

record project_row =
  fr_id :: nat
  fr_name :: jsstring
  fr_pct :: int
  fr_button :: bool

text \<open>\<open>pl_count\<close> is \<open>rangeProjCount\<close>; \<open>pl_total\<close> the text of the total and whether it has the class \<open>over\<close>.\<close>

record project_list =
  pl_count :: nat
  pl_rows :: "project_row list"
  pl_total :: "jsstring \<times> bool"

definition total_text :: "int \<Rightarrow> jsstring" where
  "total_text n = js ''Total: '' @ str_of_int n @ js ''%''"

definition rows_sum :: "project_row list \<Rightarrow> int" where
  "rows_sum rows = sum_list (map fr_pct rows)"

text \<open>The rows as the editor opens; the total has no mark yet.\<close>

definition open_rows :: "(jsstring \<times> int) list \<Rightarrow> project_list" where
  "open_rows src = \<lparr>pl_count = length src,
     pl_rows = map (\<lambda>(i, name, pct). \<lparr>fr_id = i, fr_name = name, fr_pct = pct, fr_button = (1 < length src)\<rparr>)
       (zip [0..<length src] src),
     pl_total = (total_text (sum_list (map snd src)), False)\<rparr>"

definition updateRangePctTotal :: "project_list \<Rightarrow> project_list" where
  "updateRangePctTotal l = l\<lparr>pl_total := (total_text (rows_sum (pl_rows l)), 100 < rows_sum (pl_rows l))\<rparr>"

definition addRangeProject :: "project_list \<Rightarrow> project_list" where
  "addRangeProject l = updateRangePctTotal
     (l\<lparr>pl_count := pl_count l + 1, pl_rows := pl_rows l @ [\<lparr>fr_id = pl_count l, fr_name = [], fr_pct = 50, fr_button = True\<rparr>]\<rparr>)"

text \<open>The button of a row removes its parent element.\<close>

definition removeRangeProject :: "nat \<Rightarrow> project_list \<Rightarrow> project_list" where
  "removeRangeProject i l =
     (if length (pl_rows l) \<le> 1 then l
      else updateRangePctTotal (l\<lparr>pl_rows := filter (\<lambda>r. fr_id r \<noteq> i) (pl_rows l)\<rparr>))"

definition edit_row :: "nat \<Rightarrow> (project_row \<Rightarrow> project_row) \<Rightarrow> project_list \<Rightarrow> project_list" where
  "edit_row i f l = l\<lparr>pl_rows := map (\<lambda>r. if fr_id r = i then f r else r) (pl_rows l)\<rparr>"

text \<open>What the user does with the rows; only a changed percentage updates the total.\<close>

datatype row_op = AddRow | RemoveRow nat | TypeName nat jsstring | TypePct nat int

fun row_step :: "row_op \<Rightarrow> project_list \<Rightarrow> project_list" where
  "row_step AddRow l = addRangeProject l"
| "row_step (RemoveRow i) l = (if list_ex (\<lambda>r. fr_id r = i \<and> fr_button r) (pl_rows l) then removeRangeProject i l else l)"
| "row_step (TypeName i name) l = edit_row i (\<lambda>r. r\<lparr>fr_name := name\<rparr>) l"
| "row_step (TypePct i pct) l = updateRangePctTotal (edit_row i (\<lambda>r. r\<lparr>fr_pct := pct\<rparr>) l)"

definition with_rows :: "project_list \<Rightarrow> form \<Rightarrow> form" where
  "with_rows l f = f\<lparr>fm_rows := map (\<lambda>r. (fr_name r, fr_pct r)) (pl_rows l)\<rparr>"

section \<open>Tabs and hints\<close>

definition editor_tabs :: "jsstring list" where
  "editor_tabs = [js ''project'', js ''away'', js ''incident'', js ''undetermined'', js ''clear'']"

text \<open>The active buttons and the contents that are not hidden.\<close>

definition uniSwitchTab :: "jsstring \<Rightarrow> jsstring list \<times> jsstring list" where
  "uniSwitchTab tab = (filter (\<lambda>b. b = tab) editor_tabs, filter (\<lambda>t. t = tab) editor_tabs)"

definition tri_hint :: "tri \<Rightarrow> jsstring" where
  "tri_hint t = (case t of Grey \<Rightarrow> js ''don'' @ [8217] @ js ''t change'' | Tick \<Rightarrow> js ''set on'' | Empty \<Rightarrow> js ''set off'')"

definition triToggleHtml :: "jsstring \<Rightarrow> tri \<Rightarrow> bool \<Rightarrow> jsstring \<times> tri \<times> bool \<times> jsstring" where
  "triToggleHtml label state allowGrey = (label, state, allowGrey, js ''('' @ tri_hint state @ js '')'')"

section \<open>The rows stay a list\<close>

definition list_ok :: "project_list \<Rightarrow> bool" where
  "list_ok l \<longleftrightarrow> pl_rows l \<noteq> [] \<and> distinct (map fr_id (pl_rows l)) \<and> list_all (\<lambda>i. i < pl_count l) (map fr_id (pl_rows l))"

text \<open>The total and its mark are those of the rows.\<close>

definition total_marked :: "project_list \<Rightarrow> bool" where
  "total_marked l \<longleftrightarrow> pl_total l = (total_text (rows_sum (pl_rows l)), 100 < rows_sum (pl_rows l))"

text \<open>The rows without a name, which \<open>Apply\<close> leaves out.\<close>

definition blank_rows :: "project_list \<Rightarrow> project_row list" where
  "blank_rows l = filter (\<lambda>r. js_trim (fr_name r) = []) (pl_rows l)"

lemma map_edit_ids: "(\<And>r. fr_id (f r) = fr_id r) \<Longrightarrow> map fr_id (map (\<lambda>r. if fr_id r = i then f r else r) rs) = map fr_id rs"
  by (induction rs) auto

lemma list_ok_updated [simp]: "list_ok (updateRangePctTotal l) \<longleftrightarrow> list_ok l"
  by (simp add: list_ok_def updateRangePctTotal_def)

lemma list_ok_edit: "(\<And>r. fr_id (f r) = fr_id r) \<Longrightarrow> list_ok l \<Longrightarrow> list_ok (edit_row i f l)"
  using map_edit_ids [of f i "pl_rows l"] by (simp add: list_ok_def edit_row_def del: map_map)

lemma list_ok_remove: "list_ok l \<Longrightarrow> list_ok (removeRangeProject i l)"
proof -
  assume l: "list_ok l"
  obtain r r' rs where rs: "pl_rows l = r # r' # rs" if "1 < length (pl_rows l)"
    by (cases "pl_rows l" rule: remdups_adj.cases) auto
  have "filter (\<lambda>r. fr_id r \<noteq> i) (pl_rows l) \<noteq> []" if "1 < length (pl_rows l)"
    using l rs [OF that] by (auto simp: list_ok_def)
  then show ?thesis using l
    by (auto simp: removeRangeProject_def not_le) (auto simp: list_ok_def list_all_iff distinct_map_filter)
qed

lemma list_ok_step: "list_ok l \<Longrightarrow> list_ok (row_step op l)"
proof (cases op)
  case AddRow
  assume "list_ok l"
  with AddRow show ?thesis by (auto simp: addRangeProject_def) (fastforce simp: list_ok_def list_all_iff)
qed (auto intro: list_ok_edit list_ok_remove)

lemma open_ids: "map fr_id (pl_rows (open_rows src)) = [0..<length src]"
  by (simp add: open_rows_def comp_def case_prod_beta')

lemma open_sum: "rows_sum (pl_rows (open_rows src)) = sum_list (map snd src)"
proof -
  have "map fr_pct (pl_rows (open_rows src)) = map snd src"
    by (rule nth_equalityI) (simp_all add: open_rows_def split: prod.split)
  then show ?thesis by (simp add: rows_sum_def)
qed

lemma list_ok_open: "src \<noteq> [] \<Longrightarrow> list_ok (open_rows src)"
proof -
  assume "src \<noteq> []"
  then have "map fr_id (pl_rows (open_rows src)) \<noteq> []" by (simp only: open_ids) simp
  then have "pl_rows (open_rows src) \<noteq> []" by simp
  moreover have "pl_count (open_rows src) = length src" by (simp add: open_rows_def)
  ultimately show ?thesis by (simp add: list_ok_def open_ids list_all_iff del: set_map)
qed

lemma total_updated: "total_marked (updateRangePctTotal l)"
  by (simp add: total_marked_def updateRangePctTotal_def)

lemma map_edit_pcts: "(\<And>r. fr_pct (f r) = fr_pct r) \<Longrightarrow> map fr_pct (map (\<lambda>r. if fr_id r = i then f r else r) rs) = map fr_pct rs"
  by (induction rs) auto

lemma total_marked_step: "total_marked l \<Longrightarrow> total_marked (row_step op l)"
proof (cases op)
  case (TypeName i name)
  assume "total_marked l"
  then show ?thesis
    using map_edit_pcts [of "\<lambda>r. r\<lparr>fr_name := name\<rparr>" i "pl_rows l"] TypeName
    by (simp add: total_marked_def edit_row_def rows_sum_def del: map_map)
qed (auto simp: addRangeProject_def removeRangeProject_def total_updated)

lemma fold_rows:
  assumes "list_ok l" "total_marked l"
  shows "list_ok (fold row_step ops l) \<and> total_marked (fold row_step ops l)"
  using assms
proof (induction ops arbitrary: l)
  case (Cons op ops)
  then show ?case using list_ok_step [of l op] total_marked_step [of l op] by simp
qed simp

lemma open_fine:
  assumes "src \<noteq> []" "sum_list (map snd src) \<le> 100"
  shows "list_ok (open_rows src) \<and> total_marked (open_rows src)"
  using list_ok_open [OF assms(1)] assms(2) open_sum [of src]
  by (simp add: total_marked_def) (simp add: open_rows_def)

lemma form_total_named:
  assumes "fm_tab f = js ''project''"
  shows "form_total (with_rows l f) = rows_sum (filter (\<lambda>r. js_trim (fr_name r) \<noteq> []) (pl_rows l))"
proof -
  have "map pa_pct (map (\<lambda>(n, pct). \<lparr>pa_name = js_trim n, pa_pct = pct\<rparr>) xs) = map snd xs" for xs :: "(jsstring \<times> int) list"
    by (simp add: comp_def case_prod_beta')
  then have total: "form_total (with_rows l f)
      = sum_list (map snd (filter (\<lambda>(n, pct). js_trim n \<noteq> []) (map (\<lambda>r. (fr_name r, fr_pct r)) (pl_rows l))))"
    using assms by (simp add: form_total_def form_projects_def with_rows_def del: map_map)
  have named: "map snd (filter (\<lambda>(n, pct). js_trim n \<noteq> []) (map (\<lambda>r. (fr_name r, fr_pct r)) rows))
      = map fr_pct (filter (\<lambda>r. js_trim (fr_name r) \<noteq> []) rows)" for rows
    by (induction rows) simp_all
  show ?thesis unfolding total named rows_sum_def ..
qed

lemma form_total_tab: "100 < form_total f \<Longrightarrow> fm_tab f = js ''project''"
  by (rule ccontr) (simp add: form_total_def form_projects_def)

lemma total_splits: "fm_tab f = js ''project'' \<Longrightarrow> rows_sum (pl_rows l) = form_total (with_rows l f) + rows_sum (blank_rows l)"
proof -
  have "rows_sum rows = rows_sum (filter (\<lambda>r. js_trim (fr_name r) \<noteq> []) rows) + rows_sum (filter (\<lambda>r. js_trim (fr_name r) = []) rows)" for rows
    by (induction rows) (simp_all add: rows_sum_def)
  from this [of "pl_rows l"] show "fm_tab f = js ''project'' \<Longrightarrow> ?thesis"
    unfolding blank_rows_def by (subst form_total_named)
qed

lemma negative_sum: "rows_sum rows < 0 \<Longrightarrow> list_ex (\<lambda>r. fr_pct r < 0) rows"
proof (rule ccontr)
  assume "rows_sum rows < 0" "\<not> list_ex (\<lambda>r. fr_pct r < 0) rows"
  then have "0 \<le> rows_sum rows"
    unfolding rows_sum_def by (intro sum_list_nonneg) (auto simp: list_ex_iff not_less)
  with \<open>rows_sum rows < 0\<close> show False by simp
qed

text \<open>C29: in an editor opened on rows of at most 100 percent together, whatever is added, removed, renamed
  and set among the rows, any whole number included, at least one row is left, the numbers of the rows stay
  distinct, the total under them is that of the rows and is marked exactly when it is over 100; it is the
  total that \<open>Apply\<close> checks and the rows without a name. \<open>Apply\<close> refuses exactly a total over 100 of the
  named rows and then changes nothing; and such a form was marked, unless rows without a name have a negative
  sum, one of them a negative percentage.\<close>

theorem refused_total_was_marked:
  assumes "src \<noteq> []" and "sum_list (map snd src) \<le> 100"
  shows "let l = fold row_step ops (open_rows src)
    in pl_rows l \<noteq> [] \<and> distinct (map fr_id (pl_rows l))
     \<and> pl_total l = (total_text (rows_sum (pl_rows l)), 100 < rows_sum (pl_rows l))
     \<and> (fm_tab f = js ''project'' \<longrightarrow> rows_sum (pl_rows l) = form_total (with_rows l f) + rows_sum (blank_rows l))
     \<and> (100 < form_total (with_rows l f) \<longrightarrow>
          snd (pl_total l) \<or> rows_sum (blank_rows l) < 0 \<and> list_ex (\<lambda>r. fr_pct r < 0) (blank_rows l))
     \<and> (fm_tab f = js ''project'' \<longrightarrow> 100 < form_total (with_rows l f) \<longrightarrow>
          applyUnifiedEditor e showWeekend (with_rows l f) (c, s) = (None, c, s))"
proof -
  define l where "l = fold row_step ops (open_rows src)"
  have l: "list_ok l" "total_marked l"
    using fold_rows [of "open_rows src" ops] open_fine [OF assms] by (simp_all add: l_def)
  have tab: "fm_tab (with_rows l f) = fm_tab f" by (simp add: with_rows_def)
  have over: "snd (pl_total l) \<or> rows_sum (blank_rows l) < 0 \<and> list_ex (\<lambda>r. fr_pct r < 0) (blank_rows l)"
    if "100 < form_total (with_rows l f)"
  proof (cases "rows_sum (blank_rows l) < 0")
    case True
    then show ?thesis using negative_sum by blast
  next
    case False
    then have "100 < rows_sum (pl_rows l)"
      using total_splits [of f l] form_total_tab [OF that] that unfolding tab by linarith
    then show ?thesis using l(2) by (simp add: total_marked_def)
  qed
  have apply_form: "applyUnifiedEditor e showWeekend (with_rows l f) (c, s) = (None, c, s)"
    if "fm_tab f = js ''project''" "100 < form_total (with_rows l f)"
    using that tab by (simp add: applyUnifiedEditor_def)
  show ?thesis
    unfolding Let_def l_def [symmetric]
    using l over apply_form total_splits [of f l] by (simp only: list_ok_def total_marked_def) blast
qed

lemma refused_total_was_marked_witness:
  "let l = fold row_step [AddRow, TypeName 1 (js ''B''), TypePct 1 60, RemoveRow 0] (open_rows [(js ''A'', 60)])
   in pl_total l = (total_text 120, True) \<and> length (pl_rows l) = 2
     \<and> applyUnifiedEditor demo_env False (with_rows l demo_form) (demo_client, demo_server) = (None, demo_client, demo_server)"
proof -
  define l where "l = fold row_step [AddRow, TypeName 1 (js ''B''), TypePct 1 60, RemoveRow 0] (open_rows [(js ''A'', 60)])"
  have rows: "map (\<lambda>r. (fr_name r, fr_pct r)) (pl_rows l) = [(js ''A'', 60), (js ''B'', 60)]"
    by (simp add: l_def open_rows_def addRangeProject_def updateRangePctTotal_def edit_row_def)
  then have len: "length (pl_rows l) = 2" using arg_cong [OF rows, of length] unfolding length_map by simp
  have "map fr_pct (pl_rows l) = map snd (map (\<lambda>r. (fr_name r, fr_pct r)) (pl_rows l))" by simp
  then have sum: "rows_sum (pl_rows l) = 120" unfolding rows rows_sum_def by simp
  have "js_trim (js ''A'') \<noteq> []" "js_trim (js ''B'') \<noteq> []" by (simp_all add: js_def js_trim_def is_space_def)
  moreover have tab: "fm_tab demo_form = js ''project''" by (simp add: demo_form_def)
  ultimately have over: "100 < form_total (with_rows l demo_form)"
    by (simp add: form_total_def form_projects_def with_rows_def rows)
  show ?thesis
    using refused_total_was_marked [of "[(js ''A'', 60)]" "[AddRow, TypeName 1 (js ''B''), TypePct 1 60, RemoveRow 0]"
        demo_form demo_env False demo_client demo_server]
    unfolding Let_def l_def [symmetric] using len sum over tab by simp
qed

section \<open>Where the total misleads\<close>

text \<open>The blank row of a fresh editor counts in the total that is shown but not in the one that is checked.\<close>

lemma total_150: "total_text 150 = js ''Total: 150%''"
  by (simp add: total_text_def str_of_int_def str_of_nat.simps js_def)

lemma blank_row_counts_in_total:
  assumes "fm_tab f = js ''project''"
  shows "let l = fold row_step [AddRow, TypeName 1 (js ''Atlas'')] (open_rows [([], 100)])
    in pl_total l = (js ''Total: 150%'', True) \<and> form_total (with_rows l f) = 50"
proof -
  have l: "fold row_step [AddRow, TypeName 1 (js ''Atlas'')] (open_rows [([], 100)]) = \<lparr>pl_count = 2,
      pl_rows = [\<lparr>fr_id = 0, fr_name = [], fr_pct = 100, fr_button = False\<rparr>,
                 \<lparr>fr_id = 1, fr_name = js ''Atlas'', fr_pct = 50, fr_button = True\<rparr>],
      pl_total = (total_text 150, True)\<rparr>"
    by (simp add: open_rows_def addRangeProject_def updateRangePctTotal_def edit_row_def rows_sum_def)
  have "js_trim (js ''Atlas'') \<noteq> []" by (simp add: js_def js_trim_def is_space_def)
  then show ?thesis using assms unfolding Let_def l
    by (simp add: total_150 with_rows_def form_total_def form_projects_def)
qed

text \<open>With a row of 150 percent and one without a name of minus 100, the total is 50, without a mark, and
  \<open>Apply\<close> refuses the form.\<close>

lemma refused_without_mark:
  assumes "fm_tab f = js ''project''"
  shows "let l = fold row_step [AddRow, TypePct 1 (-100), TypePct 0 150] (open_rows [(js ''A'', 100)])
    in \<not> snd (pl_total l) \<and> form_total (with_rows l f) = 150
     \<and> applyUnifiedEditor e showWeekend (with_rows l f) (c, s) = (None, c, s)"
proof -
  have l: "fold row_step [AddRow, TypePct 1 (-100), TypePct 0 150] (open_rows [(js ''A'', 100)]) = \<lparr>pl_count = 2,
      pl_rows = [\<lparr>fr_id = 0, fr_name = js ''A'', fr_pct = 150, fr_button = False\<rparr>,
                 \<lparr>fr_id = 1, fr_name = [], fr_pct = -100, fr_button = True\<rparr>],
      pl_total = (total_text 50, False)\<rparr>"
    by (simp add: open_rows_def addRangeProject_def updateRangePctTotal_def edit_row_def rows_sum_def)
  have "js_trim (js ''A'') \<noteq> []" by (simp add: js_def js_trim_def is_space_def)
  then have "form_total (with_rows (fold row_step [AddRow, TypePct 1 (-100), TypePct 0 150] (open_rows [(js ''A'', 100)])) f) = 150"
    using assms unfolding l by (simp add: with_rows_def form_total_def form_projects_def)
  then show ?thesis using assms unfolding Let_def l
    by (simp add: applyUnifiedEditor_def) (simp add: with_rows_def)
qed

text \<open>A negative percentage, which the input does not enforce its minimum against, hides one over 100.\<close>

lemma negative_row_passes:
  assumes "fm_tab f = js ''project''"
  shows "let l = fold row_step [AddRow, TypeName 1 (js ''B''), TypePct 1 (-50)] (open_rows [(js ''A'', 150)])
    in \<not> snd (pl_total l) \<and> form_total (with_rows l f) = 100"
proof -
  have l: "fold row_step [AddRow, TypeName 1 (js ''B''), TypePct 1 (-50)] (open_rows [(js ''A'', 150)]) = \<lparr>pl_count = 2,
      pl_rows = [\<lparr>fr_id = 0, fr_name = js ''A'', fr_pct = 150, fr_button = False\<rparr>,
                 \<lparr>fr_id = 1, fr_name = js ''B'', fr_pct = -50, fr_button = True\<rparr>],
      pl_total = (total_text 100, False)\<rparr>"
    by (simp add: open_rows_def addRangeProject_def updateRangePctTotal_def edit_row_def rows_sum_def)
  have "js_trim (js ''A'') \<noteq> []" "js_trim (js ''B'') \<noteq> []" by (simp_all add: js_def js_trim_def is_space_def)
  then show ?thesis using assms unfolding Let_def l
    by (simp add: with_rows_def form_total_def form_projects_def)
qed

end
