(* ===== verification/Shell.thy ===== *)
theory Shell
  imports Directory Connection EditorForm
begin

text \<open>
  What surrounds the views: starting the program (\<open>init\<close>), choosing the view to render, the bar of
  views and who sees which, the controls that move the window of visible weeks, the keyboard, the
  preferences and the avatars of who is present. Proved here: the views of administrators are
  closed to everybody else, on the client and on the server; navigating never shows weeks that
  are not loaded and is undone by navigating back; the start ends in a page that is in step.
\<close>

section \<open>Preferences\<close>

text \<open>A property of \<open>window\<close>; \<open>localStorage\<close> holds strings.\<close>

datatype win_value = WBool bool | WNum int | WText jsstring

record browser =
  br_window :: "(jsstring, win_value) dict"
  br_storage :: "(jsstring, jsstring) dict"

definition PREFS_KEYS :: "jsstring list" where
  "PREFS_KEYS = [js ''scrollOffset'', js ''teamGroupBy'', js ''_showWeekend'', js ''teamShowGuests'', js ''currentView'',
     js ''availabilityDayOffset'', js ''teamFilter'']"

definition pref_name :: "jsstring \<Rightarrow> jsstring" where
  "pref_name k = js ''teamviz_'' @ k"

text \<open>\<open>String(v)\<close>.\<close>

definition win_string :: "win_value option \<Rightarrow> jsstring" where
  "win_string v = (case v of None \<Rightarrow> js ''undefined'' | Some (WBool b) \<Rightarrow> (if b then js ''true'' else js ''false'')
     | Some (WNum n) \<Rightarrow> str_of_int n | Some (WText t) \<Rightarrow> t)"

text \<open>\<open>parseInt(v, 10) || 0\<close>: leading space, a sign, the digits up to the first other character.\<close>

definition parse_int :: "jsstring \<Rightarrow> int" where
  "parse_int s =
     (let t = dropWhile is_space s; r = (case t of [] \<Rightarrow> [] | c # r \<Rightarrow> if c = 45 \<or> c = 43 then r else t)
      in (if take 1 t = [45] then - 1 else 1) * int (digits_val (takeWhile is_digit r)))"

definition pref_value :: "jsstring \<Rightarrow> jsstring \<Rightarrow> win_value" where
  "pref_value k v =
     (if k = js ''_showWeekend'' \<or> k = js ''teamShowGuests'' then WBool (v = js ''true'')
      else if k = js ''scrollOffset'' \<or> k = js ''availabilityDayOffset'' then WNum (parse_int v)
      else WText v)"

definition savePrefs :: "browser \<Rightarrow> browser" where
  "savePrefs b = fold (\<lambda>k b. b\<lparr>br_storage := dict_set (pref_name k) (win_string (dict_get (br_window b) k)) (br_storage b)\<rparr>)
     PREFS_KEYS b"

definition loadPrefs :: "browser \<Rightarrow> browser" where
  "loadPrefs b = fold (\<lambda>k b. case dict_get (br_storage b) (pref_name k) of None \<Rightarrow> b
     | Some v \<Rightarrow> b\<lparr>br_window := dict_set k (pref_value k v) (br_window b)\<rparr>) PREFS_KEYS b"

section \<open>The view that is rendered\<close>

text \<open>One constructor per \<open>render...\<close> function of the switch.\<close>

datatype page =
    TeamGridPage | AvailabilityPage | RunPage | OnCallPage | GuestsPage | ArchivedPage | PeoplePage
  | ProjectsPage | SettingsPage | AdminPage | WorkloadPage | ActivityPage | IncidentsPage | MyWeekPage | UsersPage

definition view_page :: "user option \<Rightarrow> jsstring \<Rightarrow> page" where
  "view_page u view =
     (if view = js ''team'' then TeamGridPage
      else if view = js ''availability'' then AvailabilityPage
      else if view = js ''run'' then RunPage
      else if view = js ''oncall'' then OnCallPage
      else if view = js ''guests'' then GuestsPage
      else if view = js ''archived'' then ArchivedPage
      else if view = js ''people'' then PeoplePage
      else if view = js ''projects'' then ProjectsPage
      else if view = js ''settings'' then SettingsPage
      else if view = js ''admin'' then (if isAdmin u then AdminPage else SettingsPage)
      else if view = js ''workload'' then WorkloadPage
      else if view = js ''activity'' then ActivityPage
      else if view = js ''incidents'' then IncidentsPage
      else if view = js ''myweek'' then MyWeekPage
      else if view = js ''users'' then (if isAdmin u then UsersPage else SettingsPage)
      else TeamGridPage)"

text \<open>The buttons of the page \<open>index.html\<close>.\<close>

definition nav_views :: "jsstring list" where
  "nav_views = [js ''team'', js ''availability'', js ''run'', js ''oncall'', js ''guests'', js ''archived'', js ''people'',
     js ''projects'', js ''admin'', js ''workload'', js ''activity'', js ''incidents'', js ''myweek'', js ''users'', js ''settings'']"

record nav_button =
  nb_view :: jsstring
  nb_active :: bool
  nb_visible :: bool

definition nav_bar :: "user option \<Rightarrow> jsstring \<Rightarrow> nav_button list" where
  "nav_bar u current = map (\<lambda>v. \<lparr>nb_view = v, nb_active = (v = current),
     nb_visible = (isAdmin u \<or> (v \<noteq> js ''admin'' \<and> v \<noteq> js ''users''))\<rparr>) nav_views"

definition shown_theme :: "jsstring \<Rightarrow> settings \<Rightarrow> jsstring" where
  "shown_theme own s = or_else own (or_else (set_theme s) (js ''dracula''))"

section \<open>Presence, pickers\<close>

text \<open>Tooltip and emoji of each badge; the last one counts the rest.\<close>

definition presence_badge :: "client \<Rightarrow> presence \<Rightarrow> jsstring \<times> jsstring" where
  "presence_badge c u =
     (let p = (if pu_person_id u = [] then None else getPerson (c_people c) (pu_person_id u));
          personName = (case p of None \<Rightarrow> [] | Some p \<Rightarrow> [32, 8212, 32] @ p_name p)
      in (escapeHtml (pu_username u) @ js '' ('' @ pu_role u @ js '')'' @ escapeHtml personName,
          case p of None \<Rightarrow> emoji_person | Some p \<Rightarrow> p_avatar_emoji p))"

definition renderPresence :: "client \<Rightarrow> (jsstring \<times> jsstring) list" where
  "renderPresence c =
     (let n = length (c_presence c)
      in map (presence_badge c) (take 8 (c_presence c))
         @ (if 8 < n then [(str_of_nat (n - 8) @ js '' more'', js ''+'' @ str_of_nat (n - 8))] else []))"

text \<open>Value, text and selection of the options after \<open>I am\<close>.\<close>

definition renderMePicker :: "jsstring \<Rightarrow> client \<Rightarrow> (jsstring \<times> jsstring \<times> bool) list" where
  "renderMePicker myPersonId c =
     map (\<lambda>p. (p_id p, escapeHtml (p_name p), myPersonId = p_id p)) (getActivePeople (c_people c))"

definition datePickerToText :: "jsstring \<Rightarrow> jsstring \<Rightarrow> jsstring" where
  "datePickerToText picked old = (if picked \<noteq> [] then map (\<lambda>c. if c = 45 then 47 else c) picked else old)"

definition projectNamesDatalist :: "client \<Rightarrow> jsstring list" where
  "projectNamesDatalist c = map escapeHtml (filter (\<lambda>n. n \<noteq> [])
     (map pr_name (filter (\<lambda>p. pr_status p \<noteq> js ''done'') (c_projects c))))"

section \<open>Moving the window\<close>

text \<open>The view variables beside \<open>State\<close> (an absent person is empty), whether the overlay is shown,
  the form in it when it holds the editor, and the browser.\<close>

record ui =
  ui_person :: jsstring
  ui_avail :: int
  ui_group :: jsstring
  ui_weekend :: bool
  ui_guests :: bool
  ui_filter :: jsstring
  ui_modal :: bool
  ui_form :: "form option"
  ui_browser :: browser

type_synonym tab = "ui \<times> client \<times> server"

definition prefs_saved :: "ui \<Rightarrow> ui" where
  "prefs_saved u = u\<lparr>ui_browser := savePrefs (ui_browser u)\<rparr>"

text \<open>\<open>API.reloadPlanning().then(render)\<close>: a failed request leaves the page as it is.\<close>

definition reload_render :: "env \<Rightarrow> client \<times> server \<Rightarrow> client \<times> server" where
  "reload_render e cs = (case reloadPlanning e cs of (None, c, s) \<Rightarrow> (render_state c, s) | (Some _, c, s) \<Rightarrow> (c, s))"

definition scroll_to :: "env \<Rightarrow> int \<Rightarrow> tab \<Rightarrow> tab" where
  "scroll_to e off = (\<lambda>(u, c, s). (prefs_saved u, reload_render e (c\<lparr>c_scrollOffset := off\<rparr>, s)))"

definition redraw :: "tab \<Rightarrow> tab" where
  "redraw = (\<lambda>(u, c, s). (u, render_state c, s))"

datatype nav_op = Earlier | Later | Today | JumpTo "date option" | FilterText jsstring | GroupBy jsstring
  | Weekends bool | Guests bool | PreviousDay | ThisDay | NextDay | OpenView jsstring | ShowIndividual jsstring | GoBack

text \<open>What the views ask the server for when they are rendered is not sent here but in \<open>Fetches\<close>.\<close>

fun navigate :: "(date \<Rightarrow> int) \<Rightarrow> env \<Rightarrow> nav_op \<Rightarrow> tab \<Rightarrow> tab" where
  "navigate tz e Earlier (u, c, s) = scroll_to e (c_scrollOffset c - 1) (u, c, s)"
| "navigate tz e Later (u, c, s) = scroll_to e (c_scrollOffset c + 1) (u, c, s)"
| "navigate tz e Today (u, c, s) = scroll_to e 0 (u, c, s)"
| "navigate tz e (JumpTo target) (u, c, s) =
     (if target = None then (u, c, s)
      else scroll_to e (jumpToDate tz (env_today e) target (c_scrollOffset c)) (u, c, s))"
| "navigate tz e (FilterText t) (u, c, s) = redraw (prefs_saved (u\<lparr>ui_filter := t\<rparr>), c, s)"
| "navigate tz e (GroupBy g) (u, c, s) = redraw (prefs_saved (u\<lparr>ui_group := g\<rparr>), c, s)"
| "navigate tz e (Weekends b) (u, c, s) = redraw (prefs_saved (u\<lparr>ui_weekend := b\<rparr>), c, s)"
| "navigate tz e (Guests b) (u, c, s) = redraw (prefs_saved (u\<lparr>ui_guests := b\<rparr>), c, s)"
| "navigate tz e PreviousDay (u, c, s) = redraw (prefs_saved (u\<lparr>ui_avail := ui_avail u - 1\<rparr>), c, s)"
| "navigate tz e ThisDay (u, c, s) = redraw (prefs_saved (u\<lparr>ui_avail := 0\<rparr>), c, s)"
| "navigate tz e NextDay (u, c, s) = redraw (prefs_saved (u\<lparr>ui_avail := ui_avail u + 1\<rparr>), c, s)"
| "navigate tz e (OpenView v) (u, c, s) = redraw (prefs_saved (u\<lparr>ui_person := []\<rparr>), c\<lparr>c_currentView := v\<rparr>, s)"
| "navigate tz e (ShowIndividual i) (u, c, s) = redraw (u\<lparr>ui_person := i\<rparr>, c\<lparr>c_currentView := js ''myweek''\<rparr>, s)"
| "navigate tz e GoBack (u, c, s) = redraw (u\<lparr>ui_person := []\<rparr>, c\<lparr>c_currentView := js ''team''\<rparr>, s)"

section \<open>The keyboard\<close>

text \<open>The tag of the element in small letters, the modifier, and \<open>e.key\<close>.\<close>

record key =
  k_tag :: jsstring
  k_ctrl :: bool
  k_key :: jsstring

definition typing :: "key \<Rightarrow> bool" where
  "typing k \<longleftrightarrow> k_tag k = js ''input'' \<or> k_tag k = js ''select'' \<or> k_tag k = js ''textarea''"

definition undo_key :: "key \<Rightarrow> bool" where
  "undo_key k \<longleftrightarrow> k_ctrl k \<and> k_key k = js ''z''"

definition redo_key :: "key \<Rightarrow> bool" where
  "redo_key k \<longleftrightarrow> (k_ctrl k \<and> k_key k = js ''Z'') \<or> (k_ctrl k \<and> k_key k = js ''y'')"

definition modal_key :: "key \<Rightarrow> ui \<Rightarrow> ui" where
  "modal_key k u =
     (let u = (if k_key k = js ''Escape'' then u\<lparr>ui_modal := False\<rparr> else u);
          u = (if k_key k = js ''u'' \<and> \<not> k_ctrl k \<and> ui_modal u
               then u\<lparr>ui_form := map_option (\<lambda>f. f\<lparr>fm_tab := js ''undetermined''\<rparr>) (ui_form u)\<rparr> else u)
      in if k_key k = js ''r'' \<and> \<not> k_ctrl k \<and> ui_modal u then u\<lparr>ui_form := map_option clickRun (ui_form u)\<rparr> else u)"

definition arrow_key :: "env \<Rightarrow> key \<Rightarrow> tab \<Rightarrow> tab" where
  "arrow_key e k = (\<lambda>(u, c, s).
     if k_key k \<noteq> js ''ArrowLeft'' \<and> k_key k \<noteq> js ''ArrowRight'' then (u, c, s)
     else let dir = (if k_key k = js ''ArrowLeft'' then - 1 else 1)
          in if c_currentView c = js ''team'' then scroll_to e (c_scrollOffset c + dir) (u, c, s)
             else if c_currentView c = js ''availability'' then redraw (prefs_saved (u\<lparr>ui_avail := ui_avail u + dir\<rparr>), c, s)
             else (u, c, s))"

definition keydown :: "env \<Rightarrow> key \<Rightarrow> tab \<Rightarrow> tab" where
  "keydown e k = (\<lambda>(u, c, s).
     if typing k then (u, c, s)
     else let (c, s) = (if undo_key k then snd (undo e (c, s)) else (c, s));
              (c, s) = (if redo_key k then snd (redo e (c, s)) else (c, s));
              u = modal_key k u
          in if ui_modal u then (u, c, s) else arrow_key e k (u, c, s))"

section \<open>Starting\<close>

text \<open>The page shown, the person who logged in, the theme, and the connection.\<close>

datatype started = ToLogin | ErrorPage api_error | Running jsstring jsstring link

text \<open>
  \<open>token\<close> is the token of the session, \<open>theme\<close> the one in \<open>localStorage\<close>, \<open>me\<close> the reply to the
  request for the person of the user, whose failure is caught.
\<close>

definition init :: "env \<Rightarrow> net \<Rightarrow> jsstring \<Rightarrow> jsstring \<Rightarrow> jsstring option \<Rightarrow> client \<times> server
    \<Rightarrow> started \<times> client \<times> server" where
  "init e session_net token theme me = (\<lambda>(c, s).
     if session_net \<noteq> Up then (ErrorPage NetworkError, c, s)
     else case sv_session s of
            None \<Rightarrow> (ToLogin, c, s)
          | Some user \<Rightarrow>
              case loadAll e (c\<lparr>c_user := Some user, c_token := Some token\<rparr>, s) of
                (Some x, c, s) \<Rightarrow> (ErrorPage x, c, s)
              | (None, c, s) \<Rightarrow>
                  (Running (shown_theme theme (c_settings c)) (case me of None \<Rightarrow> [] | Some i \<Rightarrow> i) (first_link c),
                   render_state c, s))"

section \<open>Views and roles\<close>

lemma view_names [simp]:
  "distinct nav_views" "js ''team'' \<in> set nav_views"
  by (simp_all add: nav_views_def js_eq_iff)

lemma active_button: "v \<in> set nav_views \<Longrightarrow> map nb_view (filter nb_active (nav_bar u v)) = [v]"
proof -
  have "map nb_view (filter nb_active (nav_bar u v)) = filter (\<lambda>x. x = v) nav_views"
    by (simp add: nav_bar_def filter_map comp_def)
  moreover have "distinct xs \<Longrightarrow> v \<in> set xs \<Longrightarrow> filter (\<lambda>x. x = v) xs = [v]" for xs
    by (induction xs) (auto simp: filter_empty_conv)
  ultimately show "v \<in> set nav_views \<Longrightarrow> ?thesis" by simp
qed

lemma visible_views: "map nb_view (filter nb_visible (nav_bar u v))
    = (if isAdmin u then nav_views else filter (\<lambda>x. x \<noteq> js ''admin'' \<and> x \<noteq> js ''users'') nav_views)"
  by (simp add: nav_bar_def filter_map comp_def)

lemma pages_distinct:
  "distinct (map (view_page u) (map nb_view (filter nb_visible (nav_bar u v))))"
proof (cases "isAdmin u")
  case True
  then show ?thesis by (simp only: visible_views if_True) (simp add: nav_views_def view_page_def js_eq_iff)
next
  case False
  then have "filter (\<lambda>x. x \<noteq> js ''admin'' \<and> x \<noteq> js ''users'') nav_views
      = [js ''team'', js ''availability'', js ''run'', js ''oncall'', js ''guests'', js ''archived'', js ''people'',
         js ''projects'', js ''workload'', js ''activity'', js ''incidents'', js ''myweek'', js ''settings'']"
    by (simp add: nav_views_def js_eq_iff)
  with False show ?thesis by (simp only: visible_views if_False) (simp add: view_page_def js_eq_iff)
qed

text \<open>What the page of the administrator sends to the server (the page of the users sends other requests).\<close>

definition admin_requests :: "jsstring \<Rightarrow> jsstring \<Rightarrow> jsstring \<Rightarrow> request list" where
  "admin_requests weeks mode body = [PruneR, ResetR, PutSettingR (js ''prune_weeks'') weeks, ImportTomlR mode body]"

lemma admin_requests_refused:
  assumes "\<not> isAdmin (sv_session s)" and "r \<in> set (admin_requests weeks mode body)"
  shows "snd (snd (serve e r s)) = s"
proof -
  have "js ''prune_weeks'' \<notin> set all_role_keys" "js ''prune_weeks'' \<in> set admin_keys"
    by (simp_all add: all_role_keys_def admin_keys_def js_eq_iff)
  then show ?thesis using assms
    by (auto simp: admin_requests_def serve_def isAdmin_def roleSatisfies_def role_level_def updateSettings_def Let_def
        split: option.splits)
qed

text \<open>C26: the pages of administrators stay closed to everybody else: whatever view is asked for, they
  are not rendered, their buttons are hidden and no others, the buttons that are left open different
  pages with the current one marked, and the server keeps its tables from what the page of the
  administrator would send.\<close>

theorem admin_pages_closed:
  assumes "\<not> isAdmin (sv_session s)" and "current \<in> set nav_views"
  shows "view_page (sv_session s) v \<notin> {AdminPage, UsersPage}
    \<and> map nb_view (filter (Not \<circ> nb_visible) (nav_bar (sv_session s) v)) = [js ''admin'', js ''users'']
    \<and> distinct (map (view_page (sv_session s) \<circ> nb_view) (filter nb_visible (nav_bar (sv_session s) v)))
    \<and> map nb_view (filter nb_active (nav_bar (sv_session s) current)) = [current]
    \<and> list_all (\<lambda>r. snd (snd (serve e r s)) = s) (admin_requests weeks mode body)"
proof -
  have "map nb_view (filter (Not \<circ> nb_visible) (nav_bar (sv_session s) v)) = filter (\<lambda>x. x = js ''admin'' \<or> x = js ''users'') nav_views"
    using assms(1) by (simp add: nav_bar_def filter_map comp_def)
  also have "\<dots> = [js ''admin'', js ''users'']" by (simp add: nav_views_def js_eq_iff)
  finally show ?thesis
    using assms(1) active_button [OF assms(2)] pages_distinct [of "sv_session s" v] admin_requests_refused [OF assms(1)]
    by (simp add: list_all_iff) (simp add: view_page_def)
qed

theorem admin_pages_closed_witness:
  "view_page (sv_session demo_server) (js ''admin'') \<notin> {AdminPage, UsersPage}
    \<and> map nb_view (filter (Not \<circ> nb_visible) (nav_bar (sv_session demo_server) (js ''admin''))) = [js ''admin'', js ''users'']
    \<and> distinct (map (view_page (sv_session demo_server) \<circ> nb_view) (filter nb_visible (nav_bar (sv_session demo_server) (js ''admin''))))
    \<and> map nb_view (filter nb_active (nav_bar (sv_session demo_server) (js ''team''))) = [js ''team'']
    \<and> list_all (\<lambda>r. snd (snd (serve demo_env r demo_server)) = demo_server) (admin_requests (js ''1'') (js ''merge'') (js ''x''))"
  by (rule admin_pages_closed) (simp_all add: demo_server_def isAdmin_def js_eq_iff)

section \<open>Staying in step\<close>

text \<open>What navigation leaves alone.\<close>

definition nav_kept :: "client \<Rightarrow> client \<Rightarrow> bool" where
  "nav_kept c c' \<longleftrightarrow> c'\<lparr>c_planning := c_planning c, c_oncall := c_oncall c, c_rotation := c_rotation c,
     c_scrollOffset := c_scrollOffset c, c_currentView := c_currentView c, c_pendingFlash := c_pendingFlash c\<rparr> = c"

definition window_loaded :: "env \<Rightarrow> client \<Rightarrow> server \<Rightarrow> bool" where
  "window_loaded e c s \<longleftrightarrow> synced e c s \<and> c_oncall c = GetOnCall (win_start e c) (win_end e c) (sv_oncall s)
     \<and> c_rotation c = GetRotation (win_start e c) (win_end e c) (sv_rotation s)"

definition nav_ok :: "env \<Rightarrow> client \<Rightarrow> server \<Rightarrow> tab \<Rightarrow> bool" where
  "nav_ok e c0 s0 = (\<lambda>(u, c, s). s = s0 \<and> sv_session s0 \<noteq> None \<and> client_weeks e c \<noteq> [] \<and> synced e c s \<and> nav_kept c0 c)"

lemma nav_kept_refl [simp]: "nav_kept c c"
  by (simp add: nav_kept_def)

lemma nav_kept_trans: "nav_kept a b \<Longrightarrow> nav_kept b c \<Longrightarrow> nav_kept a c"
  by (cases a; cases b; cases c) (simp add: nav_kept_def)

lemma weeks_scrolled: "client_weeks e (c\<lparr>c_scrollOffset := off\<rparr>) = [] \<longleftrightarrow> client_weeks e c = []"
  by (simp add: client_weeks_def getVisibleWeeks_def Let_def)

lemma scroll_to_eq:
  assumes "env_ok e" "sv_session s \<noteq> None" "client_weeks e c \<noteq> []"
    and c1_def: "c1 = c\<lparr>c_scrollOffset := off\<rparr>"
  shows "scroll_to e off (u, c, s) = (prefs_saved u, c1\<lparr>
      c_planning := load_entries (GetPlanning (win_start e c1) (win_end e c1) (sv_planning s)),
      c_oncall := GetOnCall (win_start e c1) (win_end e c1) (sv_oncall s),
      c_rotation := GetRotation (win_start e c1) (win_end e c1) (sv_rotation s), c_pendingFlash := []\<rparr>, s)"
proof -
  have w: "client_weeks e c1 \<noteq> []" using assms(3) weeks_scrolled by (simp add: c1_def)
  then have "win_start e c1 \<noteq> []" "win_end e c1 \<noteq> []" using window_dates_nonempty by auto
  from reload_ok [OF assms(1,2) w this] show ?thesis
    by (simp add: scroll_to_def reload_render_def render_state_def applyPendingFlash_def c1_def)
qed

lemma win_cong: "c_settings c' = c_settings c \<Longrightarrow> c_scrollOffset c' = c_scrollOffset c \<Longrightarrow>
    client_weeks e c' = client_weeks e c \<and> win_start e c' = win_start e c \<and> win_end e c' = win_end e c"
  by (simp add: client_weeks_def win_start_def win_end_def)

lemma scroll_to_ok: "env_ok e \<Longrightarrow> nav_ok e c0 s0 (u, c, s) \<Longrightarrow> nav_ok e c0 s0 (scroll_to e off (u, c, s))"
proof -
  assume e: "env_ok e" and ok: "nav_ok e c0 s0 (u, c, s)"
  then have s: "sv_session s \<noteq> None" "s = s0" and w: "client_weeks e c \<noteq> []" and k: "nav_kept c0 c" by (auto simp: nav_ok_def)
  obtain c' where r: "scroll_to e off (u, c, s) = (prefs_saved u, c', s)" and c': "nav_kept c c'" "c_settings c' = c_settings c"
      "c_scrollOffset c' = off" "c_planning c' = load_entries (GetPlanning (win_start e (c\<lparr>c_scrollOffset := off\<rparr>))
         (win_end e (c\<lparr>c_scrollOffset := off\<rparr>)) (sv_planning s))"
    using scroll_to_eq [OF e s(1) w refl] by (simp add: nav_kept_def)
  have "client_weeks e c' = client_weeks e (c\<lparr>c_scrollOffset := off\<rparr>) \<and> win_start e c' = win_start e (c\<lparr>c_scrollOffset := off\<rparr>)
      \<and> win_end e c' = win_end e (c\<lparr>c_scrollOffset := off\<rparr>)"
    using c'(2,3) by (intro win_cong) simp_all
  then have "nav_ok e c0 s0 (prefs_saved u, c', s)"
    using c' s w nav_kept_trans [OF k] weeks_scrolled by (auto simp: nav_ok_def synced_def)
  then show ?thesis by (simp add: r)
qed

lemma redraw_ok: "nav_ok e c0 s0 (u, c, s) \<Longrightarrow> nav_ok e c0 s0 (redraw (u', c\<lparr>c_currentView := v\<rparr>, s))"
  "nav_ok e c0 s0 (u, c, s) \<Longrightarrow> nav_ok e c0 s0 (redraw (u', c, s))"
proof -
  assume ok: "nav_ok e c0 s0 (u, c, s)"
  have "nav_kept c (render_state (c\<lparr>c_currentView := v\<rparr>))" "nav_kept c (render_state c)"
    by (simp_all add: nav_kept_def render_state_def applyPendingFlash_def)
  then show "nav_ok e c0 s0 (redraw (u', c\<lparr>c_currentView := v\<rparr>, s))" "nav_ok e c0 s0 (redraw (u', c, s))"
    using ok nav_kept_trans
    by (auto simp: nav_ok_def redraw_def synced_def render_state_def applyPendingFlash_def client_weeks_def win_start_def win_end_def)
qed

lemma navigate_ok: "env_ok e \<Longrightarrow> nav_ok e c0 s0 (u, c, s) \<Longrightarrow> nav_ok e c0 s0 (navigate tz e op (u, c, s))"
  by (cases op) (auto intro: scroll_to_ok redraw_ok)

lemma arrow_ok: "env_ok e \<Longrightarrow> nav_ok e c0 s0 (u, c, s) \<Longrightarrow> nav_ok e c0 s0 (arrow_key e k (u, c, s))"
  by (auto simp: arrow_key_def Let_def intro: scroll_to_ok redraw_ok)

lemma keydown_ok:
  assumes "env_ok e" "nav_ok e c0 s0 (u, c, s)" "\<not> undo_key k" "\<not> redo_key k"
  shows "nav_ok e c0 s0 (keydown e k (u, c, s))"
proof -
  have "nav_ok e c0 s0 (u', c, s)" for u' using assms(2) by (auto simp: nav_ok_def)
  then show ?thesis using assms arrow_ok by (simp add: keydown_def Let_def)
qed

text \<open>Clicks on the controls, and keys.\<close>

fun use_page :: "(date \<Rightarrow> int) \<Rightarrow> env \<Rightarrow> nav_op + key \<Rightarrow> tab \<Rightarrow> tab" where
  "use_page tz e (Inl op) t = navigate tz e op t"
| "use_page tz e (Inr k) t = keydown e k t"

fun only_looks :: "nav_op + key \<Rightarrow> bool" where
  "only_looks (Inl op) = True"
| "only_looks (Inr k) = (\<not> undo_key k \<and> \<not> redo_key k)"

lemma use_page_ok:
  assumes "env_ok e" "list_all only_looks ops" "nav_ok e c0 s0 t"
  shows "nav_ok e c0 s0 (fold (use_page tz e) ops t)"
  using assms(2,3)
proof (induction ops arbitrary: t)
  case (Cons op ops)
  obtain u c s where t: "t = (u, c, s)" by (metis prod.exhaust)
  have "nav_ok e c0 s0 (use_page tz e op t)"
    using Cons.prems navigate_ok [OF assms(1)] keydown_ok [OF assms(1)] by (cases op) (simp_all add: t)
  then show ?case using Cons by simp
qed simp

text \<open>C28: looking around is safe: after any clicks on the controls of the views and any keys but
  those of undo and redo, with a working server, the server is untouched, the client keeps its people,
  projects, settings and history, and every half-day of the weeks then visible is shown as the server has it.\<close>

theorem navigation_keeps_step:
  assumes "env_ok e" and "sv_session s \<noteq> None" and "client_weeks e c \<noteq> []" and "synced e c s"
    and "list_all only_looks ops" and "plain_store (sv_planning s)" and "plain_ref r"
  shows "case fold (use_page tz e) ops (u, c, s) of (u', c', s') \<Rightarrow>
    s' = s \<and> nav_kept c c' \<and> c_undoStack c' = c_undoStack c \<and> c_people c' = c_people c
    \<and> dict_get (c_planning c') (ref_key r) = (if in_window e c' r then read_slot (sv_planning s) r else None)"
proof -
  obtain u' c' s' where f: "fold (use_page tz e) ops (u, c, s) = (u', c', s')" by (metis prod.exhaust)
  have "nav_ok e c s (fold (use_page tz e) ops (u, c, s))"
    by (rule use_page_ok [OF assms(1,5)]) (use assms(2-4) in \<open>simp add: nav_ok_def\<close>)
  then have ok: "s' = s" "nav_kept c c'" "synced e c' s" by (auto simp: f nav_ok_def)
  have "c_undoStack c' = c_undoStack c \<and> c_people c' = c_people c"
    using ok(2) by (cases c; cases c') (simp add: nav_kept_def)
  then show ?thesis
    using ok synced_get [OF ok(3) assms(6,7)] by (simp add: f)
qed

definition demo_ui :: ui where
  "demo_ui = \<lparr>ui_person = [], ui_avail = 0, ui_group = js ''name'', ui_weekend = False, ui_guests = False, ui_filter = [],
     ui_modal = False, ui_form = None, ui_browser = \<lparr>br_window = [], br_storage = []\<rparr>\<rparr>"

theorem navigation_keeps_step_witness:
  "case fold (use_page (\<lambda>_. 0) demo_env) [Inl Later, Inr \<lparr>k_tag = js ''td'', k_ctrl = False, k_key = js ''ArrowLeft''\<rparr>]
      (demo_ui, demo_client, demo_server) of (u', c', s') \<Rightarrow>
    s' = demo_server \<and> nav_kept demo_client c' \<and> c_undoStack c' = c_undoStack demo_client \<and> c_people c' = c_people demo_client
    \<and> dict_get (c_planning c') (ref_key demo_ref)
        = (if in_window demo_env c' demo_ref then read_slot (sv_planning demo_server) demo_ref else None)"
proof (rule navigation_keeps_step [OF demo_env_ok _ demo_weeks _ _ demo_plain])
  show "sv_session demo_server \<noteq> None" by (simp add: demo_server_def)
  show "synced demo_env demo_client demo_server" by (rule demo_synced)
  show "list_all only_looks [Inl Later, Inr \<lparr>k_tag = js ''td'', k_ctrl = False, k_key = js ''ArrowLeft''\<rparr>]"
    by (simp add: undo_key_def redo_key_def)
  show "plain_ref demo_ref" using demo_proper by (simp add: proper_ref_def)
qed

lemma arrow_names:
  assumes "d = js ''ArrowLeft'' \<or> d = js ''ArrowRight''"
  shows "\<not> undo_key \<lparr>k_tag = tag, k_ctrl = ctrl, k_key = d\<rparr>" "\<not> redo_key \<lparr>k_tag = tag, k_ctrl = ctrl, k_key = d\<rparr>"
    "modal_key \<lparr>k_tag = tag, k_ctrl = ctrl, k_key = d\<rparr> u = u"
proof -
  have "d \<notin> {js ''z'', js ''Z'', js ''y'', js ''Escape'', js ''u'', js ''r''}"
    using assms by (elim disjE) (simp_all add: js_eq_iff)
  then show "\<not> undo_key \<lparr>k_tag = tag, k_ctrl = ctrl, k_key = d\<rparr>" "\<not> redo_key \<lparr>k_tag = tag, k_ctrl = ctrl, k_key = d\<rparr>"
      "modal_key \<lparr>k_tag = tag, k_ctrl = ctrl, k_key = d\<rparr> u = u"
    by (simp_all add: undo_key_def redo_key_def modal_key_def Let_def)
qed

lemma not_typing: "\<not> typing \<lparr>k_tag = js ''td'', k_ctrl = ctrl, k_key = d\<rparr>"
  by (simp add: typing_def js_eq_iff)

lemma arrow_scrolls:
  assumes "c_currentView c = js ''team''" "\<not> ui_modal u" "d = js ''ArrowLeft'' \<or> d = js ''ArrowRight''"
  shows "keydown e \<lparr>k_tag = js ''td'', k_ctrl = ctrl, k_key = d\<rparr> (u, c, s)
    = scroll_to e (c_scrollOffset c + (if d = js ''ArrowLeft'' then - 1 else 1)) (u, c, s)"
  using assms(1,2) arrow_names [OF assms(3)] not_typing assms(3)
  by (auto simp: keydown_def arrow_key_def)

lemma modal_keeps_arrow:
  assumes "ui_modal u" "d = js ''ArrowLeft'' \<or> d = js ''ArrowRight''"
  shows "keydown e \<lparr>k_tag = tag, k_ctrl = ctrl, k_key = d\<rparr> (u, c, s) = (u, c, s)"
  using assms(1) arrow_names [OF assms(2)] by (simp add: keydown_def)

text \<open>An arrow key and the opposite one bring the grid back as it was, the planning, the on-call and the
  rotation of the window included; while a field has the focus or a dialog is open they do nothing.\<close>

theorem arrows_return:
  assumes "env_ok e" and "sv_session s \<noteq> None" and "client_weeks e c \<noteq> []" and "window_loaded e c s"
    and "c_currentView c = js ''team''" and "\<not> ui_modal u"
    and "(d, opp) \<in> {(js ''ArrowLeft'', js ''ArrowRight''), (js ''ArrowRight'', js ''ArrowLeft'')}"
  shows "(case keydown e \<lparr>k_tag = js ''td'', k_ctrl = ctrl, k_key = opp\<rparr>
          (keydown e \<lparr>k_tag = js ''td'', k_ctrl = ctrl, k_key = d\<rparr> (u, c, s)) of
        (u', c', s') \<Rightarrow> c' = render_state c \<and> s' = s \<and> u' = prefs_saved (prefs_saved u))
    \<and> keydown e \<lparr>k_tag = js ''input'', k_ctrl = ctrl, k_key = d\<rparr> (u, c, s) = (u, c, s)
    \<and> keydown e \<lparr>k_tag = js ''td'', k_ctrl = ctrl, k_key = d\<rparr> (u\<lparr>ui_modal := True\<rparr>, c, s) = (u\<lparr>ui_modal := True\<rparr>, c, s)"
proof -
  define n :: int where "n = (if d = js ''ArrowLeft'' then - 1 else 1)"
  have d: "d = js ''ArrowLeft'' \<or> d = js ''ArrowRight''" "opp = js ''ArrowLeft'' \<or> opp = js ''ArrowRight''"
      "(if opp = js ''ArrowLeft'' then - 1 else 1) = - n"
    using assms(7) by (auto simp: n_def js_eq_iff)
  obtain c1 where c1: "scroll_to e (c_scrollOffset c + n) (u, c, s) = (prefs_saved u, c1, s)"
      "c_scrollOffset c1 = c_scrollOffset c + n" "c_currentView c1 = c_currentView c" "nav_kept c c1" "c_settings c1 = c_settings c"
    using scroll_to_eq [OF assms(1-3) refl] by (simp add: nav_kept_def)
  have w1: "client_weeks e c1 \<noteq> []"
    using assms(3) c1(5) by (simp add: client_weeks_def getVisibleWeeks_def Let_def)
  have u: "\<not> ui_modal (prefs_saved u)" using assms(6) by (simp add: prefs_saved_def)
  have "c1\<lparr>c_scrollOffset := c_scrollOffset c, c_planning := c_planning c, c_oncall := c_oncall c, c_rotation := c_rotation c,
      c_pendingFlash := []\<rparr> = render_state c"
    using c1(3,4) by (cases c; cases c1) (simp add: nav_kept_def render_state_def applyPendingFlash_def)
  moreover have "win_start e (c1\<lparr>c_scrollOffset := c_scrollOffset c\<rparr>) = win_start e c \<and> win_end e (c1\<lparr>c_scrollOffset := c_scrollOffset c\<rparr>) = win_end e c"
    using c1(4) by (cases c; cases c1) (simp add: nav_kept_def win_start_def win_end_def client_weeks_def)
  ultimately have "scroll_to e (c_scrollOffset c1 + - n) (prefs_saved u, c1, s) = (prefs_saved (prefs_saved u), render_state c, s)"
    using scroll_to_eq [OF assms(1,2) w1 refl, of "c_scrollOffset c" "prefs_saved u"] assms(4) c1(2)
    by (simp add: window_loaded_def synced_def)
  then show ?thesis
    using arrow_scrolls [OF assms(5,6) d(1)] arrow_scrolls [OF _ u d(2)] c1 assms(5) d(3)
      modal_keeps_arrow [OF _ d(1), of "u\<lparr>ui_modal := True\<rparr>"]
    by (simp add: n_def [symmetric]) (simp add: keydown_def typing_def)
qed

theorem arrows_return_witness:
  "case keydown demo_env \<lparr>k_tag = js ''td'', k_ctrl = False, k_key = js ''ArrowRight''\<rparr>
      (keydown demo_env \<lparr>k_tag = js ''td'', k_ctrl = False, k_key = js ''ArrowLeft''\<rparr> (demo_ui, demo_client, demo_server)) of
    (u', c', s') \<Rightarrow> c' = render_state demo_client \<and> s' = demo_server \<and> u' = prefs_saved (prefs_saved demo_ui)"
proof -
  have "window_loaded demo_env demo_client demo_server"
    using demo_synced by (simp add: window_loaded_def) (simp add: demo_client_def demo_server_def GetOnCall_def GetRotation_def)
  moreover have "sv_session demo_server \<noteq> None" "c_currentView demo_client = js ''team''" "\<not> ui_modal demo_ui"
    by (simp_all add: demo_server_def demo_client_def demo_ui_def)
  ultimately show ?thesis
    using arrows_return [OF demo_env_ok _ demo_weeks, of demo_server demo_ui "js ''ArrowLeft''" "js ''ArrowRight''" False] by simp
qed

section \<open>The start\<close>

text \<open>C27: the start of the program with a working server ends on the team grid, in step with the server: with
  the user of the session, the directory and the visible window loaded, and a connection that opens and
  is then announced; without a session it changes nothing and goes to the login page.\<close>

theorem start_in_step:
  assumes "env_ok e" and "sv_session s = Some user" and "client_weeks e (loaded_client s c) \<noteq> []" and "rows_ok s"
    and "c_currentView c = js ''team''"
  shows "(case init e Up token theme me (c, s) of (st, c', s') \<Rightarrow>
      st = Running (shown_theme theme (settingsFromMap (sv_settings s))) (case me of None \<Rightarrow> [] | Some i \<Rightarrow> i) (first_link c')
      \<and> s' = s \<and> c_user c' = Some user \<and> c_token c' = Some token \<and> directory_synced c' s \<and> synced e c' s
      \<and> view_page (c_user c') (c_currentView c') = TeamGridPage
      \<and> lk_status (first_link c') = js ''reconnecting'' \<and> lk_status (come_back c' (first_link c')) = js ''connected'')
    \<and> init e Up token theme me (c, s\<lparr>sv_session := None\<rparr>) = (ToLogin, c, s\<lparr>sv_session := None\<rparr>)"
proof -
  let ?c = "c\<lparr>c_user := Some user, c_token := Some token\<rparr>"
  have s: "sv_session s \<noteq> None" using assms(2) by simp
  have w: "client_weeks e (loaded_client s ?c) \<noteq> []" using assms(3) by (simp add: client_weeks_def loaded_client_def)
  have dates: "win_start e (loaded_client s ?c) \<noteq> []" "win_end e (loaded_client s ?c) \<noteq> []"
    using window_dates_nonempty [OF w] by auto
  obtain c' where load: "loadAll e (?c, s) = (None, c', s)" and c': "c_user c' = Some user" "c_token c' = Some token"
      "c_currentView c' = js ''team''"
    using loadAll_eq [OF assms(1) s] reload_ok [OF assms(1) s w dates] assms(5) by (simp add: loaded_client_def)
  have main: "directory_synced c' s" "c_settings c' = settingsFromMap (sv_settings s)" "synced e c' s"
    using loadAll_main [OF assms(1) s w assms(4) load] by auto
  have "init e Up token theme me (c, s) = (Running (shown_theme theme (c_settings c'))
      (case me of None \<Rightarrow> [] | Some i \<Rightarrow> i) (first_link c'), render_state c', s)"
    using load assms(2) by (simp add: init_def)
  moreover have "first_link (render_state c') = first_link c'" "come_back (render_state c') l = come_back c' l" for l
    by (simp_all add: first_link_def connect_def come_back_def timer_fires_def Let_def)
  moreover have "lk_status (first_link c') = js ''reconnecting''" "lk_status (come_back c' (first_link c')) = js ''connected''"
    using c'(2) by (simp_all add: first_link_def connect_def come_back_def on_open_def Let_def)
  moreover have "directory_synced (render_state c') s" "synced e (render_state c') s"
    using main by (simp_all add: render_state_def applyPendingFlash_def directory_synced_def synced_def win_start_def win_end_def client_weeks_def)
  ultimately show ?thesis
    using c' main(2) by (simp add: view_page_def) (simp add: render_state_def applyPendingFlash_def init_def)
qed

theorem start_in_step_witness:
  "case init demo_env Up (js ''t'') [] None (demo_client, demo_server) of (st, c', s') \<Rightarrow> s' = demo_server
     \<and> directory_synced c' demo_server \<and> synced demo_env c' demo_server
     \<and> lk_status (come_back c' (first_link c')) = js ''connected''"
proof -
  have "sv_session demo_server = Some \<lparr>u_username = js ''ann'', u_role = js ''normal''\<rparr>" "rows_ok demo_server"
      "c_currentView demo_client = js ''team''"
    by (simp_all add: demo_server_def rows_ok_def demo_client_def)
  moreover have "client_weeks demo_env (loaded_client demo_server demo_client) \<noteq> []"
    by (simp add: client_weeks_def getVisibleWeeks_def loaded_client_def settingsFromMap_def demo_server_def
        dict_get_or_def atoiOr_def Let_def)
  ultimately show ?thesis
    using start_in_step [OF demo_env_ok, where s = demo_server and c = demo_client and token = "js ''t''" and theme = "[]" and me = None] by (auto split: prod.splits)
qed

section \<open>What is lost\<close>

text \<open>The view variables are not properties of \<open>window\<close>: what a page that starts without stored preferences
  saves is the text \<open>undefined\<close> for each of them, whatever is on the screen.\<close>

lemma prefs_not_saved:
  "br_window b = [] \<Longrightarrow> k \<in> set PREFS_KEYS \<Longrightarrow> dict_get (br_storage (savePrefs b)) (pref_name k) = Some (js ''undefined'')"
  by (auto simp: savePrefs_def PREFS_KEYS_def pref_name_def win_string_def dict_get_set js_eq_iff)

text \<open>The picker in the top bar does not offer guests, the one on the page of My Week does.\<close>

lemma guest_only_in_page_picker:
  assumes "p \<in> set (c_people c)" "p_status p = js ''active''" "p_is_guest p"
    and "list_all (\<lambda>q. p_id q = p_id p \<longrightarrow> q = p) (c_people c)"
  shows "p_id p \<notin> fst ` set (renderMePicker i c)"
  using assms by (auto simp: renderMePicker_def getActivePeople_def list_all_iff)

text \<open>Nobody is dropped from the avatars: those shown and the number in the last badge make all.\<close>

lemma presence_complete:
  "length (renderPresence c) = min 9 (length (c_presence c)) \<and>
   (8 < length (c_presence c) \<longrightarrow> snd (last (renderPresence c)) = js ''+'' @ str_of_nat (length (c_presence c) - 8))"
  by (simp add: renderPresence_def Let_def)

end
