(* ===== verification/Tooltip.thy ===== *)
theory Tooltip
  imports Complex_Main SlotView AppState
begin

text \<open>
  The tooltip of the half-day cells: which cell it belongs to, what it says, where it is put
  (lengths of the page, which are fractions, as real numbers), and the notices and the saving indicator, which go
  away after a while. Proved here: the tooltip stays on the screen and off its cell whenever that is
  possible, and it is only seen while the pointer is on a cell.
\<close>

section \<open>The position\<close>

record box =
  bx_left :: real
  bx_top :: real
  bx_width :: real
  bx_height :: real

definition bx_bottom :: "box \<Rightarrow> real" where
  "bx_bottom b = bx_top b + bx_height b"

text \<open>\<open>rect\<close> is the cell, \<open>w\<close> and \<open>h\<close> the size of the tooltip, \<open>vw\<close> and \<open>vh\<close> that of the window.\<close>

definition tip_left :: "box \<Rightarrow> real \<Rightarrow> real \<Rightarrow> real" where
  "tip_left rect w vw =
     (let left = bx_left rect + bx_width rect / 2 - w / 2;
          left = (if left < 4 then 4 else left)
      in if vw - 4 < left + w then vw - w - 4 else left)"

definition tip_top :: "box \<Rightarrow> real \<Rightarrow> real \<Rightarrow> real" where
  "tip_top rect h vh =
     (let top = bx_bottom rect + 4;
          top = (if vh - 4 < top + h then bx_top rect - h - 4 else top)
      in if top < 4 then 4 else top)"

section \<open>Showing and hiding\<close>

text \<open>The data attributes of a cell, empty where absent; cells are told apart by their place on the page.\<close>

record tip_cell =
  tc_place :: nat
  tc_person :: jsstring
  tc_date :: jsstring
  tc_slot :: jsstring
  tc_rect :: box

text \<open>\<open>tp_cell\<close> is \<open>_tooltipCell\<close>; \<open>tp_shown\<close> the text of the tooltip and its place while it is not hidden.\<close>

record tip =
  tp_cell :: "tip_cell option"
  tp_shown :: "(jsstring \<times> real \<times> real) option"

definition hideCellTooltip :: "tip \<Rightarrow> tip" where
  "hideCellTooltip t = t\<lparr>tp_shown := None, tp_cell := None\<rparr>"

text \<open>\<open>extent\<close> measures the tooltip with its new text.\<close>

definition showCellTooltip :: "(jsstring \<Rightarrow> real \<times> real) \<Rightarrow> real \<times> real \<Rightarrow> (tip_cell \<Rightarrow> jsstring) \<Rightarrow> tip_cell \<Rightarrow> tip \<Rightarrow> tip" where
  "showCellTooltip extent window text td t =
     (if tc_person td = [] \<or> tc_date td = [] \<or> tc_slot td = [] then hideCellTooltip t
      else let html = text td; (w, h) = extent html
           in t\<lparr>tp_shown := Some (html, tip_left (tc_rect td) w (fst window), tip_top (tc_rect td) h (snd window))\<rparr>)"

definition tip_text :: "(jsstring \<Rightarrow> jsstring) \<Rightarrow> person list \<Rightarrow> project list \<Rightarrow> planning \<Rightarrow> tip_cell \<Rightarrow> jsstring" where
  "tip_text lower people projects pl td =
     getSlotTitleHtml lower people projects
       (case getPerson people (tc_person td) of None \<Rightarrow> PersonUndefined | Some p \<Rightarrow> PersonObj p)
       (tc_date td) (tc_slot td) (getSlot pl (tc_person td) (tc_date td) (tc_slot td))"

text \<open>The element under the pointer, if it is in a half-day cell; or the pointer leaves the document.\<close>

datatype pointer = Over "tip_cell option" | Outside

fun point_tip :: "(jsstring \<Rightarrow> real \<times> real) \<Rightarrow> real \<times> real \<Rightarrow> (tip_cell \<Rightarrow> jsstring) \<Rightarrow> pointer \<Rightarrow> tip \<Rightarrow> tip" where
  "point_tip extent window text (Over td) t =
     (if td = tp_cell t then t
      else let t = t\<lparr>tp_cell := td\<rparr>
           in case td of None \<Rightarrow> hideCellTooltip t | Some td \<Rightarrow> showCellTooltip extent window text td t)"
| "point_tip extent window text Outside t = hideCellTooltip t"

definition no_tip :: tip where
  "no_tip = \<lparr>tp_cell = None, tp_shown = None\<rparr>"

section \<open>Notices and the saving indicator\<close>

text \<open>A notice: its class, its icon, its text, when it appeared and for how long.\<close>

record notice =
  no_class :: jsstring
  no_icon :: jsstring
  no_text :: jsstring
  no_since :: int
  no_duration :: int

definition toast :: "jsstring \<Rightarrow> jsstring \<Rightarrow> int \<Rightarrow> int \<Rightarrow> notice list \<Rightarrow> notice list" where
  "toast message type duration now shown = shown @
     [\<lparr>no_class = js ''toast '' @ type,
       no_icon = dict_get_or [] [(js ''error'', [10060]), (js ''success'', [9989]), (js ''info'', [8505, 65039])] type,
       no_text = escapeHtml message, no_since = now, no_duration = duration\<rparr>]"

datatype fade = Shown | FadingOut | Removed

definition notice_state :: "int \<Rightarrow> notice \<Rightarrow> fade" where
  "notice_state now n =
     (if now < no_since n + no_duration n then Shown else if now < no_since n + no_duration n + 300 then FadingOut else Removed)"

text \<open>The timer that hides the indicator, and whether it is visible; a call stops the old timer.\<close>

record saving =
  sa_timer :: "int option"
  sa_visible :: bool

definition showSaving :: "int \<Rightarrow> saving \<Rightarrow> saving" where
  "showSaving now i = i\<lparr>sa_visible := True, sa_timer := Some (now + 1000)\<rparr>"

definition saving_tick :: "int \<Rightarrow> saving \<Rightarrow> saving" where
  "saving_tick now i = (case sa_timer i of None \<Rightarrow> i
     | Some t \<Rightarrow> if t \<le> now then i\<lparr>sa_visible := False, sa_timer := None\<rparr> else i)"

lemma saving_until: "sa_visible (saving_tick now (showSaving t i)) \<longleftrightarrow> now < t + 1000"
  by (auto simp: saving_tick_def showSaving_def)

lemma later_call_prolongs: "showSaving t (showSaving t0 i) = showSaving t i"
  by (simp add: showSaving_def)

section \<open>Properties\<close>

text \<open>The tooltip stays on the screen: it begins inside the window, ends inside it when it is not wider
  than the window allows, and when it fits below or above its cell it is entirely inside and does not cover
  the cell.\<close>

theorem tooltip_in_window:
  assumes "0 \<le> bx_top rect" and "0 \<le> bx_height rect" and "bx_top rect \<le> vh"
  shows "(w + 8 \<le> vw \<longrightarrow> 4 \<le> tip_left rect w vw \<and> tip_left rect w vw + w \<le> vw - 4)
    \<and> 4 \<le> tip_top rect h vh
    \<and> (bx_bottom rect + 4 + h \<le> vh - 4 \<or> 4 \<le> bx_top rect - h - 4 \<longrightarrow>
         tip_top rect h vh + h \<le> vh - 4
         \<and> (bx_bottom rect + 4 \<le> tip_top rect h vh \<or> tip_top rect h vh + h \<le> bx_top rect - 4))"
proof -
  have "4 \<le> tip_left rect w vw \<and> tip_left rect w vw + w \<le> vw - 4" if "w + 8 \<le> vw"
    using that by (auto simp: tip_left_def Let_def)
  moreover have "4 \<le> tip_top rect h vh" by (auto simp: tip_top_def Let_def)
  moreover have "tip_top rect h vh + h \<le> vh - 4
      \<and> (bx_bottom rect + 4 \<le> tip_top rect h vh \<or> tip_top rect h vh + h \<le> bx_top rect - 4)"
    if "bx_bottom rect + 4 + h \<le> vh - 4 \<or> 4 \<le> bx_top rect - h - 4"
    using that assms by (auto simp: tip_top_def bx_bottom_def Let_def)
  ultimately show ?thesis by blast
qed

theorem tooltip_in_window_witness:
  "tip_top \<lparr>bx_left = 700, bx_top = 560, bx_width = 40, bx_height = 30\<rparr> 80 600 + 80 \<le> 600 - 4
   \<and> tip_left \<lparr>bx_left = 700, bx_top = 560, bx_width = 40, bx_height = 30\<rparr> 200 800 + 200 \<le> 800 - 4"
  using tooltip_in_window [of "\<lparr>bx_left = 700, bx_top = 560, bx_width = 40, bx_height = 30\<rparr>" 600 200 800 80]
  by (simp add: bx_bottom_def)

text \<open>What a tooltip over a cell is; a cell without its data has none.\<close>

definition tip_for :: "(jsstring \<Rightarrow> real \<times> real) \<Rightarrow> real \<times> real \<Rightarrow> (tip_cell \<Rightarrow> jsstring) \<Rightarrow> pointer \<Rightarrow> (jsstring \<times> real \<times> real) option" where
  "tip_for extent window text p =
     (case p of Over (Some td) \<Rightarrow>
        if tc_person td = [] \<or> tc_date td = [] \<or> tc_slot td = [] then None
        else Some (text td, tip_left (tc_rect td) (fst (extent (text td))) (fst window), tip_top (tc_rect td) (snd (extent (text td))) (snd window))
      | _ \<Rightarrow> None)"

lemma point_tip_shows:
  assumes "tp_shown t = tip_for extent window text (Over (tp_cell t))"
    and t'_def: "t' = point_tip extent window text p t"
  shows "tp_shown t' = tip_for extent window text p \<and> tp_shown t' = tip_for extent window text (Over (tp_cell t'))"
proof (cases p)
  case (Over td)
  then show ?thesis
    using assms by (auto simp: t'_def tip_for_def showCellTooltip_def hideCellTooltip_def Let_def split: option.splits prod.splits)
qed (auto simp: t'_def tip_for_def hideCellTooltip_def)

text \<open>The tooltip follows the pointer: after any movements it is shown exactly when the last one ended
  on a half-day cell, and then says what the selectors say of the slot of that cell, at the place of that cell.\<close>

theorem tooltip_follows_pointer:
  "tp_shown (fold (point_tip extent window (tip_text lower people projects pl)) (ps @ [p]) no_tip)
    = tip_for extent window (tip_text lower people projects pl) p"
proof -
  define f where "f = tip_text lower people projects pl"
  have "tp_shown (fold (point_tip extent window f) qs no_tip)
      = tip_for extent window f (Over (tp_cell (fold (point_tip extent window f) qs no_tip)))" for qs
  proof (induction qs rule: rev_induct)
    case Nil
    then show ?case by (simp add: no_tip_def tip_for_def)
  next
    case (snoc q qs)
    have "fold (point_tip extent window f) (qs @ [q]) no_tip = point_tip extent window f q (fold (point_tip extent window f) qs no_tip)" by simp
    then show ?case using point_tip_shows [OF snoc.IH refl, of q] by metis
  qed
  then show ?thesis using point_tip_shows [of "fold (point_tip extent window f) ps no_tip" _ _ _ _ p, OF _ refl]
    by (simp add: f_def [symmetric])
qed

end
