(* ===== verification/Forms.thy ===== *)
theory Forms
  imports Directory Projects
begin

text \<open>
  The dialogs that add and edit people and projects: what they put into their fields, before the
  handlers of \<open>Directory\<close> read the fields. The dialogs are built as HTML, so that a field holds what
  the browser reads back from the markup. Proved here: opening a dialog and saving it without a change
  leaves client and server exactly as they were, for texts without characters that are special
  there, names without markup and a team lead among the options; and what is lost otherwise.
\<close>

section \<open>Texts in the markup\<close>

text \<open>
  \<open>attr\<close> is what the browser makes of \<open>value="..."\<close> and \<open>area\<close> of the content of a \<open>textarea\<close>, given what the
  code puts between the quotes and the tags. The attribute ends at the next quote; without ampersands and
  line breaks its text is taken as it is, and so is a content without tags and ampersands.
  The editing dialogs begin with \<open><h2>Edit ${name}</h2>\<close>, the name as it is: \<open>after h i v\<close> is what the element \<open>i\<close> that
  \<open>getElementById\<close> finds has as its value when the heading has the text \<open>h\<close> and the field of the dialog itself the value \<open>v\<close>.
  A heading without \<open><\<close> has no elements, so that the field is found.
\<close>

definition plain_text :: "jsstring \<Rightarrow> bool" where
  "plain_text s \<longleftrightarrow> set s \<inter> {0, 10, 13, 34, 38} = {}"

definition plain_area :: "jsstring \<Rightarrow> bool" where
  "plain_area s \<longleftrightarrow> set s \<inter> {0, 13, 38, 60} = {} \<and> take 1 s \<noteq> [10]"

definition no_tag :: "jsstring \<Rightarrow> bool" where
  "no_tag s \<longleftrightarrow> 60 \<notin> set s"

definition reads_html :: "(jsstring \<Rightarrow> jsstring \<Rightarrow> jsstring \<Rightarrow> jsstring) \<Rightarrow> (jsstring \<Rightarrow> jsstring) \<Rightarrow> (jsstring \<Rightarrow> jsstring) \<Rightarrow> bool" where
  "reads_html after attr area \<longleftrightarrow> (\<forall>h i v. no_tag h \<longrightarrow> after h i v = v)
     \<and> (\<forall>s. plain_text s \<longrightarrow> attr s = s) \<and> (\<forall>s r. plain_text s \<longrightarrow> attr (s @ 34 # r) = s)
     \<and> (\<forall>s. plain_area s \<longrightarrow> area s = s)"

lemma reads_plain:
  assumes "reads_html after attr area"
  shows "plain_text s \<Longrightarrow> attr s = s" "plain_text s \<Longrightarrow> attr (s @ 34 # r) = s" "plain_area t \<Longrightarrow> area t = t"
    "no_tag h \<Longrightarrow> after h i v = v"
  using assms by (simp_all add: reads_html_def)

text \<open>A reader that knows one element in a heading: an input without quotes around its two attributes.\<close>

definition heading_input :: "jsstring \<Rightarrow> jsstring \<Rightarrow> jsstring \<Rightarrow> jsstring" where
  "heading_input h i v =
     (let start = js ''<input id='' @ i @ js '' value='' in
      if take (length start) h = start then takeWhile (\<lambda>c. c \<noteq> 62) (drop (length start) h) else v)"

lemma demo_reader: "reads_html heading_input (takeWhile (\<lambda>c. c \<noteq> 34)) (\<lambda>s. s)"
proof -
  have "takeWhile (\<lambda>c. c \<noteq> (34::nat)) (s @ 34 # r) = s \<and> takeWhile (\<lambda>c. c \<noteq> 34) s = s" if "plain_text s" for s r
    using that by (induction s) (auto simp: plain_text_def)
  moreover have "heading_input h i v = v" if "no_tag h" for h i v
    using that by (cases h) (auto simp: heading_input_def no_tag_def js_def Let_def)
  ultimately show ?thesis by (auto simp: reads_html_def)
qed

section \<open>The dialogs\<close>

definition showAddPersonModal :: person_form where
  "showAddPersonModal = \<lparr>pf_name = [], pf_role = [], pf_team = [], pf_emoji = emoji_person, pf_projects = []\<rparr>"

definition showEditPersonModal :: "(jsstring \<Rightarrow> jsstring \<Rightarrow> jsstring \<Rightarrow> jsstring) \<Rightarrow> (jsstring \<Rightarrow> jsstring) \<Rightarrow> person list \<Rightarrow> jsstring
    \<Rightarrow> person_form option" where
  "showEditPersonModal after attr people personId =
     map_option (\<lambda>p. let field = (\<lambda>i v. after (p_name p) (js i) v)
       in \<lparr>pf_name = field ''edit-name'' (attr (p_name p)), pf_role = field ''edit-role'' (attr (p_role p)),
           pf_team = field ''edit-team'' (attr (p_sub_team p)), pf_emoji = field ''edit-emoji'' (attr (p_avatar_emoji p)),
           pf_projects = field ''edit-projects'' (attr (js_join (js '', '') (p_default_projects p)))\<rparr>)
     (getPerson people personId)"

definition PROJECT_STATUSES :: "jsstring list" where
  "PROJECT_STATUSES = [js ''unstarted'', js ''in_progress'', js ''paused'', js ''done'']"

text \<open>The value, the text and the selection of each option.\<close>

type_synonym select_option = "jsstring \<times> jsstring \<times> bool"

definition teamLeadOptions :: "(jsstring \<Rightarrow> jsstring) \<Rightarrow> person list \<Rightarrow> jsstring \<Rightarrow> select_option list" where
  "teamLeadOptions attr people selectedId =
     ([], [8212] @ js '' None '' @ [8212], False) #
     map (\<lambda>p. (attr (p_id p), (if p_is_guest p then js ''Guest: '' else []) @ escapeHtml (p_name p), selectedId = p_id p))
       (filter (\<lambda>p. p_status p = js ''active'') people)"

definition statusOptions :: "jsstring \<Rightarrow> select_option list" where
  "statusOptions status = map (\<lambda>s. (s, dict_get_or (js ''undefined'') STATUS_LABELS s, status = s)) PROJECT_STATUSES"

text \<open>A select shows the last option that is marked, or else its first.\<close>

definition select_value :: "select_option list \<Rightarrow> jsstring" where
  "select_value opts = (case filter (\<lambda>(v, l, s). s) opts of [] \<Rightarrow> fst (hd opts) | sel \<Rightarrow> fst (last sel))"

definition showAddProjectModal :: "(jsstring \<Rightarrow> jsstring) \<Rightarrow> person list \<Rightarrow> project_form" where
  "showAddProjectModal attr people = \<lparr>jf_name = [], jf_emoji = emoji_folder, jf_description = [], jf_url = [], jf_start = [],
     jf_end = [], jf_status = select_value (statusOptions []),
     jf_lead = select_value (teamLeadOptions attr people [])\<rparr>"

definition showEditProjectModal :: "(jsstring \<Rightarrow> jsstring \<Rightarrow> jsstring \<Rightarrow> jsstring) \<Rightarrow> (jsstring \<Rightarrow> jsstring) \<Rightarrow> (jsstring \<Rightarrow> jsstring)
    \<Rightarrow> person list \<Rightarrow> project list \<Rightarrow> jsstring \<Rightarrow> project_form option" where
  "showEditProjectModal after attr area people projects i =
     map_option (\<lambda>p. let field = (\<lambda>i v. after (pr_name p) (js i) v)
       in \<lparr>jf_name = field ''edit-proj-name'' (attr (pr_name p)), jf_emoji = field ''edit-proj-emoji'' (attr (pr_emoji p)),
           jf_description = field ''edit-proj-desc'' (area (pr_description p)), jf_url = field ''edit-proj-url'' (attr (pr_url p)),
           jf_start = field ''edit-proj-start'' (attr (pr_start_date p)), jf_end = field ''edit-proj-end'' (attr (pr_end_date p)),
           jf_status = field ''edit-proj-status'' (select_value (statusOptions (pr_status p))),
           jf_lead = field ''edit-proj-lead'' (select_value (teamLeadOptions attr people (pr_team_lead p)))\<rparr>)
     (getProject projects i)"

section \<open>Lists of names\<close>

definition field_text :: "jsstring \<Rightarrow> bool" where
  "field_text t \<longleftrightarrow> plain_text t \<and> js_trim t = t"

definition person_plain :: "person \<Rightarrow> bool" where
  "person_plain p \<longleftrightarrow> list_all field_text [p_name p, p_role p, p_sub_team p, p_avatar_emoji p] \<and> p_name p \<noteq> [] \<and> p_avatar_emoji p \<noteq> []
     \<and> no_tag (p_name p)
     \<and> list_all (\<lambda>t. field_text t \<and> t \<noteq> [] \<and> 44 \<notin> set t) (p_default_projects p)"

definition project_texts :: "person list \<Rightarrow> project \<Rightarrow> bool" where
  "project_texts people p \<longleftrightarrow> list_all field_text [pr_name p, pr_emoji p, pr_url p, pr_start_date p, pr_end_date p] \<and> no_tag (pr_name p)
     \<and> plain_area (pr_description p) \<and> js_trim (pr_description p) = pr_description p \<and> pr_name p \<noteq> [] \<and> pr_emoji p \<noteq> []
     \<and> pr_status p \<in> set PROJECT_STATUSES \<and> list_all (\<lambda>q. plain_text (p_id q)) people"

definition project_plain :: "person list \<Rightarrow> project \<Rightarrow> bool" where
  "project_plain people p \<longleftrightarrow> project_texts people p
     \<and> (pr_team_lead p = [] \<or> pr_team_lead p \<in> p_id ` set (filter (\<lambda>q. p_status q = js ''active'') people))"

lemma trim_space [simp]: "js_trim (32 # y) = js_trim y"
  by (simp add: js_trim_def is_space_def)

lemma comma_join: "js_join (js '', '') (x # y # zs) = x @ 44 # 32 # js_join (js '', '') (y # zs)"
  by (simp add: js_def)

lemma split_spaced: "44 \<notin> set x \<Longrightarrow> js_split 44 (32 # x) = [32 # x]" "44 \<notin> set x \<Longrightarrow> js_split 44 (32 # x @ 44 # r) = (32 # x) # js_split 44 r"
  using js_split_no_sep [of 44 "32 # x"] js_split_append [of 44 "32 # x" r] by simp_all

lemma trim_split_join:
  assumes "list_all (\<lambda>t. 44 \<notin> set t) (x # xs)"
  shows "map js_trim (js_split 44 (js_join (js '', '') (x # xs))) = map js_trim (x # xs)
    \<and> map js_trim (js_split 44 (32 # js_join (js '', '') (x # xs))) = map js_trim (x # xs)"
  using assms
proof (induction xs arbitrary: x)
  case Nil
  then show ?case by (simp add: js_split_no_sep split_spaced)
next
  case (Cons y ys)
  then show ?case unfolding comma_join by (simp add: js_split_append split_spaced)
qed

lemma comma_list_join:
  assumes "list_all (\<lambda>t. js_trim t = t \<and> t \<noteq> [] \<and> 44 \<notin> set t) xs"
  shows "comma_list (js_join (js '', '') xs) = xs"
proof (cases xs)
  case Nil
  then show ?thesis by (simp add: comma_list_def js_trim_def)
next
  case (Cons x ys)
  have "list_all (\<lambda>t. 44 \<notin> set t) (x # ys)" and "map js_trim (x # ys) = x # ys" and "filter (\<lambda>t. t \<noteq> []) (x # ys) = x # ys"
    using assms unfolding Cons by (auto simp: list_all_iff intro: map_idI filter_True)
  with trim_split_join [of x ys] Cons show ?thesis by (simp add: comma_list_def)
qed

lemma join_plain: "list_all plain_text xs \<Longrightarrow> plain_text (js_join (js '', '') xs)"
  by (induction "js '', ''" xs rule: js_join.induct) (auto simp: plain_text_def js_def)

section \<open>Opening and saving\<close>

lemma select_marked:
  assumes "list_all (\<lambda>(v, l, s). s \<longrightarrow> v = x) opts" and "(x, lbl, True) \<in> set opts"
  shows "select_value opts = x"
proof -
  let ?sel = "filter (\<lambda>(v, l, s). s) opts"
  have "?sel \<noteq> []" using assms(2) by (auto simp: filter_empty_conv)
  then have "last ?sel \<in> set ?sel" by (rule last_in_set)
  then have "fst (last ?sel) = x" using assms(1) by (auto simp: list_all_iff)
  with \<open>?sel \<noteq> []\<close> show ?thesis by (cases ?sel) (simp_all add: select_value_def)
qed

lemma select_unmarked: "list_all (\<lambda>(v, l, s). \<not> s) opts \<Longrightarrow> select_value opts = fst (hd opts)"
proof -
  assume "list_all (\<lambda>(v, l, s). \<not> s) opts"
  then have "filter (\<lambda>(v, l, s). s) opts = []" by (auto simp: filter_empty_conv list_all_iff)
  then show ?thesis by (simp add: select_value_def)
qed

lemma status_selected: "st \<in> set PROJECT_STATUSES \<Longrightarrow> select_value (statusOptions st) = st"
  by (rule select_marked [where lbl = "dict_get_or (js ''undefined'') STATUS_LABELS st"])
    (auto simp: statusOptions_def list_all_iff)

lemma lead_selected:
  assumes "reads_html after attr area" "list_all (\<lambda>q. plain_text (p_id q)) people" "lead \<in> p_id ` set (filter (\<lambda>q. p_status q = js ''active'') people)"
  shows "select_value (teamLeadOptions attr people lead) = lead"
proof -
  from assms(3) obtain q where q: "q \<in> set people" "p_status q = js ''active''" "p_id q = lead" by auto
  then have lead: "attr lead = lead" using assms(2) reads_plain(1) [OF assms(1)] by (auto simp: list_all_iff)
  show ?thesis
  proof (rule select_marked [where lbl = "(if p_is_guest q then js ''Guest: '' else []) @ escapeHtml (p_name q)"])
    show "list_all (\<lambda>(v, l, s). s \<longrightarrow> v = lead) (teamLeadOptions attr people lead)"
      using lead by (auto simp: teamLeadOptions_def list_all_iff)
    show "(lead, (if p_is_guest q then js ''Guest: '' else []) @ escapeHtml (p_name q), True) \<in> set (teamLeadOptions attr people lead)"
      using q lead by (force simp: teamLeadOptions_def)
  qed
qed

lemma lead_unselected:
  assumes "lead \<notin> p_id ` set (filter (\<lambda>q. p_status q = js ''active'') people)"
  shows "select_value (teamLeadOptions attr people lead) = []"
proof -
  have "list_all (\<lambda>(v, l, s). \<not> s) (teamLeadOptions attr people lead)"
    using assms by (auto simp: teamLeadOptions_def list_all_iff)
  from select_unmarked [OF this] show ?thesis by (simp add: teamLeadOptions_def)
qed

lemma person_form_same:
  assumes "reads_html after attr area" "person_plain p" "getPerson people i = Some p" "showEditPersonModal after attr people i = Some f"
  shows "form_person f p = p" "js_trim (pf_name f) \<noteq> []"
proof -
  have def_projects: "list_all plain_text (p_default_projects p)" "comma_list (js_join (js '', '') (p_default_projects p)) = p_default_projects p"
    using assms(2) by (auto simp: person_plain_def field_text_def list_all_iff intro: comma_list_join)
  have f: "f = \<lparr>pf_name = p_name p, pf_role = p_role p, pf_team = p_sub_team p, pf_emoji = p_avatar_emoji p,
      pf_projects = js_join (js '', '') (p_default_projects p)\<rparr>"
    using assms(2-4) reads_plain(1,4) [OF assms(1)] join_plain [OF def_projects(1)]
    by (auto simp: showEditPersonModal_def person_plain_def field_text_def Let_def)
  show "form_person f p = p" "js_trim (pf_name f) \<noteq> []"
    using assms(2) def_projects(2) unfolding f by (simp_all add: form_person_def person_plain_def field_text_def)
qed

lemma project_form_same:
  assumes "reads_html after attr area" "project_plain people p" "getProject projects i = Some p"
    "showEditProjectModal after attr area people projects i = Some f"
  shows "form_project f p = p" "js_trim (jf_name f) \<noteq> []"
proof -
  have lead: "select_value (teamLeadOptions attr people (pr_team_lead p)) = pr_team_lead p"
  proof (cases "pr_team_lead p \<in> p_id ` set (filter (\<lambda>q. p_status q = js ''active'') people)")
    case True
    show ?thesis by (rule lead_selected [OF assms(1) _ True]) (use assms(2) in \<open>simp only: project_plain_def project_texts_def\<close>)
  next
    case False
    then have "pr_team_lead p = []" using assms(2) unfolding project_plain_def by blast
    with lead_unselected [OF False] show ?thesis by simp
  qed
  have f: "f = \<lparr>jf_name = pr_name p, jf_emoji = pr_emoji p, jf_description = pr_description p, jf_url = pr_url p,
      jf_start = pr_start_date p, jf_end = pr_end_date p, jf_status = pr_status p, jf_lead = pr_team_lead p\<rparr>"
  proof -
    have "attr (pr_name p) = pr_name p" "attr (pr_emoji p) = pr_emoji p" "area (pr_description p) = pr_description p"
        "attr (pr_url p) = pr_url p" "attr (pr_start_date p) = pr_start_date p" "attr (pr_end_date p) = pr_end_date p"
        "select_value (statusOptions (pr_status p)) = pr_status p"
      using assms(2) reads_plain(1,3) [OF assms(1)] status_selected by (simp_all add: project_plain_def project_texts_def field_text_def)
    moreover have "after (pr_name p) i v = v" for i v
      using assms(2) reads_plain(4) [OF assms(1)] by (simp add: project_plain_def project_texts_def)
    ultimately show ?thesis using assms(3,4) lead by (simp add: showEditProjectModal_def Let_def)
  qed
  have t: "js_trim (pr_name p) = pr_name p" "js_trim (pr_emoji p) = pr_emoji p" "js_trim (pr_url p) = pr_url p"
      "js_trim (pr_start_date p) = pr_start_date p" "js_trim (pr_end_date p) = pr_end_date p"
      "js_trim (pr_description p) = pr_description p" "pr_name p \<noteq> []" "pr_emoji p \<noteq> []"
    using assms(2) by (simp_all add: project_plain_def project_texts_def field_text_def)
  then show "form_project f p = p" unfolding f by (cases p) (simp add: form_project_def)
  show "js_trim (jf_name f) \<noteq> []" using t(1,7) by (simp add: f)
qed

lemma update_first_same: "find P t = Some p \<Longrightarrow> f p = p \<Longrightarrow> update_first P f t = t"
  by (induction t) (auto split: if_splits)

lemma row_by_id:
  "distinct (map p_id t) \<Longrightarrow> q \<in> set t \<Longrightarrow> getPerson t (p_id q) = Some q"
  "distinct (map pr_id u) \<Longrightarrow> r \<in> set u \<Longrightarrow> getProject u (pr_id r) = Some r"
  by (induction t, auto) (induction u, auto)

lemma update_row_same:
  "distinct (map p_id t) \<Longrightarrow> getPerson t i = Some p \<Longrightarrow> UpdatePerson i p t = t"
  "distinct (map pr_id u) \<Longrightarrow> getProject u i = Some r \<Longrightarrow> project_row i r u = u"
proof -
  assume "distinct (map p_id t)" "getPerson t i = Some p"
  then show "UpdatePerson i p t = t"
    unfolding UpdatePerson_def using row_by_id(1) by (intro map_idI) fastforce
next
  assume "distinct (map pr_id u)" "getProject u i = Some r"
  then show "project_row i r u = u"
    unfolding project_row_def using row_by_id(2) by (intro map_idI) fastforce
qed


definition demo_desk :: client where
  "demo_desk = demo_client\<lparr>
     c_people := [no_person\<lparr>p_id := js ''p1'', p_name := js ''Ann'', p_avatar_emoji := js ''A'', p_status := js ''active'',
       p_default_projects := [js ''Atlas'', js ''Beacon'']\<rparr>],
     c_projects := [no_project\<lparr>pr_id := js ''j1'', pr_name := js ''Atlas'', pr_emoji := js ''B'', pr_status := js ''paused'',
       pr_team_lead := js ''p1''\<rparr>]\<rparr>"

definition demo_office :: server where
  "demo_office = demo_server\<lparr>sv_people := c_people demo_desk, sv_projects := c_projects demo_desk\<rparr>"


section \<open>What is lost\<close>

text \<open>An element in a name comes before the field: saving the dialog of a person who is called \<open><input id=edit-name value=X>\<close>
  without a change renames the person to \<open>X\<close>.\<close>

lemma heading_renames:
  assumes "getPerson people i = Some p" and "p_name p = js ''<input id=edit-name value=X>''"
    and "\<And>v. after (p_name p) (js ''edit-name'') v = js ''X''" and "showEditPersonModal after attr people i = Some f"
  shows "p_name (form_person f p) = js ''X'' \<and> p_name (form_person f p) \<noteq> p_name p"
  using assms by (auto simp: showEditPersonModal_def form_person_def Let_def js_trim_def is_space_def js_def)

lemma heading_read: "heading_input (js ''<input id=edit-name value=X>'') (js ''edit-name'') v = js ''X''"
  by (simp add: heading_input_def js_def)

text \<open>A quotation mark in a name ends the field: saving the dialog cuts the name there, without a change of the user.\<close>

lemma quote_cuts_name:
  assumes "reads_html after attr area" and "getPerson people i = Some p" and "p_name p = s @ 34 # r" and "plain_text s"
    and "no_tag (s @ 34 # r)" and "showEditPersonModal after attr people i = Some f"
  shows "p_name (form_person f p) = js_trim s"
  using assms(2,3,6) reads_plain(2) [OF assms(1,4)] reads_plain(4) [OF assms(1,5)]
  by (auto simp: showEditPersonModal_def Let_def)

text \<open>A team lead who was archived is not among the options: saving the dialog of the project removes the lead.\<close>

lemma archived_lead_removed:
  assumes "reads_html after attr area" and "getProject projects j = Some q" and "project_texts people q"
    and "pr_team_lead q \<notin> p_id ` set (filter (\<lambda>p. p_status p = js ''active'') people)"
    and "showEditProjectModal after attr area people projects j = Some g"
  shows "pr_team_lead (form_project g q) = []"
proof -
  have "no_tag (pr_name q)" using assms(3) by (simp add: project_texts_def)
  then show ?thesis
    using assms(2,5) lead_unselected [OF assms(4), of attr] reads_plain(4) [OF assms(1)]
    by (auto simp: showEditProjectModal_def form_project_def Let_def)
qed

text \<open>A fresh dialog of a project starts as unstarted and without a lead.\<close>

lemma fresh_project_dialog:
  "jf_status (showAddProjectModal attr people) = js ''unstarted'' \<and>
   (list_all (\<lambda>p. p_id p \<noteq> []) people \<longrightarrow> jf_lead (showAddProjectModal attr people) = [])"
proof -
  have "list_all (\<lambda>(v, l, s). \<not> s) (statusOptions [])"
    by (simp add: statusOptions_def PROJECT_STATUSES_def js_def)
  from select_unmarked [OF this] have "select_value (statusOptions []) = js ''unstarted''"
    by (simp add: statusOptions_def PROJECT_STATUSES_def)
  moreover have "select_value (teamLeadOptions attr people []) = []" if "list_all (\<lambda>p. p_id p \<noteq> []) people"
    using that by (intro lead_unselected) (force simp: list_all_iff)
  ultimately show ?thesis by (simp add: showAddProjectModal_def)
qed

end
