(* ===== verification/Fetches.thy ===== *)
theory Fetches
  imports Shell Forms
begin

text \<open>
  The views that ask the server when they are rendered (activity, incidents, on call, users): what the
  main element of the page shows while requests are in flight and the user goes on, as a step relation. A
  reply of the first three is rendered into the main element without a look at the current view. A request
  that fails (no connection, status 401 or 403, no JSON) rejects a promise that nobody catches. Proved
  here, by rule induction: what is shown as loading is awaited or its request has failed, opening a view
  again asks again, nobody else sees a page of administrators, and a user who waits for the replies always
  sees the view that is chosen; one who does not may not. Not modelled here: an error reply of another
  status, which the client takes for data.
\<close>

section \<open>The users\<close>

record user_row =
  ur_username :: jsstring
  ur_role :: jsstring
  ur_person_id :: jsstring

text \<open>Name, role and the options of the select of each row; the times are printed by the browser.\<close>

definition user_cells :: "person list \<Rightarrow> user_row \<Rightarrow> jsstring \<times> jsstring \<times> select_option list" where
  "user_cells people u = (escapeHtml (ur_username u), escapeHtml (ur_role u),
     ([], [8212], False) # map (\<lambda>p. (p_id p, escapeHtml (p_name p), ur_person_id u = p_id p)) people)"

definition renderUsers :: "person list \<Rightarrow> user_row list \<Rightarrow> (jsstring \<times> jsstring \<times> select_option list) list option" where
  "renderUsers people users = (if users = [] then None else Some (map (user_cells people) users))"

lemma user_select: "select_value (snd (snd (user_cells people u)))
    = (if ur_person_id u \<in> p_id ` set people then ur_person_id u else [])"
proof (cases "ur_person_id u \<in> p_id ` set people")
  case True
  then obtain p where p: "p \<in> set people" "p_id p = ur_person_id u" by auto
  have "select_value (snd (snd (user_cells people u))) = ur_person_id u"
    by (rule select_marked [where lbl = "escapeHtml (p_name p)"]) (use p in \<open>force simp: user_cells_def list_all_iff\<close>)+
  with True show ?thesis by simp
next
  case False
  then have "list_all (\<lambda>(v, l, s). \<not> s) (snd (snd (user_cells people u)))"
    by (auto simp: user_cells_def list_all_iff)
  from select_unmarked [OF this] False show ?thesis by (simp add: user_cells_def)
qed

section \<open>The main element\<close>

datatype shown = Ready page | Waiting page

fun shown_page :: "shown \<Rightarrow> page" where
  "shown_page (Ready p) = p"
| "shown_page (Waiting p) = p"

text \<open>
  \<open>ms_activity\<close>, \<open>ms_incidents\<close>, \<open>ms_users\<close> are the lengths of the lists of the client, \<open>ms_year\<close> says that
  \<open>oncallLoadedYear\<close> is the year of the tab, \<open>ms_pending\<close> are the requests in flight and \<open>ms_failed\<close>, which is
  no state of the code, those that failed since the page was last asked for.
\<close>

record main_state =
  ms_user :: "user option"
  ms_view :: jsstring
  ms_main :: shown
  ms_activity :: nat
  ms_incidents :: nat
  ms_users :: nat
  ms_year :: bool
  ms_pending :: "page list"
  ms_failed :: "page list"

definition current_page :: "main_state \<Rightarrow> page" where
  "current_page m = view_page (ms_user m) (ms_view m)"

definition cached :: "page \<Rightarrow> main_state \<Rightarrow> bool" where
  "cached p m = (if p = ActivityPage then 0 < ms_activity m else if p = IncidentsPage then 0 < ms_incidents m
     else if p = UsersPage then 0 < ms_users m else if p = OnCallPage then ms_year m else True)"

text \<open>Activity and incidents are asked for at every rendering, the others only when nothing is there yet.\<close>

definition asks :: "page \<Rightarrow> main_state \<Rightarrow> bool" where
  "asks p m \<longleftrightarrow> p = ActivityPage \<or> p = IncidentsPage \<or> \<not> cached p m"

definition draw :: "main_state \<Rightarrow> main_state" where
  "draw m = (let p = current_page m
     in m\<lparr>ms_main := (if cached p m then Ready p else Waiting p), ms_pending := ms_pending m @ (if asks p m then [p] else []),
          ms_failed := (if asks p m then removeAll p (ms_failed m) else ms_failed m)\<rparr>)"

text \<open>A reply with \<open>n\<close> entries; only the one for the users goes through \<open>render\<close>.\<close>

definition arrive :: "page \<Rightarrow> nat \<Rightarrow> main_state \<Rightarrow> main_state" where
  "arrive p n m = (let m = m\<lparr>ms_pending := remove1 p (ms_pending m)\<rparr>
     in if p = ActivityPage then m\<lparr>ms_activity := n, ms_main := Ready ActivityPage\<rparr>
        else if p = IncidentsPage then m\<lparr>ms_incidents := n, ms_main := Ready IncidentsPage\<rparr>
        else if p = OnCallPage then m\<lparr>ms_year := True, ms_main := Ready OnCallPage\<rparr>
        else draw (m\<lparr>ms_users := n\<rparr>))"

text \<open>A failed request leaves everything as it is: no call of \<open>API.get\<close> here has a \<open>catch\<close>.\<close>

definition fail :: "page \<Rightarrow> main_state \<Rightarrow> main_state" where
  "fail p m = m\<lparr>ms_pending := remove1 p (ms_pending m), ms_failed := p # ms_failed m\<rparr>"

text \<open>With \<open>patient\<close>, the user opens a view only when no request is in flight. \<open>noticed\<close> is the message about a new
  event, \<open>rendered\<close> any other rendering of the current view.\<close>

inductive main_step :: "bool \<Rightarrow> main_state \<Rightarrow> main_state \<Rightarrow> bool" for patient where
  opened: "patient \<longrightarrow> ms_pending m = [] \<Longrightarrow> main_step patient m (draw (m\<lparr>ms_view := v\<rparr>))"
| rendered: "main_step patient m (draw m)"
| noticed: "m1 = m\<lparr>ms_activity := min 100 (Suc (ms_activity m))\<rparr> \<Longrightarrow>
    main_step patient m (if ms_view m = js ''activity'' then draw m1 else m1)"
| other_year: "main_step patient m (draw (m\<lparr>ms_year := False\<rparr>))"
| replied: "p \<in> set (ms_pending m) \<Longrightarrow> main_step patient m (arrive p n m)"
| failed: "p \<in> set (ms_pending m) \<Longrightarrow> main_step patient m (fail p m)"

inductive_cases main_stepE: "main_step patient m m'"

inductive main_reach :: "bool \<Rightarrow> user option \<Rightarrow> main_state \<Rightarrow> bool" for patient u where
  first: "main_reach patient u (draw \<lparr>ms_user = u, ms_view = js ''team'', ms_main = Ready TeamGridPage, ms_activity = 0,
      ms_incidents = 0, ms_users = 0, ms_year = False, ms_pending = [], ms_failed = []\<rparr>)"
| later: "main_reach patient u m \<Longrightarrow> main_step patient m m' \<Longrightarrow> main_reach patient u m'"

definition main_ok :: "bool \<Rightarrow> user option \<Rightarrow> main_state \<Rightarrow> bool" where
  "main_ok patient u m \<longleftrightarrow> ms_user m = u
     \<and> (case ms_main m of Waiting p \<Rightarrow> p \<in> set (ms_pending m) \<union> set (ms_failed m) | Ready p \<Rightarrow> True)
     \<and> shown_page (ms_main m) \<in> {current_page m, ActivityPage, IncidentsPage, OnCallPage}
     \<and> set (ms_pending m) \<subseteq> {ActivityPage, IncidentsPage, OnCallPage, UsersPage}
     \<and> (patient \<longrightarrow> shown_page (ms_main m) = current_page m \<and> set (ms_pending m) \<subseteq> {current_page m})"

lemma current_page_same [simp]: "current_page (m\<lparr>ms_activity := k\<rparr>) = current_page m"
  "current_page (m\<lparr>ms_year := b\<rparr>) = current_page m" "current_page (m\<lparr>ms_users := k\<rparr>) = current_page m"
  "current_page (m\<lparr>ms_pending := ps\<rparr>) = current_page m" "current_page (m\<lparr>ms_failed := ps\<rparr>) = current_page m"
  by (simp_all add: current_page_def)

lemma main_ok_draw:
  assumes "ms_user m = u" "set (ms_pending m) \<subseteq> {ActivityPage, IncidentsPage, OnCallPage, UsersPage}"
    and "patient \<longrightarrow> set (ms_pending m) \<subseteq> {current_page m}"
  shows "main_ok patient u (draw m)"
proof -
  have c: "current_page (draw m) = current_page m" by (simp add: draw_def current_page_def Let_def)
  have "asks (current_page m) m \<Longrightarrow> current_page m \<in> {ActivityPage, IncidentsPage, OnCallPage, UsersPage}"
      "\<not> cached (current_page m) m \<Longrightarrow> asks (current_page m) m"
    by (auto simp: asks_def cached_def split: if_splits)
  then show ?thesis using assms unfolding main_ok_def c by (auto simp: draw_def Let_def)
qed

lemma main_ok_fail:
  assumes "main_ok patient u m"
  shows "main_ok patient u (fail p m)"
proof -
  have f: "ms_user (fail p m) = ms_user m" "ms_main (fail p m) = ms_main m" "current_page (fail p m) = current_page m"
    "ms_pending (fail p m) = remove1 p (ms_pending m)" "ms_failed (fail p m) = p # ms_failed m"
    by (simp_all add: fail_def)
  have "set (ms_pending m) \<subseteq> insert p (set (remove1 p (ms_pending m)))" by (metis in_set_remove1 insertCI subsetI)
  then show ?thesis
    using assms set_remove1_subset [of p "ms_pending m"] unfolding main_ok_def f by (auto split: shown.splits)
qed

lemma drawn_asks: "ms_main (draw m) = Waiting p \<Longrightarrow> p \<in> set (ms_pending (draw m))"
  by (auto simp: draw_def Let_def asks_def split: if_splits)

lemma main_ok_step:
  assumes "main_ok patient u m" and "main_step patient m m'"
  shows "main_ok patient u m'"
  using assms(2)
proof (rule main_stepE)
  have m: "ms_user m = u" "set (ms_pending m) \<subseteq> {ActivityPage, IncidentsPage, OnCallPage, UsersPage}"
      "patient \<longrightarrow> set (ms_pending m) \<subseteq> {current_page m}"
    using assms(1) by (simp_all add: main_ok_def)
  fix v
  assume "m' = draw (m\<lparr>ms_view := v\<rparr>)" "patient \<longrightarrow> ms_pending m = []"
  with m show "main_ok patient u m'" by (simp add: main_ok_draw)
next
  assume "m' = draw m"
  moreover have "main_ok patient u (draw m)" by (rule main_ok_draw) (use assms(1) in \<open>simp_all add: main_ok_def\<close>)
  ultimately show "main_ok patient u m'" by simp
next
  let ?m1 = "m\<lparr>ms_activity := Suc (min 99 (ms_activity m))\<rparr>"
  assume m': "m' = (if ms_view m = js ''activity'' then draw ?m1 else ?m1)"
  have c: "current_page ?m1 = current_page m" by (rule current_page_same)
  have f: "ms_user ?m1 = ms_user m" "ms_main ?m1 = ms_main m" "ms_pending ?m1 = ms_pending m" "ms_failed ?m1 = ms_failed m" by simp_all
  have "main_ok patient u ?m1" using assms(1) unfolding main_ok_def c f .
  moreover have "main_ok patient u (draw ?m1)"
    by (rule main_ok_draw) (use assms(1) in \<open>simp_all add: main_ok_def\<close>)
  ultimately show "main_ok patient u m'" by (simp add: m')
next
  assume "m' = draw (m\<lparr>ms_year := False\<rparr>)"
  moreover have "main_ok patient u (draw (m\<lparr>ms_year := False\<rparr>))"
    by (rule main_ok_draw) (use assms(1) in \<open>simp_all add: main_ok_def\<close>)
  ultimately show "main_ok patient u m'" by simp
next
  fix p n
  assume m': "m' = arrive p n m" and p: "p \<in> set (ms_pending m)"
  have m: "ms_user m = u" "set (ms_pending m) \<subseteq> {ActivityPage, IncidentsPage, OnCallPage, UsersPage}"
      "patient \<longrightarrow> set (ms_pending m) \<subseteq> {current_page m}"
    using assms(1) by (simp_all add: main_ok_def)
  have rest: "set (remove1 p (ms_pending m)) \<subseteq> set (ms_pending m)" by (rule set_remove1_subset)
  show "main_ok patient u m'"
  proof (cases "p = UsersPage")
    case True
    let ?m = "m\<lparr>ms_pending := remove1 p (ms_pending m), ms_users := n\<rparr>"
    have "main_ok patient u (draw ?m)"
      using m rest by (intro main_ok_draw) (simp_all, blast+)
    with True show ?thesis by (simp add: m' arrive_def Let_def)
  next
    case False
    then have "p \<in> {ActivityPage, IncidentsPage, OnCallPage}" and "patient \<longrightarrow> current_page m = p" using m p by auto
    then show ?thesis using m rest unfolding m'
      by (auto simp: arrive_def Let_def main_ok_def current_page_def)
  qed
next
  fix p
  assume "m' = fail p m"
  then show "main_ok patient u m'" using main_ok_fail [OF assms(1)] by simp
qed

lemma main_reach_ok: "main_reach patient u m \<Longrightarrow> main_ok patient u m"
  by (induction rule: main_reach.induct) (auto intro: main_ok_step main_ok_draw)

section \<open>Properties\<close>

text \<open>C32: whatever the user opens while requests are in flight, whatever arrives and whatever fails, a page that
  says it is loading has its request in flight, or that request has failed since: then nothing is in flight
  for it any more and the page stays as it is until a view is opened, which asks again unless the data is there. Pages of
  administrators are shown to nobody else, and what is shown is the chosen view or one of the three that are
  written by their replies; to a user who waits for the requests to end it is always the chosen view.\<close>

theorem main_shows_view:
  assumes "main_reach patient u m"
  shows "(case ms_main m of Waiting p \<Rightarrow> p \<in> set (ms_pending m) \<or> p \<in> set (ms_failed m) | Ready p \<Rightarrow> True)
    \<and> (case ms_main (draw (m\<lparr>ms_view := v\<rparr>)) of
         Waiting p \<Rightarrow> p = view_page u v \<and> p \<in> set (ms_pending (draw (m\<lparr>ms_view := v\<rparr>))) | Ready p \<Rightarrow> p = view_page u v)
    \<and> shown_page (ms_main m) \<in> {view_page u (ms_view m), ActivityPage, IncidentsPage, OnCallPage}
    \<and> (shown_page (ms_main m) = AdminPage \<or> shown_page (ms_main m) = UsersPage \<longrightarrow> isAdmin u)
    \<and> (patient \<longrightarrow> shown_page (ms_main m) = view_page u (ms_view m))"
proof -
  have ok: "main_ok patient u m" by (rule main_reach_ok [OF assms])
  have "view_page u v = AdminPage \<or> view_page u v = UsersPage \<longrightarrow> isAdmin u" for v by (simp add: view_page_def)
  moreover have "shown_page (ms_main m) = AdminPage \<or> shown_page (ms_main m) = UsersPage \<longrightarrow> shown_page (ms_main m) = view_page u (ms_view m)"
    using ok by (auto simp: main_ok_def current_page_def)
  ultimately have "shown_page (ms_main m) = AdminPage \<or> shown_page (ms_main m) = UsersPage \<longrightarrow> isAdmin u" by metis
  moreover have user: "ms_user m = u" using ok by (simp add: main_ok_def)
  moreover have "shown_page (ms_main (draw (m\<lparr>ms_view := v\<rparr>))) = view_page u v"
    by (simp add: draw_def Let_def current_page_def user)
  then have "case ms_main (draw (m\<lparr>ms_view := v\<rparr>)) of
         Waiting p \<Rightarrow> p = view_page u v \<and> p \<in> set (ms_pending (draw (m\<lparr>ms_view := v\<rparr>))) | Ready p \<Rightarrow> p = view_page u v"
    using drawn_asks [of "m\<lparr>ms_view := v\<rparr>"] by (auto split: shown.split)
  moreover have "case ms_main m of Waiting p \<Rightarrow> p \<in> set (ms_pending m) \<or> p \<in> set (ms_failed m) | Ready p \<Rightarrow> True"
    using ok by (auto simp: main_ok_def split: shown.splits)
  ultimately show ?thesis using ok unfolding main_ok_def current_page_def by blast
qed

text \<open>A user who opens the activity and, before the reply is there, the team grid: the reply puts the activity
  in the place of the grid, whose button stays marked.\<close>

definition opens_activity :: "user option \<Rightarrow> main_state" where
  "opens_activity u = draw (draw \<lparr>ms_user = u, ms_view = js ''team'', ms_main = Ready TeamGridPage, ms_activity = 0,
      ms_incidents = 0, ms_users = 0, ms_year = False, ms_pending = [], ms_failed = []\<rparr>\<lparr>ms_view := js ''activity''\<rparr>)"

definition impatient :: "user option \<Rightarrow> main_state" where
  "impatient u = arrive ActivityPage 3 (draw ((opens_activity u)\<lparr>ms_view := js ''team''\<rparr>))"

lemma opens_activity_eq: "opens_activity u = \<lparr>ms_user = u, ms_view = js ''activity'', ms_main = Waiting ActivityPage,
    ms_activity = 0, ms_incidents = 0, ms_users = 0, ms_year = False, ms_pending = [ActivityPage], ms_failed = []\<rparr>"
  by (simp add: opens_activity_def draw_def current_page_def view_page_def cached_def asks_def Let_def js_eq_iff)

lemma opens_activity_reach: "main_reach patient u (opens_activity u)"
  unfolding opens_activity_def
  by (rule main_reach.later [OF main_reach.first], rule main_step.opened)
    (simp add: draw_def current_page_def view_page_def cached_def asks_def Let_def)

lemma late_reply_replaces_page:
  "main_reach False u (impatient u) \<and> ms_main (impatient u) = Ready ActivityPage \<and> view_page u (ms_view (impatient u)) = TeamGridPage"
proof -
  have "main_step False (opens_activity u) (draw ((opens_activity u)\<lparr>ms_view := js ''team''\<rparr>))"
    by (rule main_step.opened) simp
  moreover have "main_step False (draw ((opens_activity u)\<lparr>ms_view := js ''team''\<rparr>)) (impatient u)"
    unfolding impatient_def by (rule main_step.replied) (simp add: opens_activity_eq draw_def Let_def)
  ultimately have "main_reach False u (impatient u)" using main_reach.later opens_activity_reach by blast
  then show ?thesis
    by (simp add: impatient_def arrive_def opens_activity_eq draw_def Let_def view_page_def)
qed

text \<open>When the request for the activity fails, the page says it is loading and nothing is in flight.\<close>

lemma loading_after_failure:
  "main_reach patient u (fail ActivityPage (opens_activity u))
   \<and> ms_main (fail ActivityPage (opens_activity u)) = Waiting ActivityPage \<and> ms_pending (fail ActivityPage (opens_activity u)) = []"
proof -
  have "main_reach patient u (fail ActivityPage (opens_activity u))"
    by (rule main_reach.later [OF opens_activity_reach main_step.failed]) (simp add: opens_activity_eq)
  then show ?thesis by (simp add: fail_def opens_activity_eq)
qed

theorem main_shows_view_witness:
  "(case ms_main (fail ActivityPage (opens_activity None)) of Waiting p \<Rightarrow> p = ActivityPage | Ready p \<Rightarrow> False)
    \<and> ActivityPage \<in> set (ms_failed (fail ActivityPage (opens_activity None)))
    \<and> shown_page (ms_main (fail ActivityPage (opens_activity None))) = view_page None (js ''activity'')
    \<and> (case ms_main (draw ((fail ActivityPage (opens_activity None))\<lparr>ms_view := js ''activity''\<rparr>)) of
         Waiting p \<Rightarrow> p \<in> set (ms_pending (draw ((fail ActivityPage (opens_activity None))\<lparr>ms_view := js ''activity''\<rparr>))) | Ready p \<Rightarrow> True)"
proof -
  have "main_reach True None (fail ActivityPage (opens_activity None))" using loading_after_failure by blast
  from main_shows_view [OF this, of "js ''activity''"] show ?thesis
    by (auto simp: fail_def opens_activity_eq split: shown.splits)
qed

end
