(* ===== verification/RangeWrites.thy ===== *)
theory RangeWrites
  imports Sync
begin

text \<open>
  Writes of whole ranges on the server (\<open>setSlotRange\<close>, \<open>clearSlotRange\<close> in \<open>internal/api/writes.go\<close> and the
  transactions behind them), which other programs than the page use: the half-days the server lists in
  its own copy of \<open>generateSlotsInRange\<close>, the rows it writes, and the message from which each client lists the half-days
  once more. Proved here: both lists agree, exactly the listed half-days change, and a
  listening client is in step after the message.
\<close>

text \<open>Go's \<open>time.Parse\<close> takes no day that does not exist, where the page rolls over into the next month.\<close>

definition go_date :: "jsstring \<Rightarrow> date option" where
  "go_date s = (case parseDate s of None \<Rightarrow> None | Some d \<Rightarrow> if fmtDate d = s then Some d else None)"

text \<open>The loop is, statement by statement, the one of the page.\<close>

definition go_slots :: "jsstring \<Rightarrow> jsstring \<Rightarrow> jsstring \<Rightarrow> jsstring \<Rightarrow> range_slot list" where
  "go_slots startDate startSlot endDate endSlot =
     (case (go_date startDate, go_date endDate) of
        (Some a, Some b) \<Rightarrow> slots_loop a startSlot b endSlot | _ \<Rightarrow> [])"

definition range_refs :: "range_message \<Rightarrow> slot_ref list" where
  "range_refs m = concat (map (\<lambda>pid. map (\<lambda>sl. SlotRef pid (rs_date sl) (rs_slot sl))
     (go_slots (rm_start_date m) (rm_start_slot m) (rm_end_date m) (rm_end_slot m))) (rm_person_ids m))"

text \<open>One transaction; each statement writes the row as \<open>SetSlot\<close> and \<open>ClearSlot\<close> do.\<close>

definition SetSlotRange :: "slot_ref list \<Rightarrow> slot_data \<Rightarrow> store \<Rightarrow> store" where
  "SetSlotRange refs data t = fold (\<lambda>r. SetSlot r data) refs t"

definition ClearSlotRange :: "slot_ref list \<Rightarrow> store \<Rightarrow> store" where
  "ClearSlotRange refs t = fold ClearSlot refs t"

text \<open>The status, the new tables and the messages; \<open>fails\<close>: the transaction is rolled back.\<close>

definition setSlotRange :: "bool \<Rightarrow> range_message \<Rightarrow> slot_data \<Rightarrow> server \<Rightarrow> nat \<times> server \<times> message list" where
  "setSlotRange fails m data s =
     (if rm_person_ids m = [] \<or> rm_start_date m = [] \<or> rm_end_date m = [] then (400, s, [])
      else let m = m\<lparr>rm_start_slot := or_else (rm_start_slot m) (js ''am''), rm_end_slot := or_else (rm_end_slot m) (js ''pm'')\<rparr>
           in if fails then (500, s, [])
              else (200, s\<lparr>sv_planning := SetSlotRange (range_refs m) data (sv_planning s)\<rparr>, [PlanningRange m]))"

text \<open>Clearing fills in no half-days.\<close>

definition clearSlotRange :: "bool \<Rightarrow> range_message \<Rightarrow> server \<Rightarrow> nat \<times> server \<times> message list" where
  "clearSlotRange fails m s =
     (if fails then (500, s, [])
      else (200, s\<lparr>sv_planning := ClearSlotRange (range_refs m) (sv_planning s)\<rparr>, [PlanningRangeCleared m]))"

section \<open>The two lists\<close>

lemma go_date_parse: "go_date s = Some d \<Longrightarrow> parseDate s = Some d"
  by (auto simp: go_date_def split: option.splits if_splits)

lemma go_slots_page:
  assumes "go_date a \<noteq> None" "go_date b \<noteq> None"
  shows "go_slots a sa b sb = generateSlotsInRange a sa b sb"
  using assms go_date_parse by (auto simp: go_slots_def generateSlotsInRange_def)

lemma range_refs_cells:
  assumes "go_date (rm_start_date m) \<noteq> None" "go_date (rm_end_date m) \<noteq> None" "rm_start_slot m \<noteq> []" "rm_end_slot m \<noteq> []"
  shows "snd (range_message_keys m) = map ref_cell (range_refs m)"
  using assms by (simp add: range_message_keys_def rangeSlotKeys_def range_refs_def go_slots_page ref_cell_def map_concat comp_def Let_def)

section \<open>The rows\<close>

lemma read_SetSlotRange: "read_slot (SetSlotRange refs data t) r = (if r \<in> set refs then kept_slot data else read_slot t r)"
  unfolding SetSlotRange_def by (induction refs arbitrary: t) (auto simp: read_SetSlot)

lemma read_ClearSlotRange: "read_slot (ClearSlotRange refs t) r = (if r \<in> set refs then None else read_slot t r)"
  unfolding ClearSlotRange_def by (induction refs arbitrary: t) (auto simp: read_ClearSlot)

lemma plain_ranges:
  "plain_store t \<Longrightarrow> list_all plain_ref refs \<Longrightarrow> plain_store (SetSlotRange refs data t)"
  "plain_store t \<Longrightarrow> plain_store (ClearSlotRange refs t)"
  unfolding SetSlotRange_def ClearSlotRange_def
  by (induction refs arbitrary: t) (simp_all add: plain_store_ops)

lemma range_refs_plain:
  assumes "list_all plain_part (rm_person_ids m)" "rm_start_slot m \<in> {js ''am'', js ''pm''}"
  shows "list_all plain_ref (range_refs m)"
  using assms slots_loop_plain
  by (fastforce simp: range_refs_def go_slots_def list_all_iff plain_ref_def fmtDate_plain split: option.splits)

lemma live_range:
  assumes ok: "live_ok e (c, s)" and t: "plain_store t"
  shows "live_ok e (deliver e (PlanningRange m) (c, s\<lparr>sv_planning := t\<rparr>))"
    "live_ok e (deliver e (PlanningRangeCleared m) (c, s\<lparr>sv_planning := t\<rparr>))"
proof -
  have nr: "\<not> isRecentSelf e ks c" for ks using ok by (auto simp: live_ok_def listening_def not_recent)
  have "live_ok e (queueFlash e cells (js ''remote'') c, s)" for cells
    by (rule live_ok_frame [OF ok]) (simp_all add: remote_flash remote_flash_frame)
  then have r: "live_ok e (follow e ReloadRender (queueFlash e cells (js ''remote'') c, s\<lparr>sv_planning := t\<rparr>))" for cells
    by (rule live_reload [OF _ t])
  show "live_ok e (deliver e (PlanningRange m) (c, s\<lparr>sv_planning := t\<rparr>))"
    "live_ok e (deliver e (PlanningRangeCleared m) (c, s\<lparr>sv_planning := t\<rparr>))"
    using r by (simp_all add: deliver_def onMessage_def nr split: prod.split del: follow.simps)
qed

section \<open>Properties\<close>

definition full_range :: "range_message \<Rightarrow> range_message" where
  "full_range m = m\<lparr>rm_start_slot := or_else (rm_start_slot m) (js ''am''), rm_end_slot := or_else (rm_end_slot m) (js ''pm'')\<rparr>"

text \<open>C38: a range that is written on the server reaches everybody: exactly the listed half-days take the value
  as the table keeps it, the cells that the message makes a client flash are these half-days in the same order,
  although server and page list them with code of their own, and a listening client that
  is in step is in step after the message; a failing transaction changes nothing and tells nobody.\<close>

theorem range_write_in_step:
  assumes "live_ok e (c, s)" and "list_all plain_part (rm_person_ids m)" and "rm_person_ids m \<noteq> []"
    and "rm_start_slot m \<in> {[], js ''am'', js ''pm''}" and "rm_end_slot m \<in> {[], js ''am'', js ''pm''}"
    and "go_date (rm_start_date m) \<noteq> None" and "go_date (rm_end_date m) \<noteq> None"
  shows "(case setSlotRange False m data s of (status, s', msgs) \<Rightarrow> status = 200
      \<and> read_slot (sv_planning s') r = (if r \<in> set (range_refs (full_range m)) then kept_slot data else read_slot (sv_planning s) r)
      \<and> concat (map (\<lambda>msg. case msg of PlanningRange m \<Rightarrow> snd (range_message_keys m) | _ \<Rightarrow> []) msgs) = map ref_cell (range_refs (full_range m))
      \<and> live_ok e (fold (deliver e) msgs (c, s')))
    \<and> setSlotRange True m data s = (500, s, [])"
proof -
  have "go_date [] = None" by (simp add: go_date_def parseDate_def js_def)
  then have ne: "rm_start_date m \<noteq> []" "rm_end_date m \<noteq> []" using assms(6,7) by auto
  let ?m = "full_range m"
  have m: "rm_person_ids ?m = rm_person_ids m" "rm_start_date ?m = rm_start_date m" "rm_end_date ?m = rm_end_date m"
      "rm_start_slot ?m \<in> {js ''am'', js ''pm''}" "rm_start_slot ?m \<noteq> []" "rm_end_slot ?m \<noteq> []"
    using assms(4,5) by (auto simp: full_range_def or_else_def js_def)
  let ?t = "SetSlotRange (range_refs ?m) data (sv_planning s)"
  have plain: "plain_store ?t"
    using assms(1,2) m(1,4) by (intro plain_ranges(1) range_refs_plain) (simp_all add: live_ok_def listening_def)
  have run: "setSlotRange False m data s = (200, s\<lparr>sv_planning := ?t\<rparr>, [PlanningRange ?m])"
      "setSlotRange True m data s = (500, s, [])"
    using ne assms(3) by (simp_all add: setSlotRange_def full_range_def Let_def)
  have "snd (range_message_keys ?m) = map ref_cell (range_refs ?m)"
    using assms(6,7) m by (intro range_refs_cells) simp_all
  then show ?thesis
    using live_range(1) [OF assms(1) plain, of ?m] by (simp add: run read_SetSlotRange)
qed

definition demo_range :: range_message where
  "demo_range = \<lparr>rm_person_ids = [js ''p1''], rm_start_date = fmtDate 20500, rm_start_slot = [], rm_end_date = fmtDate 20501,
     rm_end_slot = js ''am''\<rparr>"

lemma demo_go_dates: "go_date (fmtDate 20500) = Some 20500" "go_date (fmtDate 20501) = Some 20501"
proof -
  have "four_digit_year 20500" "four_digit_year 20501" by code_simp+
  then show "go_date (fmtDate 20500) = Some 20500" "go_date (fmtDate 20501) = Some 20501"
    by (simp_all add: go_date_def parse_fmt)
qed

theorem range_write_in_step_witness:
  "(case setSlotRange False demo_range demo_slot demo_server of (status, s', msgs) \<Rightarrow> status = 200
      \<and> read_slot (sv_planning s') demo_ref
        = (if demo_ref \<in> set (range_refs (full_range demo_range)) then kept_slot demo_slot else read_slot (sv_planning demo_server) demo_ref)
      \<and> concat (map (\<lambda>msg. case msg of PlanningRange m \<Rightarrow> snd (range_message_keys m) | _ \<Rightarrow> []) msgs)
        = map ref_cell (range_refs (full_range demo_range))
      \<and> live_ok demo_env (fold (deliver demo_env) msgs (demo_client, s')))
    \<and> setSlotRange True demo_range demo_slot demo_server = (500, demo_server, [])"
  by (rule range_write_in_step)
    (simp_all add: live_ok_def demo_live_ok demo_range_def demo_go_dates plain_part_def, simp_all add: js_def)

text \<open>Clearing a range without half-days clears neither of the day's halves, though the message makes
  clients flash both: the server reads the absent half-day as a third one.\<close>

lemma clear_without_slots:
  assumes "rm_person_ids m = [p]" and "rm_start_date m = fmtDate 20500" and "rm_end_date m = fmtDate 20500"
    and "rm_start_slot m = []" and "rm_end_slot m = []"
  shows "range_refs m = [SlotRef p (fmtDate 20500) []]
    \<and> map cl_slot (snd (range_message_keys m)) = [js ''am'', js ''pm'']"
proof -
  have "parseDate (fmtDate 20500) = Some 20500" by (rule go_date_parse [OF demo_go_dates(1)])
  moreover have "slots_loop 20500 [] 20500 [] = [\<lparr>rs_date = fmtDate 20500, rs_slot = []\<rparr>]"
    by (subst slots_loop.simps, subst slots_loop.simps) (simp add: setDate_plus js_def)
  moreover have "map rs_slot (slots_loop 20500 (js ''am'') 20500 (js ''pm'')) = [js ''am'', js ''pm'']"
    by (subst slots_loop.simps, subst slots_loop.simps, subst slots_loop.simps) (simp add: setDate_plus js_def)
  ultimately show ?thesis using assms
    by (simp add: range_refs_def go_slots_def demo_go_dates range_message_keys_def rangeSlotKeys_def generateSlotsInRange_def
        Let_def comp_def)
qed

end
