(* ===== verification/Rotation.thy ===== *)
theory Rotation
  imports RangeWrites Oncall
begin

text \<open>
  The dialog that assigns the run of a week (\<open>showRotationModal\<close>): a box for every active
  person, ticking one sends \<open>POST /rotation/assign\<close>, which also fills the ten half-days of the person's week,
  unticking one sends \<open>DELETE /rotation\<close>, and both reload the planning. Proved here: what the
  two do to both sides, and what the other clients learn of it. The theory also holds the
  deletion of a person as the others see it.
\<close>

record rotation_row =
  rr_person :: jsstring
  rr_checked :: bool
  rr_label :: jsstring

definition showRotationModal :: "(date \<Rightarrow> int) \<Rightarrow> client \<Rightarrow> jsstring \<Rightarrow> jsstring \<times> rotation_row list" where
  "showRotationModal tz c weekStart =
     (let currentIds = map p_id (getRunPeople (c_people c) (c_rotation c) weekStart)
      in (js ''Assign Run Person '' @ [8212] @ js '' Week ''
            @ str_of_int (getWeekNumber tz (case parseDate weekStart of Some d \<Rightarrow> d | None \<Rightarrow> 0)),
          map (\<lambda>p. \<lparr>rr_person = p_id p, rr_checked = (p_id p \<in> set currentIds),
                    rr_label = p_avatar_emoji p @ js '' '' @ p_name p\<rparr>) (getActivePeople (c_people c))))"

text \<open>The \<open>onchange\<close> handler of a box; a request that fails leaves an unhandled rejection.\<close>

definition toggleRotation :: "env \<Rightarrow> bool \<Rightarrow> jsstring \<Rightarrow> jsstring \<Rightarrow> client \<times> server \<Rightarrow> client \<times> server" where
  "toggleRotation e checked pid weekStart cs =
     (case call e (if checked then AssignRunR pid weekStart else DelRotationR pid weekStart) cs of
        (Inl x, cs) \<Rightarrow> cs
      | (Inr _, cs) \<Rightarrow> follow e ReloadRender cs)"

section \<open>The rows of the rotation\<close>

lemma in_GetRotation:
  "isRunPerson (GetRotation a b t) pid ws \<longleftrightarrow> (pid, ws) \<in> fst ` set t \<and> a \<le> ws \<and> ws \<le> b"
proof -
  have get: "dict_get (map (\<lambda>w. (w, f w)) xs) k = (if k \<in> set xs then Some (f k) else None)" for f :: "jsstring \<Rightarrow> jsstring list" and xs k
    by (induction xs) (auto simp: dict_get_def)
  show ?thesis
    by (force simp: isRunPerson_def GetRotation_def dict_get_or_def get Let_def image_iff)
qed

lemma in_SetRotation:
  "(p, w) \<in> fst ` set (SetRotation pid ws on t) \<longleftrightarrow> (if (p, w) = (pid, ws) then on else (p, w) \<in> fst ` set t)"
  by (force simp: SetRotation_def dict_del_def image_iff)

section \<open>The week that is filled\<close>

lemma read_run_week:
  "read_slot (snd (fill_run_week pid d t)) r = (if r \<in> set (week_refs pid d) then kept_slot run_duty else read_slot t r)"
  using read_SetSlotRange [of "week_refs pid d" run_duty t r] by (simp add: fill_run_week_def SetSlotRange_def)

text \<open>What it reports as overwritten is what the page showed.\<close>

lemma run_week_count:
  "fst (fill_run_week pid d t) = length (filter (\<lambda>r. read_slot t r \<noteq> None) (week_refs pid d))"
proof -
  have "(case dict_get t r of None \<Rightarrow> False | Some row \<Rightarrow> r_state row \<noteq> js ''not_filled'') \<longleftrightarrow> read_slot t r \<noteq> None" for r
    by (simp add: read_slot_def row_visible_def split: option.splits)
  then show ?thesis by (simp add: fill_run_week_def)
qed

lemma plain_run_week: "plain_store t \<Longrightarrow> plain_part pid \<Longrightarrow> plain_store (snd (fill_run_week pid d t))"
  using plain_ranges(1) [of t "week_refs pid d" run_duty] by (simp add: fill_run_week_def SetSlotRange_def plain_week_refs)

lemma run_duty_kept: "kept_slot run_duty = Some (run_duty\<lparr>sd_projects := None\<rparr>)"
  by (simp add: kept_slot_def slot_is_empty_def run_duty_def row_of_slot_def slot_of_row_def js_eq_iff)

text \<open>The box of a person is ticked exactly when the client's copy has the duty.\<close>

lemma box_ticked:
  assumes "r \<in> set (snd (showRotationModal tz c ws))"
  shows "rr_checked r = isRunPerson (c_rotation c) (rr_person r) ws"
  using assms by (auto simp: showRotationModal_def getRunPeople_def Let_def)

lemma reload_in_step:
  assumes "env_ok e" "sv_session s \<noteq> None" "client_weeks e c \<noteq> []" "plain_store (sv_planning s)" "plain_ref r"
    and "follow e ReloadRender (c, s) = (c', s')"
  shows "s' = s" "dict_get (c_planning c') (ref_key r) = (if in_window e c r then read_slot (sv_planning s) r else None)"
    "c_rotation c' = GetRotation (win_start e c) (win_end e c) (sv_rotation s)" "c_undoStack c' = c_undoStack c"
  using assms(6) window_dates_nonempty [OF assms(3)] get_load_GetPlanning [OF assms(4,5)]
  by (auto simp: reload_ok [OF assms(1-3)] in_window_def render_state_def applyPendingFlash_def)

section \<open>Properties\<close>

text \<open>C37: ticking the box of a person in the rotation dialog writes the duty and exactly the ten
  half-days of the person's week, each as a run without project whatever it held; unticking takes that duty
  away and leaves the ten half-days. Of the server's rotation no other duty changes, neither of other
  persons nor of other weeks, and of its other tables nothing. The page is left with the server's value of
  every slot of its window and with the duties that the server has in the window; no snapshot is pushed, so
  undo does not bring back what was overwritten.\<close>

theorem rotation_assigns_week:
  assumes "env_ok e" and "may_write s" and "client_weeks e c \<noteq> []" and "plain_store (sv_planning s)"
    and "plain_part pid" and "parseDate ws = Some d" and "plain_ref r"
  shows "case toggleRotation e ticked pid ws (c, s) of (c', s') \<Rightarrow>
     read_slot (sv_planning s') r
       = (if ticked \<and> r \<in> set (week_refs pid d) then Some (run_duty\<lparr>sd_projects := None\<rparr>) else read_slot (sv_planning s) r)
     \<and> dict_get (c_planning c') (ref_key r) = (if in_window e c r then read_slot (sv_planning s') r else None)
     \<and> ((p, w) \<in> fst ` set (sv_rotation s') \<longleftrightarrow> (if (p, w) = (pid, ws) then ticked else (p, w) \<in> fst ` set (sv_rotation s)))
     \<and> s'\<lparr>sv_rotation := sv_rotation s, sv_planning := sv_planning s\<rparr> = s
     \<and> isRunPerson (c_rotation c') p w = ((p, w) \<in> fst ` set (sv_rotation s') \<and> win_start e c \<le> w \<and> w \<le> win_end e c)
     \<and> c_undoStack c' = c_undoStack c"
proof -
  let ?s = "if ticked then s\<lparr>sv_rotation := SetRotation pid ws True (sv_rotation s), sv_planning := snd (fill_run_week pid d (sv_planning s))\<rparr>
    else s\<lparr>sv_rotation := SetRotation pid ws False (sv_rotation s)\<rparr>"
  note call = call_ok [OF assms(1) may_write_session [OF assms(2)] _ assms(2), of _ c]
  have run: "toggleRotation e ticked pid ws (c, s) = follow e ReloadRender (c, ?s)"
    by (simp add: toggleRotation_def call AssignRunPerson_def assms(6) split_def Let_def del: follow.simps)
  obtain c' s' where f: "follow e ReloadRender (c, ?s) = (c', s')" by force
  have s: "sv_session ?s \<noteq> None" "plain_store (sv_planning ?s)"
    using may_write_session [OF assms(2)] assms(4) plain_run_week [OF assms(4,5), of d] by simp_all
  note r = reload_in_step [OF assms(1) s(1) assms(3) s(2) assms(7) f]
  show ?thesis
    unfolding run f by (simp add: r in_GetRotation in_SetRotation read_run_week run_duty_kept)
qed

theorem rotation_assigns_week_witness:
  "case toggleRotation demo_env True (js ''p1'') (fmtDate 20500) (demo_client, demo_server) of (c', s') \<Rightarrow>
     read_slot (sv_planning s') demo_ref
       = (if True \<and> demo_ref \<in> set (week_refs (js ''p1'') 20500) then Some (run_duty\<lparr>sd_projects := None\<rparr>)
          else read_slot (sv_planning demo_server) demo_ref)
     \<and> dict_get (c_planning c') (ref_key demo_ref)
       = (if in_window demo_env demo_client demo_ref then read_slot (sv_planning s') demo_ref else None)
     \<and> ((js ''p1'', fmtDate 20500) \<in> fst ` set (sv_rotation s') \<longleftrightarrow> (if (js ''p1'', fmtDate 20500) = (js ''p1'', fmtDate 20500) then True
          else (js ''p1'', fmtDate 20500) \<in> fst ` set (sv_rotation demo_server)))
     \<and> s'\<lparr>sv_rotation := sv_rotation demo_server, sv_planning := sv_planning demo_server\<rparr> = demo_server
     \<and> isRunPerson (c_rotation c') (js ''p1'') (fmtDate 20500)
       = ((js ''p1'', fmtDate 20500) \<in> fst ` set (sv_rotation s')
          \<and> win_start demo_env demo_client \<le> fmtDate 20500 \<and> fmtDate 20500 \<le> win_end demo_env demo_client)
     \<and> c_undoStack c' = c_undoStack demo_client"
  using demo_proper go_date_parse [OF demo_go_dates(1)]
  by (intro rotation_assigns_week [OF demo_env_ok demo_write demo_weeks demo_plain]) (simp_all add: proper_ref_def, simp_all add: plain_part_def js_def)

text \<open>The message about an assignment only makes the others read the duties again: what the
  ten half-days became stays unknown to them until the next reload.\<close>

theorem assignment_not_announced:
  assumes "live_ok e (c, s)" and "parseDate ws = Some d" and "r \<in> set (week_refs pid d)"
  shows "case live e (AssignRunR pid ws) (c, s) of (c', s') \<Rightarrow>
     isRunPerson (c_rotation c') pid ws = (win_start e c \<le> ws \<and> ws \<le> win_end e c)
     \<and> read_slot (sv_planning s') r = Some (run_duty\<lparr>sd_projects := None\<rparr>)
     \<and> c_planning c' = c_planning c"
proof -
  have l: "env_ok e" "sv_session s \<noteq> None" "client_weeks e c \<noteq> []"
    using assms(1) by (auto simp: live_ok_def listening_def)
  have rot: "c_rotation (render_state x) = c_rotation x" for x
    by (simp add: render_state_def applyPendingFlash_def)
  show ?thesis
    using l assms(3) window_dates_nonempty [OF l(3)] by (simp add: live_def AssignRunPerson_def assms(2) split_def Let_def deliver_def onMessage_def call_read
        in_GetRotation in_SetRotation read_run_week run_duty_kept rot)
qed

theorem assignment_not_announced_witness:
  "case live demo_env (AssignRunR (js ''p1'') (fmtDate 20500)) (demo_client, demo_server) of (c', s') \<Rightarrow>
     isRunPerson (c_rotation c') (js ''p1'') (fmtDate 20500)
       = (win_start demo_env demo_client \<le> fmtDate 20500 \<and> fmtDate 20500 \<le> win_end demo_env demo_client)
     \<and> read_slot (sv_planning s') demo_ref = Some (run_duty\<lparr>sd_projects := None\<rparr>)
     \<and> c_planning c' = c_planning demo_client"
  by (rule assignment_not_announced)
    (simp_all add: live_ok_def demo_live_ok go_date_parse [OF demo_go_dates(1)] week_refs_def demo_ref_def upt_rec,
     intro disjI1 refl)

text \<open>Deleting a person deletes the rows of the person, of which the message says nothing: a listening client
  that was in step has the directory and the slots of everybody else as the server has them, and
  keeps the slots of the person, who is no longer shown.\<close>

theorem deletion_cascades:
  assumes "live_ok e (c, s)" and "plain_ref r"
  shows "case live e (DelPersonR i) (c, s) of (c', s') \<Rightarrow>
     getPerson (c_people c') j = getPerson (sv_people s') j \<and> getPerson (c_people c') i = None
     \<and> (if in_window e c' r \<and> ref_person r \<noteq> i then dict_get (c_planning c') (ref_key r) = read_slot (sv_planning s') r else True)
     \<and> (if ref_person r = i then read_slot (sv_planning s') r = None else True)
     \<and> c_planning c' = c_planning c"
proof -
  show ?thesis
    using assms window_frame [of "render_state (c\<lparr>c_people := filter (\<lambda>q. p_id q \<noteq> i) (c_people c)\<rparr>)" c e]
    by (simp add: live_def deliver_def onMessage_def live_ok_def view_synced_def directory_synced_def directory_gets read_without_person)
qed

theorem deletion_cascades_witness:
  "case live demo_env (DelPersonR (js ''p1'')) (demo_client, demo_server) of (c', s') \<Rightarrow>
     getPerson (c_people c') (js ''p2'') = getPerson (sv_people s') (js ''p2'') \<and> getPerson (c_people c') (js ''p1'') = None
     \<and> (if in_window demo_env c' demo_ref \<and> ref_person demo_ref \<noteq> js ''p1''
        then dict_get (c_planning c') (ref_key demo_ref) = read_slot (sv_planning s') demo_ref else True)
     \<and> (if ref_person demo_ref = js ''p1'' then read_slot (sv_planning s') demo_ref = None else True)
     \<and> c_planning c' = c_planning demo_client"
  using demo_proper by (intro deletion_cascades) (simp_all add: live_ok_def demo_live_ok proper_ref_def)

end
