(* ===== verification/FileTransfer.thy ===== *)
theory FileTransfer
  imports Rotation
begin

text \<open>
  The file operations of the page: importing projects from CSV (\<open>showProjectImportModal\<close>, \<open>doProjectCSVImport\<close>),
  importing and exporting everything (\<open>showImportModal\<close>, \<open>doImport\<close>, \<open>doExport\<close>). They call \<open>fetch\<close> directly, so that
  no status is looked at before the reply is read. Proved here: what a CSV import makes of the
  projects on both sides, and that an export, imported in another place, gives the same tables.
\<close>

section \<open>The dialogs and their handlers\<close>

text \<open>A direct \<open>fetch\<close>: status and reply, or nothing when the network fails.\<close>

definition fetch_raw :: "env \<Rightarrow> request \<Rightarrow> server \<Rightarrow> (nat \<times> reply) option \<times> server" where
  "fetch_raw e r s =
     (case env_net e r of
        NoRequest \<Rightarrow> (None, s)
      | NoReply \<Rightarrow> (None, snd (snd (serve e r s)))
      | Up \<Rightarrow> (case serve e r s of (status, body, s') \<Rightarrow> (Some (status, body), s')))"

text \<open>What \<open>alert\<close> says; \<open>UndefinedCounts\<close>: "undefined created, undefined updated".\<close>

datatype import_alert = NoAlert | Counts nat nat | UndefinedCounts | ImportError

text \<open>The sample that the dialog shows under \<open>Expected format\<close>.\<close>

definition csvFormat :: jsstring where
  "csvFormat = csv_heading @ 10 # js ''Atlas,'' @ [55357, 56960]
     @ js '',Platform migration,https://wiki.example.com/atlas,2025/01/06,2025/03/28,in_progress''"

definition showProjectImportModal :: "jsstring \<times> jsstring" where
  "showProjectImportModal = (csvFormat, [])"

definition doProjectCSVImport :: "env \<Rightarrow> jsstring \<Rightarrow> client \<times> server \<Rightarrow> api_error option \<times> import_alert \<times> client \<times> server" where
  "doProjectCSVImport e pasted = (\<lambda>(c, s).
     let csvText = js_trim pasted
     in if csvText = [] then (None, NoAlert, c, s)
        else case fetch_raw e (ImportCsvR csvText) s of
               (None, s) \<Rightarrow> (Some NetworkError, NoAlert, c, s)
             | (Some (status, body), s) \<Rightarrow>
                 (case call e GetProjectsR (c, s) of
                    (Inl x, c, s) \<Rightarrow> (Some x, NoAlert, c, s)
                  | (Inr reply, c, s) \<Rightarrow>
                      (None, case body of RImport n m \<Rightarrow> Counts n m | _ \<Rightarrow> UndefinedCounts,
                       c\<lparr>c_projects := (case reply of RProjects ps \<Rightarrow> ps | _ \<Rightarrow> [])\<rparr>, s)))"

text \<open>The modes that the dialog offers, the first one selected.\<close>

definition showImportModal :: "jsstring list" where
  "showImportModal = [js ''merge'', js ''replace'']"

text \<open>\<open>file\<close>: the text of the chosen file.\<close>

definition doImport :: "env \<Rightarrow> jsstring option \<Rightarrow> jsstring \<Rightarrow> client \<times> server \<Rightarrow> api_error option \<times> import_alert \<times> client \<times> server" where
  "doImport e file mode = (\<lambda>(c, s).
     case file of
       None \<Rightarrow> (None, NoAlert, c, s)
     | Some txt \<Rightarrow>
         (case fetch_raw e (ImportTomlR mode txt) s of
            (None, s) \<Rightarrow> (Some NetworkError, NoAlert, c, s)
          | (Some (status, body), s) \<Rightarrow>
              if 200 \<le> status \<and> status < 300
              then (case loadAll e (c, s) of
                      (Some x, c, s) \<Rightarrow> (Some x, NoAlert, c, s)
                    | (None, c, s) \<Rightarrow> (None, case body of RImport n m \<Rightarrow> Counts n m | _ \<Rightarrow> UndefinedCounts, c, s))
              else (None, ImportError, c, s)))"

text \<open>\<open>cd.match(/filename="?([^"]+)"?/)\<close>.\<close>

fun match_filename :: "jsstring \<Rightarrow> jsstring option" where
  "match_filename [] = None"
| "match_filename (x # xs) =
     (let n = takeWhile (\<lambda>c. c \<noteq> 34) (let rest = drop 9 (x # xs) in if take 1 rest = [34] then tl rest else rest)
      in if take 9 (x # xs) = js ''filename='' \<and> n \<noteq> [] then Some n else match_filename xs)"

definition disposition :: "jsstring \<Rightarrow> jsstring" where
  "disposition name = js ''attachment; filename='' @ [34] @ name @ [34]"

text \<open>The name of the saved file and its text; \<open>None\<close> as the text: the error that the service sent instead.\<close>

definition doExport :: "env \<Rightarrow> server \<Rightarrow> (jsstring \<times> jsstring option) option \<times> server" where
  "doExport e s =
     (case fetch_raw e ExportR s of
        (None, s) \<Rightarrow> (None, s)
      | (Some (status, RFile name txt), s) \<Rightarrow>
          (Some (case match_filename (disposition name) of None \<Rightarrow> js ''export.toml'' | Some n \<Rightarrow> n, Some txt), s)
      | (Some _, s) \<Rightarrow> (Some (js ''export.toml'', None), s))"

section \<open>Projects from CSV\<close>

lemma sample_reads: "parseCSV csvFormat = [[js ''Atlas'', [55357, 56960], js ''Platform migration'',
    js ''https://wiki.example.com/atlas'', js ''2025/01/06'', js ''2025/03/28'', js ''in_progress'']]"
  by (simp add: parseCSV_def csvFormat_def csv_heading_def csv_header_def lower_ascii_def go_trim_def go_space_def
      parseCSVLine_def js_def Let_def)

lemma parse_nothing: "parseCSV [] = []"
  by (simp add: parseCSV_def go_trim_def csv_header_def lower_ascii_def js_def Let_def)

text \<open>C35: with a working server, an administrator who imports projects from CSV creates or replaces exactly the
  projects that the text names: each gets the fields of the last row with its name, known projects keep their
  identifier and all others are as they were, the alert counts the rows, and the page then shows the table of
  the server. For everybody else the server refuses the import and nothing changes on it; the page loads the projects
  and announces counts that are undefined.\<close>

theorem csv_import_exact:
  assumes "env_ok e" and "sv_session s = Some user" and "projects_ok (sv_projects s)"
    and "uuids_fresh (sv_uuid s) (sv_uuids_used s) (sv_projects s)" and "parseCSV (js_trim pasted) \<noteq> []"
  shows "case doProjectCSVImport e pasted (c, s) of (err, alert, c', s') \<Rightarrow> err = None
     \<and> c_projects c' = ListProjects (sv_projects s')
     \<and> (if u_role user = js ''admin'' then
          (case alert of Counts created updated \<Rightarrow> created + updated = length (parseCSV (js_trim pasted)) | _ \<Rightarrow> False)
          \<and> map_option (\<lambda>p. p\<lparr>pr_id := []\<rparr>) (project_named (sv_projects s') n) = (case last_row (parseCSV (js_trim pasted)) n of
               Some row \<Rightarrow> Some (csv_project row) | None \<Rightarrow> map_option (\<lambda>p. p\<lparr>pr_id := []\<rparr>) (project_named (sv_projects s) n))
          \<and> (case project_named (sv_projects s) n of None \<Rightarrow> True
             | Some q \<Rightarrow> map_option pr_id (project_named (sv_projects s') n) = Some (pr_id q))
        else s' = s \<and> alert = UndefinedCounts)"
proof -
  let ?txt = "js_trim pasted"
  have ne: "?txt \<noteq> []" using assms(5) parse_nothing by force
  obtain used created updated t where run:
      "import_all (import_row (sv_uuid s)) (parseCSV ?txt) (sv_uuids_used s, 0, 0, sv_projects s) = (True, used, created, updated, t)"
      "created + updated = length (parseCSV ?txt)"
    and names: "\<forall>n. map_option (\<lambda>p. p\<lparr>pr_id := []\<rparr>) (project_named t n) = (case last_row (parseCSV ?txt) n of
          Some row \<Rightarrow> Some (csv_project row) | None \<Rightarrow> map_option (\<lambda>p. p\<lparr>pr_id := []\<rparr>) (project_named (sv_projects s) n))
        \<and> (case project_named (sv_projects s) n of None \<Rightarrow> True | Some q \<Rightarrow> map_option pr_id (project_named t n) = Some (pr_id q))"
    using import_named [OF assms(3,4), of "parseCSV ?txt" 0 0] by auto
  let ?s = "s\<lparr>sv_projects := t, sv_uuids_used := used\<rparr>"
  have imp: "importProjectCSV ?txt s = (200, created, updated, ?s)"
    using ne assms(5) run(1) by (simp add: importProjectCSV_def)
  show ?thesis
  proof (cases "u_role user = js ''admin''")
    case True
    then have "serve e (ImportCsvR ?txt) s = (200, RImport created updated, ?s)"
      using assms(1,2) imp by (simp add: serve_def env_ok_def roleSatisfies_def)
    then have "doProjectCSVImport e pasted (c, s) = (None, Counts created updated, c\<lparr>c_projects := ListProjects t\<rparr>, ?s)"
      using ne assms(1,2)
      by (simp add: doProjectCSVImport_def fetch_raw_def call_read [OF assms(1)] env_ok_def Let_def)
    then show ?thesis using True run(2) spec [OF names, of n] by (simp cong: option.case_cong)
  next
    case False
    then have "\<not> roleSatisfies (u_role user) (js ''admin'')"
      by (simp add: roleSatisfies_def role_level_def)
    then have "serve e (ImportCsvR ?txt) s = (403, RError, s)"
      using assms(2) by (simp add: serve_def)
    then have "doProjectCSVImport e pasted (c, s) = (None, UndefinedCounts, c\<lparr>c_projects := ListProjects (sv_projects s)\<rparr>, s)"
      using ne assms(1,2)
      by (simp add: doProjectCSVImport_def fetch_raw_def call_read [OF assms(1)] env_ok_def Let_def)
    then show ?thesis using False by simp
  qed
qed

definition demo_csv :: jsstring where
  "demo_csv = csv_heading @ 10 # csv_text [[js ''Atlas'', js ''B''], [js ''Beacon''], [js ''Atlas'', [], js ''new'']]"

definition demo_projects_server :: server where
  "demo_projects_server = demo_server\<lparr>sv_projects := demo_two_projects, sv_session := Some \<lparr>u_username = js ''eve'', u_role = js ''admin''\<rparr>\<rparr>"

lemma demo_csv_rows: "parseCSV (js_trim demo_csv) = [[js ''Atlas'', js ''B''], [js ''Beacon''], [js ''Atlas'', [], js ''new'']]"
proof -
  let ?rows = "[[js ''Atlas'', js ''B''], [js ''Beacon''], [js ''Atlas'', [], js ''new'']]"
  have rows: "list_all csv_row ?rows" by (simp add: csv_row_def go_trim_def go_space_def js_def)
  then obtain t where "csv_text ?rows = 34 # t @ [34]" using split_rows(2) [of ?rows] by blast
  then have "js_trim demo_csv = demo_csv"
    by (simp add: demo_csv_def js_trim_def is_space_def csv_heading_def js_def)
  then show ?thesis using parse_csv_text [of ?rows] rows by (simp add: demo_csv_def)
qed

theorem csv_import_exact_witness:
  "case doProjectCSVImport demo_env demo_csv (demo_client, demo_projects_server) of (err, alert, c', s') \<Rightarrow> err = None
     \<and> c_projects c' = ListProjects (sv_projects s')
     \<and> (case alert of Counts created updated \<Rightarrow> created + updated = 3 | _ \<Rightarrow> False)
     \<and> map_option (\<lambda>p. p\<lparr>pr_id := []\<rparr>) (project_named (sv_projects s') (js ''Atlas'')) = Some (csv_project [js ''Atlas'', [], js ''new''])
     \<and> map_option pr_id (project_named (sv_projects s') (js ''Atlas'')) = Some (js ''j1'')"
proof -
  have ok: "projects_ok (sv_projects demo_projects_server)"
    by (simp add: projects_ok_def demo_projects_server_def demo_two_projects_def js_def)
  have "inj (\<lambda>n. js ''new'' @ str_of_nat n)" by (intro injI) (metis digits_val_str same_append_eq)
  then have fresh: "uuids_fresh (sv_uuid demo_projects_server) (sv_uuids_used demo_projects_server) (sv_projects demo_projects_server)"
    by (simp add: uuids_fresh_def demo_projects_server_def demo_server_def demo_two_projects_def js_def)
  have session: "sv_session demo_projects_server = Some \<lparr>u_username = js ''eve'', u_role = js ''admin''\<rparr>"
    by (simp add: demo_projects_server_def)
  have rows: "parseCSV (js_trim demo_csv) \<noteq> []" by (simp add: demo_csv_rows)
  have row: "last_row [[js ''Atlas'', js ''B''], [js ''Beacon''], [js ''Atlas'', [], js ''new'']] (js ''Atlas'') = Some [js ''Atlas'', [], js ''new'']"
    by (simp add: getField_def go_trim_def go_space_def js_def)
  have known: "project_named (sv_projects demo_projects_server) (js ''Atlas'') = Some (no_project\<lparr>pr_id := js ''j1'', pr_name := js ''Atlas''\<rparr>)"
    by (simp add: project_named_def demo_projects_server_def demo_two_projects_def)
  show ?thesis
    using csv_import_exact [where c = demo_client and n = "js ''Atlas''", OF demo_env_ok session ok fresh rows]
    unfolding demo_csv_rows row known by (simp add: demo_projects_server_def split: prod.splits import_alert.splits)
qed

section \<open>Importing what was exported\<close>

text \<open>Steps that each set one key, and steps that each add an element.\<close>

lemma fold_set_functional:
  assumes "\<forall>(k, v) \<in> set L. f k = Some v" and "\<And>k v t j. dict_get (upd k v t) j = (if j = k then Some v else dict_get t j)"
  shows "dict_get (fold (\<lambda>(k, v). upd k v) L t) j = (if j \<in> fst ` set L then f j else dict_get t j)"
  using assms(1)
proof (induction L arbitrary: t)
  case (Cons kv L)
  obtain k v where kv: "kv = (k, v)" by force
  have "dict_get (fold (\<lambda>(k, v). upd k v) L (upd k v t)) j = (if j \<in> fst ` set L then f j else dict_get (upd k v t) j)"
    using Cons by auto
  then show ?case using Cons.prems by (auto simp: kv assms(2))
qed simp

lemma import_all_fold:
  "(\<And>x s. x \<in> set xs \<Longrightarrow> P s \<Longrightarrow> f x s = Some (g x s) \<and> P (g x s)) \<Longrightarrow> P s \<Longrightarrow>
   import_all f xs s = (True, fold g xs s) \<and> P (fold g xs s)"
  by (induction xs arbitrary: s) auto

definition person_full :: "person \<Rightarrow> bool" where
  "person_full p \<longleftrightarrow> p_id p \<noteq> [] \<and> p_avatar_emoji p \<noteq> [] \<and> p_avatar_color p \<noteq> [] \<and> p_status p \<noteq> []"

text \<open>The tables that an export can be made of: identifiers as keys, defaults filled in, days of
  four-digit years, values as the table keeps them, and the rows of known people that the foreign keys allow.\<close>

definition exportable :: "server \<Rightarrow> bool" where
  "exportable s \<longleftrightarrow> rows_ok s
     \<and> list_all person_full (sv_people s)
     \<and> list_all (\<lambda>p. pr_id p \<noteq> [] \<and> pr_emoji p \<noteq> [] \<and> pr_status p \<noteq> []) (sv_projects s)
     \<and> store_ok (sv_planning s)
     \<and> list_all (\<lambda>(r, row). known_person s (ref_person r) \<and> export_from \<le> ref_date r \<and> ref_date r \<le> export_to
          \<and> kept_slot (slot_of_row row) = Some (slot_of_row row)) (sv_planning s)
     \<and> dict_ok (sv_oncall s) \<and> list_all (\<lambda>((pid, ws), _). known_person s pid \<and> export_from \<le> ws \<and> ws \<le> export_to) (sv_oncall s)
     \<and> list_all (\<lambda>((pid, ws), _). known_person s pid \<and> export_from \<le> ws \<and> ws \<le> export_to) (sv_rotation s)
     \<and> dict_ok (sv_settings s) \<and> (\<forall>ws. set (sv_map_order s ws) = set ws)"

subsection \<open>Settings\<close>

lemma get_import_setting:
  "dict_get (import_setting (a, v) u) k =
    (if k = a \<and> a \<noteq> js ''export_counter'' \<and> a \<noteq> js ''_scrollOffset'' then Some (go_sprint v) else dict_get u k)"
  by (simp add: import_setting_def)

lemma import_settings:
  assumes "dict_ok t"
  shows "dict_get (fold import_setting t u) k =
    (if k = js ''export_counter'' \<or> k = js ''_scrollOffset'' then dict_get u k
     else case dict_get t k of None \<Rightarrow> dict_get u k | Some v \<Rightarrow> Some (go_sprint v))"
  using assms
proof (induction t arbitrary: u)
  case Nil
  then show ?case by (simp add: dict_get_def)
next
  case (Cons kv t)
  obtain a v where kv: "kv = (a, v)" by force
  have a: "dict_get t a = None" "dict_ok t"
    using Cons.prems by (auto simp: kv dict_ok_def dict_get_def map_of_eq_None_iff)
  show ?case
    using Cons.IH [OF a(2), of "import_setting (a, v) u"] a(1)
    by (auto simp: kv get_import_setting split: option.splits)
qed

lemma exported_settings:
  assumes "dict_ok t" "xs = map (\<lambda>(k, v). (k, TomlText v)) t"
  shows "dict_ok (dict_set (js ''export_counter'') w xs)"
    "k \<noteq> js ''export_counter'' \<Longrightarrow> dict_get (dict_set (js ''export_counter'') w xs) k = map_option TomlText (dict_get t k)"
proof -
  have "map fst xs = map fst t" using assms(2) by (auto simp: comp_def case_prod_beta)
  then show "dict_ok (dict_set (js ''export_counter'') w xs)" using assms(1) by (simp add: dict_ok_def [of xs] dict_ok_def [of t])
  have "dict_get xs k = map_option TomlText (dict_get t k)" unfolding assms(2) by (induction t) (auto simp: dict_get_def)
  then show "k \<noteq> js ''export_counter'' \<Longrightarrow> dict_get (dict_set (js ''export_counter'') w xs) k = map_option TomlText (dict_get t k)"
    by simp
qed

subsection \<open>People\<close>

lemma exported_person: "person_of_export (export_person_of p) = p\<lparr>p_ics_token := []\<rparr>"
  by (simp add: person_of_export_def export_person_of_def)

text \<open>People of an empty table: they are added in the order of the export.\<close>

lemma import_people:
  "\<forall>p \<in> set ps. person_full p \<and> p_id p \<notin> p_id ` set (sv_people s) \<Longrightarrow> distinct (map p_id ps) \<Longrightarrow>
   \<exists>k. import_all import_person (map export_person_of ps) (s, n, m) =
     (True, s\<lparr>sv_people := sv_people s @ map (\<lambda>p. p\<lparr>p_ics_token := []\<rparr>) ps, sv_uuids_used := k\<rparr>, n + length ps, m)"
proof (induction ps arbitrary: s n)
  case Nil
  show ?case by (rule exI [of _ "sv_uuids_used s"]) simp
next
  case (Cons p ps)
  have p: "person_full p" "getPerson (sv_people s) (p_id p) = None"
    using Cons.prems(1) by (auto simp: getPerson_None)
  let ?s = "s\<lparr>sv_people := sv_people s @ [p\<lparr>p_ics_token := []\<rparr>], sv_uuids_used := Suc (sv_uuids_used s)\<rparr>"
  have id: "xp_id (export_person_of p) = p_id p" by (simp add: export_person_of_def)
  have "AddPerson (sv_uuid s (sv_uuids_used s)) (p\<lparr>p_ics_token := []\<rparr>) (sv_people s)
      = Some (p\<lparr>p_ics_token := []\<rparr>, sv_people s @ [p\<lparr>p_ics_token := []\<rparr>])"
    using p(1) Cons.prems(1) by (cases p) (simp add: AddPerson_def person_full_def Let_def)
  then have step: "import_person (export_person_of p) (s, n, m) = Some (?s, n + 1, m)"
    using p(2) by (simp add: import_person_def exported_person id)
  have "\<forall>q \<in> set ps. person_full q \<and> p_id q \<notin> p_id ` set (sv_people ?s)" "distinct (map p_id ps)"
    using Cons.prems by (auto, metis imageI)
  from Cons.IH [OF this, of "n + 1"] show ?case by (auto simp: step)
qed

subsection \<open>Half-days\<close>

lemma exported_slot:
  assumes "kept_slot d = Some d"
  shows "kept_slot (slot_of_export (export_slot_of (r, d))) = Some d"
proof -
  let ?d = "slot_of_export (export_slot_of (r, d))"
  have d: "\<not> slot_is_empty d" "slot_of_row (row_of_slot d) = d"
    using assms by (auto simp: kept_slot_def split: if_splits)
  have away: "sd_away d \<noteq> None \<Longrightarrow> away_type (the (sd_away d)) \<noteq> []"
    using arg_cong [OF d(2), where f = sd_away] by (auto simp: slot_of_row_def row_of_slot_def split: if_splits)
  have "row_of_slot ?d = row_of_slot d" "slot_is_empty ?d = slot_is_empty d"
    using away by (auto simp: slot_of_export_def export_slot_of_def row_of_slot_def slot_is_empty_def split: option.splits)
  with d show ?thesis by (simp add: kept_slot_def)
qed

lemma import_slots:
  assumes "\<forall>(r, d) \<in> set es. known_person s (ref_person r) \<and> kept_slot d = Some d" and "dict_ok es"
  shows "\<exists>t. import_all import_slot (map export_slot_of es) (s, n) = (True, s\<lparr>sv_planning := t\<rparr>, n)
    \<and> (\<forall>q. read_slot t q = (case dict_get es q of None \<Rightarrow> read_slot (sv_planning s) q | Some d \<Rightarrow> Some d))"
  using assms
proof (induction es arbitrary: s)
  case Nil
  then show ?case by (intro exI [of _ "sv_planning s"]) (simp add: dict_get_def)
next
  case (Cons e es)
  obtain r d where e: "e = (r, d)" by force
  let ?x = "export_slot_of (r, d)"
  let ?s = "s\<lparr>sv_planning := SetSlot r (slot_of_export ?x) (sv_planning s)\<rparr>"
  have kept: "kept_slot d = Some d" and known: "known_person s (ref_person r)" using Cons.prems by (auto simp: e)
  have step: "import_slot ?x (s, n) = Some (?s, n)"
    using known by (simp add: import_slot_def export_slot_of_def)
  have fresh: "dict_get es r = None" "dict_ok es"
    using Cons.prems(2) by (auto simp: e dict_ok_def dict_get_def map_of_eq_None_iff)
  have "\<forall>(r, d) \<in> set es. known_person ?s (ref_person r) \<and> kept_slot d = Some d"
    using Cons.prems(1) by (auto simp: known_person_def)
  from Cons.IH [OF this fresh(2)] obtain t where
      "import_all import_slot (map export_slot_of es) (?s, n) = (True, ?s\<lparr>sv_planning := t\<rparr>, n)"
      "\<forall>q. read_slot t q = (case dict_get es q of None \<Rightarrow> read_slot (sv_planning ?s) q | Some d \<Rightarrow> Some d)"
    by auto
  then show ?case
    using fresh(1) by (intro exI [of _ t]) (auto simp: e step read_SetSlot exported_slot [OF kept] split: option.splits)
qed

subsection \<open>Projects\<close>

lemma import_projects:
  "\<forall>p \<in> set ps. pr_id p \<noteq> [] \<and> pr_emoji p \<noteq> [] \<and> pr_status p \<noteq> [] \<Longrightarrow>
   projects_ok (sv_projects s @ ps) \<Longrightarrow>
   \<exists>k. import_all import_project ps (s, n) = (True, s\<lparr>sv_projects := sv_projects s @ ps, sv_uuids_used := k\<rparr>, n)"
proof (induction ps arbitrary: s)
  case Nil
  show ?case by (rule exI [of _ "sv_uuids_used s"]) simp
next
  case (Cons p ps)
  have p: "pr_id p \<notin> pr_id ` set (sv_projects s)" "pr_name p \<notin> pr_name ` set (sv_projects s)"
    using Cons.prems(2) by (auto simp: projects_ok_def)
  then have "find (\<lambda>q. pr_name q = pr_name p) (sv_projects s) = None" by (metis (mono_tags, lifting) find_None_iff image_eqI)
  then have step: "import_project p (s, n) = Some (s\<lparr>sv_projects := sv_projects s @ [p], sv_uuids_used := Suc (sv_uuids_used s)\<rparr>, n)"
    using p Cons.prems(1) by (simp add: import_project_def UpsertProjectByName_def AddProject_def Let_def)
  show ?case
    using Cons.IH [of "s\<lparr>sv_projects := sv_projects s @ [p], sv_uuids_used := Suc (sv_uuids_used s)\<rparr>"] Cons.prems
    by (fastforce simp: step)
qed

subsection \<open>On-call and rotation\<close>

lemma import_weeks:
  assumes "\<forall>x \<in> set xs. known_person s (xk_person_id x)"
  shows "import_all import_oncall xs (s, n) = (True, s\<lparr>sv_oncall :=
      fold (\<lambda>x. SetOnCall (xk_person_id x) (xk_week_start x) (xk_comment x) True) xs (sv_oncall s)\<rparr>, n)"
    "import_all import_rotation xs (s, n) = (True, s\<lparr>sv_rotation :=
      fold (\<lambda>x. SetRotation (xk_person_id x) (xk_week_start x) True) xs (sv_rotation s)\<rparr>, n)"
proof -
  show "import_all import_oncall xs (s, n) = (True, s\<lparr>sv_oncall :=
      fold (\<lambda>x. SetOnCall (xk_person_id x) (xk_week_start x) (xk_comment x) True) xs (sv_oncall s)\<rparr>, n)"
    using assms by (induction xs arbitrary: s) (simp_all add: import_oncall_def known_person_def)
  show "import_all import_rotation xs (s, n) = (True, s\<lparr>sv_rotation :=
      fold (\<lambda>x. SetRotation (xk_person_id x) (xk_week_start x) True) xs (sv_rotation s)\<rparr>, n)"
    using assms by (induction xs arbitrary: s) (simp_all add: import_rotation_def known_person_def)
qed

lemma exported_weeks:
  assumes "exportable s"
  shows "set (xd_oncall (export_file s)) =
      (\<lambda>((p, w), c). \<lparr>xk_person_id = p, xk_week_start = w, xk_comment = c\<rparr>) ` set (sv_oncall s)"
    "set (xd_rotation (export_file s)) =
      (\<lambda>((p, w), _). \<lparr>xk_person_id = p, xk_week_start = w, xk_comment = []\<rparr>) ` set (sv_rotation s)"
proof -
  have get: "dict_get_or [] (map (\<lambda>w. (w, g w)) ws) w = (if w \<in> set ws then g w else [])" for g :: "jsstring \<Rightarrow> 'a list" and ws w
    by (induction ws) (auto simp: dict_get_or_def dict_get_def)
  have order: "set (sv_map_order s ws) = set ws" for ws using assms by (simp add: exportable_def)
  have "filter (\<lambda>((pid, ws), cm). export_from \<le> ws \<and> ws \<le> export_to) (sv_oncall s) = sv_oncall s"
    using assms by (auto simp: exportable_def list_all_iff filter_id_conv)
  then show "set (xd_oncall (export_file s)) =
      (\<lambda>((p, w), c). \<lparr>xk_person_id = p, xk_week_start = w, xk_comment = c\<rparr>) ` set (sv_oncall s)"
    by (force simp: export_file_def GetExportData_def GetOnCall_def Let_def get order comp_def image_iff)
  have "filter (\<lambda>((pid, ws), _). export_from \<le> ws \<and> ws \<le> export_to) (sv_rotation s) = sv_rotation s"
    using assms by (auto simp: exportable_def list_all_iff filter_id_conv)
  then show "set (xd_rotation (export_file s)) =
      (\<lambda>((p, w), _). \<lparr>xk_person_id = p, xk_week_start = w, xk_comment = []\<rparr>) ` set (sv_rotation s)"
    by (force simp: export_file_def GetExportData_def GetRotation_def Let_def get order comp_def image_iff)
qed

lemma fold_oncall:
  assumes "dict_ok t" "set xs = (\<lambda>((p, w), c). \<lparr>xk_person_id = p, xk_week_start = w, xk_comment = c\<rparr>) ` set t"
  shows "dict_get (fold (\<lambda>x. SetOnCall (xk_person_id x) (xk_week_start x) (xk_comment x) True) xs []) k = dict_get t k"
proof -
  let ?L = "map (\<lambda>x. ((xk_person_id x, xk_week_start x), xk_comment x)) xs"
  have L: "set ?L = set t" by (simp add: assms(2) image_image) (simp add: case_prod_beta)
  have fn: "\<forall>(k, v) \<in> set ?L. dict_get t k = Some v"
    using assms(1) unfolding L by (auto simp: dict_ok_def dict_get_def)
  have "fold (\<lambda>x. SetOnCall (xk_person_id x) (xk_week_start x) (xk_comment x) True) xs [] = fold (\<lambda>(k, v). dict_set k v) ?L []"
    by (simp add: fold_map comp_def SetOnCall_def [abs_def])
  also have "dict_get \<dots> k = (if k \<in> fst ` set ?L then dict_get t k else dict_get [] k)"
    by (rule fold_set_functional [OF fn]) simp
  also have "\<dots> = dict_get t k"
    unfolding L by (auto simp: dict_get_def map_of_eq_None_iff intro: sym)
  finally show ?thesis .
qed

lemma fold_rotation:
  "(p, w) \<in> fst ` set (fold (\<lambda>x. SetRotation (xk_person_id x) (xk_week_start x) True) xs t) \<longleftrightarrow>
   (\<exists>x \<in> set xs. xk_person_id x = p \<and> xk_week_start x = w) \<or> (p, w) \<in> fst ` set t"
  by (induction xs arbitrary: t) (auto simp: in_SetRotation split: if_splits)

section \<open>Everything together\<close>

lemma list_perm:
  "set (ListPeople t) = set t" "set (ListProjects u) = set u"
  "distinct (map f (ListPeople t)) = distinct (map f t)" "distinct (map g (ListProjects u)) = distinct (map g u)"
proof -
  show "set (ListPeople t) = set t" "set (ListProjects u) = set u" by (simp_all add: ListPeople_def ListProjects_def)
  have "mset (map f (ListPeople t)) = mset (map f t)" "mset (map g (ListProjects u)) = mset (map g u)"
    by (simp_all add: ListPeople_def ListProjects_def)
  then show "distinct (map f (ListPeople t)) = distinct (map f t)" "distinct (map g (ListProjects u)) = distinct (map g u)"
    by (blast dest: mset_eq_imp_distinct_iff)+
qed

lemma getPerson_clear: "getPerson (map (\<lambda>p. p\<lparr>p_ics_token := []\<rparr>) t) i = map_option (\<lambda>p. p\<lparr>p_ics_token := []\<rparr>) (getPerson t i)"
  by (induction t) auto

text \<open>The tables of \<open>u\<close> are those of \<open>s\<close>, but for the calendar tokens and the settings.\<close>

definition same_tables :: "server \<Rightarrow> server \<Rightarrow> bool" where
  "same_tables s u \<longleftrightarrow>
     (\<forall>i. getPerson (sv_people u) i = map_option (\<lambda>p. p\<lparr>p_ics_token := []\<rparr>) (getPerson (sv_people s) i))
     \<and> (\<forall>i. getProject (sv_projects u) i = getProject (sv_projects s) i)
     \<and> (\<forall>r. read_slot (sv_planning u) r = read_slot (sv_planning s) r)
     \<and> (\<forall>k. dict_get (sv_oncall u) k = dict_get (sv_oncall s) k)
     \<and> (\<forall>k. k \<in> fst ` set (sv_rotation u) \<longleftrightarrow> k \<in> fst ` set (sv_rotation s))"

text \<open>The five steps of an import of \<open>export_file s\<close>, on tables without rows.\<close>

lemma people_back:
  assumes "exportable s" and "sv_people w = []"
  shows "\<exists>k. import_all import_person (xd_people (export_file s)) (w, 0, 0) =
    (True, w\<lparr>sv_people := map (\<lambda>p. p\<lparr>p_ics_token := []\<rparr>) (ListPeople (sv_people s)), sv_uuids_used := k\<rparr>, length (sv_people s), 0)"
proof -
  have "\<forall>p \<in> set (ListPeople (sv_people s)). person_full p \<and> p_id p \<notin> p_id ` set (sv_people w)"
    using assms by (auto simp: exportable_def person_full_def list_all_iff list_perm)
  moreover have "distinct (map p_id (ListPeople (sv_people s)))"
    using assms(1) by (simp add: exportable_def rows_ok_def list_perm)
  moreover have "length (ListPeople (sv_people s)) = length (sv_people s)" by (simp add: ListPeople_def)
  moreover have "xd_people (export_file s) = map export_person_of (ListPeople (sv_people s))"
    by (simp add: export_file_def GetExportData_def Let_def)
  ultimately show ?thesis using import_people [of "ListPeople (sv_people s)" w 0 0] assms(2) by simp
qed

lemma slots_back:
  assumes "exportable s" and "sv_planning w = []" and "\<And>i. known_person s i \<Longrightarrow> known_person w i"
  shows "\<exists>t. import_all import_slot (xd_planning (export_file s)) (w, n) = (True, w\<lparr>sv_planning := t\<rparr>, n)
    \<and> (\<forall>q. read_slot t q = read_slot (sv_planning s) q)"
proof -
  let ?es = "GetPlanning export_from export_to (sv_planning s)"
  have x: "xd_planning (export_file s) = map export_slot_of ?es"
    by (simp add: export_file_def GetExportData_def Let_def)
  have ok: "dict_ok (sv_planning s)" using assms(1) by (simp add: exportable_def store_ok_def)
  have rows: "known_person s (ref_person r) \<and> export_from \<le> ref_date r \<and> ref_date r \<le> export_to
      \<and> kept_slot (slot_of_row row) = Some (slot_of_row row)" if "(r, row) \<in> set (sv_planning s)" for r row
    using assms(1) that by (auto simp: exportable_def list_all_iff)
  have "\<forall>(r, d) \<in> set ?es. known_person w (ref_person r) \<and> kept_slot d = Some d"
    using rows assms(3) by (auto simp: GetPlanning_def)
  moreover have "dict_ok ?es" using distinct_GetPlanning [OF ok] by (simp add: dict_ok_def)
  ultimately obtain t where run: "import_all import_slot (map export_slot_of ?es) (w, n) = (True, w\<lparr>sv_planning := t\<rparr>, n)"
      and t: "\<forall>q. read_slot t q = (case dict_get ?es q of None \<Rightarrow> read_slot (sv_planning w) q | Some d \<Rightarrow> Some d)"
    using import_slots by blast
  have "dict_get ?es q = read_slot (sv_planning s) q" for q
    using rows map_of_SomeD [of "sv_planning s" q]
    by (auto simp: dict_get_def GetPlanning_read [OF ok] read_slot_def split: option.splits)
  then have "\<forall>q. read_slot t q = read_slot (sv_planning s) q"
    using t assms(2) by (simp add: read_slot_def dict_get_def split: option.splits)
  with run x show ?thesis by auto
qed

lemma projects_back:
  assumes "exportable s" and "sv_projects w = []"
  shows "\<exists>k. import_all import_project (xd_projects (export_file s)) (w, n) =
    (True, w\<lparr>sv_projects := ListProjects (sv_projects s), sv_uuids_used := k\<rparr>, n)"
proof -
  have "\<forall>p \<in> set (ListProjects (sv_projects s)). pr_id p \<noteq> [] \<and> pr_emoji p \<noteq> [] \<and> pr_status p \<noteq> []"
    using assms(1) by (simp add: exportable_def list_all_iff list_perm)
  moreover have "projects_ok (sv_projects w @ ListProjects (sv_projects s))"
    using assms by (simp add: exportable_def rows_ok_def projects_ok_def list_perm)
  moreover have "xd_projects (export_file s) = ListProjects (sv_projects s)"
    by (simp add: export_file_def GetExportData_def Let_def)
  ultimately show ?thesis using import_projects [of "ListProjects (sv_projects s)" w n] assms(2) by simp
qed

lemma oncall_back:
  assumes "exportable s" and "\<And>i. known_person s i \<Longrightarrow> known_person w i" and "sv_oncall w = []"
  shows "\<exists>t. import_all import_oncall (xd_oncall (export_file s)) (w, n) = (True, w\<lparr>sv_oncall := t\<rparr>, n)
      \<and> (\<forall>k. dict_get t k = dict_get (sv_oncall s) k)"
proof -
  have ok: "dict_ok (sv_oncall s)" using assms(1) by (simp add: exportable_def)
  have "\<forall>x \<in> set (xd_oncall (export_file s)). known_person w (xk_person_id x)"
    unfolding exported_weeks [OF assms(1)] using assms(1,2) by (fastforce simp: exportable_def list_all_iff)
  from import_weeks(1) [OF this, of n] fold_oncall [OF ok exported_weeks(1) [OF assms(1)]] assms(3)
  show ?thesis by auto
qed

lemma rotation_back:
  assumes "exportable s" and "\<And>i. known_person s i \<Longrightarrow> known_person w i" and "sv_rotation w = []"
  shows "\<exists>t. import_all import_rotation (xd_rotation (export_file s)) (w, n) = (True, w\<lparr>sv_rotation := t\<rparr>, n)
      \<and> (\<forall>k. k \<in> fst ` set t \<longleftrightarrow> k \<in> fst ` set (sv_rotation s))"
proof -
  have "\<forall>x \<in> set (xd_rotation (export_file s)). known_person w (xk_person_id x)"
    unfolding exported_weeks [OF assms(1)] using assms(1,2) by (fastforce simp: exportable_def list_all_iff)
  note run = import_weeks(2) [OF this, of n]
  have "(p, v) \<in> fst ` set (fold (\<lambda>x. SetRotation (xk_person_id x) (xk_week_start x) True) (xd_rotation (export_file s)) [])
      \<longleftrightarrow> (p, v) \<in> fst ` set (sv_rotation s)" for p v
    unfolding fold_rotation exported_weeks [OF assms(1)]
    by (auto simp: image_iff case_prod_beta intro!: bexI [of _ "((p, v), ())"])
  then show ?thesis using run assms(3) by auto
qed

text \<open>All steps: the tables of \<open>s\<close>, with the settings that \<open>w\<close> has.\<close>

definition no_rows :: "server \<Rightarrow> bool" where
  "no_rows w \<longleftrightarrow> sv_people w = [] \<and> sv_planning w = [] \<and> sv_projects w = [] \<and> sv_oncall w = [] \<and> sv_rotation w = []"

lemma tables_back:
  assumes x: "exportable s" and w: "no_rows w"
  shows "\<exists>u. and_then (and_then (and_then (and_then (import_all import_person (xd_people (export_file s)) (w, 0, 0))
        (import_all import_slot (xd_planning (export_file s))))
        (import_all import_project (xd_projects (export_file s))))
        (import_all import_oncall (xd_oncall (export_file s))))
        (import_all import_rotation (xd_rotation (export_file s))) = (True, u, length (sv_people s), 0)
    \<and> same_tables s u \<and> rows_ok u \<and> sv_session u = sv_session w \<and> sv_settings u = sv_settings w \<and> sv_today u = sv_today w"
proof -
  have rows: "rows_ok s" using x by (simp add: exportable_def)
  let ?ps = "map (\<lambda>p. p\<lparr>p_ics_token := []\<rparr>) (ListPeople (sv_people s))"
  let ?n = "(length (sv_people s), 0)"
  have person: "getPerson ?ps i = map_option (\<lambda>p. p\<lparr>p_ics_token := []\<rparr>) (getPerson (sv_people s) i)" for i
    by (simp only: getPerson_clear lists_by_name(1) [OF rows])
  have known: "known_person s i \<Longrightarrow> sv_people v = ?ps \<Longrightarrow> known_person v i" for v i
    by (simp only: known_person_def person) simp
  obtain k where 1: "import_all import_person (xd_people (export_file s)) (w, 0, 0) =
      (True, w\<lparr>sv_people := ?ps, sv_uuids_used := k\<rparr>, ?n)" (is "_ = (True, ?w1, _)")
    using people_back [OF x] w by (auto simp: no_rows_def)
  obtain t where 2: "import_all import_slot (xd_planning (export_file s)) (?w1, ?n) = (True, ?w1\<lparr>sv_planning := t\<rparr>, ?n)"
      (is "_ = (True, ?w2, _)") and t: "\<forall>q. read_slot t q = read_slot (sv_planning s) q"
    using slots_back [OF x, of ?w1 ?n] known [of _ ?w1] w by (auto simp: no_rows_def)
  obtain k2 where 3: "import_all import_project (xd_projects (export_file s)) (?w2, ?n) =
      (True, ?w2\<lparr>sv_projects := ListProjects (sv_projects s), sv_uuids_used := k2\<rparr>, ?n)" (is "_ = (True, ?w3, _)")
    using projects_back [OF x, of ?w2 ?n] w by (auto simp: no_rows_def)
  obtain oc where 4: "import_all import_oncall (xd_oncall (export_file s)) (?w3, ?n) = (True, ?w3\<lparr>sv_oncall := oc\<rparr>, ?n)"
      (is "_ = (True, ?w4, _)") and oc: "\<forall>k. dict_get oc k = dict_get (sv_oncall s) k"
    using oncall_back [OF x, of ?w3 ?n] known [of _ ?w3] w by (auto simp: no_rows_def)
  obtain ro where 5: "import_all import_rotation (xd_rotation (export_file s)) (?w4, ?n) = (True, ?w4\<lparr>sv_rotation := ro\<rparr>, ?n)"
      and ro: "\<forall>k. k \<in> fst ` set ro \<longleftrightarrow> k \<in> fst ` set (sv_rotation s)"
    using rotation_back [OF x, of ?w4 ?n] known [of _ ?w4] w by (auto simp: no_rows_def)
  show ?thesis
    using rows t oc ro person
    by (simp add: 1 2 3 4 [simplified] 5 [simplified] and_then_def same_tables_def lists_by_name(2) [OF rows] rows_ok_def list_perm comp_def)
qed

lemma import_exported:
  assumes x: "exportable s"
  shows "\<exists>u. ImportTOMLData (export_file s) (js ''replace'') s2 = (True, u, length (sv_people s), 0)
    \<and> same_tables s u \<and> rows_ok u \<and> sv_session u = sv_session s2 \<and> sv_today u = sv_today s2
    \<and> sv_settings u = fold import_setting (xd_settings (export_file s)) (sv_settings s2)"
proof -
  let ?w = "(ResetAllData s2)\<lparr>sv_settings := fold import_setting (xd_settings (export_file s)) (sv_settings s2)\<rparr>"
  have "no_rows ?w" by (simp add: no_rows_def)
  from tables_back [OF x this] obtain u where u:
      "ImportTOMLData (export_file s) (js ''replace'') s2 = (True, u, length (sv_people s), 0)"
      "same_tables s u" "rows_ok u" "sv_session u = sv_session ?w" "sv_settings u = sv_settings ?w" "sv_today u = sv_today ?w"
    unfolding ImportTOMLData_def Let_def by auto
  then show ?thesis by (intro exI [of _ u]) simp
qed

lemma settings_back:
  assumes "exportable s" and "k \<noteq> js ''export_counter''" "k \<noteq> js ''_scrollOffset''"
  shows "dict_get (fold import_setting (xd_settings (export_file s)) t) k =
    (case dict_get (sv_settings s) k of None \<Rightarrow> dict_get t k | Some v \<Rightarrow> Some v)"
proof -
  have ok: "dict_ok (sv_settings s)" using assms(1) by (simp add: exportable_def)
  let ?xs = "map (\<lambda>(k, v). (k, TomlText v)) (sv_settings s)"
  have "xd_settings (export_file s) = dict_set (js ''export_counter'') (TomlText (next_counter s)) ?xs"
    by (simp add: export_file_def GetExportData_def Let_def)
  then show ?thesis
    using import_settings [OF exported_settings(1) [OF ok refl], of "TomlText (next_counter s)" t k]
      exported_settings(2) [OF ok refl assms(2), of "TomlText (next_counter s)"] assms(2,3)
    by (simp split: option.splits)
qed

lemma positive_window:
  assumes "0 < leading_int (dict_get_or [] t (js ''window_weeks''))"
  shows "client_weeks e (loaded_client (s\<lparr>sv_settings := t\<rparr>) c) \<noteq> []"
  using assms by (simp add: client_weeks_def getVisibleWeeks_def loaded_client_def settingsFromMap_def Let_def atoiOr_def dict_get_or_def
      split: if_splits)

text \<open>C33: everything that one server exports can be imported by an administrator in another: if the TOML library reads back what it
  wrote, replacing the data of a server by the exported file gives it the same people (without the calendar tokens),
  projects, half-days, on-call weeks and rotation, and the exported settings over its own except the counter of
  exports; the alert counts the people, and the page then shows the new tables.\<close>

theorem export_import_restores:
  assumes "env_ok e" and "sv_session s \<noteq> None" and "sv_session s2 = Some user" and "roleSatisfies (u_role user) (js ''admin'')"
    and "exportable s" and "0 < leading_int (dict_get_or [] (sv_settings s) (js ''window_weeks''))"
    and "sv_toml_parse s2 (sv_toml_print s (export_file s)) = Some (export_file s)" and "sv_toml_print s (export_file s) \<noteq> []"
  shows "case doExport e s of
     (Some (name, file), s') \<Rightarrow> (case doImport e file (js ''replace'') (c, s2) of (err, alert, c', u) \<Rightarrow>
        err = None \<and> alert = Counts (length (sv_people s)) 0 \<and> same_tables s u
        \<and> (k \<noteq> js ''export_counter'' \<and> k \<noteq> js ''_scrollOffset'' \<longrightarrow> dict_get (sv_settings u) k =
             (case dict_get (sv_settings s) k of None \<Rightarrow> dict_get (sv_settings s2) k | Some v \<Rightarrow> Some v))
        \<and> directory_synced c' u \<and> synced e c' u)
   | _ \<Rightarrow> False"
proof -
  let ?file = "sv_toml_print s (export_file s)"
  obtain s' where "serve e ExportR s = (200, RFile (fst (exportTOML s)) ?file, s')"
    using assms(1,2) by (auto simp: serve_def env_ok_def exportTOML_def)
  then obtain name where exported: "doExport e s = (Some (name, Some ?file), s')"
    using assms(1) by (simp add: doExport_def fetch_raw_def env_ok_def)
  obtain u where u: "ImportTOMLData (export_file s) (js ''replace'') s2 = (True, u, length (sv_people s), 0)"
      "same_tables s u" "rows_ok u" "sv_session u = sv_session s2"
      "sv_settings u = fold import_setting (xd_settings (export_file s)) (sv_settings s2)"
    using import_exported [OF assms(5), of s2] by blast
  have "xd_schema_version (export_file s) = 1" by (simp add: export_file_def GetExportData_def Let_def)
  then have "importTOML (js ''replace'') ?file s2 = (200, length (sv_people s), 0, u)"
    using assms(7,8) u(1) by (simp add: importTOML_def parse_toml_def or_else_def js_def)
  then have "serve e (ImportTomlR (js ''replace'') ?file) s2 = (200, RImport (length (sv_people s)) 0, u)"
    using assms(1,3,4) by (simp add: serve_def env_ok_def)
  then have fetched: "fetch_raw e (ImportTomlR (js ''replace'') ?file) s2 = (Some (200, RImport (length (sv_people s)) 0), u)"
    using assms(1) by (simp add: fetch_raw_def env_ok_def)
  have settings: "k \<noteq> js ''export_counter'' \<Longrightarrow> k \<noteq> js ''_scrollOffset'' \<Longrightarrow> dict_get (sv_settings u) k =
      (case dict_get (sv_settings s) k of None \<Rightarrow> dict_get (sv_settings s2) k | Some v \<Rightarrow> Some v)" for k
    using settings_back [OF assms(5)] u(5) by simp
  have "dict_get (sv_settings s) (js ''window_weeks'') \<noteq> None"
    using assms(6) by (cases "dict_get (sv_settings s) (js ''window_weeks'')") (simp_all add: dict_get_or_def leading_int_def digits_val_def Let_def)
  then have "dict_get_or [] (sv_settings u) (js ''window_weeks'') = dict_get_or [] (sv_settings s) (js ''window_weeks'')"
    using settings [of "js ''window_weeks''"] by (auto simp: dict_get_or_def js_def)
  then have w: "client_weeks e (loaded_client u c) \<noteq> []"
    using positive_window [of "sv_settings u" e u c] assms(6) by simp
  obtain err c' v where load: "loadAll e (c, u) = (err, c', v)" using prod_cases3 by blast
  have "err = None \<and> v = u \<and> directory_synced c' u \<and> synced e c' u"
    using loadAll_main [OF assms(1) _ w u(3) load] u(4) assms(3) by simp
  then show ?thesis
    using u(2) settings [of k] load by (simp add: exported doImport_def fetched)
qed


definition demo_shop :: server where
  "demo_shop = demo_server\<lparr>sv_settings := [(js ''window_weeks'', js ''2''), (js ''theme'', js ''nord'')],
     sv_oncall := [((js ''p1'', js ''2026/02/16''), js ''Mo'')], sv_rotation := [((js ''p1'', js ''2026/02/16''), ())],
     sv_projects := map (\<lambda>p. p\<lparr>pr_emoji := [128640], pr_status := js ''active''\<rparr>) demo_two_projects,
     sv_people := [demo_ann\<lparr>p_avatar_emoji := [128049], p_avatar_color := js ''#f00''\<rparr>]\<rparr>"

definition demo_branch :: server where
  "demo_branch = demo_server\<lparr>sv_session := Some \<lparr>u_username = js ''root'', u_role = js ''admin''\<rparr>,
     sv_toml_parse := (\<lambda>_. Some (export_file demo_shop))\<rparr>"

lemma demo_exportable: "exportable demo_shop"
proof -
  have rows: "rows_ok demo_shop"
    by (simp add: rows_ok_def demo_shop_def demo_server_def demo_two_projects_def js_def)
  have known: "known_person demo_shop (js ''p1'')"
    by (simp add: known_person_def demo_shop_def demo_server_def demo_ann_def)
  have store: "store_ok (sv_planning demo_shop)" using demo_plain by (simp add: plain_store_def demo_shop_def)
  have slot: "kept_slot (slot_of_row (row_of_slot demo_slot)) = Some (slot_of_row (row_of_slot demo_slot))"
    by (simp add: demo_row demo_kept)
  have day: "export_from \<le> js ''2026/02/16''" "js ''2026/02/16'' \<le> export_to"
    by (simp_all add: export_from_def export_to_def js_def)
  have date: "fmtDate 20500 = js ''2026/02/16''" by code_simp
  show ?thesis
    using rows known store slot day date unfolding exportable_def person_full_def
    by (simp add: demo_shop_def demo_server_def demo_two_projects_def demo_ann_def demo_ref_def dict_ok_def js_eq_iff)
qed

theorem export_import_restores_witness:
  "case doExport demo_env demo_shop of
     (Some (name, file), s') \<Rightarrow> (case doImport demo_env file (js ''replace'') (demo_client, demo_branch) of (err, alert, c', u) \<Rightarrow>
        err = None \<and> alert = Counts (length (sv_people demo_shop)) 0 \<and> same_tables demo_shop u
        \<and> (js ''theme'' \<noteq> js ''export_counter'' \<and> js ''theme'' \<noteq> js ''_scrollOffset'' \<longrightarrow> dict_get (sv_settings u) (js ''theme'') =
             (case dict_get (sv_settings demo_shop) (js ''theme'') of
                None \<Rightarrow> dict_get (sv_settings demo_branch) (js ''theme'') | Some v \<Rightarrow> Some v))
        \<and> directory_synced c' u \<and> synced demo_env c' u)
   | _ \<Rightarrow> False"
proof (rule export_import_restores [OF demo_env_ok _ _ _ demo_exportable])
  show "sv_session demo_shop \<noteq> None" by (simp add: demo_shop_def demo_server_def)
  show "sv_session demo_branch = Some \<lparr>u_username = js ''root'', u_role = js ''admin''\<rparr>" by (simp add: demo_branch_def)
  show "roleSatisfies (u_role \<lparr>u_username = js ''root'', u_role = js ''admin''\<rparr>) (js ''admin'')"
    by (simp add: roleSatisfies_def role_level_def js_eq_iff)
  show "0 < leading_int (dict_get_or [] (sv_settings demo_shop) (js ''window_weeks''))"
    by (simp add: demo_shop_def dict_get_or_def dict_get_def leading_int_def js_def is_space_def is_digit_def digits_val_def)
  show "sv_toml_parse demo_branch (sv_toml_print demo_shop (export_file demo_shop)) = Some (export_file demo_shop)"
    by (simp add: demo_branch_def)
  show "sv_toml_print demo_shop (export_file demo_shop) \<noteq> []"
    by (simp add: demo_shop_def demo_server_def js_def)
qed

section \<open>An import that fails\<close>

text \<open>An import that replaces empties the tables before it writes: when the first half-day of a file names a person who is not in
  it, the administrator reads of an error, the people, projects and half-days of the service are gone, and the page shows them still.\<close>

lemma failed_replace_empties:
  assumes "env_ok e" and "sv_session s = Some user" and "roleSatisfies (u_role user) (js ''admin'')" and "body \<noteq> []"
    and "sv_toml_parse s body = Some d" and "xd_people d = []" and "xd_planning d = x # xs" and "\<not> slot_is_empty (slot_of_export x)"
  shows "case doImport e (Some body) (js ''replace'') (c, s) of (err, alert, c', s') \<Rightarrow>
     err = None \<and> alert = ImportError \<and> c' = c \<and> sv_people s' = [] \<and> sv_projects s' = [] \<and> sv_planning s' = []"
proof -
  let ?d = "if xd_schema_version d = 0 then d\<lparr>xd_schema_version := 1\<rparr> else d"
  let ?s = "(ResetAllData s)\<lparr>sv_settings := fold import_setting (xd_settings d) (sv_settings s)\<rparr>"
  have "ImportTOMLData ?d (js ''replace'') s = (False, ?s, 0, 0)"
    using assms(6-8) by (simp add: ImportTOMLData_def and_then_def import_slot_def known_person_def Let_def)
  then have "importTOML (js ''replace'') body s = (500, 0, 0, ?s)"
    using assms(4,5) by (simp add: importTOML_def parse_toml_def or_else_def)
  then have "serve e (ImportTomlR (js ''replace'') body) s = (500, RError, ?s)"
    using assms(1-3) by (simp add: serve_def env_ok_def)
  then show ?thesis using assms(1) by (simp add: doImport_def fetch_raw_def env_ok_def)
qed

end
