(* ===== verification/Controls.thy ===== *)
theory Controls
  imports FileTransfer Forms Activity Shell
begin

text \<open>
  The controls around the views: the pages of settings (\<open>renderSettings\<close>, \<open>renderAdmin\<close>), the bars over the projects and
  the activity (\<open>renderProjects\<close>, \<open>renderActivityList\<close>, \<open>actSearchDebounce\<close>), a row of the activity, and the buttons in the
  top bar (\<open>initNav\<close>). Proved here: what is set is what the page shows and, but for
  a run target of zero, what everybody who loads reads.
\<close>

section \<open>Settings\<close>

definition THEMES :: "jsstring list" where
  "THEMES = [js ''dracula'', js ''monokai'', js ''light'', js ''nord'', js ''solarized_light'', js ''solarized_dark'',
     js ''github'', js ''github_dark'', js ''one_dark'', js ''gruvbox'', js ''tokyo_night'', js ''catppuccin'']"

text \<open>\<open>toUpperCase\<close> on the small letters with which the words of the themes begin.\<close>

definition capitalised :: "jsstring \<Rightarrow> jsstring" where
  "capitalised w = map (\<lambda>c. if 97 \<le> c \<and> c \<le> 122 then c - 32 else c) (take 1 w) @ drop 1 w"

definition theme_label :: "jsstring \<Rightarrow> jsstring" where
  "theme_label t = js_join (js '' '') (map capitalised (js_split 95 t))"

record settings_page =
  sp_weeks :: js_num
  sp_modes :: "select_option list"
  sp_target :: js_num
  sp_themes :: "select_option list"

definition renderSettings :: "jsstring \<Rightarrow> settings \<Rightarrow> settings_page" where
  "renderSettings theme s = \<lparr>sp_weeks = window_weeks s,
     sp_modes = map (\<lambda>(v, l). (v, l, run_mode s = v)) [(js ''ratio'', js ''Ratio''), (js ''rotation'', js ''Rotation'')],
     sp_target = run_target_persons s,
     sp_themes = map (\<lambda>t. (t, theme_label t, theme = t)) THEMES\<rparr>"

text \<open>The value of the field of the administrators' page; its buttons are \<open>pruneOld\<close>, \<open>resetAll\<close> and \<open>showImportModal\<close>.\<close>

definition renderAdmin :: "settings \<Rightarrow> js_num" where
  "renderAdmin s = prune_weeks s"

text \<open>Choosing a theme: \<open>State.theme\<close> and the storage of the browser.\<close>

definition chooseTheme :: "jsstring \<Rightarrow> browser \<Rightarrow> jsstring \<times> browser" where
  "chooseTheme v b = (v, b\<lparr>br_storage := dict_set (js ''teamviz_theme'') v (br_storage b)\<rparr>)"

datatype setting_op = WindowWeeks int | RunMode jsstring | RunTarget int | PruneWeeks int

fun run_setting :: "env \<Rightarrow> setting_op \<Rightarrow> client \<times> server \<Rightarrow> api_error option \<times> client \<times> server" where
  "run_setting e (WindowWeeks n) = setWindowWeeks e n"
| "run_setting e (RunMode v) = setRunMode e v"
| "run_setting e (RunTarget n) = setRunTarget e n"
| "run_setting e (PruneWeeks n) = setPruneWeeks e n"

section \<open>The bar over the projects\<close>

datatype projects_body = NoProjects | General general_page | Gantt "(jsstring list \<times> gantt_row list) option"

text \<open>The two views with the one that is marked, and whether \<open>Add Project\<close> and \<open>Import CSV\<close> are offered.\<close>

record projects_page =
  pp_views :: "(jsstring \<times> bool) list"
  pp_buttons :: bool
  pp_body :: projects_body

definition renderProjects :: "(date \<Rightarrow> int) \<Rightarrow> int \<Rightarrow> (jsstring \<Rightarrow> jsstring) \<Rightarrow> (jsstring \<Rightarrow> jsstring) \<Rightarrow> bool \<Rightarrow> jsstring
    \<Rightarrow> date \<Rightarrow> jsstring \<Rightarrow> client \<Rightarrow> projects_page" where
  "renderProjects tz sinceMidnight lower ckey hideDone sortBy today mode c =
     \<lparr>pp_views = [(js ''general'', mode = js ''general''), (js ''gantt'', mode = js ''gantt'')], pp_buttons = canEdit (c_user c),
      pp_body = (if c_projects c = [] then NoProjects
                 else if mode = js ''gantt'' then Gantt (renderGanttView tz sinceMidnight lower ckey sortBy today c)
                 else General (renderGeneralProjectView lower ckey hideDone c))\<rparr>"

section \<open>The bar over the activity\<close>

record act_toolbar =
  at_types :: "select_option list"
  at_persons :: "select_option list"
  at_actors :: "select_option list"
  at_search :: jsstring
  at_clear :: bool
  at_count :: jsstring

text \<open>\<open>attr\<close>: what the browser reads back from a value in quotes.\<close>

definition activityToolbar :: "(jsstring \<Rightarrow> jsstring) \<Rightarrow> (jsstring \<Rightarrow> jsstring) \<Rightarrow> activity_filter \<Rightarrow> client \<Rightarrow> act_toolbar" where
  "activityToolbar attr lower f c =
     (let shown = length (filter (event_shown lower (c_people c) f) (c_activity c)); n = length (c_activity c)
      in \<lparr>at_types = map (\<lambda>(k, l). (k, l, af_type f = k)) ACT_CAT_LABELS,
          at_persons = (js ''all'', js ''All team members'', af_person f = js ''all'') #
            map (\<lambda>p. (attr (p_id p), escapeHtml (or_else (p_avatar_emoji p) emoji_person) @ js '' '' @ escapeHtml (p_name p),
              af_person f = p_id p)) (c_people c),
          at_actors = (js ''all'', js ''All users'', af_actor f = js ''all'') #
            map (\<lambda>a. (attr (escapeHtml a), escapeHtml a, af_actor f = a)) (act_actors (c_activity c)),
          at_search = attr (escapeHtml (af_search f)), at_clear = filter_active lower f,
          at_count = str_of_nat shown @ js '' of '' @ str_of_nat n @ js '' event'' @ (if n = 1 then [] else js ''s'')\<rparr>)"

definition clear_filters :: activity_filter where
  "clear_filters = \<lparr>af_type = js ''all'', af_person = js ''all'', af_actor = js ''all'', af_search = []\<rparr>"

record act_row =
  ar_time :: jsstring
  ar_actor :: jsstring
  ar_label :: jsstring
  ar_people :: "person_chip list"
  ar_date :: jsstring
  ar_badge :: "jsstring option"
  ar_extra :: jsstring

text \<open>\<open>clock\<close>: \<open>toLocaleTimeString\<close> of a time stamp.\<close>

definition actRow :: "(jsstring \<Rightarrow> jsstring) \<Rightarrow> (date \<Rightarrow> jsstring) \<Rightarrow> person list \<Rightarrow> event \<Rightarrow> act_row" where
  "actRow clock nice people e =
     \<lparr>ar_time = escapeHtml (if ev_ts e \<noteq> [] then clock (ev_ts e) else []),
      ar_actor = escapeHtml (or_else (ev_actor e) (js ''system'')), ar_label = act_label e,
      ar_people = actPersonChips people (ev_fields e), ar_date = actDateLabel nice (ev_fields e),
      ar_badge = actStateBadge (ev_fields e), ar_extra = actExtra e\<rparr>"

subsection \<open>Typing into the search box\<close>

text \<open>Times are in milliseconds. The timer that is set, and the times at which the list was rendered; \<open>active\<close>: whether the
  view is the activity at a time.\<close>

definition search_tick :: "(int \<Rightarrow> bool) \<Rightarrow> int \<Rightarrow> int option \<times> int list \<Rightarrow> int option \<times> int list" where
  "search_tick active now = (\<lambda>(timer, drawn). case timer of
       None \<Rightarrow> (None, drawn)
     | Some t \<Rightarrow> if t \<le> now then (None, if active t then drawn @ [t] else drawn) else (Some t, drawn))"

definition actSearchDebounce :: "int \<Rightarrow> int option \<times> int list \<Rightarrow> int option \<times> int list" where
  "actSearchDebounce now = (\<lambda>(timer, drawn). (Some (now + 200), drawn))"

text \<open>Keys at the times \<open>ts\<close>, and time enough after the last one.\<close>

definition search_typed :: "(int \<Rightarrow> bool) \<Rightarrow> int list \<Rightarrow> int list" where
  "search_typed active ts =
     (let (timer, drawn) = fold (\<lambda>t st. actSearchDebounce t (search_tick active t st)) ts (None, [])
      in snd (search_tick active (case timer of None \<Rightarrow> 0 | Some t \<Rightarrow> t) (timer, drawn)))"

section \<open>The overlay and the top bar\<close>

definition showModal :: "form option \<Rightarrow> ui \<Rightarrow> ui" where
  "showModal f u = u\<lparr>ui_modal := True, ui_form := f\<rparr>"

definition closeModal :: "ui \<Rightarrow> ui" where
  "closeModal u = u\<lparr>ui_modal := False\<rparr>"

definition modalOpen :: "ui \<Rightarrow> bool" where
  "modalOpen u = ui_modal u"

datatype top_click = ClickView jsstring | ClickOverlay bool | ClickUndo | ClickRedo | ClickExport | ClickHelp

text \<open>The buttons that have a listener and are shown; the one that logs out leaves the page.\<close>

definition initNav :: "user option \<Rightarrow> top_click list" where
  "initNav u = (if canEdit u then [ClickUndo, ClickRedo] else []) @ [ClickExport, ClickHelp]"

text \<open>\<open>ClickOverlay b\<close>: a click on the overlay itself, or (\<open>\<not> b\<close>) on something inside it.\<close>

fun click_top :: "(date \<Rightarrow> int) \<Rightarrow> env \<Rightarrow> top_click \<Rightarrow> tab \<Rightarrow> tab" where
  "click_top tz e (ClickView v) (u, c, s) = navigate tz e (OpenView v) (u, c, s)"
| "click_top tz e (ClickOverlay b) (u, c, s) = (if b then closeModal u else u, c, s)"
| "click_top tz e ClickUndo (u, c, s) = (u, snd (undo e (c, s)))"
| "click_top tz e ClickRedo (u, c, s) = (u, snd (redo e (c, s)))"
| "click_top tz e ClickExport (u, c, s) = (u, c, snd (doExport e s))"
| "click_top tz e ClickHelp (u, c, s) = (showModal None u, c, s)"

section \<open>What is set is what is read\<close>

lemma leading_int_str: "leading_int (str_of_int n) = n"
proof -
  have d: "list_all is_digit (str_of_nat k)" for k using str_of_nat_are_digits by (auto simp: list_all_iff)
  have p: "\<exists>x xs. str_of_nat k = x # xs \<and> is_digit x" for k
    using str_of_nat_are_digits [of _ k] str_of_nat_neq_Nil(1) [of k] by (cases "str_of_nat k") auto
  have w: "takeWhile is_digit (str_of_nat k) = str_of_nat k" for k using d by (simp add: list_all_iff takeWhile_eq_all_conv)
  show ?thesis
  proof (cases "n < 0")
    case True
    then show ?thesis by (simp add: leading_int_def str_of_int_def is_space_def w digits_val_str Let_def)
  next
    case False
    obtain x xs where x: "str_of_nat (nat n) = x # xs" "is_digit x" using p by blast
    then have "\<not> is_space x" "x \<noteq> 45" "x \<noteq> 43" by (auto simp: is_space_def is_digit_def)
    moreover have "takeWhile is_digit xs = xs" "digits_val (x # xs) = nat n"
      using w [of "nat n"] digits_val_str [of "nat n"] x by simp_all
    ultimately show ?thesis using False x
      by (simp add: leading_int_def str_of_int_def Let_def del: takeWhile_eq_all_conv)
  qed
qed

lemma atoiOr_str: "n \<noteq> 0 \<Longrightarrow> atoiOr (str_of_int n) d = n"
  by (simp add: atoiOr_def leading_int_str) (auto simp: str_of_int_def)

lemma atoiOr_zero: "atoiOr (str_of_int 0) d = d"
  by (simp add: atoiOr_def leading_int_str)

text \<open>Which key an operation writes, and what the two pages show for it.\<close>

fun setting_key :: "setting_op \<Rightarrow> jsstring" where
  "setting_key (WindowWeeks n) = js ''window_weeks''"
| "setting_key (RunMode v) = js ''run_mode''"
| "setting_key (RunTarget n) = js ''run_target_persons''"
| "setting_key (PruneWeeks n) = js ''prune_weeks''"

fun shown_setting :: "settings \<Rightarrow> setting_op \<Rightarrow> js_num" where
  "shown_setting st (WindowWeeks n) = sp_weeks (renderSettings [] st)"
| "shown_setting st (RunMode v) = Text (select_value (sp_modes (renderSettings [] st)))"
| "shown_setting st (RunTarget n) = sp_target (renderSettings [] st)"
| "shown_setting st (PruneWeeks n) = renderAdmin st"

fun asked_setting :: "setting_op \<Rightarrow> js_num" where
  "asked_setting (WindowWeeks n) = Number (max 3 n)"
| "asked_setting (RunMode v) = Text v"
| "asked_setting (RunTarget n) = Number n"
| "asked_setting (PruneWeeks n) = Number (max 1 n)"

text \<open>What who loads the settings reads: a target of zero, which its field offers, is taken for none and replaced by
  three (\<open>zero_target_differs\<close>).\<close>

definition loaded_setting :: "setting_op \<Rightarrow> js_num" where
  "loaded_setting oper = (if oper = RunTarget 0 then Number 3 else asked_setting oper)"

text \<open>What the fields offer: any whole number, and one of the two modes.\<close>

fun offered :: "setting_op \<Rightarrow> bool" where
  "offered (WindowWeeks n) = True"
| "offered (RunMode v) = (v = js ''ratio'' \<or> v = js ''rotation'')"
| "offered (RunTarget n) = True"
| "offered (PruneWeeks n) = True"

fun stored_setting :: "setting_op \<Rightarrow> jsstring" where
  "stored_setting (WindowWeeks n) = str_of_int (max 3 n)"
| "stored_setting (RunMode v) = v"
| "stored_setting (RunTarget n) = str_of_int n"
| "stored_setting (PruneWeeks n) = str_of_int (max 1 n)"

fun on_page :: "setting_op \<Rightarrow> settings \<Rightarrow> settings" where
  "on_page (WindowWeeks n) = window_weeks_update (\<lambda>_. Number (max 3 n))"
| "on_page (RunMode v) = run_mode_update (\<lambda>_. v)"
| "on_page (RunTarget n) = run_target_persons_update (\<lambda>_. Number n)"
| "on_page (PruneWeeks n) = prune_weeks_update (\<lambda>_. Number (max 1 n))"

lemma run_setting_put: "run_setting e oper = put_setting e (setting_key oper) (stored_setting oper) (on_page oper)"
  by (cases oper) (simp_all add: setWindowWeeks_def setRunMode_def setRunTarget_def setPruneWeeks_def)

lemma setting_keys: "setting_key oper \<in> set all_role_keys \<or> setting_key oper \<in> set admin_keys"
    "setting_key oper \<in> set admin_keys \<longleftrightarrow> setting_key oper = js ''prune_weeks''"
  by (cases oper; simp add: all_role_keys_def admin_keys_def js_eq_iff)+

text \<open>Two operations on the same field.\<close>

definition same_setting :: "setting_op \<Rightarrow> setting_op \<Rightarrow> bool" where
  "same_setting a b \<longleftrightarrow> setting_key a = setting_key b"

lemma shown_on_page:
  "offered oper \<Longrightarrow> shown_setting (on_page oper st) oper = asked_setting oper"
  "\<not> same_setting oper other \<Longrightarrow> shown_setting (on_page oper st) other = shown_setting st other"
  by (cases oper; cases other; auto simp: same_setting_def renderSettings_def renderAdmin_def select_value_def js_eq_iff)+

lemma shown_stored:
  "offered oper \<Longrightarrow> shown_setting (settingsFromMap (dict_set (setting_key oper) (stored_setting oper) t)) oper = loaded_setting oper"
  "\<not> same_setting oper other \<Longrightarrow>
   shown_setting (settingsFromMap (dict_set (setting_key oper) (stored_setting oper) t)) other = shown_setting (settingsFromMap t) other"
  by (cases oper; cases other; auto simp: same_setting_def renderSettings_def renderAdmin_def select_value_def settingsFromMap_def Let_def
      dict_get_or_def loaded_setting_def atoiOr_str atoiOr_zero js_eq_iff)+

text \<open>C36: a setting that is changed on its page is what that page shows then, and what everybody reads who loads the settings
  later, with one exception: a run target of zero, which the page shows as zero, is read as three. No other setting changes in
  either place; only administrators change when old data is pruned, and for the others nothing changes at all.\<close>

theorem settings_read_back:
  assumes "env_ok e" and "sv_session s = Some user" and "offered oper"
  shows "case run_setting e oper (c, s) of (err, c', s') \<Rightarrow>
     if setting_key oper = js ''prune_weeks'' \<and> u_role user \<noteq> js ''admin'' then err = Some Forbidden \<and> c' = c \<and> s' = s
     else err = None \<and> shown_setting (c_settings c') oper = asked_setting oper
       \<and> shown_setting (settingsFromMap (sv_settings s')) oper = (if oper = RunTarget 0 then Number 3 else asked_setting oper)
       \<and> (same_setting oper other \<or> shown_setting (c_settings c') other = shown_setting (c_settings c) other
            \<and> shown_setting (settingsFromMap (sv_settings s')) other = shown_setting (settingsFromMap (sv_settings s)) other)"
proof -
  have served: "serve e (PutSettingR k v) s = handle (PutSettingR k v) s" for k v
    using assms(1,2) by (simp add: serve_def env_ok_def)
  show ?thesis
  proof (cases "setting_key oper = js ''prune_weeks'' \<and> u_role user \<noteq> js ''admin''")
    case True
    then have "serve e (PutSettingR (setting_key oper) (stored_setting oper)) s = (403, RError, s)"
      using assms(2) setting_keys [of oper] by (simp add: served updateSettings_def isAdmin_def)
    with True show ?thesis using assms(1) by (simp add: run_setting_put put_setting_def call_def env_ok_def)
  next
    case False
    then have "serve e (PutSettingR (setting_key oper) (stored_setting oper)) s =
        (200, RDone, s\<lparr>sv_settings := dict_set (setting_key oper) (stored_setting oper) (sv_settings s)\<rparr>)"
      using assms(2) setting_keys [of oper] by (auto simp: served updateSettings_def isAdmin_def)
    with False show ?thesis
      using assms(1) loaded_setting_def [of oper] shown_on_page(1) [OF assms(3)] shown_on_page(2) [of oper other] shown_stored(1) [OF assms(3)] shown_stored(2) [of oper other]
      by (cases "same_setting oper other") (simp_all add: run_setting_put put_setting_def call_def env_ok_def)
  qed
qed

theorem settings_read_back_witness:
  "case run_setting demo_env (RunTarget 0) (demo_client, demo_server) of (err, c', s') \<Rightarrow>
     if setting_key (RunTarget 0) = js ''prune_weeks'' \<and> u_role \<lparr>u_username = js ''ann'', u_role = js ''normal''\<rparr> \<noteq> js ''admin''
     then err = Some Forbidden \<and> c' = demo_client \<and> s' = demo_server
     else err = None \<and> shown_setting (c_settings c') (RunTarget 0) = asked_setting (RunTarget 0)
       \<and> shown_setting (settingsFromMap (sv_settings s')) (RunTarget 0) = (if RunTarget 0 = RunTarget 0 then Number 3 else asked_setting (RunTarget 0))
       \<and> (same_setting (RunTarget 0) (WindowWeeks 1) \<or> shown_setting (c_settings c') (WindowWeeks 1) = shown_setting (c_settings demo_client) (WindowWeeks 1)
            \<and> shown_setting (settingsFromMap (sv_settings s')) (WindowWeeks 1) = shown_setting (settingsFromMap (sv_settings demo_server)) (WindowWeeks 1))"
  by (rule settings_read_back [OF demo_env_ok]) (simp_all add: demo_server_def)

text \<open>A theme that was chosen is the one of the next start, whatever the preferences of the window are saved as.\<close>

lemma theme_kept:
  assumes "v \<noteq> []" and "chooseTheme v b = (theme, b')"
  shows "shown_theme (dict_get_or [] (br_storage (savePrefs b')) (js ''teamviz_theme'')) s = theme"
proof -
  have keys: "pref_name k \<noteq> js ''teamviz_theme''" if "k \<in> set PREFS_KEYS" for k
    using that by (auto simp: PREFS_KEYS_def pref_name_def js_def)
  have "(\<forall>k \<in> set ks. pref_name k \<noteq> js ''teamviz_theme'') \<Longrightarrow>
      dict_get (br_storage (fold (\<lambda>k b. b\<lparr>br_storage := dict_set (pref_name k) (win_string (dict_get (br_window b) k)) (br_storage b)\<rparr>) ks x))
        (js ''teamviz_theme'') = dict_get (br_storage x) (js ''teamviz_theme'')" for ks and x :: browser
    by (induction ks arbitrary: x) auto
  then have "dict_get (br_storage (savePrefs b')) (js ''teamviz_theme'') = dict_get (br_storage b') (js ''teamviz_theme'')"
    using keys unfolding savePrefs_def by blast
  with assms show ?thesis by (auto simp: chooseTheme_def dict_get_or_def shown_theme_def)
qed

section \<open>What the controls offer\<close>

text \<open>The buttons that change projects are offered exactly to those from whom the server takes new projects; the import from CSV,
  which is among them, it takes from administrators only.\<close>

lemma offered_accepted: "canEdit (sv_session s) \<longleftrightarrow> may_write s"
  by (auto simp: canEdit_def may_write_def roleSatisfies_def role_level_def js_eq_iff split: option.splits)

lemma project_buttons:
  "pp_buttons (renderProjects tz sm lower ckey hide sort_by today mode (c\<lparr>c_user := sv_session s\<rparr>)) = may_write s"
  by (simp add: renderProjects_def offered_accepted)

lemma csv_button_refused:
  assumes "sv_session s = Some u" and "u_role u = js ''normal''"
  shows "pp_buttons (renderProjects tz sm lower ckey hide sort_by today mode (c\<lparr>c_user := sv_session s\<rparr>))
    \<and> serve e (ImportCsvR body) s = (403, RError, s)"
  using assms by (simp add: renderProjects_def canEdit_def serve_def roleSatisfies_def role_level_def js_eq_iff)

text \<open>The button that clears the filters leaves none, so that every event is shown and the button goes away.\<close>

lemma cleared_shows_all:
  assumes "lower [] = []"
  shows "filter (event_shown lower (c_people c) clear_filters) (c_activity c) = c_activity c
    \<and> \<not> at_clear (activityToolbar attr lower clear_filters c)"
  using assms by (simp add: clear_filters_def event_shown_def activityToolbar_def filter_active_def js_trim_def Let_def)

text \<open>Who may not edit changes no table from the top bar but the counter of exports.\<close>

lemma viewer_clicks:
  assumes "\<not> canEdit u" and "k \<in> set (initNav u)"
  shows "\<exists>v. snd (snd (click_top tz e k (w, c, s))) = s\<lparr>sv_settings := v\<rparr>"
proof -
  have "\<exists>v. snd (serve e ExportR s) = (fst (snd (serve e ExportR s)), s\<lparr>sv_settings := v\<rparr>)"
    by (cases "sv_session s") (auto simp: serve_def exportTOML_def intro: exI [of _ "sv_settings s"])
  then have "\<exists>v. snd (doExport e s) = s\<lparr>sv_settings := v\<rparr>"
    by (auto simp: doExport_def fetch_raw_def intro: exI [of _ "sv_settings s"] split: net.splits prod.splits reply.splits option.splits)
  moreover have "\<exists>v. s = s\<lparr>sv_settings := v\<rparr>" by (rule exI [of _ "sv_settings s"]) simp
  ultimately show ?thesis using assms by (auto simp: initNav_def)
qed

text \<open>Keys that follow each other faster than the delay are one search: the list is rendered 200 ms after the last key of each burst.\<close>

fun burst_ends :: "int list \<Rightarrow> int list" where
  "burst_ends [] = []"
| "burst_ends [t] = [t]"
| "burst_ends (t # u # ts) = (if t + 200 \<le> u then [t] else []) @ burst_ends (u # ts)"

lemma search_steps:
  "actSearchDebounce t (search_tick (\<lambda>_. True) t (Some u, drawn)) = (Some (t + 200), if u \<le> t then drawn @ [u] else drawn)"
  "actSearchDebounce t (search_tick (\<lambda>_. True) t (None, drawn)) = (Some (t + 200), drawn)"
  "snd (search_tick (\<lambda>_. True) u (Some u, drawn)) = drawn @ [u]"
  by (simp_all add: actSearchDebounce_def search_tick_def)

lemma search_bursts: "search_typed (\<lambda>_. True) ts = map (\<lambda>t. t + 200) (burst_ends ts)"
proof (cases ts)
  case Nil
  then show ?thesis by (simp add: search_typed_def search_tick_def)
next
  case (Cons k ks)
  let ?step = "\<lambda>t st. actSearchDebounce t (search_tick (\<lambda>_. True) t st)"
  have "\<exists>t. fold ?step us (Some (u + 200), drawn) = (Some t, drawn @ butlast (map (\<lambda>t. t + 200) (burst_ends (u # us))))
      \<and> t = last (map (\<lambda>t. t + 200) (burst_ends (u # us))) \<and> burst_ends (u # us) \<noteq> []" for u us drawn
    by (induction us arbitrary: u drawn) (auto simp: search_steps)
  from this [of ks k "[]"] show ?thesis
    by (auto simp: search_typed_def search_steps Cons)
qed

end
