(* ===== verification/Picker.thy ===== *)
theory Picker
  imports Complex_Main Forms
begin

text \<open>
  The emoji picker of the dialogs (\<open>toggleEmojiPicker\<close>): an element outside the dialog, the timer and the listeners on the
  document that close it, and what a click does, which first runs the handler of its target and then the listeners. Proved
  here: a picker that is shown can always be closed, no listener stays behind, and a dialog saves the emoji that was picked.
\<close>

section \<open>The emojis\<close>

definition EMOJI_SET :: "jsstring list" where
  "EMOJI_SET = [
     [55357,56832], [55357,56835], [55357,56836], [55357,56833], [55357,56838], [55357,56837], [55358,56611], [55357,56834],
     [55357,56898], [55357,56899], [55357,56841], [55357,56842], [55357,56839], [55358,56688], [55357,56845], [55358,56617],
     [55357,56856], [55357,56855], [9786,65039], [55357,56858], [55357,56857], [55358,56690], [55357,56843], [55357,56859],
     [55357,56860], [55358,56618], [55357,56861], [55358,56593], [55358,56599], [55358,56621], [55358,56619], [55358,56596],
     [55358,56592], [55358,56616], [55357,56848], [55357,56849], [55357,56886], [55357,56847], [55357,56850], [55357,56900],
     [55357,56876], [55358,56613], [55357,56844], [55357,56852], [55357,56874], [55358,56612], [55357,56884], [55357,56887],
     [55358,56594], [55358,56597], [55358,56610], [55358,56622], [55358,56615], [55358,56693], [55358,56694], [55358,56692],
     [55357,56885], [55358,56623], [55358,56608], [55358,56691], [55357,56846], [55358,56595], [55358,56784], [55357,56853],
     [55357,56863], [55357,56897], [55357,56878], [55357,56879], [55357,56882], [55357,56883], [55358,56698], [55357,56870],
     [55357,56871], [55357,56872], [55357,56880], [55357,56869], [55357,56866], [55357,56877], [55357,56881], [55357,56854],
     [55357,56867], [55357,56862], [55357,56851], [55357,56873], [55357,56875], [55358,56689], [55357,56868], [55357,56865],
     [55357,56864], [55358,56620], [55357,56840], [55357,56447], [55357,56448], [55357,56443], [55358,56598], [55357,56445],
     [55357,56446], [55358,56609], [55357,56441], [55357,56442], [55357,56369], [55357,56374], [55358,56714], [55357,56379],
     [55357,56380], [55357,56360], [55357,56367], [55358,56705], [55357,56366], [55357,56375], [55357,56376], [55357,56373],
     [55357,56904], [55357,56905], [55357,56906], [55357,56338], [55357,56340], [55357,56359], [55357,56358], [55357,56356],
     [55358,56710], [55358,56709], [55358,56713], [55357,56378], [55358,56733], [55357,56366], [55357,56323], [55357,56322],
     [55357,56324], [55358,56716], [55357,56334], [55358,56708], [55357,56329], [55357,56370], [55358,56725], [55358,56726],
     [55357,56354], [55357,56330], [55358,56718], [55357,56333], [55357,56345], [55358,56721], [55358,56720], [55358,56734],
     [55358,56704], [55357,56352], [55357,56351], [55357,56364], [55357,56371], [55357,56331], [55358,56712], [55358,56715],
     [55357,56332], [55357,56349], [55357,56350], [55357,56348], [55358,56727], [55357,56695,65039], [55358,56706],
     [55358,56735], [55358,56736], [55357,56464], [55356,57144], [55357,56494], [55356,57333,65039], [55356,57145],
     [55356,57146], [55356,57147], [55356,57148], [55356,57143], [55356,57137], [55356,57138], [55356,57139], [55356,57140],
     [55356,57141], [55356,57150], [55356,57152], [55356,57155], [55356,57154], [55356,57153], [55356,57101], [55356,57102],
     [55356,57103], [55356,57109], [55356,57113], [11088], [55356,57119], [10024], [9889], [55357,56613], [55357,56485],
     [9728,65039], [9925], [9729,65039], [55356,57127,65039], [9928,65039], [10052,65039], [9731,65039], [55356,57096],
     [55356,57098], [55357,56487], [55356,57256], [55356,57261], [55356,57260], [55356,57252], [55356,57255], [55356,57276],
     [55356,57273], [55358,56641], [55356,57271], [55356,57274], [55356,57272], [55358,56981], [55356,57275], [55356,57266],
     [55356,57263], [55356,57267], [55356,57262], [55356,57264], [55358,56809], [9823,65039], [9917], [55356,57280],
     [55356,57288], [9918], [55356,57278], [55356,57296], [55356,57289], [55358,56655], [55356,57265], [55356,57299],
     [55356,57336], [55358,56650], [55358,56651], [55358,56645], [55356,57298], [55356,57297], [55358,56652], [55357,57079],
     [9976,65039], [55358,56962], [55356,57286], [55358,56647], [55358,56648], [55358,56649], [55356,57285],
     [55356,57238,65039], [55356,57258], [55357,56960], [55357,57080], [55357,56961], [9992,65039], [55357,57065,65039],
     [55357,56962], [55357,56963], [55357,56964], [55357,56965], [55357,56966], [55357,56967], [55357,56968], [55357,56970],
     [55357,56969], [55357,56989], [55357,57010], [55357,57077], [55356,57293,65039], [55357,56983], [55357,56981],
     [55357,56985], [55357,56972], [55357,56974], [55356,57294,65039], [55357,56979], [55357,56977], [55357,56978],
     [55357,56976], [55357,56986], [55357,56987], [55357,57076], [55357,56994], [9973], [55357,56996], [55357,57078], [9875],
     [55357,56999], [55356,57312], [55356,57313], [55356,57314], [55356,57315], [55356,57316], [55356,57317], [55356,57318],
     [55356,57320], [55356,57321], [55356,57323], [55356,57324], [55356,57325], [55356,57327], [55356,57328],
     [55356,57303,65039], [55357,56615], [55357,56616], [55357,57056,65039], [9874,65039], [55357,56617], [9881,65039],
     [55358,56816], [55358,56818], [55357,56620], [55357,56621], [55357,56545], [55358,56810], [55358,56811], [55358,56812],
     [55357,56507], [55357,56741,65039], [9000,65039], [55357,56753,65039], [55357,56509], [55357,56510], [55357,56511],
     [55357,56512], [55357,56561], [9742,65039], [55357,56542], [55357,56543], [55357,56544], [55357,56587], [55357,56588],
     [55357,56481], [55357,56614], [55357,56687,65039], [55357,56532], [55357,56533], [55357,56534], [55357,56538],
     [55357,56531], [55357,56530], [55357,56515], [55357,56540], [55357,56560], [55357,56529], [55357,56598],
     [55356,57335,65039], [9999,65039], [55357,56714,65039], [55357,56716,65039], [55357,56717,65039], [55357,56541], [9989],
     [10060], [9888,65039], [55357,56596], [55357,56547], [55357,56546], [55357,56492], [55357,56493], [55357,56815,65039],
     [55357,56385,65039], [55358,56800], [55358,56756], [55357,56490], [55358,56766], [55358,56767], [55358,56757],
     [55358,56758], [55357,56386], [55358,56763], [55357,56387], [55358,56759], [55358,56605], [55357,56395], [55357,56908],
     [55357,56399], [55357,56397], [55357,56398], [55357,56394], [9994], [55358,56603], [55358,56604], [55358,56606],
     [9996,65039], [55358,56607], [55358,56600], [55357,56396], [55358,56588], [55358,56591], [55357,56392], [55357,56393],
     [55357,56390], [55357,56391], [9757,65039], [9995], [55358,56602], [55357,56720,65039], [55357,56726], [55357,56395],
     [55358,56601], [55357,56490], [9749], [55356,57205], [55356,57206], [55356,57214], [55356,57207], [55356,57208],
     [55356,57209], [55356,57210], [55356,57211], [55358,56642], [55358,56643], [55358,56676], [55358,56771], [55358,56777],
     [55358,56778], [55358,56674], [55356,57213,65039], [55356,57204], [55358,56644], [55357,56618], [55356,57203],
     [55356,57202], [55358,56664], [55356,57215], [55358,56770], [55358,56683], [55356,57201], [55356,57176], [55356,57178],
     [55356,57179], [55356,57180], [55356,57181], [55356,57184], [55356,57186], [55356,57187], [55356,57188], [55356,57189],
     [55358,56686], [55356,57185], [55358,56671], [55358,56672], [55358,56673], [55356,57190], [55356,57191], [55356,57192],
     [55356,57193], [55356,57194], [55356,57218], [55356,57200], [55358,56769], [55358,56679], [55356,57195], [55356,57196],
     [55356,57197], [55356,57198], [55356,57199], [55356,57166], [55356,57167], [55356,57168], [55356,57162], [55356,57163],
     [55356,57164], [55356,57161], [55356,57159], [55356,57171], [55358,57040], [55356,57160], [55356,57170], [55356,57169],
     [55358,56685], [55356,57165], [55358,56677], [55358,56669], [55356,57157], [55356,57158], [55358,56657], [55358,56678],
     [55358,56684], [55358,56658], [55356,57142,65039], [55358,57041], [55356,57149], [55358,56661], [55358,56772],
     [55358,56773], [55358,56660], [55356,57184], [55358,56656], [55358,56687], [55356,57182], [55358,56662], [55358,56768],
     [55358,56666], [55358,56775], [55358,56670], [55358,56776], [55357,56593], [55357,56797,65039], [55357,57002],
     [55357,57039,65039], [55357,57035,65039], [55358,56977], [55357,57021], [55357,57023], [55357,57025], [55358,56820],
     [55358,56823], [55358,56825], [55358,56826], [55358,56827], [55358,56828], [55358,56829], [55357,57042], [9904,65039],
     [9905,65039], [55357,56831], [55356,57319], [55357,57006], [55357,56967], [55357,57015], [55357,57007], [55357,57011],
     [55357,57009], [55357,56606], [55357,56565], [55357,57005], [55357,57003], [10035,65039], [10055,65039], [10067], [10069],
     [10071], [8252,65039], [8265,65039], [55357,56581], [55357,56582], [12349,65039], [9888,65039], [55357,57016],
     [55357,56625], [9884,65039], [55357,56624], [9851,65039], [9989]]"

text \<open>\<open>r\<close>: the value of \<open>Math.random()\<close>, at least 0 and less than 1.\<close>

definition randomEmoji :: "real \<Rightarrow> jsstring" where
  "randomEmoji r = EMOJI_SET ! nat \<lfloor>r * real (length EMOJI_SET)\<rfloor>"

section \<open>The page\<close>

text \<open>The inputs of the dialog, the picker in the document with the input that it writes to, how many pickers were made,
  and for the timers that have not fired and the listeners on the document, their picker and its button.\<close>

record emoji_page =
  ep_fields :: "(jsstring, jsstring) dict"
  ep_picker :: "(nat \<times> jsstring) option"
  ep_made :: nat
  ep_timers :: "(nat \<times> nat) list"
  ep_listeners :: "(nat \<times> nat) list"

definition toggleEmojiPicker :: "jsstring \<Rightarrow> nat \<Rightarrow> emoji_page \<Rightarrow> emoji_page" where
  "toggleEmojiPicker inputId btn p =
     (if ep_picker p \<noteq> None then p\<lparr>ep_picker := None\<rparr>
      else p\<lparr>ep_picker := Some (ep_made p, inputId), ep_made := ep_made p + 1, ep_timers := ep_timers p @ [(ep_made p, btn)]\<rparr>)"

text \<open>The handler of an emoji: without the input it raises before the picker is removed.\<close>

definition pickEmoji :: "jsstring \<Rightarrow> emoji_page \<Rightarrow> emoji_page" where
  "pickEmoji em p = (case ep_picker p of
       None \<Rightarrow> p
     | Some (n, i) \<Rightarrow> if dict_get (ep_fields p) i = None then p
         else p\<lparr>ep_fields := dict_set i em (ep_fields p), ep_picker := None\<rparr>)"

text \<open>What was clicked: a button that opens a picker, something in the picker \<open>n\<close>, or anything else.\<close>

datatype target = OnButton nat | InPicker nat | Elsewhere

definition closes :: "target \<Rightarrow> nat \<times> nat \<Rightarrow> bool" where
  "closes t = (\<lambda>(n, b). t \<noteq> InPicker n \<and> t \<noteq> OnButton b)"

text \<open>The listeners of the document, which remove their picker and themselves.\<close>

definition on_document :: "target \<Rightarrow> emoji_page \<Rightarrow> emoji_page" where
  "on_document t p = p\<lparr>
     ep_picker := (case ep_picker p of None \<Rightarrow> None
       | Some (n, i) \<Rightarrow> if list_ex (\<lambda>l. fst l = n \<and> closes t l) (ep_listeners p) then None else Some (n, i)),
     ep_listeners := filter (\<lambda>l. \<not> closes t l) (ep_listeners p)\<rparr>"

datatype emoji_click = ClickButton jsstring nat | ClickEmoji jsstring | ClickDie real | ClickGap | ClickOutside

fun click_emoji :: "emoji_click \<Rightarrow> emoji_page \<Rightarrow> emoji_page" where
  "click_emoji (ClickButton i b) p = on_document (OnButton b) (toggleEmojiPicker i b p)"
| "click_emoji (ClickEmoji em) p =
     (case ep_picker p of None \<Rightarrow> p | Some (n, i) \<Rightarrow> on_document (InPicker n) (pickEmoji em p))"
| "click_emoji (ClickDie r) p =
     (case ep_picker p of None \<Rightarrow> p | Some (n, i) \<Rightarrow> on_document (InPicker n) (pickEmoji (randomEmoji r) p))"
| "click_emoji ClickGap p = (case ep_picker p of None \<Rightarrow> p | Some (n, i) \<Rightarrow> on_document (InPicker n) p)"
| "click_emoji ClickOutside p = on_document Elsewhere p"

text \<open>A timer fires and adds its listener; a dialog is opened with other inputs.\<close>

inductive emoji_step :: "emoji_page \<Rightarrow> emoji_page \<Rightarrow> bool" where
  clicked: "emoji_step p (click_emoji k p)"
| timer: "ep_timers p = l # ls \<Longrightarrow> emoji_step p (p\<lparr>ep_timers := ls, ep_listeners := ep_listeners p @ [l]\<rparr>)"
| dialog: "emoji_step p (p\<lparr>ep_fields := d\<rparr>)"

definition no_picker :: emoji_page where
  "no_picker = \<lparr>ep_fields = [], ep_picker = None, ep_made = 0, ep_timers = [], ep_listeners = []\<rparr>"

inductive emoji_reach :: "emoji_page \<Rightarrow> bool" where
  start: "emoji_reach no_picker"
| step: "emoji_reach p \<Longrightarrow> emoji_step p q \<Longrightarrow> emoji_reach q"

inductive_cases emoji_stepE: "emoji_step p q"

section \<open>A shown picker can be closed\<close>

text \<open>The picker that is shown has its listener, or a timer that will add it.\<close>

definition closable :: "emoji_page \<Rightarrow> bool" where
  "closable p \<longleftrightarrow> (case ep_picker p of None \<Rightarrow> True
     | Some (n, i) \<Rightarrow> n \<in> fst ` (set (ep_timers p) \<union> set (ep_listeners p)))"

lemma closable_document: "closable p \<Longrightarrow> closable (on_document t p)"
  by (force simp: closable_def on_document_def list_ex_iff split: option.splits)

lemma closable_click: "closable p \<Longrightarrow> closable (click_emoji k p)"
  by (cases k) (auto simp: closable_document toggleEmojiPicker_def pickEmoji_def split: option.splits intro!: closable_document,
    auto simp: closable_def)

lemma closable_step: "emoji_step p q \<Longrightarrow> closable p \<Longrightarrow> closable q"
  by (erule emoji_stepE) (auto simp: closable_click, auto simp: closable_def split: option.splits)

lemma reach_closable: "emoji_reach p \<Longrightarrow> closable p"
  by (induction rule: emoji_reach.induct) (auto simp: closable_step, simp add: closable_def no_picker_def)

lemma emojis_clean: "list_all (\<lambda>em. em \<noteq> [] \<and> js_trim em = em) EMOJI_SET"
  by (simp add: EMOJI_SET_def js_trim_def is_space_def)

lemma random_emoji: "0 \<le> r \<Longrightarrow> r < 1 \<Longrightarrow> randomEmoji r \<in> set EMOJI_SET"
proof -
  assume r: "0 \<le> r" "r < 1"
  have n: "0 < real (length EMOJI_SET)" by (simp add: EMOJI_SET_def)
  then have "r * real (length EMOJI_SET) < real (length EMOJI_SET)" using r by simp
  then have "\<lfloor>r * real (length EMOJI_SET)\<rfloor> < int (length EMOJI_SET)" by (simp add: floor_less_iff)
  moreover have "0 \<le> \<lfloor>r * real (length EMOJI_SET)\<rfloor>" using r by simp
  ultimately show ?thesis unfolding randomEmoji_def by (intro nth_mem) linarith
qed

lemma outside_closes:
  assumes "closable p" and "ep_timers p = []"
  shows "click_emoji ClickOutside p = p\<lparr>ep_picker := None, ep_listeners := []\<rparr>"
proof -
  have "closes Elsewhere l" for l by (cases l) (simp add: closes_def)
  then show ?thesis using assms by (auto simp: on_document_def closable_def list_ex_iff split: option.splits)
qed

fun emoji_choice :: "emoji_click \<Rightarrow> bool" where
  "emoji_choice (ClickEmoji em) = (em \<in> set EMOJI_SET)"
| "emoji_choice (ClickDie r) = (0 \<le> r \<and> r < 1)"
| "emoji_choice _ = False"

text \<open>C40: whatever was clicked before, once the timers have fired a click outside closes the picker and leaves no listener, and a
  choice in a picker that is shown for an input of the dialog, by hand or with the die, writes one of the emojis into that
  input and no other and closes the picker; the dialogs of people and projects save exactly that emoji.\<close>

theorem emoji_picked_and_saved:
  assumes "emoji_reach p" and "ep_timers p = []" and "ep_picker p = Some (n, i)" and "dict_get (ep_fields p) i = Some old"
    and "emoji_choice k"
  shows "click_emoji ClickOutside p = p\<lparr>ep_picker := None, ep_listeners := []\<rparr>
     \<and> (let q = click_emoji k p; em = dict_get_or [] (ep_fields q) i
        in em \<in> set EMOJI_SET \<and> ep_fields q = dict_set i em (ep_fields p) \<and> ep_picker q = None
         \<and> click_emoji ClickOutside q = q\<lparr>ep_listeners := []\<rparr>
         \<and> p_avatar_emoji (form_person (f\<lparr>pf_emoji := em\<rparr>) x) = em \<and> pr_emoji (form_project (g\<lparr>jf_emoji := em\<rparr>) y) = em)"
proof -
  obtain em where em: "em \<in> set EMOJI_SET" "click_emoji k p = on_document (InPicker n) (pickEmoji em p)"
    using assms(3,5) random_emoji by (cases k) auto
  let ?q = "click_emoji k p"
  have q: "ep_fields ?q = dict_set i em (ep_fields p)" "ep_picker ?q = None" "ep_timers ?q = []"
    using assms(2-4) by (simp_all add: em(2) pickEmoji_def on_document_def)
  have "closable ?q" using reach_closable [OF assms(1)] by (rule closable_click)
  then have "click_emoji ClickOutside ?q = ?q\<lparr>ep_listeners := []\<rparr>"
    using outside_closes [of ?q] q(2,3) by (cases ?q) simp
  moreover have "em \<noteq> []" "js_trim em = em" using emojis_clean em(1) by (auto simp: list_all_iff)
  ultimately show ?thesis
    using em(1) q(1,2) outside_closes [OF reach_closable [OF assms(1)] assms(2)]
    by (simp add: Let_def dict_get_or_def form_person_def form_project_def)
qed

definition demo_picker :: emoji_page where
  "demo_picker = \<lparr>ep_fields = [(js ''edit-emoji'', js ''A'')], ep_picker = Some (0, js ''edit-emoji''), ep_made = 1,
     ep_timers = [], ep_listeners = [(0, 7)]\<rparr>"

lemma demo_picker_reach: "emoji_reach demo_picker"
proof -
  let ?d = "[(js ''edit-emoji'', js ''A'')]"
  have "emoji_reach (no_picker\<lparr>ep_fields := ?d\<rparr>)" using start dialog by (rule step)
  from step [OF this clicked, of "ClickButton (js ''edit-emoji'') 7"]
  have "emoji_reach (demo_picker\<lparr>ep_timers := [(0, 7)], ep_listeners := []\<rparr>)"
    by (simp add: demo_picker_def no_picker_def on_document_def toggleEmojiPicker_def)
  from step [OF this timer, of "(0, 7)" "[]"] show ?thesis by (simp add: demo_picker_def)
qed

theorem emoji_picked_and_saved_witness:
  "click_emoji ClickOutside demo_picker = demo_picker\<lparr>ep_picker := None, ep_listeners := []\<rparr>
     \<and> (let q = click_emoji (ClickDie (1 / 2)) demo_picker; em = dict_get_or [] (ep_fields q) (js ''edit-emoji'')
        in em \<in> set EMOJI_SET \<and> ep_fields q = dict_set (js ''edit-emoji'') em (ep_fields demo_picker) \<and> ep_picker q = None
         \<and> click_emoji ClickOutside q = q\<lparr>ep_listeners := []\<rparr>
         \<and> p_avatar_emoji (form_person (showAddPersonModal\<lparr>pf_emoji := em\<rparr>) no_person) = em
         \<and> pr_emoji (form_project (demo_project_form\<lparr>jf_emoji := em\<rparr>) no_project) = em)"
  by (rule emoji_picked_and_saved [OF demo_picker_reach, where n = 0 and old = "js ''A''"])
    (simp_all add: demo_picker_def)

end
