(* ===== verification/Spec2Isabelle.thy ===== *)
theory Spec2Isabelle
  imports Trimester Color MergeKey Editor Coverage Sync TeamGrid Projects Connection Activity Selection IcsExport Loops Pages OncallPage PersonViews EditorForm Shell Tooltip Forms Fetches RangeWrites Controls Picker
begin

text \<open>
  The team activity visualizer is a planning tool: a page (\<open>web/assets/app.js\<close>, no framework) in which
  a team enters for each half-day who works on what, is on run duty, away or on call, over a service
  in Go (\<open>internal/\<close>) that keeps the tables in SQLite, checks roles and tells the other clients
  of every change over a WebSocket. This library models the page as a whole and of the service what answers
  the page, and proves what makes them correct alone and together.

  \<^bold>\<open>How the program is modelled.\<close> The global object \<open>State\<close>, the view variables beside it and the
  queues of the page are the record \<open>client\<close> (theory \<open>Client\<close>); the tables of the service are the record
  \<open>server\<close> (theory \<open>Server\<close>), with what the service takes from outside. What neither controls is the record \<open>env\<close>: the day, the clock, which requests the network or
  the database fails, and the order in which requests that are sent together arrive. A handler of the page
  is a function from client and server to an error or \<open>None\<close> and the new client and server, with
  every early return and every failing request as a branch. JavaScript strings are lists of UTF-16 code
  units (\<open>jsstring\<close>), dates at midnight are day numbers (\<open>date\<close>), objects used as dictionaries are
  association lists that keep the order of insertion (\<open>dict\<close>), \<open>null\<close> and \<open>undefined\<close> are \<open>None\<close> or the empty
  text where the code does not tell them apart, 32-bit hashing is done on words. A view is modelled as the value that its HTML shows (rows, cells,
  spans, classes, texts, escaped where the code escapes), without tags and styles.

  \<^bold>\<open>Shared basis.\<close>
  \<^item> \<open>JsPrelude\<close>, \<open>JsDict\<close>: strings, numbers as the language reads and prints them, \<open>find\<close>, \<open>findIndex\<close>,
    dictionaries; the collection of their rewrite rules.
  \<^item> \<open>JsDate\<close>, \<open>WeekHelpers\<close>, \<open>Trimester\<close>: the civil calendar and the date functions of the page
    (\<open>fmtDate\<close>, \<open>parseDate\<close>, \<open>getWeekStart\<close>, \<open>getWeekNumber\<close>, \<open>trimesterWeeks\<close> and so on).
  \<^item> \<open>JsSort\<close>: \<open>Array.sort\<close> as a stable sort and the comparison functions given to it; a locale for comparisons.
  \<^item> \<open>AppState\<close>, \<open>Json\<close>: the data model (\<open>internal/model/model.go\<close>), the selectors and \<open>clone\<close>.
  \<^item> \<open>Escape\<close>, \<open>Color\<close>: \<open>escapeHtml\<close>, the escaping of calendars, \<open>projectColor\<close>.

  \<^bold>\<open>The service.\<close> \<open>ServerStore\<close> is the table of half-days (\<open>SetSlot\<close>, \<open>ClearSlot\<close>, \<open>GetPlanning\<close>,
  \<open>CopyWeek\<close>, pruning), \<open>ServerTables\<close> the people, projects and settings, \<open>Csv\<close> the reader of CSV and the projects it brings,
  \<open>Server\<close> the other tables and the operations that touch several, \<open>ImportExport\<close> the export and import of everything;
  \<open>Handlers\<close> has the roles and handlers (\<open>handle\<close>, \<open>serve\<close>: \<open>internal/auth/middleware.go\<close>, \<open>internal/api\<close>), \<open>Sync\<close> the messages
  that each handler sends to the others, \<open>RangeWrites\<close> the handlers of ranges, which other programs call. SQL is modelled by what the statements used here do to their rows, the
  deletions that follow a foreign key and the refusal of a name that another project has included; a half-day, on-call week or
  rotation that a foreign key refuses is a case of \<open>env_db_fails\<close>, except in an import, where it is \<open>known_person\<close>.

  \<^bold>\<open>The page, in the order of the code.\<close>
  \<^item> \<open>Client\<close>: \<open>API.call\<close>, requests sent together, \<open>reloadPlanning\<close>, the flashes; \<open>Directory\<close>: \<open>loadAll\<close>, the handlers
    of people, projects, settings; \<open>Sync\<close>: \<open>WS.onMessage\<close>; \<open>Connection\<close>: \<open>WS.connect\<close> as a step relation.
  \<^item> \<open>UndoRedo\<close>, \<open>EditHistory\<close>: \<open>pushUndo\<close>, \<open>undo\<close>, \<open>redo\<close>, each split at its first \<open>await\<close>, and the step
    relation in which they interleave.
  \<^item> \<open>Ranges\<close>, \<open>Loops\<close>, \<open>SlotView\<close>, \<open>MergeKey\<close>, \<open>Editor\<close>, \<open>EditorForm\<close>, \<open>CopyWeek\<close>: the lists of half-days, the presentation of a
    slot, the slot editor from opening to the writes, copying a week.
  \<^item> \<open>Coverage\<close>, \<open>Oncall\<close>, \<open>Rotation\<close>: the numbers of run coverage, availability and workload; the on-call operations; the dialog
    that assigns the run of a week.
  \<^item> \<open>TeamGrid\<close>, \<open>Selection\<close>, \<open>Tooltip\<close>: the grid, the crosshair, the selection with the mouse, the tooltip.
  \<^item> \<open>Pages\<close>, \<open>OncallPage\<close>, \<open>PersonViews\<close>, \<open>Projects\<close>, \<open>Activity\<close>, \<open>IcsExport\<close>: the other views and the calendar.
  \<^item> \<open>Forms\<close>: the dialogs of people and projects, which \<open>Directory\<close> submits; \<open>FileTransfer\<close>: the dialogs that import and export;
    \<open>Picker\<close>: the emoji picker, as a step relation; \<open>Controls\<close>: the pages of settings, the bars over lists, the top bar.
  \<^item> \<open>Shell\<close>: \<open>init\<close>, \<open>render\<close>, the bar of views, the keyboard, the controls, the preferences, presence; \<open>Fetches\<close>: the views
    that ask the server when they are rendered, as a step relation.

  \<^bold>\<open>What is proved.\<close> Refinement: each write of the page leaves its copy equal to the tables of the service
  (\<open>Editor\<close>, \<open>Oncall\<close>, \<open>Directory\<close>), and a client that listens follows the requests of others
  whose messages tell what they change, up to what the table does not keep of a write (\<open>Sync\<close>, \<open>RangeWrites\<close>; \<open>Rotation\<close> has
  two that tell too little, a reset, an import and a wider window are others). Undo: a snapshot gives back the window it was taken of, redo takes an undo back, and an edit, a copied week or any replay that fails leaves the history sound;
  the last section, below, joins editor, history and service. Views: what is
  shown in one place agrees with what is shown in another (status bar and coverage page, summary row and coverage, My
  Week and grid, log and editor), rows fill their tables, and a view for administrators is closed to others on
  both sides. Connection and requests: the indicator is true, the page can always come back, and what is
  shown as loading is awaited or its request has failed. Dialogs: what is opened and saved unchanged is unchanged, for texts that
  are no markup. Files: a CSV text that is written with quotes is read back (\<open>Csv\<close>), an
  import of projects by an administrator changes exactly those it names, and what one server exports gives another the same tables (\<open>FileTransfer\<close>).
  Settings: what is set on a page is what it shows and, but for a run target of zero, what everybody loads (\<open>Controls\<close>); the emoji that is picked is saved (\<open>Picker\<close>). Start and navigation: the start ends in step with the service, and looking around
  never shows weeks that are not loaded. Loops: each ends, and with the list of its
  recursive function. Where the code does not do what it means to, a lemma shows the case; these lemmas are named
  in the sections at the end of the theories.

  \<^bold>\<open>Interfaces.\<close> \<open>slot_store\<close> (\<open>JsDict\<close>): a store with lookup, write, delete and the form in which it keeps a
  value; \<open>keyed_store\<close> adds that values are kept as they are, \<open>store_mirror\<close> that a copy follows a store. They are
  interpreted on the dictionaries of the page, the client's copy of on-call and the table of half-days of the
  service. \<open>js_comparator\<close> (\<open>JsSort\<close>): a comparison function for which \<open>sort\<close> returns the one stable sorted list; interpreted
  on the comparisons of names, projects and dates.

  \<^bold>\<open>Bounds and fuel.\<close> There is no fuel: every recursion is structural or has a measure, the loops over dates are
  given in the shape of the code with \<open>while_option\<close> and shown to end (\<open>Loops\<close>). Texts of settings are read as decimal
  integers, percentages are integers, and lengths on the screen are real numbers.

  \<^bold>\<open>Parameters.\<close> The offset of the time zone at each midnight (\<open>tz\<close>; differences are bounded by
  half a day or a day where a property divides by days), the rounding of a percentage (some nearest integer),
  the order of texts by \<open>localeCompare\<close> (some total preorder), \<open>toLowerCase\<close>, the random part of an identifier and the time stamp
  of the export, the measured size of the tooltip, what the browser reads back from markup (for
  plain text, the text; from a heading without tags, no field), and the token of a session. Of the service: the identifiers that it makes up, the TOML library (an export is
  read back where the library reads what it wrote), the order in which Go walks over a map, and the time stamps of an export.

  \<^bold>\<open>Not modelled.\<close> Tags, styles, legends and the help dialog (markup without state); logging in (\<open>internal/auth/auth.go\<close>
  hands over to an identity provider); the writers of the activity log except for slots; SQL errors other
  than a failed write; the tables of users and holidays of the service, which
  the page hardly writes.
\<close>

section \<open>Properties across components\<close>

text \<open>C1: an edit followed by an undo leaves no trace in the visible window: with a working server
  and a client that holds the server's state, applying the editor to any proper selection and
  then undoing succeeds, and every slot of the window then reads on the client and on the
  server as it did before the edit, whatever the order in which the requests of either arrive.\<close>

theorem edit_then_undo:
  assumes "replay_ready e c s" and "form_accepted f" and "cells_proper (form_cells showWeekend f)"
    and "form_cells showWeekend f \<noteq> []" and "planning_kept (c_planning c)"
    and "proper_ref r" and "in_window e c r"
  shows "case applyUnifiedEditor e showWeekend f (c, s) of (err1, cs1) \<Rightarrow> case undo e cs1 of (err2, c2, s2) \<Rightarrow>
     err1 = None \<and> err2 = None
     \<and> read_slot (sv_planning s2) r = read_slot (sv_planning s) r
     \<and> dict_get (c_planning c2) (ref_key r) = dict_get (c_planning c) (ref_key r)"
proof -
  obtain err1 c1 s1 where 1: "applyUnifiedEditor e showWeekend f (c, s) = (err1, c1, s1)" by (metis prod.exhaust)
  obtain err2 c2 s2 where 2: "undo e (c1, s1) = (err2, c2, s2)" by (metis prod.exhaust)
  show ?thesis
    using edit_undo_main [OF assms(1-5) 1 2 assms(6,7)] by (simp add: 1 2)
qed

theorem edit_then_undo_witness:
  "case applyUnifiedEditor demo_env False demo_form (demo_client, demo_server) of (err1, cs1) \<Rightarrow>
   case undo demo_env cs1 of (err2, c2, s2) \<Rightarrow>
     err1 = None \<and> err2 = None
     \<and> read_slot (sv_planning s2) demo_ref = read_slot (sv_planning demo_server) demo_ref
     \<and> dict_get (c_planning c2) (ref_key demo_ref) = dict_get (c_planning demo_client) (ref_key demo_ref)"
  by (rule edit_then_undo [OF demo_ready demo_form_ok demo_cells_proper _ demo_snap(3) demo_proper demo_window])
    (simp add: demo_form_cells)

end
